(* ===== verification/Prelude.thy ===== *)
theory Prelude
  imports Main "HOL-Library.Product_Lexorder" "HOL-Library.List_Lexorder"
begin

text \<open>
  What every component of the model shares.

  \<^item> Python text.  A \<open>str\<close> is a sequence of Unicode code points, so \<open>pystr\<close> is a list of
    integers and \<open>length\<close> is Python's \<open>len\<close>; \<open>U ''abc''\<close> is the text of an ASCII literal.
    The string methods and regular-expression classes the program uses (\<open>startswith\<close>,
    \<open>splitlines\<close>, \<open>strip\<close>, \<open>replace\<close>, \<open>\d\<close>) are written out over code points.
  \<^item> SQL tables.  A table is the list of its rows in \<open>rowid\<close> order together with the next
    \<open>AUTOINCREMENT\<close> id; \<open>UPDATE\<close>, \<open>DELETE\<close>, \<open>SELECT .. LIMIT 1\<close> and \<open>rowcount\<close> are list
    functions.  A time stamp \<open>datetime('now')\<close> is a number of seconds, the clock is an
    argument of the operation.
  \<^item> Insertion-ordered Python dictionaries as association lists.
\<close>

section \<open>Text\<close>

type_synonym pystr = "int list"

definition U :: "string \<Rightarrow> pystr" where
  "U s = map of_char s"

lemma U_append: "U (s @ t) = U s @ U t"
  by (simp add: U_def)

lemma length_U [simp]: "length (U s) = length s"
  by (simp add: U_def)

lemma U_eq_iff: "U s = U t \<longleftrightarrow> s = t"
  unfolding U_def by (rule inj_eq [OF inj_mapI]) (rule injI, simp)

definition startswith :: "pystr \<Rightarrow> pystr \<Rightarrow> bool" where
  "startswith s p \<longleftrightarrow> take (length p) s = p"

definition endswith :: "pystr \<Rightarrow> pystr \<Rightarrow> bool" where
  "endswith s p \<longleftrightarrow> length p \<le> length s \<and> drop (length s - length p) s = p"

lemma startswith_iff: "startswith s p \<longleftrightarrow> (\<exists>r. s = p @ r)"
  unfolding startswith_def by (metis append_eq_conv_conj append_take_drop_id)

lemma startswith_append [simp]: "startswith (p @ r) p"
  by (simp add: startswith_def)

text \<open>\<open>needle in hay\<close>.\<close>

fun contains :: "pystr \<Rightarrow> pystr \<Rightarrow> bool" where
  "contains [] p = (p = [])"
| "contains (c # s) p = (startswith (c # s) p \<or> contains s p)"

lemma contains_iff: "contains s p \<longleftrightarrow> (\<exists>u v. s = u @ p @ v)"
proof (induction s)
  case Nil
  then show ?case by simp
next
  case (Cons c s)
  have "(\<exists>u v. c # s = u @ p @ v) \<longleftrightarrow> (\<exists>v. c # s = p @ v) \<or> (\<exists>u v. s = u @ p @ v)"
    by (metis append_Cons append_Nil list.exhaust list.inject)
  then show ?case using Cons by (simp add: startswith_iff)
qed

text \<open>Code points on which \<open>str.splitlines\<close> breaks (besides the pair CR LF).\<close>

definition line_ends :: "int list" where
  "line_ends = [10, 11, 12, 13, 28, 29, 30, 133, 8232, 8233]"

text \<open>\<open>str.splitlines(keepends=True)\<close>; the accumulator holds the current line reversed.\<close>

fun splitlines_go :: "pystr \<Rightarrow> pystr \<Rightarrow> pystr list" where
  "splitlines_go acc [] = (if acc = [] then [] else [rev acc])"
| "splitlines_go acc (c # s) =
     (if c = 13 \<and> s \<noteq> [] \<and> hd s = 10 then rev (10 # 13 # acc) # splitlines_go [] (tl s)
      else if c \<in> set line_ends then rev (c # acc) # splitlines_go [] s
      else splitlines_go (c # acc) s)"

definition splitlines_keep :: "pystr \<Rightarrow> pystr list" where
  "splitlines_keep s = splitlines_go [] s"

definition chop_line_end :: "pystr \<Rightarrow> pystr" where
  "chop_line_end l =
     (if endswith l [13, 10] then butlast (butlast l)
      else if l \<noteq> [] \<and> last l \<in> set line_ends then butlast l else l)"

definition splitlines :: "pystr \<Rightarrow> pystr list" where
  "splitlines s = map chop_line_end (splitlines_keep s)"

lemma splitlines_go_concat: "concat (splitlines_go acc s) = rev acc @ s"
proof (induction acc s rule: splitlines_go.induct)
  case (2 acc c s)
  then show ?case by (cases s) auto
qed simp

lemma splitlines_keep_concat [simp]: "concat (splitlines_keep s) = s"
  by (simp add: splitlines_keep_def splitlines_go_concat)

lemma splitlines_go_nonempty: "l \<in> set (splitlines_go acc s) \<Longrightarrow> l \<noteq> []"
  by (induction acc s rule: splitlines_go.induct) (auto split: if_splits)

lemma splitlines_keep_nonempty: "l \<in> set (splitlines_keep s) \<Longrightarrow> l \<noteq> []"
  unfolding splitlines_keep_def by (rule splitlines_go_nonempty)

text \<open>\<open>str.isspace\<close>, which is also the class \<open>\s\<close> of \<open>re\<close>.\<close>

definition spaces :: "int list" where
  "spaces = [9, 10, 11, 12, 13, 28, 29, 30, 31, 32, 133, 160, 5760, 8192, 8193, 8194, 8195,
             8196, 8197, 8198, 8199, 8200, 8201, 8202, 8232, 8233, 8239, 8287, 12288]"

definition is_space :: "int \<Rightarrow> bool" where
  "is_space c \<longleftrightarrow> c \<in> set spaces"

definition lstrip :: "pystr \<Rightarrow> pystr" where
  "lstrip s = dropWhile is_space s"

definition rstrip_by :: "(int \<Rightarrow> bool) \<Rightarrow> pystr \<Rightarrow> pystr" where
  "rstrip_by p s = rev (dropWhile p (rev s))"

definition strip :: "pystr \<Rightarrow> pystr" where
  "strip s = rstrip_by is_space (lstrip s)"

lemma length_rstrip_by: "length (rstrip_by p s) \<le> length s"
  using length_dropWhile_le[of p "rev s"] by (simp add: rstrip_by_def)

lemma strip_Nil [simp]: "strip [] = []"
  by (simp add: strip_def lstrip_def rstrip_by_def)

text \<open>\<open>str.split()\<close> on runs of white space.\<close>

fun split_ws_go :: "pystr \<Rightarrow> pystr \<Rightarrow> pystr list" where
  "split_ws_go acc [] = (if acc = [] then [] else [rev acc])"
| "split_ws_go acc (c # s) =
     (if is_space c then (if acc = [] then split_ws_go [] s else rev acc # split_ws_go [] s)
      else split_ws_go (c # acc) s)"

definition split_ws :: "pystr \<Rightarrow> pystr list" where
  "split_ws s = split_ws_go [] s"

text \<open>\<open>s.split(sep)\<close> for a separator of one code point.\<close>

fun split_on :: "int \<Rightarrow> pystr \<Rightarrow> pystr list" where
  "split_on d [] = [[]]"
| "split_on d (c # s) =
     (if c = d then [] # split_on d s
      else (case split_on d s of [] \<Rightarrow> [[c]] | l # ls \<Rightarrow> (c # l) # ls))"

lemma split_on_nonempty [simp]: "split_on d s \<noteq> []"
  by (induction s) (auto split: list.splits)

lemma split_on_append: "d \<notin> set s \<Longrightarrow> split_on d (s @ d # r) = s # split_on d r"
  by (induction s) auto

text \<open>\<open>sep.join(parts)\<close>.\<close>

fun join_text :: "pystr \<Rightarrow> pystr list \<Rightarrow> pystr" where
  "join_text sep [] = []"
| "join_text sep [x] = x"
| "join_text sep (x # y # xs) = x @ sep @ join_text sep (y # xs)"

lemma join_text_Cons: "xs \<noteq> [] \<Longrightarrow> join_text sep (x # xs) = x @ sep @ join_text sep xs"
  by (cases xs) auto

lemma join_text_snoc:
  "xs \<noteq> [] \<Longrightarrow> join_text sep (xs @ [x]) = join_text sep xs @ sep @ x"
proof (induction xs)
  case Nil
  then show ?case by simp
next
  case (Cons y ys)
  then show ?case by (cases ys) auto
qed

lemma join_split_on: "join_text [d] (split_on d s) = s"
proof (induction s)
  case Nil
  then show ?case by simp
next
  case (Cons c s)
  then show ?case
    by (cases "split_on d s") (auto simp: join_text_Cons split: list.splits, (metis join_text.simps list.exhaust append_Cons)+)
qed

text \<open>\<open>s.replace(old, new)\<close> for a non-empty \<open>old\<close>: leftmost, non-overlapping.\<close>

function replace_text :: "pystr \<Rightarrow> pystr \<Rightarrow> pystr \<Rightarrow> pystr" where
  "replace_text old new s =
     (if old = [] \<or> s = [] then s
      else if startswith s old then new @ replace_text old new (drop (length old) s)
      else hd s # replace_text old new (tl s))"
  by pat_completeness auto
termination
  by (relation "measure (\<lambda>(old, new, s). length s)") auto

declare replace_text.simps [simp del]

text \<open>Decimal rendering of \<open>str(int)\<close> for a non-negative number.\<close>

function nat_text :: "nat \<Rightarrow> pystr" where
  "nat_text n = (if n < 10 then [48 + int n] else nat_text (n div 10) @ [48 + int (n mod 10)])"
  by pat_completeness auto
termination
  by (relation "measure id") auto

declare nat_text.simps [simp del]

definition int_text :: "int \<Rightarrow> pystr" where
  "int_text i = (if i < 0 then 45 # nat_text (nat (- i)) else nat_text (nat i))"

lemma nat_text_nonempty [simp]: "nat_text n \<noteq> []"
  by (subst nat_text.simps) simp

text \<open>
  The class \<open>\d\<close> of \<open>re\<close> on \<open>str\<close> patterns is the Unicode category Nd, which consists of
  runs of ten digits; the list holds the zero of each run (Unicode 15.0).
\<close>

definition digit_zeros :: "int list" where
  "digit_zeros = [48, 1632, 1776, 1984, 2406, 2534, 2662, 2790, 2918, 3046, 3174, 3302, 3430,
     3558, 3664, 3792, 3872, 4160, 4240, 6112, 6160, 6470, 6608, 6784, 6800, 6992, 7088, 7232,
     7248, 42528, 43216, 43264, 43472, 43504, 43600, 44016, 65296, 66720, 68912, 69734, 69872,
     69942, 70096, 70384, 70736, 70864, 71248, 71360, 71472, 71904, 72016, 72784, 73040, 73120,
     73552, 92768, 92864, 93008, 120782, 120792, 120802, 120812, 120822, 123200, 123632, 124144,
     125264, 130032]"

definition digit_val :: "int \<Rightarrow> int option" where
  "digit_val c =
     (if 48 \<le> c \<and> c < 58 then Some (c - 48)
      else map_option (\<lambda>z. c - z) (List.find (\<lambda>z. z \<le> c \<and> c < z + 10) digit_zeros))"

text \<open>Reads the longest run of digits: its value so far, and the rest.\<close>

fun read_digits :: "int \<Rightarrow> pystr \<Rightarrow> int \<times> pystr" where
  "read_digits n [] = (n, [])"
| "read_digits n (c # s) =
     (case digit_val c of None \<Rightarrow> (n, c # s) | Some d \<Rightarrow> read_digits (10 * n + d) s)"

text \<open>\<open>\d+\<close> as a parser: at least one digit.\<close>

definition parse_digits :: "pystr \<Rightarrow> (int \<times> pystr) option" where
  "parse_digits s =
     (case s of [] \<Rightarrow> None
      | c # r \<Rightarrow> (case digit_val c of None \<Rightarrow> None | Some d \<Rightarrow> Some (read_digits d r)))"

definition parse_lit :: "pystr \<Rightarrow> pystr \<Rightarrow> pystr option" where
  "parse_lit p s = (if startswith s p then Some (drop (length p) s) else None)"

text \<open>
  \<open>str.lower()\<close> as far as ASCII content is concerned: the only code points outside A-Z whose
  lower-case form contains an ASCII letter are KELVIN SIGN and LATIN CAPITAL I WITH DOT ABOVE.
\<close>

definition lower_char :: "int \<Rightarrow> pystr" where
  "lower_char c =
     (if 65 \<le> c \<and> c \<le> 90 then [c + 32]
      else if c = 8490 then [107]
      else if c = 304 then [105, 775]
      else [c])"

definition lower :: "pystr \<Rightarrow> pystr" where
  "lower s = concat (map lower_char s)"

lemma concat_map_concat: "concat (map concat xss) = concat (concat xss)"
  by (induction xss) auto

section \<open>Exceptions as values\<close>

text \<open>
  A call that may raise returns a sum: \<open>Inl\<close> the exception, \<open>Inr\<close> the value.
\<close>

datatype exn =
    ValueError pystr
  | KeyError pystr
  | TypeError pystr
  | RuntimeError pystr
  | OtherError pystr pystr

definition ebind :: "'e + 'a \<Rightarrow> ('a \<Rightarrow> 'e + 'b) \<Rightarrow> 'e + 'b" where
  "ebind m f = (case m of Inl e \<Rightarrow> Inl e | Inr x \<Rightarrow> f x)"

fun emap :: "('a \<Rightarrow> 'e + 'b) \<Rightarrow> 'a list \<Rightarrow> 'e + 'b list" where
  "emap f [] = Inr []"
| "emap f (x # xs) = ebind (f x) (\<lambda>y. ebind (emap f xs) (\<lambda>ys. Inr (y # ys)))"

lemma ebind_simps [simp]: "ebind (Inl e) f = Inl e" "ebind (Inr x) f = f x"
  by (simp_all add: ebind_def)

lemma ebind_Inr_iff: "ebind m f = Inr y \<longleftrightarrow> (\<exists>x. m = Inr x \<and> f x = Inr y)"
  by (cases m) auto

lemma ebind_Inl_iff: "ebind m f = Inl e \<longleftrightarrow> m = Inl e \<or> (\<exists>x. m = Inr x \<and> f x = Inl e)"
  by (cases m) auto

lemma emap_Inr_length: "emap f xs = Inr ys \<Longrightarrow> length ys = length xs"
  by (induction xs arbitrary: ys) (auto simp: ebind_Inr_iff)

lemma emap_total: "(\<And>x. x \<in> set xs \<Longrightarrow> f x = Inr (g x)) \<Longrightarrow> emap f xs = Inr (map g xs)"
  by (induction xs) auto

section \<open>Python dictionaries in insertion order\<close>

fun dict_set :: "'k \<Rightarrow> 'v \<Rightarrow> ('k \<times> 'v) list \<Rightarrow> ('k \<times> 'v) list" where
  "dict_set k v [] = [(k, v)]"
| "dict_set k v ((k', v') # d) = (if k' = k then (k, v) # d else (k', v') # dict_set k v d)"

definition dict_get :: "('k \<times> 'v) list \<Rightarrow> 'k \<Rightarrow> 'v \<Rightarrow> 'v" where
  "dict_get d k dflt = (case map_of d k of None \<Rightarrow> dflt | Some v \<Rightarrow> v)"

text \<open>\<open>d.setdefault(k, []).append(x)\<close>.\<close>

definition dict_append :: "'k \<Rightarrow> 'a \<Rightarrow> ('k \<times> 'a list) list \<Rightarrow> ('k \<times> 'a list) list" where
  "dict_append k x d = dict_set k (dict_get d k [] @ [x]) d"

lemma map_of_dict_set [simp]: "map_of (dict_set k v d) = (map_of d)(k \<mapsto> v)"
  by (induction d) (auto simp: fun_eq_iff)

lemma keys_dict_set: "fst ` set (dict_set k v d) = insert k (fst ` set d)"
  by (induction k v d rule: dict_set.induct) auto

lemma distinct_dict_set [intro]:
  "distinct (map fst d) \<Longrightarrow> distinct (map fst (dict_set k v d))"
  by (induction k v d rule: dict_set.induct) (auto simp: keys_dict_set)

text \<open>Grouping a list by a key, keys in order of first occurrence (a \<open>setdefault\<close> loop).\<close>

definition group_by :: "('a \<Rightarrow> 'k) \<Rightarrow> 'a list \<Rightarrow> ('k \<times> 'a list) list" where
  "group_by f xs = fold (\<lambda>x d. dict_append (f x) x d) xs []"

lemma group_by_snoc: "group_by f (xs @ [x]) = dict_append (f x) x (group_by f xs)"
  by (simp add: group_by_def)

lemma group_by_lookup:
  "map_of (group_by f xs) k =
     (if k \<in> f ` set xs then Some (filter (\<lambda>x. f x = k) xs) else None)"
proof (induction xs rule: rev_induct)
  case Nil
  then show ?case by (simp add: group_by_def)
next
  case (snoc x xs)
  show ?case
  proof (cases "f x = k")
    case True
    have "k \<notin> f ` set xs \<Longrightarrow> filter (\<lambda>y. f y = k) xs = []"
      by (auto simp: filter_empty_conv)
    with True snoc.IH show ?thesis
      by (simp add: group_by_snoc dict_append_def dict_get_def split: option.splits)
  next
    case False
    with snoc.IH show ?thesis by (simp add: group_by_snoc dict_append_def)
  qed
qed

lemma group_by_distinct: "distinct (map fst (group_by f xs))"
proof (induction xs rule: rev_induct)
  case Nil
  then show ?case by (simp add: group_by_def)
next
  case (snoc x xs)
  then show ?case by (auto simp: group_by_snoc dict_append_def)
qed

section \<open>SQL tables\<close>

record 'r table =
  rows :: "'r list"
  next_id :: nat

definition sql_update :: "('r \<Rightarrow> bool) \<Rightarrow> ('r \<Rightarrow> 'r) \<Rightarrow> 'r list \<Rightarrow> 'r list" where
  "sql_update P f rs = map (\<lambda>r. if P r then f r else r) rs"

definition sql_delete :: "('r \<Rightarrow> bool) \<Rightarrow> 'r list \<Rightarrow> 'r list" where
  "sql_delete P rs = filter (\<lambda>r. \<not> P r) rs"

definition rowcount :: "('r \<Rightarrow> bool) \<Rightarrow> 'r list \<Rightarrow> nat" where
  "rowcount P rs = length (filter P rs)"

text \<open>\<open>SELECT .. WHERE P ORDER BY key LIMIT 1\<close>; \<open>sort_key\<close> is stable, as rowid order is.\<close>

definition select_first :: "('r \<Rightarrow> 'o::linorder) \<Rightarrow> ('r \<Rightarrow> bool) \<Rightarrow> 'r list \<Rightarrow> 'r option" where
  "select_first key P rs = (case sort_key key (filter P rs) of [] \<Rightarrow> None | r # _ \<Rightarrow> Some r)"

lemma select_first_None: "select_first key P rs = None \<longleftrightarrow> (\<forall>r\<in>set rs. \<not> P r)"
proof -
  have "select_first key P rs = None \<longleftrightarrow> sort_key key (filter P rs) = []"
    by (auto simp: select_first_def split: list.splits)
  also have "\<dots> \<longleftrightarrow> set (sort_key key (filter P rs)) = {}" by (rule set_empty[symmetric])
  also have "\<dots> \<longleftrightarrow> (\<forall>r\<in>set rs. \<not> P r)" unfolding set_sort set_filter by blast
  finally show ?thesis .
qed

lemma select_first_Some:
  assumes "select_first key P rs = Some r"
  shows "r \<in> set rs \<and> P r \<and> (\<forall>r'\<in>set rs. P r' \<longrightarrow> key r \<le> key r')"
proof -
  from assms obtain rest where sorted_rows: "sort_key key (filter P rs) = r # rest"
    by (auto simp: select_first_def split: list.splits)
  have elems: "set (r # rest) = {x \<in> set rs. P x}"
    using arg_cong[OF sorted_rows, of set] by auto
  have "sorted (map key (r # rest))"
    using sorted_sort_key[of key "filter P rs"] sorted_rows by simp
  then have "\<forall>x\<in>set (r # rest). key r \<le> key x" by auto
  with elems show ?thesis by (metis (mono_tags, lifting) list.set_intros(1) mem_Collect_eq)
qed

lemma length_sql_update [simp]: "length (sql_update P f rs) = length rs"
  by (simp add: sql_update_def)

lemma set_sql_update: "set (sql_update P f rs) = (\<lambda>r. if P r then f r else r) ` set rs"
  by (simp add: sql_update_def)

lemma sql_update_nochange: "rowcount P rs = 0 \<Longrightarrow> sql_update P f rs = rs"
  by (auto simp: rowcount_def sql_update_def filter_empty_conv intro: map_idI)

lemma rowcount_0_iff: "rowcount P rs = 0 \<longleftrightarrow> (\<forall>r\<in>set rs. \<not> P r)"
  by (simp add: rowcount_def filter_empty_conv)

lemma set_sql_delete [simp]: "set (sql_delete P rs) = {r \<in> set rs. \<not> P r}"
  by (auto simp: sql_delete_def)

subsection \<open>Rows identified by a primary key\<close>

text \<open>
  The contract between a table and its clients: a key column that no update changes.  Under it a
  lookup by key commutes with an update, and key uniqueness is kept by every statement.
\<close>

locale primary_key =
  fixes key :: "'r \<Rightarrow> 'k"
begin

definition lookup :: "'r list \<Rightarrow> 'k \<Rightarrow> 'r option" where
  "lookup rs k = List.find (\<lambda>r. key r = k) rs"

definition unique_keys :: "'r list \<Rightarrow> bool" where
  "unique_keys rs \<longleftrightarrow> distinct (map key rs)"

lemma lookup_Some_set: "lookup rs k = Some r \<Longrightarrow> r \<in> set rs \<and> key r = k"
  by (auto simp: lookup_def find_Some_iff)

lemma lookup_None: "lookup rs k = None \<longleftrightarrow> k \<notin> key ` set rs"
  by (auto simp: lookup_def find_None_iff)

lemma lookup_unique: "unique_keys rs \<Longrightarrow> r \<in> set rs \<Longrightarrow> lookup rs (key r) = Some r"
  by (induction rs) (auto simp: lookup_def unique_keys_def)

lemma lookup_update:
  "(\<And>r. key (f r) = key r) \<Longrightarrow>
   lookup (sql_update P f rs) k = map_option (\<lambda>r. if P r then f r else r) (lookup rs k)"
  by (induction rs) (auto simp: lookup_def sql_update_def)

lemma unique_update:
  "(\<And>r. key (f r) = key r) \<Longrightarrow> unique_keys (sql_update P f rs) = unique_keys rs"
proof -
  assume keep: "\<And>r. key (f r) = key r"
  have "map key (sql_update P f rs) = map key rs"
    by (induction rs) (auto simp: sql_update_def keep)
  then show ?thesis by (simp add: unique_keys_def)
qed

lemma keys_update:
  "(\<And>r. key (f r) = key r) \<Longrightarrow> key ` set (sql_update P f rs) = key ` set rs"
proof -
  assume keep: "\<And>r. key (f r) = key r"
  have "map key (sql_update P f rs) = map key rs"
    by (induction rs) (auto simp: sql_update_def keep)
  then show ?thesis by (metis list.set_map)
qed

lemma unique_delete: "unique_keys rs \<Longrightarrow> unique_keys (sql_delete P rs)"
  by (simp add: unique_keys_def sql_delete_def distinct_map_filter)

lemma unique_insert:
  "unique_keys rs \<Longrightarrow> key r \<notin> key ` set rs \<Longrightarrow> unique_keys (rs @ [r])"
  by (auto simp: unique_keys_def)

lemma lookup_insert:
  "lookup (rs @ [r]) k = (case lookup rs k of Some r' \<Rightarrow> Some r'
                          | None \<Rightarrow> if key r = k then Some r else None)"
  by (induction rs) (auto simp: lookup_def)

lemma rowcount_key_le_1:
  "unique_keys rs \<Longrightarrow> rowcount (\<lambda>r. key r = k \<and> Q r) rs \<le> 1"
proof (induction rs)
  case (Cons a rs)
  have "key a = k \<Longrightarrow> filter (\<lambda>r. key r = k \<and> Q r) rs = []"
    using Cons.prems by (auto simp: filter_empty_conv unique_keys_def) (metis image_eqI)
  with Cons show ?case by (auto simp: rowcount_def unique_keys_def)
qed (simp add: rowcount_def)

lemma rowcount_key_1:
  "unique_keys rs \<Longrightarrow>
   rowcount (\<lambda>r. key r = k \<and> Q r) rs = 1 \<longleftrightarrow> (\<exists>r. lookup rs k = Some r \<and> Q r)"
proof -
  assume u: "unique_keys rs"
  have "rowcount (\<lambda>r. key r = k \<and> Q r) rs = 1
        \<longleftrightarrow> rowcount (\<lambda>r. key r = k \<and> Q r) rs \<noteq> 0"
    using rowcount_key_le_1[OF u, of k Q] by linarith
  also have "\<dots> \<longleftrightarrow> (\<exists>r\<in>set rs. key r = k \<and> Q r)" by (auto simp: rowcount_0_iff)
  also have "\<dots> \<longleftrightarrow> (\<exists>r. lookup rs k = Some r \<and> Q r)"
    using lookup_unique[OF u] lookup_Some_set by metis
  finally show ?thesis .
qed

end

end
