(* ===== verification/Json.thy ===== *)
theory Json
  imports Complex_Main Prelude
begin

text \<open>
  JSON values as Python's \<open>json\<close> module delivers them, and its canonical printer
  (\<open>sort_keys=True, separators=(",", ":"), ensure_ascii=True\<close>).  Objects keep their key order, as
  a Python dictionary does; \<open>JInf\<close> (negative or not) and \<open>JNaN\<close> are the values Python reads from
  \<open>Infinity\<close> and \<open>NaN\<close> or an overflowing number.  Parsing is a parameter wherever the program parses.
\<close>

datatype json =
    JNull
  | JBool bool
  | JInt int
  | JNum rat
  | JInf bool
  | JNaN
  | JStr pystr
  | JList "json list"
  | JObj "(pystr \<times> json) list"

definition jget :: "(pystr \<times> json) list \<Rightarrow> pystr \<Rightarrow> json option" where
  "jget o1 k = map_of o1 k"

section \<open>The canonical printer\<close>

definition hex_digit :: "int \<Rightarrow> int" where
  "hex_digit d = (if d < 10 then 48 + d else 87 + d)"

definition hex4 :: "int \<Rightarrow> pystr" where
  "hex4 c = [hex_digit (c div 4096 mod 16), hex_digit (c div 256 mod 16),
             hex_digit (c div 16 mod 16), hex_digit (c mod 16)]"

text \<open>One character of a string; beyond U+FFFF a surrogate pair.\<close>

definition json_char :: "int \<Rightarrow> pystr" where
  "json_char c =
     (if c = 34 then [92, 34] else if c = 92 then [92, 92]
      else if c = 10 then [92, 110] else if c = 13 then [92, 114] else if c = 9 then [92, 116]
      else if c = 12 then [92, 102] else if c = 8 then [92, 98]
      else if 32 \<le> c \<and> c \<le> 126 then [c]
      else if c < 65536 then [92, 117] @ hex4 c
      else [92, 117] @ hex4 (55296 + (c - 65536) div 1024) @ [92, 117] @ hex4 (56320 + (c - 65536) mod 1024))"

definition json_string :: "pystr \<Rightarrow> pystr" where
  "json_string s = [34] @ concat (map json_char s) @ [34]"

text \<open>The values the canonical form is used for here are flat: strings and whole numbers.\<close>

datatype flat = FStr pystr | FInt int

fun flat_text :: "flat \<Rightarrow> pystr" where
  "flat_text (FStr s) = json_string s"
| "flat_text (FInt i) = int_text i"

definition canonical_json :: "(pystr \<times> flat) list \<Rightarrow> pystr" where
  "canonical_json kvs =
     U ''{'' @ join_text (U '','') (map (\<lambda>(k, v). json_string k @ U '':'' @ flat_text v) (sort_key fst kvs)) @ U ''}''"

section \<open>The printer is injective\<close>

text \<open>A Unicode scalar value: the texts that can be encoded as UTF-8.\<close>

definition scalar :: "int \<Rightarrow> bool" where
  "scalar c \<longleftrightarrow> 0 \<le> c \<and> c < 1114112 \<and> \<not> (55296 \<le> c \<and> c < 57344)"

abbreviation valid_text :: "pystr \<Rightarrow> bool" where
  "valid_text s \<equiv> list_all scalar s"

lemma hex_digit_inj: "0 \<le> a \<Longrightarrow> a < 16 \<Longrightarrow> 0 \<le> b \<Longrightarrow> b < 16 \<Longrightarrow> hex_digit a = hex_digit b \<longleftrightarrow> a = b"
  by (auto simp: hex_digit_def)

lemma div_mod_16_eq: "(a :: int) div 16 = b div 16 \<Longrightarrow> a mod 16 = b mod 16 \<Longrightarrow> a = b"
  by (metis div_mult_mod_eq)

lemma hex4_inj:
  assumes "0 \<le> a" "a < 65536" "0 \<le> b" "b < 65536" "hex4 a = hex4 b"
  shows "a = b"
proof -
  have digits: "a div 4096 mod 16 = b div 4096 mod 16" "a div 256 mod 16 = b div 256 mod 16"
    "a div 16 mod 16 = b div 16 mod 16" "a mod 16 = b mod 16"
    using assms(5) by (auto simp: hex4_def hex_digit_inj)
  have step: "x div 256 div 16 = x div 4096" "x div 16 div 16 = x div 256" for x :: int
    using zdiv_zmult2_eq[of 16 x 256] zdiv_zmult2_eq[of 16 x 16] by simp_all
  have "a div 4096 < 16" "b div 4096 < 16" using assms(2,4) by linarith+
  then have "a div 4096 = b div 4096" using digits(1) assms(1,3) by (simp add: pos_imp_zdiv_nonneg_iff)
  then have "a div 256 = b div 256"
    using digits(2) div_mod_16_eq[of "a div 256" "b div 256"] by (simp only: step)
  then have "a div 16 = b div 16"
    using digits(3) div_mod_16_eq[of "a div 16" "b div 16"] by (simp only: step)
  then show ?thesis using digits(4) by (rule div_mod_16_eq)
qed

lemma length_hex4 [simp]: "length (hex4 c) = 4"
  by (simp add: hex4_def)

text \<open>The shapes of a printed character.\<close>

lemma escapes:
  "json_char 34 = [92, 34]" "json_char 92 = [92, 92]" "json_char 10 = [92, 110]" "json_char 13 = [92, 114]"
  "json_char 9 = [92, 116]" "json_char 12 = [92, 102]" "json_char 8 = [92, 98]"
  by (simp_all add: json_char_def)

text \<open>For evaluation: most characters stand for themselves.\<close>

lemma json_char_code [code]:
  "json_char c =
     (if 93 \<le> c \<and> c \<le> 126 \<or> 35 \<le> c \<and> c \<le> 91 \<or> c = 32 \<or> c = 33 then [c]
      else if c = 34 then [92, 34] else if c = 92 then [92, 92]
      else if c = 10 then [92, 110] else if c = 13 then [92, 114] else if c = 9 then [92, 116]
      else if c = 12 then [92, 102] else if c = 8 then [92, 98]
      else if c < 65536 then [92, 117] @ hex4 c
      else [92, 117] @ hex4 (55296 + (c - 65536) div 1024) @ [92, 117] @ hex4 (56320 + (c - 65536) mod 1024))"
  by (auto simp: json_char_def)

lemma json_char_cases:
  assumes "scalar c"
  obtains (Plain) "json_char c = [c]" "c \<noteq> 92" "c \<noteq> 34"
  | (Escape) e where "json_char c = [92, e]" "e \<noteq> 117"
      "(e, c) \<in> {(34, 34), (92, 92), (110, 10), (114, 13), (116, 9), (102, 12), (98, 8)}"
  | (Unit) "json_char c = 92 # 117 # hex4 c" "0 \<le> c" "c < 65536" "\<not> (55296 \<le> c \<and> c < 57344)"
  | (Pair) "json_char c = 92 # 117 # hex4 (55296 + (c - 65536) div 1024) @ 92 # 117 # hex4 (56320 + (c - 65536) mod 1024)"
      "65536 \<le> c" "c < 1114112"
proof -
  show thesis
  proof (cases "c \<in> {34, 92, 10, 13, 9, 12, 8}")
    case True
    then have "json_char c = [92, last (json_char c)] \<and> last (json_char c) \<noteq> 117 \<and>
        (last (json_char c), c) \<in> {(34, 34), (92, 92), (110, 10), (114, 13), (116, 9), (102, 12), (98, 8)}"
      by (elim insertE emptyE) (simp_all add: escapes)
    then show thesis using Escape by blast
  next
    case special: False
    then have neq: "c \<noteq> 34" "c \<noteq> 92" "c \<noteq> 10" "c \<noteq> 13" "c \<noteq> 9" "c \<noteq> 12" "c \<noteq> 8" by simp_all
    show thesis
    proof (cases "32 \<le> c \<and> c \<le> 126")
      case True
      then have "json_char c = [c]" unfolding json_char_def by (simp only: neq if_False if_True simp_thms)
      then show thesis using neq by (intro Plain)
    next
      case False
      show thesis
      proof (cases "c < 65536")
        case True
        have "json_char c = [92, 117] @ hex4 c"
          unfolding json_char_def by (simp only: neq False True if_False if_True)
        then show thesis using assms True by (intro Unit) (auto simp: scalar_def)
      next
        case large: False
        have "json_char c = [92, 117] @ hex4 (55296 + (c - 65536) div 1024) @ [92, 117] @ hex4 (56320 + (c - 65536) mod 1024)"
          unfolding json_char_def by (simp only: neq False large if_False)
        then show thesis using assms large by (intro Pair) (auto simp: scalar_def)
      qed
    qed
  qed
qed

lemma hex4_append_inj:
  assumes "hex4 a @ r = hex4 b @ r'" "0 \<le> a" "a < 65536" "0 \<le> b" "b < 65536"
  shows "a = b \<and> r = r'"
  using assms hex4_inj[of a b] by (simp add: append_eq_append_conv)

lemma json_char_prefix:
  assumes c: "scalar c" and d: "scalar d" and eq: "json_char c @ r = json_char d @ r'"
  shows "c = d \<and> r = r'"
proof -
  have hi: "55296 \<le> 55296 + (x - 65536) div 1024" "55296 + (x - 65536) div 1024 < 56320"
    "0 \<le> 56320 + (x - 65536) mod 1024" "56320 + (x - 65536) mod 1024 < 57344"
    if "65536 \<le> x" "x < 1114112" for x :: int
    using that by (auto simp: pos_imp_zdiv_nonneg_iff)
  show ?thesis
    using c
  proof (cases rule: json_char_cases)
    case Plain
    show ?thesis using d by (cases rule: json_char_cases) (use Plain eq in auto)
  next
    case (Escape e)
    show ?thesis using d by (cases rule: json_char_cases) (use Escape eq in auto)
  next
    case c_unit: Unit
    show ?thesis
      using d
    proof (cases rule: json_char_cases)
      case Unit
      then show ?thesis using c_unit eq hex4_append_inj[of c r d r'] by auto
    next
      case Pair
      have "hex4 c @ r = hex4 (55296 + (d - 65536) div 1024) @ (92 # 117 # hex4 (56320 + (d - 65536) mod 1024) @ r')"
        using eq c_unit(1) Pair(1) by simp
      then have "c = 55296 + (d - 65536) div 1024"
        by (rule conjunct1[OF hex4_append_inj[OF _ c_unit(2,3)]]) (use hi(1,2)[OF Pair(2,3)] in linarith)+
      then have False using c_unit(4) hi(1,2)[OF Pair(2,3)] by linarith
      then show ?thesis ..
    qed (use c_unit eq in auto)
  next
    case c_pair: Pair
    show ?thesis
      using d
    proof (cases rule: json_char_cases)
      case Unit
      have "hex4 d @ r' = hex4 (55296 + (c - 65536) div 1024) @ (92 # 117 # hex4 (56320 + (c - 65536) mod 1024) @ r)"
        using eq c_pair(1) Unit(1) by simp
      then have "d = 55296 + (c - 65536) div 1024"
        by (rule conjunct1[OF hex4_append_inj[OF _ Unit(2,3)]]) (use hi(1,2)[OF c_pair(2,3)] in linarith)+
      then have False using Unit(4) hi(1,2)[OF c_pair(2,3)] by linarith
      then show ?thesis ..
    next
      case Pair
      note hc = hi[OF c_pair(2,3)] and hd = hi[OF Pair(2,3)]
      let ?hi = "\<lambda>x. 55296 + (x - 65536) div 1024" and ?lo = "\<lambda>x. 56320 + (x - 65536) mod 1024"
      have "hex4 (?hi c) @ (92 # 117 # hex4 (?lo c) @ r) = hex4 (?hi d) @ (92 # 117 # hex4 (?lo d) @ r')"
        using eq c_pair(1) Pair(1) by simp
      then have hi_eq: "?hi c = ?hi d \<and> 92 # 117 # hex4 (?lo c) @ r = 92 # 117 # hex4 (?lo d) @ r'"
        by (rule hex4_append_inj) (use hc hd in linarith)+
      then have "hex4 (?lo c) @ r = hex4 (?lo d) @ r'" by simp
      then have lo_eq: "?lo c = ?lo d \<and> r = r'"
        by (rule hex4_append_inj) (use hc hd in linarith)+
      have "(c - 65536) div 1024 = (d - 65536) div 1024" "(c - 65536) mod 1024 = (d - 65536) mod 1024"
        using hi_eq lo_eq by simp_all
      then have "c - 65536 = d - 65536" by (metis div_mult_mod_eq)
      with lo_eq show ?thesis by simp
    qed (use c_pair eq in auto)
  qed
qed

lemma json_char_start: "scalar c \<Longrightarrow> json_char c \<noteq> [] \<and> hd (json_char c) \<noteq> 34"
  by (erule json_char_cases) auto

lemma json_chars_prefix:
  "valid_text s \<Longrightarrow> valid_text t \<Longrightarrow>
   concat (map json_char s) @ 34 # r = concat (map json_char t) @ 34 # r' \<Longrightarrow> s = t \<and> r = r'"
proof (induction s arbitrary: t)
  case Nil
  show ?case
  proof (cases t)
    case (Cons d t')
    then obtain x xs where "json_char d = x # xs" "x \<noteq> 34"
      using json_char_start[of d] Nil.prems(2) by (cases "json_char d") auto
    with Nil.prems(3) Cons show ?thesis by simp
  qed (use Nil.prems(3) in simp)
next
  case (Cons c s)
  show ?case
  proof (cases t)
    case Nil
    then show ?thesis using Cons.prems json_char_start[of c] by (cases "json_char c") auto
  next
    case (Cons d t')
    have "json_char c @ (concat (map json_char s) @ 34 # r) = json_char d @ (concat (map json_char t') @ 34 # r')"
      using Cons.prems Cons by simp
    then have "c = d \<and> concat (map json_char s) @ 34 # r = concat (map json_char t') @ 34 # r'"
      using json_char_prefix[of c d] Cons.prems(1,2) Cons by simp
    then show ?thesis using Cons.IH[of t'] Cons.prems(1,2) Cons by simp
  qed
qed

lemma json_string_prefix:
  "valid_text s \<Longrightarrow> valid_text t \<Longrightarrow> json_string s @ r = json_string t @ r' \<Longrightarrow> s = t \<and> r = r'"
  using json_chars_prefix[of s t r r'] by (simp add: json_string_def)

text \<open>Decimal texts are read back, and end where their digits end.\<close>

definition digits_value :: "pystr \<Rightarrow> int" where
  "digits_value s = fold (\<lambda>c n. 10 * n + (c - 48)) s 0"

lemma nat_text_value: "digits_value (nat_text n) = int n"
proof (induction n rule: nat_text.induct)
  case (1 n)
  have "digits_value (s @ [c]) = 10 * digits_value s + (c - 48)" for s c by (simp add: digits_value_def)
  then show ?case
    using 1 by (subst nat_text.simps) (auto simp: digits_value_def zdiv_int zmod_int)
qed

lemma nat_text_digits: "c \<in> set (nat_text n) \<Longrightarrow> 48 \<le> c \<and> c \<le> 57"
proof (induction n rule: nat_text.induct)
  case (1 n)
  then show ?case by (subst (asm) (2) nat_text.simps) (auto split: if_splits)
qed

lemma int_text_chars: "c \<in> set (int_text i) \<Longrightarrow> 45 \<le> c \<and> c \<le> 57 \<and> c \<noteq> 46 \<and> c \<noteq> 47"
  using nat_text_digits by (fastforce simp: int_text_def split: if_splits)

lemma nat_text_no_minus: "hd (nat_text n) \<noteq> 45"
  using nat_text_digits[of "hd (nat_text n)" n] hd_in_set[OF nat_text_nonempty, of n] by force

lemma int_text_inj: "int_text i = int_text j \<Longrightarrow> i = j"
proof -
  assume eq: "int_text i = int_text j"
  have sign: "hd (int_text k) = 45 \<longleftrightarrow> k < 0" for k
    using nat_text_no_minus by (auto simp: int_text_def)
  from eq sign have same: "i < 0 \<longleftrightarrow> j < 0" by metis
  show ?thesis
  proof (cases "i < 0")
    case True
    with same eq have "nat_text (nat (- i)) = nat_text (nat (- j))" by (simp add: int_text_def)
    then have "int (nat (- i)) = int (nat (- j))" by (metis nat_text_value)
    with True same show ?thesis by simp
  next
    case False
    with same eq have "nat_text (nat i) = nat_text (nat j)" by (simp add: int_text_def)
    then have "int (nat i) = int (nat j)" by (metis nat_text_value)
    with False same show ?thesis by simp
  qed
qed

lemma takeWhile_stop: "\<forall>c\<in>set xs. P c \<Longrightarrow> \<not> P y \<Longrightarrow> takeWhile P (xs @ y # r) = xs"
  by (induction xs) auto

lemma int_text_prefix:
  assumes "int_text i @ y # r = int_text j @ z # r'" "y \<in> {44, 125}" "z \<in> {44, 125}"
  shows "i = j \<and> y = z \<and> r = r'"
proof -
  let ?P = "\<lambda>c. 45 \<le> c \<and> c \<le> (57 :: int)"
  have "takeWhile ?P (int_text i @ y # r) = int_text i" "takeWhile ?P (int_text j @ z # r') = int_text j"
    using int_text_chars assms(2,3) by (auto intro!: takeWhile_stop)
  with assms(1) have "int_text i = int_text j" by simp
  with assms(1) int_text_inj show ?thesis by simp
qed

text \<open>
  Two flat objects with the same keys and value kinds that print alike are equal.
\<close>

fun same_kind :: "flat \<Rightarrow> flat \<Rightarrow> bool" where
  "same_kind (FStr s) (FStr t) = (valid_text s \<and> valid_text t)"
| "same_kind (FInt i) (FInt j) = True"
| "same_kind _ _ = False"

lemma flat_text_prefix:
  assumes "same_kind v w" "flat_text v @ y # r = flat_text w @ z # r'" "y \<in> {44, 125}" "z \<in> {44, 125}"
  shows "v = w \<and> y = z \<and> r = r'"
  using assms
proof (induction v w rule: same_kind.induct)
  case (1 s t)
  then show ?case using json_string_prefix[of s t "y # r" "z # r'"] by simp
next
  case (2 i j)
  then show ?case using int_text_prefix[of i y r j z r'] by simp
qed simp_all

definition member_text :: "pystr \<times> flat \<Rightarrow> pystr" where
  "member_text kv = json_string (fst kv) @ U '':'' @ flat_text (snd kv)"

lemma members_inj:
  "list_all2 (\<lambda>a b. fst a = fst b \<and> same_kind (snd a) (snd b)) xs ys \<Longrightarrow>
   join_text (U '','') (map member_text xs) @ [125] = join_text (U '','') (map member_text ys) @ [125] \<Longrightarrow>
   xs = ys"
proof (induction xs ys rule: list_all2_induct)
  case Nil
  then show ?case by simp
next
  case (Cons a xs b ys)
  have comma: "U '','' = [44]" by (simp add: U_def)
  show ?case
  proof (cases "xs = []")
    case True
    with Cons.hyps have "ys = []" by simp
    with True Cons.prems have "flat_text (snd a) @ [125] = flat_text (snd b) @ [125]"
      using Cons.hyps(1) by (simp add: member_text_def)
    then have "snd a = snd b" using flat_text_prefix[of "snd a" "snd b" 125 "[]" 125 "[]"] Cons.hyps(1) by simp
    with True \<open>ys = []\<close> Cons.hyps(1) show ?thesis by (simp add: prod_eq_iff)
  next
    case False
    with Cons.hyps have "ys \<noteq> []" by auto
    let ?rx = "join_text (U '','') (map member_text xs) @ [125]"
    let ?ry = "join_text (U '','') (map member_text ys) @ [125]"
    have "member_text a @ 44 # ?rx = member_text b @ 44 # ?ry"
      using Cons.prems False \<open>ys \<noteq> []\<close> by (simp add: join_text_Cons comma)
    then have "flat_text (snd a) @ 44 # ?rx = flat_text (snd b) @ 44 # ?ry"
      using Cons.hyps(1) by (simp add: member_text_def[of a] member_text_def[of b])
    then have "snd a = snd b \<and> ?rx = ?ry"
      using flat_text_prefix[of "snd a" "snd b" 44 ?rx 44 ?ry] Cons.hyps(1) by simp
    with Cons.IH Cons.hyps(1) show ?thesis by (simp add: prod_eq_iff)
  qed
qed

lemma canonical_json_inj:
  assumes "sorted (map fst xs)" "sorted (map fst ys)"
    and "list_all2 (\<lambda>a b. fst a = fst b \<and> same_kind (snd a) (snd b)) xs ys"
    and "canonical_json xs = canonical_json ys"
  shows "xs = ys"
proof -
  have printed: "canonical_json zs = U ''{'' @ join_text (U '','') (map member_text zs) @ [125]"
    if "sorted (map fst zs)" for zs
    using that by (simp add: canonical_json_def sort_key_id_if_sorted member_text_def[abs_def] case_prod_beta' U_def)
  show ?thesis using members_inj[OF assms(3)] assms(4) by (simp add: printed[OF assms(1)] printed[OF assms(2)])
qed

section \<open>The printed text is ASCII\<close>

lemma hex_digit_scalar: "0 \<le> d \<Longrightarrow> d < 16 \<Longrightarrow> scalar (hex_digit d)"
  by (simp add: hex_digit_def scalar_def)

lemma hex4_scalar: "valid_text (hex4 c)"
  by (simp add: hex4_def hex_digit_scalar)

lemma json_char_scalar: "valid_text (json_char c)"
  by (simp add: json_char_def hex4_scalar) (simp add: scalar_def)

lemma json_string_scalar: "valid_text (json_string s)"
  using json_char_scalar by (auto simp: json_string_def list_all_iff) (simp_all add: scalar_def)

lemma nat_text_scalar: "valid_text (nat_text n)"
proof (induction n rule: nat_text.induct)
  case (1 n)
  have "scalar (48 + int (n mod 10))" "n < 10 \<Longrightarrow> scalar (48 + int n)" by (auto simp: scalar_def)
  with 1 show ?case by (subst nat_text.simps) simp
qed

lemma flat_text_scalar: "valid_text (flat_text v)"
  by (cases v) (auto simp: json_string_scalar int_text_def nat_text_scalar, simp add: scalar_def)

lemma U_scalar: "list_all (\<lambda>c. (of_char c :: int) < 128) s \<Longrightarrow> valid_text (U s)"
  by (auto simp: U_def list_all_iff scalar_def of_char_def)

lemma join_scalar: "valid_text sep \<Longrightarrow> list_all valid_text xs \<Longrightarrow> valid_text (join_text sep xs)"
  by (induction sep xs rule: join_text.induct) auto

lemma canonical_json_scalar: "valid_text (canonical_json kvs)"
proof -
  have sep: "valid_text (U '':'')" "valid_text (U '','')" "valid_text (U ''{'')" "valid_text (U ''}'')"
    by (simp_all add: U_def scalar_def)
  have "valid_text (json_string k @ U '':'' @ flat_text v)" for k v
    using sep json_string_scalar flat_text_scalar by simp
  then have "list_all valid_text (map (\<lambda>(k, v). json_string k @ U '':'' @ flat_text v) (sort_key fst kvs))"
    by (auto simp only: list_all_iff[of valid_text] set_map split: prod.splits)
  with sep show ?thesis by (simp add: canonical_json_def join_scalar)
qed

section \<open>The compact printer without ASCII escapes\<close>

text \<open>
  \<open>json.dumps(v, ensure_ascii=False, separators=(",", ":"), sort_keys=True)\<close>; \<open>num\<close> renders a float.
\<close>

definition json_char_raw :: "int \<Rightarrow> pystr" where
  "json_char_raw c =
     (if c = 34 then [92, 34] else if c = 92 then [92, 92]
      else if c = 10 then [92, 110] else if c = 13 then [92, 114] else if c = 9 then [92, 116]
      else if c = 12 then [92, 102] else if c = 8 then [92, 98]
      else if c < 32 then [92, 117] @ hex4 c
      else [c])"

definition json_string_raw :: "pystr \<Rightarrow> pystr" where
  "json_string_raw s = [34] @ concat (map json_char_raw s) @ [34]"

fun print_json :: "(pystr \<Rightarrow> pystr) \<Rightarrow> (rat \<Rightarrow> pystr) \<Rightarrow> json \<Rightarrow> pystr" where
  "print_json str num JNull = U ''null''"
| "print_json str num (JBool b) = (if b then U ''true'' else U ''false'')"
| "print_json str num (JInt i) = int_text i"
| "print_json str num (JNum q) = num q"
| "print_json str num (JInf neg) = (if neg then U ''-Infinity'' else U ''Infinity'')"
| "print_json str num JNaN = U ''NaN''"
| "print_json str num (JStr s) = str s"
| "print_json str num (JList vs) = U ''['' @ join_text (U '','') (map (print_json str num) vs) @ U '']''"
| "print_json str num (JObj kvs) =
     U ''{'' @ join_text (U '','')
       (map (\<lambda>(k, t). str k @ U '':'' @ t) (sort_key fst (map (\<lambda>(k, v). (k, print_json str num v)) kvs)))
     @ U ''}''"

definition compact_json :: "(rat \<Rightarrow> pystr) \<Rightarrow> json \<Rightarrow> pystr" where
  "compact_json num v = print_json json_string_raw num v"

text \<open>The same with \<open>ensure_ascii=True\<close>.\<close>

definition ascii_json :: "(rat \<Rightarrow> pystr) \<Rightarrow> json \<Rightarrow> pystr" where
  "ascii_json num v = print_json json_string num v"

section \<open>Values as Python compares them\<close>

fun py_number :: "json \<Rightarrow> rat option" where
  "py_number (JInt i) = Some (of_int i)"
| "py_number (JBool b) = Some (if b then 1 else 0)"
| "py_number (JNum q) = Some q"
| "py_number _ = None"

definition py_eq :: "json \<Rightarrow> json \<Rightarrow> bool" where
  "py_eq a b = (case (py_number a, py_number b) of (Some x, Some y) \<Rightarrow> x = y | _ \<Rightarrow> a = b)"

text \<open>A member that is known to be there, and the optional one of \<open>dict.get\<close>.\<close>

definition fld :: "(pystr \<times> json) list \<Rightarrow> string \<Rightarrow> json" where
  "fld o1 k = (case jget o1 (U k) of None \<Rightarrow> JNull | Some v \<Rightarrow> v)"

text \<open>The test \<open>v in {..}\<close> for a set of texts and \<open>None\<close>: a list or an object cannot be hashed.\<close>

fun unhashable :: "json \<Rightarrow> bool" where
  "unhashable (JList xs) = True"
| "unhashable (JObj kvs) = True"
| "unhashable _ = False"

definition check_in :: "string \<Rightarrow> json list \<Rightarrow> json \<Rightarrow> exn option" where
  "check_in m names v =
     (if unhashable v then Some (TypeError (U ''unhashable type''))
      else if v \<in> set names then None else Some (ValueError (U m)))"

definition check :: "string \<Rightarrow> bool \<Rightarrow> exn option" where
  "check m ok = (if ok then None else Some (ValueError (U m)))"

text \<open>The first check that fails.\<close>

definition first_error :: "exn option list \<Rightarrow> exn option" where
  "first_error cs = (case filter (\<lambda>c. c \<noteq> None) cs of [] \<Rightarrow> None | c # _ \<Rightarrow> c)"

lemma first_error_None: "first_error cs = None \<longleftrightarrow> list_all (\<lambda>c. c = None) cs"
proof -
  have "first_error cs = None \<longleftrightarrow> filter (\<lambda>c. c \<noteq> None) cs = []"
    by (auto simp: first_error_def filter_eq_Cons_iff split: list.split)
  then show ?thesis by (auto simp: filter_empty_conv list_all_iff)
qed

lemma check_None [simp]: "check m ok = None \<longleftrightarrow> ok"
  by (simp add: check_def)

lemma check_in_None [simp]: "check_in m names v = None \<longleftrightarrow> \<not> unhashable v \<and> v \<in> set names"
  by (simp add: check_in_def)

fun opt_count :: "json \<Rightarrow> bool" where
  "opt_count JNull = True"
| "opt_count (JInt i) = (0 \<le> i)"
| "opt_count _ = False"

fun opt_text :: "nat \<Rightarrow> json \<Rightarrow> bool" where
  "opt_text n JNull = True"
| "opt_text n (JStr s) = (length s \<le> n)"
| "opt_text n _ = False"

fun is_json_int :: "json \<Rightarrow> bool" where
  "is_json_int (JInt i) = True"
| "is_json_int _ = False"

fun is_json_bool :: "json \<Rightarrow> bool" where
  "is_json_bool (JBool b) = True"
| "is_json_bool _ = False"

definition has_keys :: "string list \<Rightarrow> (pystr \<times> json) list \<Rightarrow> bool" where
  "has_keys ks o1 \<longleftrightarrow> set (map fst o1) = set (map U ks)"

definition texts :: "string list \<Rightarrow> json list" where
  "texts ss = map (\<lambda>s. JStr (U s)) ss"

end
