(* ===== verification/Telemetry.thy ===== *)
theory Telemetry
  imports Json "HOL-Library.Multiset"
begin

text \<open>
  The execution record of the vendors' command line tools (\<open>src/server/review/vendor_telemetry.py\<close>): what is
  taken from their event streams, the envelope that is stored per vendor and run, and the validators that
  keep anything else out.  JSON parsing and the rendering of floats are parameters; the remaining text functions are
  written out.
\<close>

section \<open>Constants\<close>

definition SCHEMA_VERSION :: int where "SCHEMA_VERSION = 1"
definition EXECUTION_SCHEMA_VERSION :: int where "EXECUTION_SCHEMA_VERSION = 2"

definition EXECUTION_IDENTITY_FIELDS :: "string list" where
  "EXECUTION_IDENTITY_FIELDS =
     [''protocol_version'', ''vendor'', ''model'', ''effort'', ''prompt_hash'', ''harness_config_hash'',
      ''adapter_name'', ''adapter_version'', ''adapter_config_hash'', ''cli_version'', ''event_schema_version'',
      ''diff_hash'', ''context_hash'', ''chunker_version'', ''scope_policy_mode'', ''dedupe_policy_mode'',
      ''policy_decision_hash'', ''policy_config_hash'']"

definition EXECUTION_HASH_FIELDS :: "string list" where
  "EXECUTION_HASH_FIELDS =
     [''prompt_hash'', ''harness_config_hash'', ''adapter_config_hash'', ''diff_hash'', ''context_hash'',
      ''policy_decision_hash'', ''policy_config_hash'']"

definition MAX_EVENT_LINES :: nat where "MAX_EVENT_LINES = 20000"
definition MAX_EVENT_BYTES :: int where "MAX_EVENT_BYTES = 10 * 1024 * 1024"
definition MAX_FINAL_OUTPUT_BYTES :: int where "MAX_FINAL_OUTPUT_BYTES = 2 * 1024 * 1024"
definition MAX_META_BYTES :: int where "MAX_META_BYTES = 64 * 1024"
definition MAX_PUBLIC_SIGNATURES :: nat where "MAX_PUBLIC_SIGNATURES = 64"
definition MAX_PUBLIC_KEY_LENGTH :: nat where "MAX_PUBLIC_KEY_LENGTH = 64"
definition MAX_UNKNOWN_KEY_COUNT :: nat where "MAX_UNKNOWN_KEY_COUNT = 100000"
definition MAX_PREFLIGHT_REPORT_BYTES :: int where "MAX_PREFLIGHT_REPORT_BYTES = 32 * 1024"

definition VENDORS :: "string list" where "VENDORS = [''claude'', ''codex'']"

definition SAFE_ERROR_CODES :: "json list" where
  "SAFE_ERROR_CODES = JNull # texts
     [''auth'', ''rate_limit'', ''overloaded'', ''invalid_output'', ''output_limit'', ''unsupported_cli'',
      ''process_exit'', ''timeout'', ''canceled'', ''runtime_setup_failed'', ''runtime_cleanup_failed'',
      ''snapshot_cleanup_failed'', ''unknown'']"

definition TOOL_ITEM_TYPES :: "json list" where
  "TOOL_ITEM_TYPES = texts [''command_execution'', ''mcp_tool_call'', ''web_search'', ''file_change'']"

section \<open>Versions and schemas\<close>

text \<open>The two version expressions: a digit, at most 63 characters of a class, and the fixed parts.\<close>

definition version_char :: "int \<Rightarrow> bool" where
  "version_char c \<longleftrightarrow> 48 \<le> c \<and> c \<le> 57 \<or> 65 \<le> c \<and> c \<le> 90 \<or> 97 \<le> c \<and> c \<le> 122 \<or> c \<in> {46, 43, 45}"

definition version_number :: "pystr \<Rightarrow> bool" where
  "version_number s \<longleftrightarrow>
     (case s of [] \<Rightarrow> False | c # r \<Rightarrow> 48 \<le> c \<and> c \<le> 57 \<and> length r \<le> 63 \<and> list_all version_char r)"

definition version_matches :: "pystr \<Rightarrow> pystr \<Rightarrow> bool" where
  "version_matches vendor s \<longleftrightarrow>
     (if vendor = U ''codex'' then startswith s (U ''codex-cli '') \<and> version_number (drop 10 s)
      else if vendor = U ''claude''
      then endswith s (U '' (Claude Code)'') \<and> version_number (take (length s - 14) s)
      else False)"

definition public_cli_version :: "pystr \<Rightarrow> json \<Rightarrow> pystr option" where
  "public_cli_version vendor v =
     (let s = (case v of JStr t \<Rightarrow> strip t | _ \<Rightarrow> [])
      in if s \<noteq> [] \<and> version_matches vendor s then Some s else None)"

definition event_schema :: "pystr \<Rightarrow> pystr option \<Rightarrow> bool \<Rightarrow> pystr option" where
  "event_schema vendor cli_version attestation =
     (case cli_version of
        None \<Rightarrow> None
      | Some v \<Rightarrow>
          if v = [] then None
          else if vendor = U ''codex'' \<and> v = U ''codex-cli 0.144.5'' then Some (U ''codex-jsonl-v0.144.5'')
          else if attestation \<and> vendor = U ''claude'' \<and> v = U ''2.1.198 (Claude Code)''
          then Some (U ''claude-json-v2.1.198'')
          else None)"

section \<open>The metadata of one execution\<close>

record exec_meta =
  em_cli_name :: pystr
  em_cli_version :: "pystr option"
  em_event_schema :: "pystr option"
  em_status :: pystr
  em_error :: "pystr option"
  em_exit_code :: "int option"
  em_truncated :: bool
  em_input :: "int option"
  em_cached :: "int option"
  em_output :: "int option"
  em_reasoning :: "int option"
  em_total :: "int option"
  em_tool_calls :: "int option"
  em_events :: "int option"
  em_telemetry :: pystr

definition text_json :: "pystr option \<Rightarrow> json" where
  "text_json v = (case v of None \<Rightarrow> JNull | Some s \<Rightarrow> JStr s)"

definition int_json :: "int option \<Rightarrow> json" where
  "int_json v = (case v of None \<Rightarrow> JNull | Some i \<Rightarrow> JInt i)"

definition META_KEYS :: "string list" where
  "META_KEYS =
     [''schema_version'', ''cli_name'', ''cli_version'', ''event_schema'', ''status'', ''safe_error_code'',
      ''exit_code'', ''stream_truncated'', ''input_tokens'', ''cached_input_tokens'', ''output_tokens'',
      ''reasoning_output_tokens'', ''total_tokens'', ''tool_calls'', ''event_count'', ''telemetry_status'']"

definition meta_dict :: "exec_meta \<Rightarrow> (pystr \<times> json) list" where
  "meta_dict m =
     zip (map U META_KEYS)
       [JInt SCHEMA_VERSION, JStr (em_cli_name m), text_json (em_cli_version m), text_json (em_event_schema m),
        JStr (em_status m), text_json (em_error m), int_json (em_exit_code m), JBool (em_truncated m),
        int_json (em_input m), int_json (em_cached m), int_json (em_output m), int_json (em_reasoning m),
        int_json (em_total m), int_json (em_tool_calls m), int_json (em_events m), JStr (em_telemetry m)]"

definition validate_meta :: "(rat \<Rightarrow> pystr) \<Rightarrow> (pystr \<times> json) list \<Rightarrow> exn option" where
  "validate_meta num m =
     (if \<not> has_keys META_KEYS m then Some (ValueError (U ''vendor telemetry contains unsupported keys''))
      else first_error
        ([check ''unsupported vendor telemetry schema'' (py_eq (fld m ''schema_version'') (JInt SCHEMA_VERSION)),
          check_in ''invalid vendor telemetry cli'' (texts VENDORS) (fld m ''cli_name''),
          check_in ''invalid vendor telemetry status'' (texts [''done'', ''failed'', ''timeout'', ''canceled''])
            (fld m ''status''),
          check_in ''invalid telemetry availability'' (texts [''ok'', ''partial'', ''unavailable''])
            (fld m ''telemetry_status''),
          check_in ''invalid safe vendor error code'' SAFE_ERROR_CODES (fld m ''safe_error_code'')] @
         map (\<lambda>k. check ''invalid numeric telemetry'' (opt_count (fld m k)))
           [''input_tokens'', ''cached_input_tokens'', ''output_tokens'', ''reasoning_output_tokens'',
            ''total_tokens'', ''tool_calls'', ''event_count''] @
         [check ''invalid telemetry exit code'' (fld m ''exit_code'' = JNull \<or> is_json_int (fld m ''exit_code''))] @
         map (\<lambda>k. check ''invalid telemetry string'' (opt_text 128 (fld m k))) [''cli_version'', ''event_schema''] @
         [check ''invalid telemetry truncation flag'' (is_json_bool (fld m ''stream_truncated'')),
          check ''vendor telemetry exceeds size cap'' (int (length (ascii_json num (JObj m))) \<le> MAX_META_BYTES)]))"

definition checked_meta :: "(rat \<Rightarrow> pystr) \<Rightarrow> exec_meta \<Rightarrow> exn + exec_meta" where
  "checked_meta num m = (case validate_meta num (meta_dict m) of None \<Rightarrow> Inr m | Some e \<Rightarrow> Inl e)"

definition unavailable_meta ::
  "(rat \<Rightarrow> pystr) \<Rightarrow> pystr \<Rightarrow> pystr option \<Rightarrow> pystr \<Rightarrow> pystr option \<Rightarrow> int option \<Rightarrow> bool \<Rightarrow> exn + exec_meta" where
  "unavailable_meta num vendor cli_version status safe_error exit_code truncated =
     checked_meta num
       \<lparr>em_cli_name = vendor, em_cli_version = cli_version, em_event_schema = event_schema vendor cli_version False,
        em_status = status, em_error = safe_error, em_exit_code = exit_code, em_truncated = truncated,
        em_input = None, em_cached = None, em_output = None, em_reasoning = None, em_total = None,
        em_tool_calls = None, em_events = None, em_telemetry = U ''unavailable''\<rparr>"

section \<open>Bounds on texts\<close>

text \<open>The length of the UTF-8 encoding; a surrogate is replaced by a question mark.\<close>

definition surrogate :: "int \<Rightarrow> bool" where
  "surrogate c \<longleftrightarrow> 55296 \<le> c \<and> c < 57344"

definition utf8_width :: "int \<Rightarrow> int" where
  "utf8_width c = (if surrogate c then 1 else if c < 128 then 1 else if c < 2048 then 2 else if c < 65536 then 3 else 4)"

definition utf8_length :: "pystr \<Rightarrow> int" where
  "utf8_length s = sum_list (map utf8_width s)"

fun utf8_take :: "int \<Rightarrow> pystr \<Rightarrow> pystr" where
  "utf8_take n [] = []"
| "utf8_take n (c # s) =
     (if utf8_width c \<le> n then (if surrogate c then 63 else c) # utf8_take (n - utf8_width c) s else [])"

definition check_output_limit :: "pystr \<Rightarrow> exn option" where
  "check_output_limit output = check ''vendor final output exceeds size cap'' (utf8_length output \<le> MAX_FINAL_OUTPUT_BYTES)"

definition bounded_output :: "pystr \<Rightarrow> exn + pystr" where
  "bounded_output output = (case check_output_limit output of None \<Rightarrow> Inr output | Some e \<Rightarrow> Inl e)"

definition bounded_event_payload :: "pystr \<Rightarrow> pystr \<times> bool" where
  "bounded_event_payload payload =
     (if utf8_length payload \<le> MAX_EVENT_BYTES then (payload, False) else (utf8_take MAX_EVENT_BYTES payload, True))"

record parsed_telemetry =
  pt_output :: pystr
  pt_meta :: exec_meta

definition normalize_legacy_output ::
  "(rat \<Rightarrow> pystr) \<Rightarrow> pystr \<Rightarrow> pystr \<Rightarrow> pystr option \<Rightarrow> exn + parsed_telemetry" where
  "normalize_legacy_output num vendor output cli_version =
     ebind (bounded_output output) (\<lambda>out.
     ebind (unavailable_meta num vendor cli_version (U ''done'') None None False) (\<lambda>m.
       Inr \<lparr>pt_output = out, pt_meta = m\<rparr>))"

section \<open>The event streams\<close>

type_synonym event = "(pystr \<times> json) list"

text \<open>The lines of \<open>io.StringIO\<close>, which break at LF only.\<close>

definition io_lines :: "pystr \<Rightarrow> pystr list" where
  "io_lines s = (let ls = split_on 10 s in map (\<lambda>l. l @ [10]) (butlast ls) @ (if last ls = [] then [] else [last ls]))"

definition line_event :: "(pystr \<Rightarrow> json option) \<Rightarrow> pystr \<Rightarrow> event option" where
  "line_event loads l = (case loads l of Some (JObj e) \<Rightarrow> Some e | _ \<Rightarrow> None)"

definition json_lines :: "(pystr \<Rightarrow> json option) \<Rightarrow> pystr \<Rightarrow> event list \<times> bool" where
  "json_lines loads payload =
     (case bounded_event_payload payload of
        (text', clipped) \<Rightarrow>
          let ls = io_lines text'; seen = take MAX_EVENT_LINES ls
          in (List.map_filter (line_event loads) seen,
              clipped \<or> length ls > MAX_EVENT_LINES \<or> list_ex (\<lambda>l. line_event loads l = None) seen))"

fun all_events :: "json list \<Rightarrow> event list option" where
  "all_events [] = Some []"
| "all_events (JObj e # vs) = map_option (\<lambda>es. e # es) (all_events vs)"
| "all_events (v # vs) = None"

definition json_payload :: "(pystr \<Rightarrow> json option) \<Rightarrow> pystr \<Rightarrow> event list \<times> bool" where
  "json_payload loads payload =
     (case bounded_event_payload payload of
        (text', clipped) \<Rightarrow>
          if strip text' = [] then ([], True)
          else (case loads (strip text') of
                  None \<Rightarrow> (case json_lines loads text' of (es, broken) \<Rightarrow> (es, clipped \<or> broken))
                | Some (JObj e) \<Rightarrow> ([e], clipped)
                | Some (JList vs) \<Rightarrow>
                    (case all_events vs of
                       None \<Rightarrow> ([], True)
                     | Some es \<Rightarrow> (take MAX_EVENT_LINES es, clipped \<or> length es > MAX_EVENT_LINES))
                | Some v \<Rightarrow> ([], True)))"

definition safe_error_from_event :: "event \<Rightarrow> pystr" where
  "safe_error_from_event e =
     (case jget e (U ''code'') of
        Some (JStr code) \<Rightarrow>
          let l = lower code
          in if contains l (U ''rate'') then U ''rate_limit''
             else if contains l (U ''auth'') \<or> contains l (U ''unauthorized'') \<or> contains l (U ''forbidden'') then U ''auth''
             else if contains l (U ''overload'') then U ''overloaded''
             else U ''process_exit''
      | _ \<Rightarrow> U ''process_exit'')"

definition safe_error_from_status :: "json \<Rightarrow> exn + pystr" where
  "safe_error_from_status v =
     (if unhashable v then Inl (TypeError (U ''unhashable type''))
      else if py_eq v (JInt 401) \<or> py_eq v (JInt 403) then Inr (U ''auth'')
      else if py_eq v (JInt 429) then Inr (U ''rate_limit'')
      else if py_eq v (JInt 529) \<or> py_eq v (JInt 503) then Inr (U ''overloaded'')
      else Inr (U ''process_exit''))"

definition USAGE_KEYS :: "string list" where
  "USAGE_KEYS = [''input_tokens'', ''cached_input_tokens'', ''cache_read_input_tokens'',
     ''cache_creation_input_tokens'', ''output_tokens'', ''reasoning_output_tokens'']"

text \<open>The counts of a usage object; \<open>None\<close> when there is none.\<close>

definition numeric_usage :: "json \<Rightarrow> (pystr \<times> int) list option" where
  "numeric_usage v =
     (case v of
        JObj u \<Rightarrow>
          let out = List.map_filter
                (\<lambda>k. case jget u (U k) of Some (JInt i) \<Rightarrow> if 0 \<le> i then Some (U k, i) else None | _ \<Rightarrow> None) USAGE_KEYS
          in if out = [] then None else Some out
      | _ \<Rightarrow> None)"

definition make_meta ::
  "(rat \<Rightarrow> pystr) \<Rightarrow> pystr \<Rightarrow> pystr \<Rightarrow> pystr \<Rightarrow> pystr \<Rightarrow> pystr option \<Rightarrow> int \<Rightarrow> bool \<Rightarrow> (pystr \<times> int) list option
   \<Rightarrow> int \<Rightarrow> int \<Rightarrow> pystr \<Rightarrow> exn + exec_meta" where
  "make_meta num vendor cli_version schema status safe_error exit_code truncated usage tool_calls event_count telemetry =
     (let u = map_of (case usage of None \<Rightarrow> [] | Some u \<Rightarrow> u);
          inp = u (U ''input_tokens'');
          out = u (U ''output_tokens'')
      in checked_meta num
        \<lparr>em_cli_name = vendor, em_cli_version = Some cli_version, em_event_schema = Some schema, em_status = status,
         em_error = safe_error, em_exit_code = Some exit_code, em_truncated = truncated, em_input = inp,
         em_cached = (case u (U ''cached_input_tokens'') of None \<Rightarrow> u (U ''cache_read_input_tokens'') | Some c \<Rightarrow> Some c),
         em_output = out, em_reasoning = u (U ''reasoning_output_tokens''),
         em_total = (case (inp, out) of (Some a, Some b) \<Rightarrow> Some (a + b) | _ \<Rightarrow> None),
         em_tool_calls = Some tool_calls, em_events = Some event_count, em_telemetry = telemetry\<rparr>)"

record codex_scan =
  cs_usage :: "(pystr \<times> int) list option"
  cs_tools :: int
  cs_terminal :: bool
  cs_unknown :: bool
  cs_error :: "pystr option"

text \<open>One event of a Codex stream; an unhashable \<open>type\<close> raises in the membership tests.\<close>

definition codex_event :: "codex_scan \<Rightarrow> event \<Rightarrow> exn + codex_scan" where
  "codex_event st e =
     (let typ = fld e ''type''
      in if typ = JStr (U ''turn.completed'') then
           Inr (case jget e (U ''usage'') of
                  Some (JObj u) \<Rightarrow> st\<lparr>cs_terminal := True, cs_usage := numeric_usage (JObj u)\<rparr>
                | _ \<Rightarrow> st\<lparr>cs_terminal := True\<rparr>)
         else if typ = JStr (U ''item.completed'') then
           (case jget e (U ''item'') of
              Some (JObj nested) \<Rightarrow>
                if unhashable (fld nested ''type'') then Inl (TypeError (U ''unhashable type''))
                else if fld nested ''type'' \<in> set TOOL_ITEM_TYPES then Inr (st\<lparr>cs_tools := cs_tools st + 1\<rparr>)
                else Inr st
            | _ \<Rightarrow> Inr st)
         else if unhashable typ then Inl (TypeError (U ''unhashable type''))
         else if typ \<in> set (texts [''turn.failed'', ''error'']) then
           Inr (st\<lparr>cs_terminal := True, cs_error := Some (safe_error_from_event e)\<rparr>)
         else if typ \<notin> set (texts [''thread.started'', ''turn.started'', ''item.started'', ''item.updated'']) then
           Inr (st\<lparr>cs_unknown := True\<rparr>)
         else Inr st)"

fun codex_events :: "codex_scan \<Rightarrow> event list \<Rightarrow> exn + codex_scan" where
  "codex_events st [] = Inr st"
| "codex_events st (e # es) = ebind (codex_event st e) (\<lambda>st'. codex_events st' es)"

text \<open>The result of the events of a supported schema, and the parser around it.\<close>

definition codex_result ::
  "(rat \<Rightarrow> pystr) \<Rightarrow> pystr \<Rightarrow> event list \<Rightarrow> bool \<Rightarrow> pystr \<Rightarrow> pystr \<Rightarrow> int \<Rightarrow> bool \<Rightarrow> exn + parsed_telemetry" where
  "codex_result num schema events parse_partial last_message cli_version exit_code truncated =
     ebind (codex_events \<lparr>cs_usage = None, cs_tools = 0, cs_terminal = False, cs_unknown = False, cs_error = None\<rparr>
              events) (\<lambda>st.
       let done = exit_code = 0 \<and> cs_terminal st \<and> cs_error st = None;
           status = (if done \<and> \<not> truncated then U ''done'' else U ''failed'');
           err = (if truncated then Some (U ''output_limit'')
                  else if exit_code \<noteq> 0 \<and> cs_error st = None then Some (U ''process_exit'') else cs_error st);
           availability = (if parse_partial \<or> cs_unknown st \<or> truncated \<or> cs_usage st = None
                           then U ''partial'' else U ''ok'')
       in ebind (make_meta num (U ''codex'') cli_version schema status err exit_code truncated (cs_usage st)
                   (cs_tools st) (int (length events)) availability) (\<lambda>m.
          ebind (bounded_output last_message) (\<lambda>out. Inr \<lparr>pt_output = out, pt_meta = m\<rparr>)))"

definition parse_codex_jsonl ::
  "(rat \<Rightarrow> pystr) \<Rightarrow> (pystr \<Rightarrow> json option) \<Rightarrow> pystr \<Rightarrow> pystr \<Rightarrow> pystr \<Rightarrow> int \<Rightarrow> bool \<Rightarrow> exn + parsed_telemetry" where
  "parse_codex_jsonl num loads payload last_message cli_version exit_code truncated =
     (case event_schema (U ''codex'') (Some cli_version) False of
        None \<Rightarrow>
          ebind (bounded_output last_message) (\<lambda>out.
          ebind (unavailable_meta num (U ''codex'') (Some cli_version)
                   (if exit_code = 0 then U ''done'' else U ''failed'')
                   (if exit_code = 0 then None else Some (U ''unsupported_cli'')) (Some exit_code) truncated) (\<lambda>m.
            Inr \<lparr>pt_output = out, pt_meta = m\<rparr>))
      | Some schema \<Rightarrow>
          (case json_lines loads payload of
             (events, parse_partial) \<Rightarrow>
               codex_result num schema events parse_partial last_message cli_version exit_code truncated))"

definition tool_uses :: "event \<Rightarrow> int" where
  "tool_uses e =
     (if jget e (U ''type'') \<noteq> Some (JStr (U ''assistant'')) then 0
      else case jget e (U ''message'') of
             Some (JObj m) \<Rightarrow>
               (case jget m (U ''content'') of
                  Some (JList bs) \<Rightarrow>
                    int (length (filter (\<lambda>b. case b of JObj o1 \<Rightarrow> jget o1 (U ''type'') = Some (JStr (U ''tool_use'')) | _ \<Rightarrow> False) bs))
                | _ \<Rightarrow> 0)
           | _ \<Rightarrow> 0)"

text \<open>Python's truth value of a JSON value.\<close>

fun truthy :: "json \<Rightarrow> bool" where
  "truthy JNull = False"
| "truthy (JBool b) = b"
| "truthy (JInt i) = (i \<noteq> 0)"
| "truthy (JNum q) = (q \<noteq> 0)"
| "truthy (JInf b) = True"
| "truthy JNaN = True"
| "truthy (JStr s) = (s \<noteq> [])"
| "truthy (JList vs) = (vs \<noteq> [])"
| "truthy (JObj kvs) = (kvs \<noteq> [])"

definition parse_claude_json ::
  "(rat \<Rightarrow> pystr) \<Rightarrow> (pystr \<Rightarrow> json option) \<Rightarrow> pystr \<Rightarrow> pystr \<Rightarrow> int \<Rightarrow> bool \<Rightarrow> bool \<Rightarrow> exn + parsed_telemetry" where
  "parse_claude_json num loads payload cli_version exit_code truncated attestation =
     (case event_schema (U ''claude'') (Some cli_version) attestation of
        None \<Rightarrow>
          ebind (unavailable_meta num (U ''claude'') (Some cli_version)
                   (if exit_code = 0 then U ''done'' else U ''failed'')
                   (if exit_code = 0 then None else Some (U ''unsupported_cli'')) (Some exit_code) truncated) (\<lambda>m.
            Inr \<lparr>pt_output = [], pt_meta = m\<rparr>)
      | Some schema \<Rightarrow>
          (case json_payload loads payload of
             (events, parse_partial) \<Rightarrow>
               let result = List.find (\<lambda>e. jget e (U ''type'') = Some (JStr (U ''result''))) (rev events);
                   usage = (case result of None \<Rightarrow> None | Some r \<Rightarrow> numeric_usage (fld r ''usage''));
                   is_error = (case result of None \<Rightarrow> exit_code \<noteq> 0 | Some r \<Rightarrow> truthy (fld r ''is_error''));
                   failed = is_error \<or> exit_code \<noteq> 0 \<or> truncated;
                   answer = (case result of None \<Rightarrow> JStr []
                             | Some r \<Rightarrow> (case jget r (U ''result'') of None \<Rightarrow> JStr [] | Some v \<Rightarrow> v));
                   (output, odd) = (case answer of JStr t \<Rightarrow> (t, False) | _ \<Rightarrow> ([], True))
               in ebind (if truncated then Inr (Some (U ''output_limit''))
                         else if failed then
                           ebind (safe_error_from_status (case result of None \<Rightarrow> JNull | Some r \<Rightarrow> fld r ''api_error_status''))
                             (\<lambda>c. Inr (Some c))
                         else Inr None) (\<lambda>err.
                  ebind (make_meta num (U ''claude'') cli_version schema (if failed then U ''failed'' else U ''done'') err exit_code
                           truncated usage (sum_list (map tool_uses events)) (int (length events))
                           (if parse_partial \<or> odd \<or> truncated \<or> result = None \<or> usage = None then U ''partial'' else U ''ok''))
                    (\<lambda>m. ebind (bounded_output output) (\<lambda>out. Inr \<lparr>pt_output = out, pt_meta = m\<rparr>)))))"

section \<open>The envelope of a vendor's executions\<close>

definition hex_text :: "nat \<Rightarrow> json \<Rightarrow> bool" where
  "hex_text n v \<longleftrightarrow> (case v of JStr s \<Rightarrow> length s = n \<and> set s \<subseteq> set (U ''0123456789abcdef'') | _ \<Rightarrow> False)"

definition CHUNK_KEYS :: "string list" where
  "CHUNK_KEYS =
     [''index'', ''status'', ''safe_error_code'', ''duration_ms'', ''input_tokens'', ''cached_input_tokens'',
      ''output_tokens'', ''reasoning_output_tokens'', ''total_tokens'', ''tool_calls'', ''event_count'',
      ''stream_truncated'', ''telemetry_status'', ''cli_name'', ''cli_version'', ''event_schema'', ''chunk_hash'',
      ''context_hash'', ''chunker_version'', ''prompt_nonce'', ''scope_reassigned'', ''scope_rejected'',
      ''duplicate_groups'']"

definition validate_execution_chunk :: "json \<Rightarrow> exn option" where
  "validate_execution_chunk v =
     (case v of
        JObj c \<Rightarrow>
          if \<not> has_keys CHUNK_KEYS c then Some (ValueError (U ''invalid execution chunk keys''))
          else first_error
            ([check ''invalid execution chunk index'' (is_json_int (fld c ''index'') \<and> opt_count (fld c ''index'')),
              check_in ''invalid execution chunk status'' (texts [''done'', ''failed'', ''timeout'', ''canceled''])
                (fld c ''status''),
              check_in ''invalid execution chunk error'' SAFE_ERROR_CODES (fld c ''safe_error_code''),
              check_in ''invalid execution chunk telemetry status'' (texts [''ok'', ''partial'', ''unavailable''])
                (fld c ''telemetry_status''),
              check ''invalid execution chunk truncation'' (is_json_bool (fld c ''stream_truncated''))] @
             map (\<lambda>k. check ''invalid execution chunk numeric field'' (opt_count (fld c k)))
               [''duration_ms'', ''input_tokens'', ''cached_input_tokens'', ''output_tokens'',
                ''reasoning_output_tokens'', ''total_tokens'', ''tool_calls'', ''event_count'', ''scope_reassigned'',
                ''scope_rejected'', ''duplicate_groups''] @
             map (\<lambda>k. check ''invalid execution chunk string field'' (opt_text 128 (fld c k)))
               [''cli_name'', ''cli_version'', ''event_schema'', ''chunk_hash'', ''context_hash'', ''chunker_version''] @
             [check ''invalid execution chunk prompt nonce'' (hex_text 8 (fld c ''prompt_nonce''))])
      | _ \<Rightarrow> Some (ValueError (U ''invalid execution chunk keys'')))"

text \<open>One attempt after an attempt numbered \<open>previous\<close>.\<close>

definition validate_attempt :: "int \<Rightarrow> json \<Rightarrow> exn option" where
  "validate_attempt previous v =
     (case v of
        JObj r \<Rightarrow>
          if \<not> has_keys [''attempt'', ''phase'', ''chunks''] r then Some (ValueError (U ''invalid execution attempt''))
          else first_error
            ([check ''execution attempts must be strictly increasing''
                (case fld r ''attempt'' of JInt i \<Rightarrow> previous < i | _ \<Rightarrow> False),
              check_in ''invalid execution phase'' (texts [''review'', ''verify'']) (fld r ''phase''),
              check ''invalid execution chunks'' (case fld r ''chunks'' of JList cs \<Rightarrow> length cs \<le> 1000 | _ \<Rightarrow> False)] @
             (case fld r ''chunks'' of JList cs \<Rightarrow> map validate_execution_chunk cs | _ \<Rightarrow> []))
      | _ \<Rightarrow> Some (ValueError (U ''invalid execution attempt'')))"

definition attempt_number :: "json \<Rightarrow> int" where
  "attempt_number v = (case v of JObj r \<Rightarrow> (case fld r ''attempt'' of JInt i \<Rightarrow> i | _ \<Rightarrow> 0) | _ \<Rightarrow> 0)"

fun validate_attempts :: "int \<Rightarrow> json list \<Rightarrow> exn option" where
  "validate_attempts previous [] = None"
| "validate_attempts previous (v # vs) =
     (case validate_attempt previous v of
        Some e \<Rightarrow> Some e
      | None \<Rightarrow> validate_attempts (attempt_number v) vs)"

definition FIELD_LIMITS :: "(string \<times> nat) list" where
  "FIELD_LIMITS =
     [(''protocol_version'', 64), (''vendor'', 16), (''model'', 128), (''effort'', 32), (''adapter_name'', 256),
      (''adapter_version'', 128), (''cli_version'', 128), (''event_schema_version'', 128),
      (''chunker_version'', 128), (''scope_policy_mode'', 16), (''dedupe_policy_mode'', 16)]"

fun short_text :: "nat \<Rightarrow> json \<Rightarrow> bool" where
  "short_text n (JStr s) = (length s \<le> n)"
| "short_text n _ = False"

definition validate_execution_envelope :: "(rat \<Rightarrow> pystr) \<Rightarrow> json \<Rightarrow> exn option" where
  "validate_execution_envelope num value =
     (case value of
        JObj v \<Rightarrow>
          if \<not> has_keys (''schema_version'' # ''attempts'' # EXECUTION_IDENTITY_FIELDS) v
          then Some (ValueError (U ''invalid vendor execution envelope''))
          else first_error
            ([check ''unsupported vendor execution envelope schema''
                (py_eq (fld v ''schema_version'') (JInt EXECUTION_SCHEMA_VERSION))] @
             map (\<lambda>(k, n). check ''invalid execution envelope field'' (short_text n (fld v k))) FIELD_LIMITS @
             [check_in ''invalid execution envelope vendor'' (texts VENDORS) (fld v ''vendor'')] @
             map (\<lambda>k. check_in ''invalid execution envelope mode'' (texts [''observe'', ''enforce'']) (fld v k))
               [''scope_policy_mode'', ''dedupe_policy_mode''] @
             map (\<lambda>k. check ''invalid execution envelope hash'' (hex_text 64 (fld v k))) EXECUTION_HASH_FIELDS @
             [check ''invalid execution attempts''
                (case fld v ''attempts'' of JList as \<Rightarrow> length as \<le> 20 | _ \<Rightarrow> False),
              (case fld v ''attempts'' of JList as \<Rightarrow> validate_attempts 0 as | _ \<Rightarrow> None),
              check ''vendor execution envelope exceeds size cap'' (int (length (ascii_json num value)) \<le> MAX_META_BYTES)])
      | _ \<Rightarrow> Some (ValueError (U ''invalid vendor execution envelope'')))"

definition checked_envelope :: "(rat \<Rightarrow> pystr) \<Rightarrow> json \<Rightarrow> exn + json" where
  "checked_envelope num v = (case validate_execution_envelope num v of None \<Rightarrow> Inr v | Some e \<Rightarrow> Inl e)"

definition build_execution_envelope ::
  "(rat \<Rightarrow> pystr) \<Rightarrow> (pystr \<times> json) list \<Rightarrow> int \<Rightarrow> pystr \<Rightarrow> json list \<Rightarrow> exn + json" where
  "build_execution_envelope num identity attempt phase chunks =
     (if \<not> has_keys EXECUTION_IDENTITY_FIELDS identity then Inl (ValueError (U ''invalid vendor execution identity''))
      else checked_envelope num
        (JObj ([(U ''schema_version'', JInt EXECUTION_SCHEMA_VERSION)] @ identity @
               [(U ''attempts'', JList [JObj [(U ''attempt'', JInt attempt), (U ''phase'', JStr phase),
                  (U ''chunks'', JList chunks)]])])))"

definition envelope_attempts :: "json \<Rightarrow> json list" where
  "envelope_attempts v = (case v of JObj e \<Rightarrow> (case fld e ''attempts'' of JList as \<Rightarrow> as | _ \<Rightarrow> []) | _ \<Rightarrow> [])"

definition envelope_field :: "json \<Rightarrow> string \<Rightarrow> json" where
  "envelope_field v k = (case v of JObj e \<Rightarrow> fld e k | _ \<Rightarrow> JNull)"

definition append_execution_attempt :: "(rat \<Rightarrow> pystr) \<Rightarrow> json option \<Rightarrow> json \<Rightarrow> exn + json" where
  "append_execution_attempt num existing addition =
     ebind (checked_envelope num addition) (\<lambda>add.
       case existing of
         None \<Rightarrow> Inr add
       | Some old \<Rightarrow>
           ebind (checked_envelope num old) (\<lambda>old.
             if list_ex (\<lambda>k. \<not> py_eq (envelope_field old k) (envelope_field add k))
                  (''schema_version'' # EXECUTION_IDENTITY_FIELDS)
             then Inl (ValueError (U ''vendor execution envelope identity mismatch''))
             else checked_envelope num
               (case old of JObj e \<Rightarrow> JObj (dict_set (U ''attempts'')
                  (JList (envelope_attempts old @ envelope_attempts add)) e) | v \<Rightarrow> v)))"

section \<open>The public signature of an event stream\<close>

definition PUBLIC_EVENT_KEYS :: "(string \<times> (string \<times> string list) list) list" where
  "PUBLIC_EVENT_KEYS =
     [(''codex-jsonl-v0.144.5'',
        [(''thread.started'', [''type'', ''thread_id'']),
         (''turn.started'', [''type'']),
         (''item.started'', [''type'', ''item'']),
         (''item.updated'', [''type'', ''item'']),
         (''item.completed'', [''type'', ''item'']),
         (''turn.completed'', [''type'', ''usage'']),
         (''turn.failed'', [''type'', ''code'', ''error'']),
         (''error'', [''type'', ''code'', ''error''])]),
      (''claude-json-v2.1.198'',
        [(''system'', [''type'', ''subtype'', ''cwd'']),
         (''assistant'', [''type'', ''message'']),
         (''result'', [''type'', ''subtype'', ''is_error'', ''result'', ''usage'', ''api_error_status''])])]"

text \<open>The allowed keys by event type; no schema has none.\<close>

definition allowed_by_type :: "pystr option \<Rightarrow> (pystr \<times> pystr list) list" where
  "allowed_by_type schema =
     (case schema of
        None \<Rightarrow> []
      | Some s \<Rightarrow>
          (case map_of (map (\<lambda>(k, v). (U k, v)) PUBLIC_EVENT_KEYS) s of
             None \<Rightarrow> []
           | Some ts \<Rightarrow> map (\<lambda>(t, ks). (U t, map U ks)) ts))"

record sig_state =
  ss_signatures :: "(pystr \<times> pystr list) list"
  ss_seen :: "(pystr \<times> pystr list) list"
  ss_keys :: nat
  ss_types :: nat
  ss_sig_truncated :: bool
  ss_count_truncated :: bool

text \<open>The keys of one event that are public; the others are counted up to the limit.\<close>

fun scan_keys :: "pystr list \<Rightarrow> pystr list \<Rightarrow> pystr list \<times> nat \<times> bool \<Rightarrow> pystr list \<times> nat \<times> bool" where
  "scan_keys allowed [] acc = acc"
| "scan_keys allowed (k # ks) (pub, unknown, clipped) =
     (if length k \<le> MAX_PUBLIC_KEY_LENGTH \<and> k \<in> set allowed then scan_keys allowed ks (pub @ [k], unknown, clipped)
      else if unknown < MAX_UNKNOWN_KEY_COUNT then scan_keys allowed ks (pub, Suc unknown, clipped)
      else scan_keys allowed ks (pub, unknown, True))"

definition public_type :: "(pystr \<times> pystr list) list \<Rightarrow> event \<Rightarrow> pystr option" where
  "public_type table e =
     (case jget e (U ''type'') of
        Some (JStr t) \<Rightarrow> if map_of table t \<noteq> None \<and> length t \<le> MAX_PUBLIC_KEY_LENGTH then Some t else None
      | _ \<Rightarrow> None)"

definition signature_step :: "(pystr \<times> pystr list) list \<Rightarrow> sig_state \<Rightarrow> event \<Rightarrow> sig_state" where
  "signature_step table st e =
     (let typ = public_type table e;
          room = ss_types st < MAX_UNKNOWN_KEY_COUNT;
          st1 = (if typ \<noteq> None then st
                 else if room then st\<lparr>ss_types := Suc (ss_types st)\<rparr>
                 else st\<lparr>ss_count_truncated := True\<rparr>);
          allowed = (case typ of None \<Rightarrow> [] | Some t \<Rightarrow> the (map_of table t))
      in case scan_keys allowed (map fst e) ([], ss_keys st1, ss_count_truncated st1) of
           (pub, unknown, clipped) \<Rightarrow>
             let st2 = st1\<lparr>ss_keys := unknown, ss_count_truncated := clipped\<rparr>
             in case typ of
                  None \<Rightarrow> st2
                | Some t \<Rightarrow>
                    let sg = (t, sort_key id pub)
                    in if sg \<in> set (ss_seen st2) then st2
                       else let st3 = st2\<lparr>ss_seen := ss_seen st2 @ [sg]\<rparr>
                            in if length (ss_signatures st3) \<ge> MAX_PUBLIC_SIGNATURES
                               then st3\<lparr>ss_sig_truncated := True\<rparr>
                               else st3\<lparr>ss_signatures := ss_signatures st3 @ [sg]\<rparr>)"

record event_signature =
  es_event_count :: nat
  es_signatures :: "(pystr \<times> pystr list) list"
  es_unknown_keys :: nat
  es_unknown_types :: nat
  es_sig_truncated :: bool
  es_count_truncated :: bool
  es_partial :: bool

definition public_event_signature ::
  "(pystr \<Rightarrow> json option) \<Rightarrow> pystr \<Rightarrow> pystr \<Rightarrow> pystr \<Rightarrow> bool \<Rightarrow> event_signature" where
  "public_event_signature loads payload vendor cli_version attestation =
     (case json_payload loads payload of
        (events, broken) \<Rightarrow>
          let table = allowed_by_type (event_schema vendor (Some cli_version) attestation);
              st = fold (\<lambda>e st. signature_step table st e) events
                \<lparr>ss_signatures = [], ss_seen = [], ss_keys = 0, ss_types = 0, ss_sig_truncated = False,
                 ss_count_truncated = False\<rparr>
          in \<lparr>es_event_count = length events, es_signatures = ss_signatures st, es_unknown_keys = ss_keys st,
              es_unknown_types = ss_types st, es_sig_truncated = ss_sig_truncated st,
              es_count_truncated = ss_count_truncated st, es_partial = broken\<rparr>)"

section \<open>The preflight report\<close>

definition PREFLIGHT_RESULT_KEYS :: "string list" where
  "PREFLIGHT_RESULT_KEYS =
     [''vendor'', ''cli_version'', ''event_schema'', ''exit_code'', ''safe_error_code'', ''event_count'',
      ''signatures'', ''unknown_key_count'', ''unknown_event_type_count'', ''signature_truncated'',
      ''unknown_count_truncated'', ''parse_partial'', ''final_output_present'', ''usage_present'',
      ''tool_calls_present'', ''telemetry_status'', ''stream_truncated'']"

fun is_text :: "json \<Rightarrow> bool" where
  "is_text (JStr s) = True"
| "is_text _ = False"

fun text_of :: "json \<Rightarrow> pystr" where
  "text_of (JStr s) = s"
| "text_of _ = []"

fun is_number :: "json \<Rightarrow> bool" where
  "is_number (JInt i) = True"
| "is_number (JBool b) = True"
| "is_number (JNum q) = True"
| "is_number (JInf neg) = True"
| "is_number JNaN = True"
| "is_number _ = False"

text \<open>\<open>keys != sorted(set(keys))\<close>: members that cannot be hashed or compared raise.\<close>

definition check_signature_keys :: "pystr list \<Rightarrow> json list \<Rightarrow> exn option" where
  "check_signature_keys allowed ks =
     (if list_ex unhashable ks then Some (TypeError (U ''unhashable type''))
      else if \<not> (list_all is_text ks \<or> list_all is_number ks \<or> list_all (\<lambda>k. k = JNull) ks)
      then Some (TypeError (U ''not supported between instances''))
      else check ''invalid preflight signature keys''
        (list_all is_text ks \<and> sorted_wrt (<) (map text_of ks) \<and> list_all (\<lambda>k. text_of k \<in> set allowed) ks))"

definition check_signature :: "(pystr \<times> pystr list) list \<Rightarrow> json \<Rightarrow> exn option" where
  "check_signature table v =
     (case v of
        JObj s \<Rightarrow>
          if \<not> has_keys [''type'', ''keys''] s then Some (ValueError (U ''invalid preflight signature''))
          else if unhashable (fld s ''type'') then Some (TypeError (U ''unhashable type''))
          else (case (fld s ''type'', fld s ''keys'') of
                  (JStr t, JList ks) \<Rightarrow>
                    (case map_of table t of
                       None \<Rightarrow> Some (ValueError (U ''invalid preflight signature type''))
                     | Some allowed \<Rightarrow> check_signature_keys allowed ks)
                | _ \<Rightarrow> Some (ValueError (U ''invalid preflight signature type'')))
      | _ \<Rightarrow> Some (ValueError (U ''invalid preflight signature'')))"

text \<open>The checks of one result whose vendor is one of the two.\<close>

definition check_preflight_result :: "pystr \<Rightarrow> (pystr \<times> json) list \<Rightarrow> exn option" where
  "check_preflight_result vendor r =
     (let cli = fld r ''cli_version'';
          expected = (case cli of JStr c \<Rightarrow> event_schema vendor (Some c) (vendor = U ''claude'') | _ \<Rightarrow> None)
      in first_error
        ([check ''invalid preflight string'' (opt_text 128 cli),
          check ''invalid preflight string'' (opt_text 128 (fld r ''event_schema'')),
          check ''invalid public CLI version'' (cli = JNull \<or> text_json (public_cli_version vendor cli) = cli),
          check ''preflight schema/version mismatch'' (fld r ''event_schema'' = text_json expected),
          check_in ''invalid preflight safe error'' SAFE_ERROR_CODES (fld r ''safe_error_code''),
          check ''invalid preflight exit code'' (fld r ''exit_code'' = JNull \<or> is_json_int (fld r ''exit_code''))] @
         map (\<lambda>k. check ''invalid preflight count''
                (case fld r k of JInt i \<Rightarrow> 0 \<le> i \<and> i \<le> int MAX_UNKNOWN_KEY_COUNT | _ \<Rightarrow> False))
           [''event_count'', ''unknown_key_count'', ''unknown_event_type_count''] @
         map (\<lambda>k. check ''invalid preflight boolean'' (is_json_bool (fld r k)))
           [''signature_truncated'', ''unknown_count_truncated'', ''parse_partial'', ''final_output_present'',
            ''usage_present'', ''tool_calls_present'', ''stream_truncated''] @
         [check_in ''invalid preflight telemetry status'' (texts [''ok'', ''partial'', ''unavailable''])
            (fld r ''telemetry_status''),
          check ''invalid preflight signatures''
            (case fld r ''signatures'' of JList ss \<Rightarrow> length ss \<le> MAX_PUBLIC_SIGNATURES | _ \<Rightarrow> False)] @
         (case fld r ''signatures'' of JList ss \<Rightarrow> map (check_signature (allowed_by_type expected)) ss | _ \<Rightarrow> [])))"

fun check_preflight_results :: "pystr list \<Rightarrow> json list \<Rightarrow> exn option" where
  "check_preflight_results seen [] = None"
| "check_preflight_results seen (v # vs) =
     (case v of
        JObj r \<Rightarrow>
          if \<not> has_keys PREFLIGHT_RESULT_KEYS r then Some (ValueError (U ''invalid preflight result schema''))
          else if unhashable (fld r ''vendor'') then Some (TypeError (U ''unhashable type''))
          else (case fld r ''vendor'' of
                  JStr vendor \<Rightarrow>
                    if vendor \<notin> set (map U VENDORS) \<or> vendor \<in> set seen
                    then Some (ValueError (U ''invalid preflight vendor''))
                    else (case check_preflight_result vendor r of
                            Some e \<Rightarrow> Some e
                          | None \<Rightarrow> check_preflight_results (vendor # seen) vs)
                | _ \<Rightarrow> Some (ValueError (U ''invalid preflight vendor'')))
      | _ \<Rightarrow> Some (ValueError (U ''invalid preflight result schema'')))"

definition encode_preflight_report :: "(rat \<Rightarrow> pystr) \<Rightarrow> json list \<Rightarrow> exn + pystr" where
  "encode_preflight_report num results =
     (if \<not> (1 \<le> length results \<and> length results \<le> 2) then Inl (ValueError (U ''invalid preflight results''))
      else case check_preflight_results [] results of
             Some e \<Rightarrow> Inl e
           | None \<Rightarrow>
               let encoded = ascii_json num (JObj [(U ''schema_version'', JInt 2), (U ''results'', JList results)])
               in if int (length encoded) > MAX_PREFLIGHT_REPORT_BYTES
                  then Inl (ValueError (U ''preflight report exceeds size cap'')) else Inr encoded)"

section \<open>The recorded metadata is free of content\<close>

lemmas meta_dict_simps = meta_dict_def META_KEYS_def fld_def jget_def

lemma meta_fields:
  "fld (meta_dict m) ''schema_version'' = JInt 1"
  "fld (meta_dict m) ''cli_name'' = JStr (em_cli_name m)"
  "fld (meta_dict m) ''status'' = JStr (em_status m)"
  "fld (meta_dict m) ''safe_error_code'' = text_json (em_error m)"
  "fld (meta_dict m) ''telemetry_status'' = JStr (em_telemetry m)"
  by (simp_all add: meta_dict_simps U_eq_iff SCHEMA_VERSION_def)

lemma checked_meta_fields:
  assumes "checked_meta num m = Inr m'"
  shows "m' = m" "validate_meta num (meta_dict m) = None" "em_cli_name m \<in> set (map U VENDORS)"
    "em_status m \<in> set (map U [''done'', ''failed'', ''timeout'', ''canceled''])"
    "em_telemetry m \<in> set (map U [''ok'', ''partial'', ''unavailable''])"
    "text_json (em_error m) \<in> set SAFE_ERROR_CODES"
proof -
  show "m' = m" and valid: "validate_meta num (meta_dict m) = None"
    using assms by (auto simp: checked_meta_def split: option.splits)
  have first: "list_all (\<lambda>c. c = None)
      [check ''unsupported vendor telemetry schema'' (py_eq (JInt 1) (JInt SCHEMA_VERSION)),
       check_in ''invalid vendor telemetry cli'' (texts VENDORS) (JStr (em_cli_name m)),
       check_in ''invalid vendor telemetry status'' (texts [''done'', ''failed'', ''timeout'', ''canceled'']) (JStr (em_status m)),
       check_in ''invalid telemetry availability'' (texts [''ok'', ''partial'', ''unavailable'']) (JStr (em_telemetry m)),
       check_in ''invalid safe vendor error code'' SAFE_ERROR_CODES (text_json (em_error m))]"
    using valid by (simp add: validate_meta_def first_error_None meta_fields split: if_splits)
  then show "em_cli_name m \<in> set (map U VENDORS)"
    "em_status m \<in> set (map U [''done'', ''failed'', ''timeout'', ''canceled''])"
    "em_telemetry m \<in> set (map U [''ok'', ''partial'', ''unavailable''])"
    "text_json (em_error m) \<in> set SAFE_ERROR_CODES"
    by (auto simp: texts_def)
qed

text \<open>The texts of a metadata record, and the texts that carry no content.\<close>

definition meta_texts :: "exec_meta \<Rightarrow> pystr list" where
  "meta_texts m = concat (map (\<lambda>(k, v). case v of JStr s \<Rightarrow> [s] | _ \<Rightarrow> []) (meta_dict m))"

definition PUBLIC_TEXTS :: "pystr list" where
  "PUBLIC_TEXTS =
     map U (VENDORS @ [''codex-jsonl-v0.144.5'', ''claude-json-v2.1.198'', ''done'', ''failed'', ''timeout'', ''canceled'',
       ''ok'', ''partial'', ''unavailable'']) @ map text_of (tl SAFE_ERROR_CODES)"

lemma str_part [simp]:
  "(case int_json i of JStr s \<Rightarrow> [s] | _ \<Rightarrow> []) = []"
  "set (case text_json t of JStr s \<Rightarrow> [s] | _ \<Rightarrow> []) = set_option t"
  by (simp_all add: int_json_def text_json_def split: option.split)

lemma meta_texts_eq:
  "set (meta_texts m) = {em_cli_name m, em_status m, em_telemetry m} \<union> set_option (em_cli_version m) \<union>
     set_option (em_event_schema m) \<union> set_option (em_error m)"
  by (auto simp: meta_texts_def meta_dict_def META_KEYS_def)

lemma safe_error_public: "text_json c \<in> set SAFE_ERROR_CODES \<Longrightarrow> set_option c \<subseteq> set PUBLIC_TEXTS"
proof (cases c)
  case (Some s)
  assume "text_json c \<in> set SAFE_ERROR_CODES"
  with Some have "JStr s \<in> set (tl SAFE_ERROR_CODES)" by (simp add: text_json_def SAFE_ERROR_CODES_def)
  then have "text_of (JStr s) \<in> text_of ` set (tl SAFE_ERROR_CODES)" by (rule imageI)
  with Some show ?thesis by (simp add: PUBLIC_TEXTS_def)
qed simp

lemma event_schema_public: "event_schema vendor cli att = Some s \<Longrightarrow> s \<in> set PUBLIC_TEXTS"
  by (auto simp: event_schema_def PUBLIC_TEXTS_def split: option.splits if_splits)

lemma checked_meta_public:
  assumes "checked_meta num m = Inr m'" "set_option (em_cli_version m) \<subseteq> {cli}"
    "set_option (em_event_schema m) \<subseteq> set PUBLIC_TEXTS"
  shows "set (meta_texts m') \<subseteq> insert cli (set PUBLIC_TEXTS)"
proof -
  note f = checked_meta_fields[OF assms(1)]
  have "{em_cli_name m, em_status m, em_telemetry m} \<subseteq> set PUBLIC_TEXTS"
    using f(3-5) by (auto simp: PUBLIC_TEXTS_def)
  with f(1) safe_error_public[OF f(6)] assms(2,3) show ?thesis by (auto simp: meta_texts_eq)
qed

text \<open>What holds of every recorded execution: valid, no foreign text, and done only after a clean exit.\<close>

definition clean_record :: "(rat \<Rightarrow> pystr) \<Rightarrow> pystr \<Rightarrow> int \<Rightarrow> exec_meta \<Rightarrow> bool" where
  "clean_record num cli code m \<longleftrightarrow>
     validate_meta num (meta_dict m) = None \<and> set (meta_texts m) \<subseteq> insert cli (set PUBLIC_TEXTS) \<and>
     (em_status m = U ''done'' \<longrightarrow> code = 0 \<and> em_error m = None)"

lemma unavailable_clean:
  assumes "unavailable_meta num vendor (Some cli) (if code = 0 then U ''done'' else U ''failed'')
     (if code = 0 then None else Some err) (Some code) trunc = Inr m"
  shows "clean_record num cli code m"
proof -
  note c = assms[unfolded unavailable_meta_def]
  have "set_option (event_schema vendor (Some cli) False) \<subseteq> set PUBLIC_TEXTS"
    using event_schema_public by auto
  then show ?thesis
    using checked_meta_fields(1,2)[OF c] checked_meta_public[OF c] by (auto simp: clean_record_def U_eq_iff)
qed

lemma make_meta_clean:
  assumes "make_meta num vendor cli schema status err code trunc usage tools events avail = Inr m"
    "event_schema v (Some cli) att = Some schema" "status = U ''done'' \<Longrightarrow> code = 0 \<and> err = None"
  shows "clean_record num cli code m"
proof -
  note c = assms(1)[unfolded make_meta_def Let_def]
  show ?thesis
    using checked_meta_fields(1,2)[OF c] checked_meta_public[OF c] event_schema_public[OF assms(2)] assms(3)
    by (auto simp: clean_record_def)
qed

lemma codex_clean:
  assumes "parse_codex_jsonl num loads payload msg cli code trunc = Inr p"
  shows "clean_record num cli code (pt_meta p)"
proof (cases "event_schema (U ''codex'') (Some cli) False")
  case None
  then show ?thesis
    using assms by (auto simp: parse_codex_jsonl_def ebind_Inr_iff intro: unavailable_clean)
next
  case (Some schema)
  obtain status err usage tools events avail m where
    "make_meta num (U ''codex'') cli schema status err code trunc usage tools events avail = Inr m"
    "pt_meta p = m" "status = U ''done'' \<longrightarrow> code = 0 \<and> err = None"
    using assms Some
    by (auto simp: parse_codex_jsonl_def codex_result_def ebind_Inr_iff Let_def U_eq_iff split: prod.splits if_splits)
  then show ?thesis using make_meta_clean[OF _ Some] by blast
qed

lemma claude_clean:
  assumes "parse_claude_json num loads payload cli code trunc att = Inr p"
  shows "clean_record num cli code (pt_meta p)"
proof (cases "event_schema (U ''claude'') (Some cli) att")
  case None
  then show ?thesis
    using assms by (auto simp: parse_claude_json_def ebind_Inr_iff intro: unavailable_clean)
next
  case (Some schema)
  obtain status err usage tools events avail m where
    "make_meta num (U ''claude'') cli schema status err code trunc usage tools events avail = Inr m"
    "pt_meta p = m" "status = U ''done'' \<longrightarrow> code = 0 \<and> err = None"
    using assms Some
    by (auto simp: parse_claude_json_def ebind_Inr_iff Let_def U_eq_iff split: prod.splits if_splits)
  then show ?thesis using make_meta_clean[OF _ Some] by blast
qed

text \<open>
  C15: the record that either parser returns, whatever the events contain, passes the validator, holds no
  text but the version of the tool and a fixed list of words, and says done only after exit code 0 without an error.
\<close>

theorem telemetry_content_safe:
  assumes "parse_codex_jsonl num loads payload msg cli code trunc = Inr p \<or>
           parse_claude_json num loads payload cli code trunc att = Inr p"
  shows "validate_meta num (meta_dict (pt_meta p)) = None \<and>
    set (meta_texts (pt_meta p)) \<subseteq> insert cli (set PUBLIC_TEXTS) \<and>
    (em_status (pt_meta p) = U ''done'' \<longrightarrow> code = 0 \<and> em_error (pt_meta p) = None)"
  using assms codex_clean claude_clean unfolding clean_record_def by blast

definition sample_events :: "event list" where
  "sample_events =
     [[(U ''type'', JStr (U ''item.completed'')),
       (U ''item'', JObj [(U ''type'', JStr (U ''command_execution'')), (U ''command'', JStr (U ''cat secret''))])],
      [(U ''type'', JStr (U ''turn.completed'')),
       (U ''usage'', JObj [(U ''input_tokens'', JInt 5), (U ''output_tokens'', JInt 7)])]]"

definition sample_loads :: "pystr \<Rightarrow> json option" where
  "sample_loads l = (if l = U ''a'' @ [10] then Some (JObj (sample_events ! 0))
     else if l = U ''b'' then Some (JObj (sample_events ! 1)) else None)"

lemma telemetry_content_safe_witness:
  "case parse_codex_jsonl (\<lambda>q. []) sample_loads (U ''a'' @ [10] @ U ''b'') (U ''out'') (U ''codex-cli 0.144.5'') 0 False of
     Inr p \<Rightarrow> U ''cat secret'' \<notin> set (meta_texts (pt_meta p)) \<and> em_status (pt_meta p) = U ''done'' \<and>
       em_total (pt_meta p) = Some 12 \<and> em_tool_calls (pt_meta p) = Some 1
   | Inl _ \<Rightarrow> False"
proof -
  let ?r = "parse_codex_jsonl (\<lambda>q. []) sample_loads (U ''a'' @ [10] @ U ''b'') (U ''out'') (U ''codex-cli 0.144.5'') 0 False"
  let ?c = "codex_result (\<lambda>q. []) (U ''codex-jsonl-v0.144.5'') sample_events False (U ''out'') (U ''codex-cli 0.144.5'') 0 False"
  have "json_lines sample_loads (U ''a'' @ [10] @ U ''b'') = (sample_events, False)"
    by (simp add: json_lines_def bounded_event_payload_def utf8_length_def utf8_width_def surrogate_def MAX_EVENT_BYTES_def
        io_lines_def MAX_EVENT_LINES_def U_def line_event_def sample_loads_def sample_events_def List.map_filter_simps)
  then have r: "?r = ?c"
    by (simp add: parse_codex_jsonl_def event_schema_def U_eq_iff U_def)
  have c: "case ?c of Inr p \<Rightarrow> em_status (pt_meta p) = U ''done'' \<and> em_total (pt_meta p) = Some 12 \<and>
      em_tool_calls (pt_meta p) = Some 1 | Inl _ \<Rightarrow> False" by code_simp
  then obtain p where p: "?c = Inr p" by (auto split: sum.splits)
  have "set (meta_texts (pt_meta p)) \<subseteq> insert (U ''codex-cli 0.144.5'') (set PUBLIC_TEXTS)"
    using telemetry_content_safe[OF disjI1[OF trans[OF r p]]] by blast
  moreover have "U ''cat secret'' \<notin> insert (U ''codex-cli 0.144.5'') (set PUBLIC_TEXTS)" by code_simp
  ultimately show ?thesis using c p unfolding r by auto
qed

section \<open>The public signature is bounded\<close>

definition sig_inv :: "(pystr \<times> pystr list) list \<Rightarrow> sig_state \<Rightarrow> bool" where
  "sig_inv table st \<longleftrightarrow>
     list_all (\<lambda>(t, ks). \<exists>allowed. map_of table t = Some allowed \<and> set ks \<subseteq> set allowed \<and> sorted ks) (ss_signatures st) \<and>
     set (ss_signatures st) \<subseteq> set (ss_seen st) \<and> distinct (ss_signatures st) \<and>
     length (ss_signatures st) \<le> MAX_PUBLIC_SIGNATURES \<and>
     ss_keys st \<le> MAX_UNKNOWN_KEY_COUNT \<and> ss_types st \<le> MAX_UNKNOWN_KEY_COUNT"

lemma scan_keys_bounds:
  "scan_keys allowed ks (pub, n, c) = (pub', n', c') \<Longrightarrow> n \<le> MAX_UNKNOWN_KEY_COUNT \<Longrightarrow>
   n' \<le> MAX_UNKNOWN_KEY_COUNT \<and> set pub' \<subseteq> set pub \<union> set allowed"
proof (induction ks arbitrary: pub n c)
  case (Cons k ks)
  show ?case
  proof (cases "length k \<le> MAX_PUBLIC_KEY_LENGTH \<and> k \<in> set allowed")
    case True
    then show ?thesis using Cons.prems Cons.IH[of "pub @ [k]" n c] by auto
  next
    case no: False
    show ?thesis
    proof (cases "n < MAX_UNKNOWN_KEY_COUNT")
      case True
      then show ?thesis using no Cons.prems(1) Cons.IH[of pub "Suc n" c] by (simp only: scan_keys.simps if_False if_True Suc_leI)
    next
      case False
      then show ?thesis using no Cons.prems Cons.IH[of pub n True] by (simp only: scan_keys.simps if_False)
    qed
  qed
qed simp

lemma signature_step_inv:
  assumes "sig_inv table st"
  shows "sig_inv table (signature_step table st e)"
proof -
  let ?ty = "public_type table e"
  define st1 where "st1 = (if ?ty \<noteq> None then st
     else if ss_types st < MAX_UNKNOWN_KEY_COUNT then st\<lparr>ss_types := Suc (ss_types st)\<rparr> else st\<lparr>ss_count_truncated := True\<rparr>)"
  define allowed where "allowed = (case ?ty of None \<Rightarrow> [] | Some t \<Rightarrow> the (map_of table t))"
  obtain pub n c where scan: "scan_keys allowed (map fst e) ([], ss_keys st1, ss_count_truncated st1) = (pub, n, c)"
    by (cases "scan_keys allowed (map fst e) ([], ss_keys st1, ss_count_truncated st1)")
  have i1: "sig_inv table st1" using assms by (auto simp: st1_def sig_inv_def)
  then have b: "n \<le> MAX_UNKNOWN_KEY_COUNT" "set pub \<subseteq> set allowed"
    using scan_keys_bounds[OF scan] by (auto simp: sig_inv_def)
  let ?st2 = "st1\<lparr>ss_keys := n, ss_count_truncated := c\<rparr>"
  have i2: "sig_inv table ?st2" using i1 b by (simp add: sig_inv_def)
  show ?thesis
  proof (cases ?ty)
    case None
    then have "signature_step table st e = ?st2"
      using scan by (simp add: signature_step_def Let_def st1_def allowed_def)
    then show ?thesis using i2 by simp
  next
    case (Some t)
    then obtain as where as: "map_of table t = Some as" by (auto simp: public_type_def split: option.splits json.splits if_splits)
    let ?sg = "(t, sort_key id pub)"
    have "signature_step table st e =
        (if ?sg \<in> set (ss_seen ?st2) then ?st2
         else let st3 = ?st2\<lparr>ss_seen := ss_seen ?st2 @ [?sg]\<rparr>
              in if length (ss_signatures st3) \<ge> MAX_PUBLIC_SIGNATURES then st3\<lparr>ss_sig_truncated := True\<rparr>
                 else st3\<lparr>ss_signatures := ss_signatures st3 @ [?sg]\<rparr>)"
      using scan Some by (simp add: signature_step_def Let_def st1_def allowed_def)
    moreover have "sorted (sort_key id pub)" by (metis list.map_id sorted_sort_key)
    ultimately show ?thesis
      using i2 b(2) as Some by (auto simp: sig_inv_def allowed_def Let_def)
  qed
qed

text \<open>
  A public signature names only reviewed event types and keys of the exact schema, each signature once and
  sorted, and its lists and counters stay within their limits.
\<close>

lemma signature_is_public:
  "list_all (\<lambda>(t, ks). \<exists>allowed. map_of (allowed_by_type (event_schema vendor (Some cli) att)) t = Some allowed \<and>
      set ks \<subseteq> set allowed \<and> sorted ks) (es_signatures (public_event_signature loads payload vendor cli att)) \<and>
   distinct (es_signatures (public_event_signature loads payload vendor cli att)) \<and>
   length (es_signatures (public_event_signature loads payload vendor cli att)) \<le> 64 \<and>
   es_unknown_keys (public_event_signature loads payload vendor cli att) \<le> 100000 \<and>
   es_unknown_types (public_event_signature loads payload vendor cli att) \<le> 100000"
proof -
  let ?table = "allowed_by_type (event_schema vendor (Some cli) att)"
  have "sig_inv ?table (fold (\<lambda>e st. signature_step ?table st e) es st)" if "sig_inv ?table st" for es st
    using that by (induction es arbitrary: st) (simp_all add: signature_step_inv)
  moreover have "sig_inv ?table \<lparr>ss_signatures = [], ss_seen = [], ss_keys = 0, ss_types = 0,
      ss_sig_truncated = False, ss_count_truncated = False\<rparr>" by (simp add: sig_inv_def)
  ultimately show ?thesis
    by (auto simp: public_event_signature_def Let_def sig_inv_def MAX_PUBLIC_SIGNATURES_def MAX_UNKNOWN_KEY_COUNT_def
        split: prod.splits)
qed

section \<open>How many chunks an envelope can hold\<close>

lemma length_join_text: "sum_list (map length xs) \<le> length (join_text sep xs)"
proof (induction xs)
  case (Cons x xs)
  then show ?case by (cases "xs = []") (simp_all add: join_text_Cons)
qed simp

lemma json_char_length: "1 \<le> length (json_char c)"
  by (simp add: json_char_def)

lemma json_string_length: "length s + 2 \<le> length (json_string s)"
proof -
  have "length s \<le> length (concat (map json_char s))"
  proof (induction s)
    case (Cons c s)
    then show ?case using json_char_length[of c] by simp
  qed simp
  then show ?thesis by (simp add: json_string_def)
qed

lemma ascii_list_length: "sum_list (map (length \<circ> ascii_json num) vs) \<le> length (ascii_json num (JList vs))"
  using length_join_text[of "map (print_json json_string num) vs" "U '',''"]
  by (simp add: ascii_json_def o_def)

text \<open>A printed object is at least as long as its keys and its members together.\<close>

lemma ascii_obj_length:
  "sum_list (map (\<lambda>(k, v). length k + 3 + length (ascii_json num v)) kvs) \<le> length (ascii_json num (JObj kvs))"
proof -
  let ?m = "\<lambda>kt. json_string (fst kt) @ U '':'' @ snd kt" and ?p = "\<lambda>kv. (fst kv, print_json json_string num (snd kv))"
  let ?ps = "map ?p kvs"
  have "length (fst x) + 3 + length (ascii_json num (snd x)) \<le> length (?m (?p x))" for x
    using json_string_length[of "fst x"] by (simp add: ascii_json_def)
  then have "sum_list (map (\<lambda>x. length (fst x) + 3 + length (ascii_json num (snd x))) kvs) \<le> sum_list (map (\<lambda>x. length (?m (?p x))) kvs)"
    by (intro sum_list_mono)
  also have "\<dots> = sum_mset (image_mset (\<lambda>x. length (?m x)) (mset ?ps))"
    by (simp add: sum_mset_sum_list image_mset.compositionality o_def flip: mset_map)
  also have "\<dots> = sum_mset (image_mset (\<lambda>x. length (?m x)) (mset (sort_key fst ?ps)))" by (simp only: mset_sort)
  also have "\<dots> = sum_list (map length (map ?m (sort_key fst ?ps)))"
    by (simp only: sum_mset_sum_list mset_map[symmetric] map_map o_def)
  also have "\<dots> \<le> length (join_text (U '','') (map ?m (sort_key fst ?ps)))" by (rule length_join_text)
  also have "\<dots> \<le> length (ascii_json num (JObj kvs))"
    by (simp add: ascii_json_def case_prod_beta')
  finally show ?thesis by (simp only: case_prod_beta')
qed

lemma ascii_member_length:
  assumes "jget kvs k = Some v"
  shows "length (ascii_json num v) \<le> length (ascii_json num (JObj kvs))"
proof -
  have "(k, v) \<in> set kvs" using assms by (simp add: jget_def map_of_SomeD)
  then have "length k + 3 + length (ascii_json num v) \<le> sum_list (map (\<lambda>(k, v). length k + 3 + length (ascii_json num v)) kvs)"
    by (intro member_le_sum_list) (auto intro!: image_eqI[of _ _ "(k, v)"])
  with ascii_obj_length[where num = num and kvs = kvs] show ?thesis by linarith
qed

lemma sum_set_le_sum_list: "sum f (set xs) \<le> sum_list (map f xs)" for f :: "'a \<Rightarrow> nat"
  by (induction xs) (auto simp: sum.insert_if intro: le_SucI trans_le_add2)

lemma chunk_length:
  assumes "validate_execution_chunk v = None"
  shows "364 \<le> length (ascii_json num v)"
proof -
  obtain c where v: "v = JObj c" and ks: "set (map fst c) = set (map U CHUNK_KEYS)"
    using assms by (auto simp: validate_execution_chunk_def has_keys_def split: json.splits if_splits)
  have "364 = sum_list (map (\<lambda>k. length k + 3) (map U CHUNK_KEYS))" by (simp add: CHUNK_KEYS_def)
  also have "\<dots> = sum (\<lambda>k. length k + 3) (set (map U CHUNK_KEYS))"
    by (rule sum_list_distinct_conv_sum_set) (simp add: CHUNK_KEYS_def U_eq_iff)
  also have "\<dots> = sum (\<lambda>k. length k + 3) (set (map fst c))" by (simp only: ks)
  also have "\<dots> \<le> sum_list (map (\<lambda>k. length k + 3) (map fst c))" by (rule sum_set_le_sum_list)
  also have "\<dots> \<le> sum_list (map (\<lambda>(k, v). length k + 3 + length (ascii_json num v)) c)"
    unfolding map_map by (intro sum_list_mono) auto
  finally show ?thesis unfolding v using ascii_obj_length[where num = num and kvs = c] by (rule order_trans)
qed

definition attempt_chunks :: "json \<Rightarrow> json list" where
  "attempt_chunks v = (case v of JObj r \<Rightarrow> (case fld r ''chunks'' of JList cs \<Rightarrow> cs | _ \<Rightarrow> []) | _ \<Rightarrow> [])"

lemma attempt_valid:
  assumes "validate_attempt p v = None"
  shows "p < attempt_number v" "364 * length (attempt_chunks v) \<le> length (ascii_json num v)"
proof -
  obtain r where v: "v = JObj r" using assms by (cases v) (simp_all add: validate_attempt_def)
  then have ok: "case fld r ''attempt'' of JInt i \<Rightarrow> p < i | _ \<Rightarrow> False"
      "case fld r ''chunks'' of JList cs \<Rightarrow> length cs \<le> 1000 | _ \<Rightarrow> False"
      "list_all (\<lambda>c. c = None) (case fld r ''chunks'' of JList cs \<Rightarrow> map validate_execution_chunk cs | _ \<Rightarrow> [])"
    using assms by (simp_all add: validate_attempt_def first_error_None split: if_splits)
  obtain i where "fld r ''attempt'' = JInt i" "p < i" using ok(1) by (cases "fld r ''attempt''") simp_all
  moreover obtain cs where "fld r ''chunks'' = JList cs" using ok(2) by (cases "fld r ''chunks''") simp_all
  ultimately have r: "v = JObj r" "fld r ''attempt'' = JInt i" "p < i" "fld r ''chunks'' = JList cs"
      "\<forall>c\<in>set cs. validate_execution_chunk c = None"
    using v ok(3) by (simp_all add: list_all_iff)
  then show "p < attempt_number v" by (simp add: attempt_number_def)
  have "364 * length cs = sum_list (map (\<lambda>_. 364) cs)" by (simp add: sum_list_triv)
  also have "\<dots> \<le> sum_list (map (length \<circ> ascii_json num) cs)"
    by (rule sum_list_mono) (simp add: r(5) chunk_length)
  also have "\<dots> \<le> length (ascii_json num (JList cs))" by (rule ascii_list_length)
  also have "\<dots> \<le> length (ascii_json num v)"
    using r(1,4) ascii_member_length[of r "U ''chunks''"] by (auto simp: fld_def split: option.splits)
  finally show "364 * length (attempt_chunks v) \<le> length (ascii_json num v)"
    using r(1,4) by (simp add: attempt_chunks_def)
qed

lemma attempts_valid:
  "validate_attempts p as = None \<Longrightarrow>
   sorted_wrt (<) (p # map attempt_number as) \<and>
   364 * length (concat (map attempt_chunks as)) \<le> sum_list (map (length \<circ> ascii_json num) as)"
proof (induction as arbitrary: p)
  case (Cons a as)
  then have "validate_attempt p a = None" "validate_attempts (attempt_number a) as = None"
    by (auto split: option.splits)
  with Cons.IH[of "attempt_number a"] attempt_valid(1)[of p a] attempt_valid(2)[of p a num] show ?case by auto
qed simp

lemma envelope_valid:
  assumes "validate_execution_envelope num v = None"
  shows "length (envelope_attempts v) \<le> 20" "sorted_wrt (<) (0 # map attempt_number (envelope_attempts v))"
    "length (concat (map attempt_chunks (envelope_attempts v))) \<le> 180"
proof -
  obtain e as where e: "v = JObj e" "fld e ''attempts'' = JList as" "length as \<le> 20"
      "validate_attempts 0 as = None" "int (length (ascii_json num v)) \<le> MAX_META_BYTES"
    using assms by (auto simp: validate_execution_envelope_def first_error_None split: json.splits if_splits)
  then have as: "envelope_attempts v = as" by (simp add: envelope_attempts_def)
  note w = attempts_valid[where num = num, OF e(4)]
  have "364 * length (concat (map attempt_chunks as)) \<le> length (ascii_json num (JList as))"
    using w ascii_list_length[of num as] by linarith
  also have "\<dots> \<le> length (ascii_json num v)"
    using e(1,2) ascii_member_length[of e "U ''attempts''"] by (auto simp: fld_def split: option.splits)
  finally show "length (concat (map attempt_chunks (envelope_attempts v))) \<le> 180"
    using e(5) by (simp add: MAX_META_BYTES_def as)
  show "length (envelope_attempts v) \<le> 20" "sorted_wrt (<) (0 # map attempt_number (envelope_attempts v))"
    using e(3) w by (simp_all add: as)
qed

text \<open>
  Appending an attempt to a stored envelope gives a valid envelope with the attempts of both in order,
  numbered strictly upwards from 1, under the stored identity; and with the size limit it never holds more than
  180 chunks, although the validator allows 1000 chunks in each of 20 attempts.
\<close>

lemma append_keeps_envelope:
  assumes "append_execution_attempt num (Some old) add = Inr e"
  shows "validate_execution_envelope num e = None \<and>
    envelope_attempts e = envelope_attempts old @ envelope_attempts add \<and>
    list_all (\<lambda>k. envelope_field e k = envelope_field old k \<and> py_eq (envelope_field old k) (envelope_field add k))
      (''schema_version'' # EXECUTION_IDENTITY_FIELDS) \<and>
    sorted_wrt (<) (0 # map attempt_number (envelope_attempts e)) \<and> length (envelope_attempts e) \<le> 20 \<and>
    length (concat (map attempt_chunks (envelope_attempts e))) \<le> 180"
proof -
  from assms have valid: "validate_execution_envelope num old = None" "validate_execution_envelope num add = None"
    and same: "\<not> list_ex (\<lambda>k. \<not> py_eq (envelope_field old k) (envelope_field add k)) (''schema_version'' # EXECUTION_IDENTITY_FIELDS)"
    and e: "checked_envelope num (case old of JObj e \<Rightarrow> JObj (dict_set (U ''attempts'')
              (JList (envelope_attempts old @ envelope_attempts add)) e) | v \<Rightarrow> v) = Inr e"
    by (auto simp: append_execution_attempt_def ebind_Inr_iff checked_envelope_def split: option.splits if_splits)
  obtain o1 where o1: "old = JObj o1"
    using valid(1) by (cases old) (simp_all add: validate_execution_envelope_def)
  with e have v: "validate_execution_envelope num e = None"
    and e': "e = JObj (dict_set (U ''attempts'') (JList (envelope_attempts old @ envelope_attempts add)) o1)"
    by (auto simp: checked_envelope_def split: option.splits)
  have attempts: "envelope_attempts e = envelope_attempts old @ envelope_attempts add"
    by (simp add: e' envelope_attempts_def fld_def jget_def)
  have "envelope_field e k = envelope_field old k" if "k \<noteq> ''attempts''" for k
    using that by (simp add: e' o1 envelope_field_def fld_def jget_def U_eq_iff)
  moreover have "''attempts'' \<notin> set (''schema_version'' # EXECUTION_IDENTITY_FIELDS)"
    by (simp add: EXECUTION_IDENTITY_FIELDS_def)
  ultimately have keep: "envelope_field e k = envelope_field old k"
    if "k \<in> set (''schema_version'' # EXECUTION_IDENTITY_FIELDS)" for k using that by metis
  show ?thesis
    using same unfolding list_all_iff list_ex_iff
    by (intro conjI ballI v attempts envelope_valid[OF v]) (simp_all only: keep not_not bex_simps ball_simps)
qed

definition sample_identity :: "(pystr \<times> json) list" where
  "sample_identity =
     map (\<lambda>k. (U k, JStr (if k \<in> set EXECUTION_HASH_FIELDS then replicate 64 97
        else if k = ''vendor'' then U ''codex'' else if k \<in> set [''scope_policy_mode'', ''dedupe_policy_mode''] then U ''observe''
        else U ''x''))) EXECUTION_IDENTITY_FIELDS"

definition sample_envelope :: "int \<Rightarrow> json" where
  "sample_envelope n =
     JObj ([(U ''schema_version'', JInt EXECUTION_SCHEMA_VERSION)] @ sample_identity @
           [(U ''attempts'', JList [JObj [(U ''attempt'', JInt n), (U ''phase'', JStr (U ''review'')), (U ''chunks'', JList [])]])])"


end
