(* ===== verification/Review_Findings.thy ===== *)
theory Review_Findings
  imports Json "HOL-Library.Multiset"
begin

text \<open>
  The findings of the vendors: the record of \<open>models.py\<close>, the reader of a vendor's answer
  (\<open>review/json_block.py\<close>, \<open>review/findings_schema.py\<close>), the grouping of findings of several vendors
  (\<open>review/merge.py\<close>) and the texts posted to GitHub and Slack (\<open>formatter.py\<close>, \<open>slack/format.py\<close>).
\<close>

section \<open>A finding in memory\<close>

record model_finding =
  mf_vendor :: pystr
  mf_file :: pystr
  mf_line :: int
  mf_severity :: pystr
  mf_category :: pystr
  mf_claim :: pystr
  mf_rationale :: pystr
  mf_confidence :: rat
  mf_vendor_result :: "nat option"
  mf_verify_status :: "pystr option"
  mf_verify_rationale :: "pystr option"
  mf_verify_independent :: "bool option"
  mf_evidence :: "pystr option"
  mf_source_chunk :: "nat option"
  mf_owner_chunk :: "nat option"
  mf_scope :: "pystr option"
  mf_eligible :: bool
  mf_group :: "nat option"
  mf_suggested :: bool

section \<open>The last JSON block of an answer\<close>

text \<open>
  The regular expression matches three backquotes, an optional \<open>json\<close>, white space, a text from a brace
  to the first brace that is followed by white space and three backquotes.
\<close>

definition FENCE :: pystr where
  "FENCE = [96, 96, 96]"

fun fence_close :: "pystr \<Rightarrow> pystr \<Rightarrow> (pystr \<times> pystr) option" where
  "fence_close acc [] = None"
| "fence_close acc (c # s) =
     (let r = dropWhile is_space s
      in if c = 125 \<and> startswith r FENCE then Some (rev (125 # acc), drop 3 r)
         else fence_close (c # acc) s)"

definition fence_at :: "pystr \<Rightarrow> (pystr \<times> pystr) option" where
  "fence_at s =
     (if \<not> startswith s FENCE then None
      else let r = drop 3 s;
               r' = dropWhile is_space (if startswith r (U ''json'') then drop 4 r else r)
           in case r' of c # b \<Rightarrow> if c = 123 then fence_close [123] b else None | [] \<Rightarrow> None)"

lemma fence_close_shorter: "fence_close acc s = Some (g, r) \<Longrightarrow> length r < length s"
proof (induction acc s rule: fence_close.induct)
  case (2 acc c s)
  show ?case
  proof (cases "c = 125 \<and> startswith (dropWhile is_space s) FENCE")
    case True
    with "2.prems" have "r = drop 3 (dropWhile is_space s)" by (simp add: Let_def)
    with length_dropWhile_le[of is_space s] show ?thesis by simp
  next
    case False
    with 2 show ?thesis by (auto simp: Let_def split: if_splits)
  qed
qed simp

lemma fence_at_shorter: "fence_at s = Some (g, r) \<Longrightarrow> length r < length s"
proof -
  assume found: "fence_at s = Some (g, r)"
  define t where "t = (if startswith (drop 3 s) (U ''json'') then drop 4 (drop 3 s) else drop 3 s)"
  from found obtain c b where b: "dropWhile is_space t = c # b" "fence_close [123] b = Some (g, r)"
    by (auto simp: fence_at_def Let_def t_def split: if_splits list.splits)
  have "length (c # b) \<le> length t" unfolding b(1)[symmetric] by (rule length_dropWhile_le)
  moreover have "length t \<le> length s" by (simp add: t_def)
  ultimately show ?thesis using fence_close_shorter[OF b(2)] by simp
qed

function fences :: "pystr \<Rightarrow> pystr list" where
  "fences s =
     (case s of [] \<Rightarrow> []
      | c # cs \<Rightarrow> (case fence_at s of None \<Rightarrow> fences cs | Some (g, r) \<Rightarrow> g # fences r))"
  by pat_completeness auto
termination
  by (relation "measure length") (auto dest: fence_at_shorter)

declare fences.simps [simp del]

text \<open>\<open>loads\<close> stands for \<open>json.loads\<close> on a text that begins with a brace: an object or the message.\<close>

definition last_json_block ::
  "(pystr \<Rightarrow> pystr + (pystr \<times> json) list) \<Rightarrow> pystr \<Rightarrow> exn + (pystr \<times> json) list" where
  "last_json_block loads raw =
     (case fences raw of
        [] \<Rightarrow> Inl (ValueError [51025, 45813, 50640, 32, 74, 83, 79, 78, 32, 48660, 47197, 51060, 32, 50630, 51020])
      | g # gs \<Rightarrow>
          (case loads (last (g # gs)) of Inl m \<Rightarrow> Inl (OtherError (U ''JSONDecodeError'') m) | Inr d \<Rightarrow> Inr d))"

section \<open>Reading the findings of a vendor\<close>

definition SEVERITIES :: "pystr list" where
  "SEVERITIES = [U ''critical'', U ''high'', U ''medium'', U ''low'']"

definition CATEGORIES :: "pystr list" where
  "CATEGORIES = [U ''bug'', U ''security'', U ''perf'', U ''style'', U ''other'']"

text \<open>The \<open>int\<close> and \<open>float\<close> constructors; \<open>None\<close> where they raise one of the caught exceptions.\<close>

fun int_digits :: "bool \<Rightarrow> int \<Rightarrow> nat \<Rightarrow> pystr \<Rightarrow> (int \<times> nat) option" where
  "int_digits after_digit n k [] = (if after_digit then Some (n, k) else None)"
| "int_digits after_digit n k (c # s) =
     (if c = 95 then (if after_digit then int_digits False n k s else None)
      else (case digit_val c of None \<Rightarrow> None | Some d \<Rightarrow> int_digits True (10 * n + d) (k + 1) s))"

definition int_of_text :: "pystr \<Rightarrow> int option" where
  "int_of_text s =
     (let t = strip s;
          neg = startswith t (U ''-'');
          body = (if neg \<or> startswith t (U ''+'') then tl t else t)
      in case int_digits False 0 0 body of
           None \<Rightarrow> None
         | Some (n, k) \<Rightarrow> if k > 4300 then None else Some (if neg then - n else n))"

fun py_int :: "json \<Rightarrow> int option" where
  "py_int (JInt i) = Some i"
| "py_int (JBool b) = Some (if b then 1 else 0)"
| "py_int (JNum q) = Some (if q < 0 then \<lceil>q\<rceil> else \<lfloor>q\<rfloor>)"
| "py_int (JStr s) = int_of_text s"
| "py_int _ = None"

text \<open>\<open>of_text\<close> rounds a decimal text to a float, if it is one.\<close>

fun py_float :: "(pystr \<Rightarrow> json option) \<Rightarrow> json \<Rightarrow> json option" where
  "py_float of_text (JInt i) = Some (JNum (of_int i))"
| "py_float of_text (JBool b) = Some (JNum (if b then 1 else 0))"
| "py_float of_text (JNum q) = Some (JNum q)"
| "py_float of_text (JInf b) = Some (JInf b)"
| "py_float of_text JNaN = Some JNaN"
| "py_float of_text (JStr s) = of_text s"
| "py_float _ _ = None"

definition confidence_of :: "(pystr \<Rightarrow> json option) \<Rightarrow> json \<Rightarrow> rat" where
  "confidence_of of_text v =
     (case py_float of_text v of
        Some (JNum q) \<Rightarrow> if 0 \<le> q \<and> q \<le> 1 then q else 1 / 2
      | _ \<Rightarrow> 1 / 2)"

text \<open>\<open>v if v in names else dflt\<close>: a list or an object cannot be hashed, so the test raises.\<close>

fun known_or :: "pystr list \<Rightarrow> pystr \<Rightarrow> json option \<Rightarrow> exn + pystr" where
  "known_or names dflt (Some (JStr s)) = Inr (if s \<in> set names then s else dflt)"
| "known_or names dflt (Some (JList xs)) = Inl (TypeError (U ''unhashable type: list''))"
| "known_or names dflt (Some (JObj kvs)) = Inl (TypeError (U ''unhashable type: dict''))"
| "known_or names dflt _ = Inr dflt"

text \<open>\<open>str(v)\<close>; \<open>repr_of\<close> is Python's rendering of a value that is not a text.\<close>

fun py_str :: "(json \<Rightarrow> pystr) \<Rightarrow> json \<Rightarrow> pystr" where
  "py_str repr_of (JStr s) = s"
| "py_str repr_of v = repr_of v"

fun well_formed_item :: "json \<Rightarrow> bool" where
  "well_formed_item (JObj it) = (jget it (U ''file'') \<noteq> None \<and> jget it (U ''claim'') \<noteq> None)"
| "well_formed_item _ = False"

definition get_or :: "(pystr \<times> json) list \<Rightarrow> string \<Rightarrow> json \<Rightarrow> json" where
  "get_or it k dflt = (case jget it (U k) of None \<Rightarrow> dflt | Some v \<Rightarrow> v)"

definition new_finding ::
  "pystr \<Rightarrow> pystr \<Rightarrow> int \<Rightarrow> pystr \<Rightarrow> pystr \<Rightarrow> pystr \<Rightarrow> pystr \<Rightarrow> rat \<Rightarrow> model_finding" where
  "new_finding vendor path line sev cat claim rationale conf =
     \<lparr>mf_vendor = vendor, mf_file = path, mf_line = line, mf_severity = sev, mf_category = cat,
      mf_claim = claim, mf_rationale = rationale, mf_confidence = conf, mf_vendor_result = None,
      mf_verify_status = None, mf_verify_rationale = None, mf_verify_independent = None, mf_evidence = None,
      mf_source_chunk = None, mf_owner_chunk = None, mf_scope = None, mf_eligible = True, mf_group = None,
      mf_suggested = False\<rparr>"

definition read_item ::
  "(pystr \<Rightarrow> json option) \<Rightarrow> (json \<Rightarrow> pystr) \<Rightarrow> pystr \<Rightarrow> json \<Rightarrow> exn + model_finding" where
  "read_item of_text repr_of vendor v =
     (case v of
        JObj it \<Rightarrow>
          ebind (known_or SEVERITIES (U ''medium'') (jget it (U ''severity''))) (\<lambda>sev.
          ebind (known_or CATEGORIES (U ''other'') (jget it (U ''category''))) (\<lambda>cat.
            Inr (new_finding vendor (py_str repr_of (get_or it ''file'' JNull))
                   (case py_int (get_or it ''line'' (JInt 0)) of None \<Rightarrow> 0 | Some i \<Rightarrow> i) sev cat
                   (py_str repr_of (get_or it ''claim'' JNull)) (py_str repr_of (get_or it ''rationale'' (JStr [])))
                   (confidence_of of_text (get_or it ''confidence'' (JNum (1 / 2)))))))
      | _ \<Rightarrow> Inl (TypeError []))"

definition schema_error :: "pystr \<Rightarrow> exn" where
  "schema_error m = OtherError (U ''SchemaError'') m"

definition parse_findings ::
  "(pystr \<Rightarrow> pystr + (pystr \<times> json) list) \<Rightarrow> (pystr \<Rightarrow> json option) \<Rightarrow> (json \<Rightarrow> pystr) \<Rightarrow> pystr \<Rightarrow> pystr
   \<Rightarrow> exn + model_finding list" where
  "parse_findings loads of_text repr_of vendor raw =
     (case last_json_block loads raw of
        Inl (OtherError k m) \<Rightarrow> Inl (schema_error ([74, 83, 79, 78, 32, 54028, 49905, 32, 49892, 54056, 58, 32] @ m))
      | Inl (ValueError m) \<Rightarrow> Inl (schema_error m)
      | Inl e \<Rightarrow> Inl e
      | Inr d \<Rightarrow>
          (case jget d (U ''findings'') of
             Some (JList items) \<Rightarrow>
               ebind (emap (read_item of_text repr_of vendor) (filter well_formed_item items)) (\<lambda>out.
                 if items \<noteq> [] \<and> out = []
                 then Inl (schema_error (U ''finding '' @ nat_text (length items) @
                        [44148, 32, 51204, 48512, 32, 54805, 49885, 32, 50724, 47448, 40, 102, 105, 108, 101, 47, 99,
                         108, 97, 105, 109, 32, 45572, 46973, 41]))
                 else Inr out)
           | _ \<Rightarrow> Inl (schema_error [102, 105, 110, 100, 105, 110, 103, 115, 32, 48176, 50676, 32, 50630, 51020])))"

section \<open>Grouping the findings of several vendors\<close>

definition LINE_PROXIMITY :: int where
  "LINE_PROXIMITY = 5"

record merged_finding =
  mg_finding :: model_finding
  mg_consensus :: pystr
  mg_group :: nat

text \<open>The test of a finding against the head of a group.\<close>

definition close_to :: "model_finding \<Rightarrow> model_finding \<Rightarrow> bool" where
  "close_to h f \<longleftrightarrow>
     mf_file h = mf_file f \<and> mf_category h = mf_category f \<and> \<bar>mf_line h - mf_line f\<bar> \<le> LINE_PROXIMITY"

text \<open>The inner loop: the first group whose head is close, else a new group at the end.\<close>

fun place :: "model_finding \<Rightarrow> model_finding list list \<Rightarrow> model_finding list list" where
  "place f [] = [[f]]"
| "place f (g # gs) = (if close_to (hd g) f then (g @ [f]) # gs else g # place f gs)"

definition merge_groups :: "model_finding list \<Rightarrow> model_finding list list" where
  "merge_groups fs = fold place fs []"

definition consensus_tag :: "model_finding list \<Rightarrow> pystr" where
  "consensus_tag g = (if card (mf_vendor ` set g) > 1 then U ''consensus'' else U ''single'')"

definition tag_group :: "nat \<times> model_finding list \<Rightarrow> merged_finding list" where
  "tag_group ig = map (\<lambda>f. \<lparr>mg_finding = f, mg_consensus = consensus_tag (snd ig), mg_group = fst ig\<rparr>) (snd ig)"

definition deterministic_merge :: "model_finding list \<Rightarrow> merged_finding list" where
  "deterministic_merge fs = concat (map tag_group (enumerate 0 (merge_groups fs)))"

section \<open>The text of a review\<close>

definition marker_of :: "pystr \<Rightarrow> pystr" where
  "marker_of vendor = U ''<!-- almighty-review ['' @ vendor @ U ''] -->''"

definition SEV_ORDER :: "pystr \<Rightarrow> nat" where
  "SEV_ORDER s =
     (if s = U ''critical'' then 0 else if s = U ''high'' then 1 else if s = U ''medium'' then 2
      else if s = U ''low'' then 3 else 9)"

definition BODY_MAX_LEN :: nat where
  "BODY_MAX_LEN = 2600"

definition banner :: "pystr \<Rightarrow> pystr" where
  "banner post_banner = (let b = strip post_banner in if b = [] then [] else b @ [10, 10])"

text \<open>The format \<open>.2f\<close> of a float, which is a rational number: ties go to the even digit.\<close>

definition round_half_even :: "rat \<Rightarrow> int" where
  "round_half_even q =
     (let f = \<lfloor>q\<rfloor>; d = q - of_int f
      in if d < 1 / 2 then f else if d > 1 / 2 then f + 1 else if f mod 2 = 0 then f else f + 1)"

definition fixed2 :: "rat \<Rightarrow> pystr" where
  "fixed2 q =
     (let n = nat (round_half_even (100 * \<bar>q\<bar>))
      in (if q < 0 then [45] else []) @ nat_text (n div 100) @ [46, 48 + int (n div 10 mod 10), 48 + int (n mod 10)])"

definition build_inline_comment :: "model_finding \<Rightarrow> pystr" where
  "build_inline_comment f =
     marker_of (mf_vendor f) @ [10] @
     U ''**['' @ mf_severity f @ U '' / '' @ mf_category f @ U '']** '' @ mf_claim f @ [10, 10] @
     mf_rationale f @ [10, 10] @ [54869, 49888, 46020, 32] @ fixed2 (mf_confidence f)"

definition comment_section :: "model_finding \<Rightarrow> pystr" where
  "comment_section f =
     [10] @ U ''### ['' @ mf_severity f @ U ''] `'' @ mf_file f @ U '':'' @ int_text (mf_line f) @ U ''`'' @
     [32, 8212, 32] @ mf_category f @ [10] @
     U ''- '' @ [42, 42, 51452, 51109, 58, 42, 42, 32] @ mf_claim f @ [10] @
     U ''- '' @ [42, 42, 44540, 44144, 58, 42, 42, 32] @ mf_rationale f @ [10] @
     U ''- '' @ [42, 42, 54869, 49888, 46020, 58, 42, 42, 32] @ fixed2 (mf_confidence f) @ [10]"

definition omitted_notice :: "nat \<Rightarrow> pystr" where
  "omitted_notice n =
     [10, 95, 8230, 115, 101, 118, 101, 114, 105, 116, 121, 32, 45230, 51008, 32] @ nat_text n @
     [44148, 32, 49373, 47029, 32, 8212, 32, 49345, 49464, 45716, 32, 51064, 46972, 51064, 32, 53076, 47704,
      53944, 32, 52280, 44256, 95, 10]"

text \<open>The loop over the sorted findings, at index \<open>i\<close> with the text so far.\<close>

fun comment_loop :: "nat \<Rightarrow> pystr \<Rightarrow> model_finding list \<Rightarrow> pystr" where
  "comment_loop i body [] = body"
| "comment_loop i body (f # fs) =
     (if i > 0 \<and> length body + length (comment_section f) > BODY_MAX_LEN
      then body @ omitted_notice (Suc (length fs))
      else comment_loop (Suc i) (body @ comment_section f) fs)"

definition by_severity :: "model_finding list \<Rightarrow> model_finding list" where
  "by_severity fs = sort_key (\<lambda>f. SEV_ORDER (mf_severity f)) fs"

definition comment_head :: "pystr \<Rightarrow> pystr \<Rightarrow> nat \<Rightarrow> pystr \<Rightarrow> pystr" where
  "comment_head post_banner vendor n worst =
     banner post_banner @ marker_of vendor @ [10] @ [35, 35, 32, 129302, 32] @ vendor @ [32, 47532, 48624, 10] @
     [62, 32, 50836, 50557, 58, 32, 42, 42] @ nat_text n @
     [44148, 42, 42, 32, 183, 32, 52572, 44256, 32, 115, 101, 118, 101, 114, 105, 116, 121, 32, 42, 42] @ worst @
     [42, 42, 10]"

definition build_comment :: "pystr \<Rightarrow> pystr \<Rightarrow> model_finding list \<Rightarrow> pystr" where
  "build_comment post_banner vendor fs =
     (if fs = [] then
        banner post_banner @ marker_of vendor @ [10] @ [35, 35, 32, 129302, 32] @ vendor @ [32, 47532, 48624, 10, 10] @
        [48156, 44204, 46108, 32, 51060, 49800, 32, 50630, 51020, 46, 32, 9989, 10]
      else let ordered = by_severity fs
           in comment_loop 0 (comment_head post_banner vendor (length fs) (mf_severity (hd ordered))) ordered)"

section \<open>The Slack message\<close>

definition MAX_LINES :: nat where
  "MAX_LINES = 5"

definition MAX_CLAIM_CHARS :: nat where
  "MAX_CLAIM_CHARS = 140"

definition one_line :: "pystr option \<Rightarrow> pystr" where
  "one_line t = take MAX_CLAIM_CHARS (join_text [32] (split_ws (case t of None \<Rightarrow> [] | Some s \<Rightarrow> s)))"

definition esc :: "pystr \<Rightarrow> pystr" where
  "esc t = replace_text (U ''>'') (U ''&gt;'') (replace_text (U ''<'') (U ''&lt;'') (replace_text (U ''&'') (U ''&amp;'') t))"

text \<open>What the message reads of a stored finding.\<close>

record slack_finding =
  sf_severity :: "pystr option"
  sf_claim :: "pystr option"
  sf_edited :: "pystr option"

definition slack_line :: "slack_finding \<Rightarrow> pystr" where
  "slack_line f =
     [8226, 32, 91] @ (case sf_severity f of None \<Rightarrow> U ''None'' | Some s \<Rightarrow> s) @ U ''] '' @
     esc (one_line (if sf_edited f = None \<or> sf_edited f = Some [] then sf_claim f else sf_edited f))"

definition build_slack_message :: "pystr \<Rightarrow> int \<Rightarrow> pystr \<Rightarrow> slack_finding list \<Rightarrow> pystr" where
  "build_slack_message full_name number url fs =
     (let ordered = sort_key (\<lambda>f. case sf_severity f of None \<Rightarrow> 9 | Some s \<Rightarrow> SEV_ORDER s) fs;
          head_line = [129302, 32, 42, 97, 108, 109, 105, 103, 104, 116, 121, 32, 47532, 48624, 42, 32, 8212, 32] @
            full_name @ U '' #'' @ int_text number;
          posted = [44172, 49884, 46108, 32, 51648, 51201, 32] @ nat_text (length ordered) @ [44148];
          link = (if url \<noteq> [] then U ''<'' @ url @ [124, 80, 82, 32, 48372, 44592, 62, 32, 183, 32] @ posted else posted)
      in join_text [10]
           ([head_line, link] @ map slack_line (take MAX_LINES ordered) @
            (if length ordered > MAX_LINES
             then [[95, 8230, 50808, 32] @ nat_text (length ordered - MAX_LINES) @ [44148, 95]] else []) @
            [[95, 51060, 32, 47532, 48624, 44032, 32, 50976, 50857, 54664, 45208, 50836, 63, 32, 128077, 32, 50976,
              50857, 32, 183, 32, 128078, 32, 48520, 54596, 50836, 32, 47196, 32, 54217, 44032, 54644, 32, 51452,
              49464, 50836, 46, 95]]))"

section \<open>Lemmas\<close>

lemma known_or_known: "known_or names dflt v = Inr s \<Longrightarrow> dflt \<in> set names \<Longrightarrow> s \<in> set names"
  by (induction names dflt v rule: known_or.induct) (auto split: if_splits)

lemma confidence_of_range: "0 \<le> confidence_of of_text v \<and> confidence_of of_text v \<le> 1"
  by (auto simp: confidence_of_def split: option.split json.split)

definition finding_valid :: "pystr \<Rightarrow> model_finding \<Rightarrow> bool" where
  "finding_valid vendor f \<longleftrightarrow> mf_vendor f = vendor \<and> mf_severity f \<in> set SEVERITIES \<and>
     mf_category f \<in> set CATEGORIES \<and> 0 \<le> mf_confidence f \<and> mf_confidence f \<le> 1 \<and> mf_eligible f"

lemma read_item_valid: "read_item of_text repr_of vendor v = Inr f \<Longrightarrow> finding_valid vendor f"
proof -
  have dflt: "U ''medium'' \<in> set SEVERITIES" "U ''other'' \<in> set CATEGORIES"
    by (simp_all add: SEVERITIES_def CATEGORIES_def)
  assume "read_item of_text repr_of vendor v = Inr f"
  then show ?thesis
    using known_or_known[OF _ dflt(1)] known_or_known[OF _ dflt(2)] confidence_of_range
    by (auto simp: read_item_def finding_valid_def new_finding_def ebind_Inr_iff split: json.splits)
qed

lemma emap_Inr_all: "emap f xs = Inr ys \<Longrightarrow> list_all2 (\<lambda>x y. f x = Inr y) xs ys"
  by (induction xs arbitrary: ys) (auto simp: ebind_Inr_iff)

lemma length_place: "length (concat (place f gs)) = Suc (length (concat gs))"
  by (induction gs) auto

definition group_ok :: "model_finding list \<Rightarrow> bool" where
  "group_ok g \<longleftrightarrow> g \<noteq> [] \<and> list_all (close_to (hd g)) g"

lemma close_to_refl: "close_to f f"
  by (simp add: close_to_def LINE_PROXIMITY_def)

lemma place_ok: "list_all group_ok gs \<Longrightarrow> list_all group_ok (place f gs)"
  by (induction gs) (auto simp: group_ok_def close_to_refl)

lemma place_mset: "mset (concat (place f gs)) = add_mset f (mset (concat gs))"
  by (induction gs) auto

lemma fold_place_ok: "list_all group_ok gs \<Longrightarrow> list_all group_ok (fold place fs gs)"
  by (induction fs arbitrary: gs) (simp_all add: place_ok)

lemma merge_groups_ok: "list_all group_ok (merge_groups fs)"
  by (simp add: merge_groups_def fold_place_ok)

lemma fold_place_mset: "mset (concat (fold place fs gs)) = mset fs + mset (concat gs)"
  by (induction fs arbitrary: gs) (simp_all add: place_mset)

lemma merged_members:
  "m \<in> set (deterministic_merge fs) \<longleftrightarrow>
   (\<exists>i f. i < length (merge_groups fs) \<and> f \<in> set (merge_groups fs ! i) \<and>
      m = \<lparr>mg_finding = f, mg_consensus = consensus_tag (merge_groups fs ! i), mg_group = i\<rparr>)"
  by (auto simp: deterministic_merge_def tag_group_def in_set_enumerate_eq image_iff Bex_def)

lemma merged_concat: "map mg_finding (concat (map tag_group (enumerate n gs))) = concat gs"
  by (induction gs arbitrary: n) (simp_all add: tag_group_def comp_def)

lemma card_gt_1: "finite A \<Longrightarrow> a \<in> A \<Longrightarrow> card A > 1 \<longleftrightarrow> (\<exists>b\<in>A. b \<noteq> a)"
  by (metis One_nat_def card_le_Suc0_iff_eq linorder_not_le)

lemma nat_text_mono: "a \<le> b \<Longrightarrow> length (nat_text a) \<le> length (nat_text b)"
proof (induction b arbitrary: a rule: nat_text.induct)
  case (1 b)
  show ?case
  proof (cases "a < 10")
    case True
    then have "length (nat_text a) = 1" by (subst nat_text.simps) simp
    then show ?thesis by (cases "nat_text b") auto
  next
    case False
    with 1 show ?thesis by (subst (1 2) nat_text.simps) (simp add: div_le_mono)
  qed
qed

lemma comment_loop_later:
  "i > 0 \<Longrightarrow> length body \<le> BODY_MAX_LEN \<Longrightarrow> length fs \<le> n \<Longrightarrow>
   length (comment_loop i body fs) \<le> BODY_MAX_LEN + length (omitted_notice n)"
proof (induction i body fs rule: comment_loop.induct)
  case (2 i body f fs)
  have "length (omitted_notice (Suc (length fs))) \<le> length (omitted_notice n)"
    using nat_text_mono[of "Suc (length fs)" n] "2.prems"(3) by (simp add: omitted_notice_def)
  with 2 show ?case by auto
qed simp

lemma comment_loop_keeps: "\<exists>r. comment_loop i body fs = body @ r"
proof (induction i body fs rule: comment_loop.induct)
  case (2 i body f fs)
  then show ?case by (cases "i > 0 \<and> length body + length (comment_section f) > BODY_MAX_LEN") auto
qed simp

section \<open>Properties\<close>

text \<open>Fields whose values can be looked up in a set.\<close>

fun hashable_item :: "json \<Rightarrow> bool" where
  "hashable_item (JObj it) \<longleftrightarrow>
     (case jget it (U ''severity'') of Some (JList xs) \<Rightarrow> False | Some (JObj o1) \<Rightarrow> False | _ \<Rightarrow> True) \<and>
     (case jget it (U ''category'') of Some (JList xs) \<Rightarrow> False | Some (JObj o1) \<Rightarrow> False | _ \<Rightarrow> True)"
| "hashable_item _ \<longleftrightarrow> True"

lemma known_or_hashable:
  "(case v of Some (JList xs) \<Rightarrow> False | Some (JObj o1) \<Rightarrow> False | _ \<Rightarrow> True) \<Longrightarrow> \<exists>s. known_or names dflt v = Inr s"
  by (cases "(names, dflt, v)" rule: known_or.cases) auto

lemma read_item_hashable:
  assumes "well_formed_item v" "hashable_item v"
  shows "\<exists>f. read_item of_text repr_of vendor v = Inr f"
proof (cases v)
  case (JObj it)
  with assms(2) obtain s c where "known_or SEVERITIES (U ''medium'') (jget it (U ''severity'')) = Inr s"
    "known_or CATEGORIES (U ''other'') (jget it (U ''category'')) = Inr c"
    using known_or_hashable by (metis hashable_item.simps(1))
  with JObj show ?thesis by (simp add: read_item_def)
qed (use assms in simp_all)

lemma read_items_hashable:
  "list_all hashable_item items \<Longrightarrow>
   \<exists>fs. emap (read_item of_text repr_of vendor) (filter well_formed_item items) = Inr fs"
proof (induction items)
  case (Cons v items)
  show ?case
  proof (cases "well_formed_item v")
    case True
    with Cons.prems obtain f where "read_item of_text repr_of vendor v = Inr f"
      using read_item_hashable by fastforce
    with True Cons show ?thesis by auto
  qed (use Cons in simp)
qed simp


definition sample_answer :: "(pystr \<times> json) list" where
  "sample_answer =
     [(U ''findings'', JList [
        JObj [(U ''file'', JStr (U ''a.py'')), (U ''claim'', JStr (U ''bad'')), (U ''severity'', JStr (U ''odd'')),
              (U ''line'', JStr (U '' 12 '')), (U ''confidence'', JInf False)],
        JNull])]"


text \<open>
  Grouping loses and invents nothing; two findings with the same group number are in the same file
  and category, at most ten lines apart; and a finding is tagged as consensus exactly if its group holds a finding of
  another vendor.
\<close>

lemma merge_groups_sound:
  "mset (map mg_finding (deterministic_merge fs)) = mset fs \<and>
   (\<forall>m\<in>set (deterministic_merge fs). \<forall>n\<in>set (deterministic_merge fs). mg_group m = mg_group n \<longrightarrow>
      mf_file (mg_finding m) = mf_file (mg_finding n) \<and>
      mf_category (mg_finding m) = mf_category (mg_finding n) \<and>
      \<bar>mf_line (mg_finding m) - mf_line (mg_finding n)\<bar> \<le> 2 * LINE_PROXIMITY) \<and>
   (\<forall>m\<in>set (deterministic_merge fs). mg_consensus m = U ''consensus'' \<longleftrightarrow>
      (\<exists>n\<in>set (deterministic_merge fs). mg_group n = mg_group m \<and>
         mf_vendor (mg_finding n) \<noteq> mf_vendor (mg_finding m)))"
proof (intro conjI ballI impI)
  show "mset (map mg_finding (deterministic_merge fs)) = mset fs"
    by (simp only: deterministic_merge_def merged_concat merge_groups_def fold_place_mset) simp
next
  fix m n assume m: "m \<in> set (deterministic_merge fs)" and n: "n \<in> set (deterministic_merge fs)"
    and same: "mg_group m = mg_group n"
  then obtain g where "group_ok g" "mg_finding m \<in> set g" "mg_finding n \<in> set g"
    using merge_groups_ok[of fs] by (auto simp: merged_members list_all_length)
  then have "close_to (hd g) (mg_finding m)" "close_to (hd g) (mg_finding n)"
    by (auto simp: group_ok_def list_all_iff)
  then show "mf_file (mg_finding m) = mf_file (mg_finding n)" "mf_category (mg_finding m) = mf_category (mg_finding n)"
    "\<bar>mf_line (mg_finding m) - mf_line (mg_finding n)\<bar> \<le> 2 * LINE_PROXIMITY"
    by (auto simp: close_to_def)
next
  fix m assume "m \<in> set (deterministic_merge fs)"
  then obtain i f where i: "i < length (merge_groups fs)" "f \<in> set (merge_groups fs ! i)"
    "m = \<lparr>mg_finding = f, mg_consensus = consensus_tag (merge_groups fs ! i), mg_group = i\<rparr>"
    by (auto simp: merged_members)
  have "consensus_tag g = U ''consensus'' \<longleftrightarrow> (\<exists>h\<in>set g. mf_vendor h \<noteq> mf_vendor f)" if "f \<in> set g" for g
  proof -
    have tags: "U ''single'' \<noteq> U ''consensus''" by (simp add: U_def)
    have "card (mf_vendor ` set g) > 1 \<longleftrightarrow> (\<exists>b\<in>mf_vendor ` set g. b \<noteq> mf_vendor f)"
      using that by (intro card_gt_1) simp_all
    then show ?thesis using tags by (simp add: consensus_tag_def)
  qed
  note tag = this[OF i(2)]
  have "(\<exists>n\<in>set (deterministic_merge fs). mg_group n = i \<and> mf_vendor (mg_finding n) \<noteq> mf_vendor f) \<longleftrightarrow>
      (\<exists>h\<in>set (merge_groups fs ! i). mf_vendor h \<noteq> mf_vendor f)"
  proof
    assume "\<exists>n\<in>set (deterministic_merge fs). mg_group n = i \<and> mf_vendor (mg_finding n) \<noteq> mf_vendor f"
    then obtain n where "n \<in> set (deterministic_merge fs)" "mg_group n = i" "mf_vendor (mg_finding n) \<noteq> mf_vendor f"
      by blast
    then show "\<exists>h\<in>set (merge_groups fs ! i). mf_vendor h \<noteq> mf_vendor f" by (auto simp: merged_members)
  next
    assume "\<exists>h\<in>set (merge_groups fs ! i). mf_vendor h \<noteq> mf_vendor f"
    then obtain h where h: "h \<in> set (merge_groups fs ! i)" "mf_vendor h \<noteq> mf_vendor f" by blast
    define n where "n = \<lparr>mg_finding = h, mg_consensus = consensus_tag (merge_groups fs ! i), mg_group = i\<rparr>"
    have "n \<in> set (deterministic_merge fs)" using h(1) i(1) unfolding merged_members n_def by blast
    with h(2) show "\<exists>n\<in>set (deterministic_merge fs). mg_group n = i \<and> mf_vendor (mg_finding n) \<noteq> mf_vendor f"
      by (intro bexI[of _ n]) (simp_all add: n_def)
  qed
  with tag i(3) show "mg_consensus m = U ''consensus'' \<longleftrightarrow>
      (\<exists>n\<in>set (deterministic_merge fs). mg_group n = mg_group m \<and>
         mf_vendor (mg_finding n) \<noteq> mf_vendor (mg_finding m))"
    by (auto simp: merged_members)
qed

text \<open>
  The relay limit.  If the heading with the first section fits the limit, the whole text is at most
  the limit plus the notice that counts the findings left out, and it begins with the heading and the section of a most
  severe finding, which is never left out.
\<close>

lemma comment_within_limit:
  assumes "fs \<noteq> []" and "f = hd (by_severity fs)"
    and "length (comment_head post_banner vendor (length fs) (mf_severity f)) + length (comment_section f)
           \<le> BODY_MAX_LEN"
  shows "length (build_comment post_banner vendor fs) \<le> BODY_MAX_LEN + length (omitted_notice (length fs)) \<and>
    startswith (build_comment post_banner vendor fs)
      (comment_head post_banner vendor (length fs) (mf_severity f) @ comment_section f) \<and>
    (\<forall>g\<in>set fs. SEV_ORDER (mf_severity f) \<le> SEV_ORDER (mf_severity g))"
proof -
  let ?head = "comment_head post_banner vendor (length fs) (mf_severity f)"
  obtain rest where ordered: "by_severity fs = f # rest"
    using assms(1,2) by (cases "by_severity fs") (auto simp: by_severity_def dest: arg_cong[of _ _ length])
  then have "length rest \<le> length fs"
    by (metis by_severity_def length_Cons length_sort lessI less_imp_le_nat)
  have whole: "build_comment post_banner vendor fs = comment_loop 1 (?head @ comment_section f) rest"
    using assms(1) ordered by (simp add: build_comment_def)
  have "length (comment_loop 1 (?head @ comment_section f) rest) \<le> BODY_MAX_LEN + length (omitted_notice (length fs))"
    using assms(3) \<open>length rest \<le> length fs\<close> by (intro comment_loop_later) simp_all
  moreover have "startswith (comment_loop 1 (?head @ comment_section f) rest) (?head @ comment_section f)"
    unfolding startswith_iff by (rule comment_loop_keeps)
  moreover have "\<forall>g\<in>set fs. SEV_ORDER (mf_severity f) \<le> SEV_ORDER (mf_severity g)"
  proof -
    have "set (f # rest) = set fs" unfolding ordered[symmetric] by (simp add: by_severity_def)
    moreover have "sorted (map (\<lambda>f. SEV_ORDER (mf_severity f)) (f # rest))"
      unfolding ordered[symmetric] by (simp add: by_severity_def)
    ultimately show ?thesis by (metis (no_types, lifting) image_eqI list.set_map list.simps(9) order_refl set_ConsD sorted_simps(2))
  qed
  ultimately show ?thesis unfolding whole by blast
qed

end
