(* ===== verification/Diff_Filter.thy ===== *)
theory Diff_Filter
  imports Prelude
begin

text \<open>
  \<open>server/review/diff_filter.py\<close>: a unified diff is cut into the blocks of its files, noise
  files are dropped, the right-side line numbers are read off the hunk headers, and what is left
  is packed into chunks of a bounded size, each owning a set of added lines.

  SHA-256 (\<open>hashlib\<close>) is a parameter \<open>sha\<close>: the hex digest of a text.  Everything else is
  written out: \<open>shlex.split\<close> in POSIX mode, UTF-8 encoding and decoding with replacement, the
  regular expressions of the module.  A Python set of line numbers is an \<open>int set\<close>, a dictionary
  from paths an association list in insertion order.
\<close>

section \<open>UTF-8 with the error handler "replace"\<close>

definition utf8_char :: "int \<Rightarrow> int list" where
  "utf8_char c =
     (if c < 128 then [c]
      else if c < 2048 then [192 + c div 64, 128 + c mod 64]
      else if 55296 \<le> c \<and> c \<le> 57343 then [63]
      else if c < 65536 then [224 + c div 4096, 128 + c div 64 mod 64, 128 + c mod 64]
      else [240 + c div 262144, 128 + c div 4096 mod 64, 128 + c div 64 mod 64, 128 + c mod 64])"

definition is_cont :: "int \<Rightarrow> bool" where
  "is_cont b \<longleftrightarrow> 128 \<le> b \<and> b \<le> 191"

definition second3 :: "int \<Rightarrow> int \<Rightarrow> bool" where
  "second3 b c \<longleftrightarrow>
     (if b = 224 then 160 else 128) \<le> c \<and> c \<le> (if b = 237 then 159 else 191)"

definition second4 :: "int \<Rightarrow> int \<Rightarrow> bool" where
  "second4 b c \<longleftrightarrow>
     (if b = 240 then 144 else 128) \<le> c \<and> c \<le> (if b = 244 then 143 else 191)"

text \<open>Each maximal ill-formed part becomes one U+FFFD.\<close>

function utf8_decode :: "int list \<Rightarrow> pystr" where
  "utf8_decode [] = []"
| "utf8_decode (b # bs) =
     (if b < 128 then b # utf8_decode bs
      else if 194 \<le> b \<and> b \<le> 223 then
        (if bs \<noteq> [] \<and> is_cont (hd bs)
         then ((b - 192) * 64 + (hd bs - 128)) # utf8_decode (tl bs)
         else 65533 # utf8_decode bs)
      else if 224 \<le> b \<and> b \<le> 239 then
        (if bs = [] \<or> \<not> second3 b (hd bs) then 65533 # utf8_decode bs
         else if tl bs = [] \<or> \<not> is_cont (hd (tl bs)) then 65533 # utf8_decode (tl bs)
         else ((b - 224) * 4096 + (hd bs - 128) * 64 + (hd (tl bs) - 128))
              # utf8_decode (tl (tl bs)))
      else if 240 \<le> b \<and> b \<le> 244 then
        (if bs = [] \<or> \<not> second4 b (hd bs) then 65533 # utf8_decode bs
         else if tl bs = [] \<or> \<not> is_cont (hd (tl bs)) then 65533 # utf8_decode (tl bs)
         else if tl (tl bs) = [] \<or> \<not> is_cont (hd (tl (tl bs)))
              then 65533 # utf8_decode (tl (tl bs))
         else ((b - 240) * 262144 + (hd bs - 128) * 4096 + (hd (tl bs) - 128) * 64
               + (hd (tl (tl bs)) - 128)) # utf8_decode (tl (tl (tl bs))))
      else 65533 # utf8_decode bs)"
  by pat_completeness auto
termination
  by (relation "measure length") auto

section \<open>shlex.split in POSIX mode\<close>

text \<open>
  States of \<open>shlex.read_token\<close> with \<open>whitespace_split\<close> and no comment characters: between words,
  in a word, inside a quote \<open>q\<close>, after a backslash that was read in a word (\<open>None\<close>) or in
  the quote \<open>q\<close>.  \<open>quoted\<close> remembers that the current word had a quote, so that an empty quoted
  word counts.
\<close>

datatype shlex_state = Sh_Space | Sh_Word | Sh_Quote int | Sh_Escape "int option"

definition sh_space :: "int \<Rightarrow> bool" where
  "sh_space c \<longleftrightarrow> c = 32 \<or> c = 9 \<or> c = 13 \<or> c = 10"

definition sh_quote :: "int \<Rightarrow> bool" where
  "sh_quote c \<longleftrightarrow> c = 34 \<or> c = 39"

text \<open>The current word is held reversed.\<close>

fun shlex_go :: "shlex_state \<Rightarrow> bool \<Rightarrow> pystr \<Rightarrow> pystr \<Rightarrow> exn + pystr list" where
  "shlex_go (Sh_Quote q) quoted w [] = Inl (ValueError (U ''No closing quotation''))"
| "shlex_go (Sh_Escape e) quoted w [] = Inl (ValueError (U ''No escaped character''))"
| "shlex_go st quoted w [] = Inr (if w \<noteq> [] \<or> quoted then [rev w] else [])"
| "shlex_go Sh_Space quoted w (c # s) =
     (if sh_space c then shlex_go Sh_Space quoted w s
      else if c = 92 then shlex_go (Sh_Escape None) quoted w s
      else if sh_quote c then shlex_go (Sh_Quote c) quoted w s
      else shlex_go Sh_Word quoted [c] s)"
| "shlex_go Sh_Word quoted w (c # s) =
     (if sh_space c then
        (if w \<noteq> [] \<or> quoted
         then ebind (shlex_go Sh_Space False [] s) (\<lambda>ws. Inr (rev w # ws))
         else shlex_go Sh_Space quoted w s)
      else if sh_quote c then shlex_go (Sh_Quote c) quoted w s
      else if c = 92 then shlex_go (Sh_Escape None) quoted w s
      else shlex_go Sh_Word quoted (c # w) s)"
| "shlex_go (Sh_Quote q) quoted w (c # s) =
     (if c = q then shlex_go Sh_Word True w s
      else if c = 92 \<and> q = 34 then shlex_go (Sh_Escape (Some q)) True w s
      else shlex_go (Sh_Quote q) True (c # w) s)"
| "shlex_go (Sh_Escape e) quoted w (c # s) =
     (case e of
        None \<Rightarrow> shlex_go Sh_Word quoted (c # w) s
      | Some q \<Rightarrow>
          shlex_go (Sh_Quote q) quoted
            (c # (if c \<noteq> 92 \<and> c \<noteq> q then 92 # w else w)) s)"

definition shlex_split :: "pystr \<Rightarrow> exn + pystr list" where
  "shlex_split s = shlex_go Sh_Space False [] s"

section \<open>File blocks\<close>

text \<open>\<open>_decode_git_path\<close>: octal escapes are bytes; \<open>bytearray.append\<close> raises above 255.\<close>

definition octal_digit :: "int \<Rightarrow> bool" where
  "octal_digit c \<longleftrightarrow> 48 \<le> c \<and> c \<le> 55"

fun git_path_bytes :: "pystr \<Rightarrow> exn + int list" where
  "git_path_bytes [] = Inr []"
| "git_path_bytes (c # s) =
     (case s of
        x # y # z # r \<Rightarrow>
          (if c = 92 \<and> octal_digit x \<and> octal_digit y \<and> octal_digit z then
             (let b = (x - 48) * 64 + (y - 48) * 8 + (z - 48) in
              if b > 255 then Inl (ValueError (U ''byte must be in range(0, 256)''))
              else ebind (git_path_bytes r) (\<lambda>bs. Inr (b # bs)))
           else ebind (git_path_bytes s) (\<lambda>bs. Inr (utf8_char c @ bs)))
      | _ \<Rightarrow> ebind (git_path_bytes s) (\<lambda>bs. Inr (utf8_char c @ bs)))"

definition decode_git_path :: "pystr \<Rightarrow> exn + pystr" where
  "decode_git_path v = ebind (git_path_bytes v) (\<lambda>bs. Inr (utf8_decode bs))"

definition header_target :: "pystr \<Rightarrow> exn + pystr" where
  "header_target header =
     (case shlex_split header of
        Inl e \<Rightarrow> Inr []
      | Inr parts \<Rightarrow>
          if length parts \<noteq> 4 \<or> take 2 parts \<noteq> [U ''diff'', U ''--git''] then Inr []
          else ebind (decode_git_path (parts ! 3)) (\<lambda>target.
                 Inr (if startswith target (U ''b/'') then drop 2 target else target)))"

text \<open>The lines of a text, each with its final newline; only LF ends a line for \<open>^\<close> and \<open>$\<close>.\<close>

fun nl_lines_go :: "pystr \<Rightarrow> pystr \<Rightarrow> pystr list" where
  "nl_lines_go acc [] = (if acc = [] then [] else [rev acc])"
| "nl_lines_go acc (c # s) =
     (if c = 10 then rev (c # acc) # nl_lines_go [] s else nl_lines_go (c # acc) s)"

definition nl_lines :: "pystr \<Rightarrow> pystr list" where
  "nl_lines s = nl_lines_go [] s"

definition chop_nl :: "pystr \<Rightarrow> pystr" where
  "chop_nl l = (if l \<noteq> [] \<and> last l = 10 then butlast l else l)"

text \<open>\<open>_FILE_HEADER\<close>: a line of the form \<open>diff --git .+\<close>.\<close>

definition is_file_header :: "pystr \<Rightarrow> bool" where
  "is_file_header l \<longleftrightarrow> startswith l (U ''diff --git '') \<and> length (chop_nl l) > 11"

function header_blocks :: "pystr list \<Rightarrow> (pystr \<times> pystr) list" where
  "header_blocks [] = []"
| "header_blocks (h # ls) =
     (chop_nl h, h @ concat (takeWhile (\<lambda>l. \<not> is_file_header l) ls))
       # header_blocks (dropWhile (\<lambda>l. \<not> is_file_header l) ls)"
  by pat_completeness auto
termination
  by (relation "measure length") (auto simp: le_imp_less_Suc length_dropWhile_le)

definition split_file_blocks :: "pystr \<Rightarrow> exn + (pystr \<times> pystr) list" where
  "split_file_blocks diff =
     (if diff = [] then Inr []
      else
        (let ls = nl_lines diff;
             pre = takeWhile (\<lambda>l. \<not> is_file_header l) ls;
             rest = dropWhile (\<lambda>l. \<not> is_file_header l) ls
         in if rest = [] then Inr [([], diff)]
            else ebind (emap (\<lambda>(h, b). ebind (header_target h) (\<lambda>t. Inr (t, b)))
                          (header_blocks rest))
                   (\<lambda>bs. Inr ((if pre = [] then [] else [([], concat pre)]) @ bs))))"

section \<open>Right-side line numbers\<close>

text \<open>\<open>(?:,\d+)?\<close>\<close>

definition skip_count :: "pystr \<Rightarrow> pystr" where
  "skip_count s =
     (case parse_lit (U '','') s of None \<Rightarrow> s
      | Some r \<Rightarrow> (case parse_digits r of None \<Rightarrow> s | Some (_, r') \<Rightarrow> r'))"

text \<open>\<open>_FULL_HUNK_HEADER\<close>, of which \<open>_HUNK_HEADER\<close> captures the second number only.\<close>

definition full_hunk_header :: "pystr \<Rightarrow> (int \<times> int) option" where
  "full_hunk_header l =
     Option.bind (parse_lit (U ''@@ -'') l) (\<lambda>s1.
     Option.bind (parse_digits s1) (\<lambda>(old, s2).
     Option.bind (parse_lit (U '' +'') (skip_count s2)) (\<lambda>s3.
     Option.bind (parse_digits s3) (\<lambda>(new, s4).
     Option.bind (parse_lit (U '' @@'') (skip_count s4)) (\<lambda>_.
     Some (old, new))))))"

definition hunk_header :: "pystr \<Rightarrow> int option" where
  "hunk_header l = map_option snd (full_hunk_header l)"

fun comment_scan :: "int option \<Rightarrow> pystr list \<Rightarrow> int set" where
  "comment_scan n [] = {}"
| "comment_scan n (l # ls) =
     (if startswith l (U ''@@'') then comment_scan (hunk_header l) ls
      else (case n of
          None \<Rightarrow> comment_scan None ls
        | Some k \<Rightarrow>
            if startswith l (U ''+'') \<or> startswith l (U '' '')
            then insert k (comment_scan (Some (k + 1)) ls)
            else comment_scan (Some k) ls))"

fun changed_scan :: "int option \<Rightarrow> pystr list \<Rightarrow> int set" where
  "changed_scan n [] = {}"
| "changed_scan n (l # ls) =
     (if startswith l (U ''@@'') then changed_scan (hunk_header l) ls
      else (case n of
          None \<Rightarrow> changed_scan None ls
        | Some k \<Rightarrow>
            if startswith l (U ''+'') \<and> \<not> startswith l (U ''+++'')
            then insert k (changed_scan (Some (k + 1)) ls)
            else if startswith l (U '' '') then changed_scan (Some (k + 1)) ls
            else changed_scan (Some k) ls))"

type_synonym line_map = "(pystr \<times> int set) list"

definition add_lines :: "pystr \<Rightarrow> int set \<Rightarrow> line_map \<Rightarrow> line_map" where
  "add_lines path ls m = dict_set path (dict_get m path {} \<union> ls) m"

definition block_lines :: "(int option \<Rightarrow> pystr list \<Rightarrow> int set) \<Rightarrow> (pystr \<times> pystr) list \<Rightarrow> line_map" where
  "block_lines scan bs =
     fold (\<lambda>(path, block) m.
             if path = [] then m else add_lines path (scan None (splitlines block)) m) bs []"

definition commentable_lines :: "pystr \<Rightarrow> exn + line_map" where
  "commentable_lines diff = ebind (split_file_blocks diff) (\<lambda>bs. Inr (block_lines comment_scan bs))"

definition changed_lines :: "pystr \<Rightarrow> exn + line_map" where
  "changed_lines diff = ebind (split_file_blocks diff) (\<lambda>bs. Inr (block_lines changed_scan bs))"

section \<open>Noise\<close>

definition DEFAULT_IGNORE :: "pystr list" where
  "DEFAULT_IGNORE = map U
     [''package-lock.json'', ''yarn.lock'', ''pnpm-lock.yaml'', ''npm-shrinkwrap.json'',
      ''poetry.lock'', ''Pipfile.lock'', ''composer.lock'', ''Gemfile.lock'', ''Cargo.lock'',
      ''go.sum'']"

definition IGNORE_SUFFIX :: "pystr list" where
  "IGNORE_SUFFIX = map U [''.min.js'', ''.min.css'', ''.map'', ''.snap'', ''.lock'']"

definition IGNORE_DIR :: "pystr list" where
  "IGNORE_DIR = map U
     [''node_modules/'', ''vendor/'', ''dist/'', ''build/'', ''.next/'', ''__snapshots__/'']"

definition is_noise :: "pystr \<Rightarrow> bool" where
  "is_noise path =
     (if path = [] then False
      else if last (split_on 47 path) \<in> set DEFAULT_IGNORE then True
      else if list_ex (endswith path) IGNORE_SUFFIX then True
      else list_ex (\<lambda>seg. startswith path seg \<or> contains path (47 # seg)) IGNORE_DIR)"

definition filter_reviewable :: "pystr \<Rightarrow> exn + pystr" where
  "filter_reviewable diff =
     ebind (split_file_blocks diff) (\<lambda>bs.
       Inr (concat (map snd (filter (\<lambda>(path, _). \<not> is_noise path) bs))))"

section \<open>Lines and blocks\<close>

text \<open>
  A list of lines as \<open>nl_lines\<close> makes it: no line is empty, a newline occurs only at the end of
  a line, and only the last line may lack it.
\<close>

definition ended_line :: "pystr \<Rightarrow> bool" where
  "ended_line l \<longleftrightarrow> (\<exists>b. 10 \<notin> set b \<and> l = b @ [10])"

definition open_line :: "pystr \<Rightarrow> bool" where
  "open_line l \<longleftrightarrow> l \<noteq> [] \<and> 10 \<notin> set l"

fun wf_lines :: "pystr list \<Rightarrow> bool" where
  "wf_lines [] = True"
| "wf_lines (l # ls) = ((ended_line l \<or> ls = [] \<and> open_line l) \<and> wf_lines ls)"

lemma nl_lines_go_concat: "concat (nl_lines_go acc s) = rev acc @ s"
  by (induction acc s rule: nl_lines_go.induct) auto

lemma nl_lines_concat [simp]: "concat (nl_lines s) = s"
  by (simp add: nl_lines_def nl_lines_go_concat)

lemma nl_lines_go_wf: "10 \<notin> set acc \<Longrightarrow> wf_lines (nl_lines_go acc s)"
  by (induction acc s rule: nl_lines_go.induct) (auto simp: ended_line_def open_line_def)

lemma nl_lines_wf: "wf_lines (nl_lines s)"
  by (simp add: nl_lines_def nl_lines_go_wf)

lemma nl_lines_go_line: "10 \<notin> set b \<Longrightarrow> nl_lines_go acc (b @ 10 # s) = (rev acc @ b @ [10]) # nl_lines_go [] s"
  by (induction b arbitrary: acc) auto

lemma nl_lines_go_open: "10 \<notin> set b \<Longrightarrow> acc \<noteq> [] \<or> b \<noteq> [] \<Longrightarrow> nl_lines_go acc b = [rev acc @ b]"
  by (induction b arbitrary: acc) auto

text \<open>Splitting undoes the concatenation of well-formed lines.\<close>

lemma nl_lines_of_concat: "wf_lines ls \<Longrightarrow> nl_lines (concat ls) = ls"
proof (induction ls)
  case Nil
  then show ?case by (simp add: nl_lines_def)
next
  case (Cons l ls)
  show ?case
  proof (cases "ended_line l")
    case True
    then obtain b where "10 \<notin> set b" "l = b @ [10]" by (auto simp: ended_line_def)
    with Cons show ?thesis by (simp add: nl_lines_def nl_lines_go_line)
  next
    case False
    with Cons.prems show ?thesis
      by (auto simp: nl_lines_def nl_lines_go_open open_line_def)
  qed
qed

lemma wf_lines_append:
  "wf_lines (xs @ ys) \<longleftrightarrow> (if ys = [] then wf_lines xs else list_all ended_line xs \<and> wf_lines ys)"
  by (induction xs) auto

lemma wf_lines_ended: "list_all ended_line xs \<Longrightarrow> wf_lines xs"
  by (induction xs) auto

text \<open>Dropping some of the groups keeps the lines well formed.\<close>

lemma wf_lines_filter_groups: "wf_lines (concat Ls) \<Longrightarrow> wf_lines (concat (filter P Ls))"
proof (induction Ls)
  case (Cons L Ls)
  have tail: "wf_lines (concat Ls)"
    using Cons.prems by (cases "concat Ls = []") (simp_all add: wf_lines_append del: concat_eq_Nil_conv)
  then have rest: "wf_lines (concat (filter P Ls))" by (rule Cons.IH)
  have "concat (filter P Ls) \<noteq> [] \<Longrightarrow> concat Ls \<noteq> []" by auto
  with Cons.prems rest show ?case
    by (auto simp: wf_lines_append wf_lines_ended split: if_splits)
qed simp

text \<open>A group of lines: a header and the lines up to the next header.\<close>

definition line_group :: "pystr list \<Rightarrow> bool" where
  "line_group L \<longleftrightarrow> L \<noteq> [] \<and> is_file_header (hd L) \<and> list_all (\<lambda>l. \<not> is_file_header l) (tl L)"

lemma header_blocks_groups:
  "ls = [] \<or> is_file_header (hd ls) \<Longrightarrow>
   \<exists>Ls. ls = concat Ls \<and> list_all line_group Ls \<and>
        header_blocks ls = map (\<lambda>L. (chop_nl (hd L), concat L)) Ls"
proof (induction ls rule: header_blocks.induct)
  case 1
  show ?case by (rule exI[of _ "[]"]) simp
next
  case (2 h ls)
  let ?os = "takeWhile (\<lambda>l. \<not> is_file_header l) ls"
  let ?rest = "dropWhile (\<lambda>l. \<not> is_file_header l) ls"
  have "?rest = [] \<or> is_file_header (hd ?rest)" using hd_dropWhile by blast
  with "2.IH" obtain Ls where Ls: "?rest = concat Ls" "list_all line_group Ls"
    "header_blocks ?rest = map (\<lambda>L. (chop_nl (hd L), concat L)) Ls" by blast
  have group: "line_group (h # ?os)"
    using "2.prems" by (auto simp: line_group_def list_all_iff dest: set_takeWhileD)
  have "h # ls = concat ((h # ?os) # Ls)" using Ls(1) by (metis append_Cons concat.simps(2) takeWhile_dropWhile_id)
  with Ls group show ?case by (intro exI[of _ "(h # ?os) # Ls"]) simp
qed

lemma dropWhile_all: "list_all P xs \<Longrightarrow> dropWhile P (xs @ ys) = dropWhile P ys"
  by (induction xs) auto

lemma takeWhile_all: "list_all P xs \<Longrightarrow> takeWhile P (xs @ ys) = xs @ takeWhile P ys"
  by (induction xs) auto

lemma header_blocks_of_groups:
  "list_all line_group Ls \<Longrightarrow>
   header_blocks (concat Ls) = map (\<lambda>L. (chop_nl (hd L), concat L)) Ls"
proof (induction Ls)
  case (Cons L Ls)
  then obtain h os where L: "L = h # os" "list_all (\<lambda>l. \<not> is_file_header l) os"
    by (cases L) (auto simp: line_group_def)
  have next_header: "concat Ls = [] \<or> is_file_header (hd (concat Ls))"
    using Cons.prems by (cases Ls) (auto simp: line_group_def)
  have "takeWhile (\<lambda>l. \<not> is_file_header l) (concat Ls) = []"
    "dropWhile (\<lambda>l. \<not> is_file_header l) (concat Ls) = concat Ls"
    using next_header by (cases "concat Ls"; simp del: concat_eq_Nil_conv)+
  then have "takeWhile (\<lambda>l. \<not> is_file_header l) (os @ concat Ls) = os"
    and "dropWhile (\<lambda>l. \<not> is_file_header l) (os @ concat Ls) = concat Ls"
    using takeWhile_all[OF L(2)] dropWhile_all[OF L(2)] by simp_all
  then show ?case using Cons by (simp add: L)
qed simp

text \<open>The three shapes of a diff, and what \<open>split_file_blocks\<close> returns for each.\<close>

definition group_target :: "pystr list \<Rightarrow> exn + pystr" where
  "group_target L = header_target (chop_nl (hd L))"

lemma split_file_blocks_lines:
  assumes wf: "wf_lines (pre @ concat Ls)" and pre: "list_all (\<lambda>l. \<not> is_file_header l) pre"
    and groups: "list_all line_group Ls" and some: "Ls \<noteq> []"
  shows "split_file_blocks (concat pre @ concat (concat Ls)) =
         ebind (emap (\<lambda>L. ebind (group_target L) (\<lambda>t. Inr (t, concat L))) Ls)
           (\<lambda>bs. Inr ((if pre = [] then [] else [([], concat pre)]) @ bs))"
proof -
  let ?d = "concat pre @ concat (concat Ls)"
  obtain h os Ls' where Ls: "Ls = (h # os) # Ls'" "is_file_header h"
    using some groups by (cases Ls; cases "hd Ls") (auto simp: line_group_def)
  have lines: "nl_lines ?d = pre @ concat Ls" using nl_lines_of_concat[OF wf] by simp
  have ne: "?d \<noteq> []" using Ls by (auto simp: is_file_header_def startswith_def U_def)
  have drop: "dropWhile (\<lambda>l. \<not> is_file_header l) (pre @ concat Ls) = concat Ls"
    using Ls by (simp add: dropWhile_all[OF pre])
  have take: "takeWhile (\<lambda>l. \<not> is_file_header l) (pre @ concat Ls) = pre"
    using Ls by (simp add: takeWhile_all[OF pre])
  have emap_map: "emap f (map g xs) = emap (\<lambda>x. f (g x)) xs"
    for f :: "pystr \<times> pystr \<Rightarrow> exn + pystr \<times> pystr" and g :: "pystr list \<Rightarrow> pystr \<times> pystr" and xs
    by (induction xs) auto
  have "concat Ls \<noteq> []" using Ls by simp
  then show ?thesis
    unfolding split_file_blocks_def Let_def lines drop take group_target_def
    by (simp only: ne if_False header_blocks_of_groups[OF groups] emap_map prod.case)
qed

lemma split_file_blocks_plain:
  assumes "wf_lines pre" "list_all (\<lambda>l. \<not> is_file_header l) pre" "pre \<noteq> []"
  shows "split_file_blocks (concat pre) = Inr [([], concat pre)]"
proof -
  have "concat pre \<noteq> []"
    using assms(1,3) by (cases pre) (auto simp: ended_line_def open_line_def)
  then show ?thesis
    using assms dropWhile_all[of "\<lambda>l. \<not> is_file_header l" pre "[]"]
    by (simp add: split_file_blocks_def nl_lines_of_concat)
qed

text \<open>Every diff is a preamble followed by groups.\<close>

lemma diff_shape:
  obtains pre Ls where "wf_lines (pre @ concat Ls)" "list_all (\<lambda>l. \<not> is_file_header l) pre"
    "list_all line_group Ls" "diff = concat pre @ concat (concat Ls)"
proof -
  let ?H = "\<lambda>l. \<not> is_file_header l"
  let ?ls = "nl_lines diff"
  have "dropWhile ?H ?ls = [] \<or> is_file_header (hd (dropWhile ?H ?ls))" using hd_dropWhile by blast
  then obtain Ls where Ls: "dropWhile ?H ?ls = concat Ls" "list_all line_group Ls"
    using header_blocks_groups by blast
  have all: "?ls = takeWhile ?H ?ls @ concat Ls" using Ls(1) by (metis takeWhile_dropWhile_id)
  have "wf_lines (takeWhile ?H ?ls @ concat Ls)" using nl_lines_wf all by metis
  moreover have "list_all ?H (takeWhile ?H ?ls)" by (auto simp: list_all_iff dest: set_takeWhileD)
  moreover have "diff = concat (takeWhile ?H ?ls) @ concat (concat Ls)"
    using all nl_lines_concat by (metis concat_append)
  ultimately show thesis using Ls(2) that by blast
qed

text \<open>
  The blocks of a diff, target by target, once every header decodes.
\<close>

lemma emap_groups:
  "emap (\<lambda>L. ebind (group_target L) (\<lambda>t. Inr (t, concat L))) Ls = Inr bs \<longleftrightarrow>
   (\<forall>L\<in>set Ls. \<exists>t. group_target L = Inr t) \<and>
   bs = map (\<lambda>L. (projr (group_target L), concat L)) Ls"
  by (induction Ls arbitrary: bs) (auto simp: ebind_Inr_iff)

lemma split_file_blocks_cases:
  assumes "split_file_blocks diff = Inr bs"
  obtains (Empty) "diff = []" "bs = []"
  | (Plain) "diff \<noteq> []" "bs = [([], diff)]"
  | (Blocks) pre Ls where "wf_lines (pre @ concat Ls)" "list_all (\<lambda>l. \<not> is_file_header l) pre"
      "list_all line_group Ls" "Ls \<noteq> []" "diff = concat pre @ concat (concat Ls)"
      "\<forall>L\<in>set Ls. \<exists>t. group_target L = Inr t"
      "bs = (if pre = [] then [] else [([], concat pre)])
            @ map (\<lambda>L. (projr (group_target L), concat L)) Ls"
proof (cases "diff = []")
  case True
  with assms show thesis by (auto simp: split_file_blocks_def intro: Empty)
next
  case False
  obtain pre Ls where shape: "wf_lines (pre @ concat Ls)" "list_all (\<lambda>l. \<not> is_file_header l) pre"
    "list_all line_group Ls" "diff = concat pre @ concat (concat Ls)" by (rule diff_shape)
  show thesis
  proof (cases "Ls = []")
    case True
    with shape False have "pre \<noteq> []" by auto
    with shape True False assms show thesis
      by (intro Plain) (auto simp: split_file_blocks_plain)
  next
    case Ls: False
    from assms show thesis
      using shape Ls
      by (intro Blocks[OF shape(1,2,3) Ls shape(4)])
        (auto simp: split_file_blocks_lines[OF shape(1,2,3) Ls] ebind_Inr_iff emap_groups)
  qed
qed

lemma split_file_blocks_concat:
  "split_file_blocks diff = Inr bs \<Longrightarrow> concat (map snd bs) = diff"
  by (elim split_file_blocks_cases) (auto simp: comp_def concat_map_concat split: if_splits)

text \<open>A block taken alone splits into itself: what \<open>chunk_records_by_budget\<close> relies on.\<close>

lemma wf_lines_infix: "wf_lines (xs @ ys @ zs) \<Longrightarrow> wf_lines ys"
  by (auto simp: wf_lines_append wf_lines_ended split: if_splits)

lemma wf_lines_group: "wf_lines (pre @ concat Ls) \<Longrightarrow> L \<in> set Ls \<Longrightarrow> wf_lines L"
  using wf_lines_infix by (metis concat.simps(2) concat_append split_list append.assoc)

lemma split_file_blocks_block:
  assumes "split_file_blocks diff = Inr bs" and "(path, block) \<in> set bs"
  shows "split_file_blocks block = Inr [(path, block)]"
  using assms(1)
proof (cases rule: split_file_blocks_cases)
  case Empty
  with assms show ?thesis by simp
next
  case Plain
  with assms show ?thesis by simp
next
  case (Blocks pre Ls)
  show ?thesis
  proof (cases "pre \<noteq> [] \<and> (path, block) = ([], concat pre)")
    case True
    have "wf_lines pre" using Blocks(1) by (auto simp: wf_lines_append wf_lines_ended split: if_splits)
    with True Blocks(2) show ?thesis by (simp add: split_file_blocks_plain)
  next
    case False
    then obtain L where L: "L \<in> set Ls" "path = projr (group_target L)" "block = concat L"
      using assms(2) Blocks(7) by (auto split: if_splits)
    have "wf_lines ([] @ concat [L])" using wf_lines_group[OF Blocks(1) L(1)] by simp
    moreover have "list_all line_group [L]" using Blocks(3) L(1) by (simp add: list_all_iff)
    ultimately have "split_file_blocks (concat [] @ concat (concat [L])) =
      ebind (emap (\<lambda>L. ebind (group_target L) (\<lambda>t. Inr (t, concat L))) [L])
        (\<lambda>bs. Inr ((if ([] :: pystr list) = [] then [] else [([], concat [])]) @ bs))"
      by (intro split_file_blocks_lines) simp_all
    with L Blocks(6) show ?thesis by auto
  qed
qed

lemma noise_Nil [simp]: "\<not> is_noise []"
  by (simp add: is_noise_def)

text \<open>The filter of the blocks, group by group.\<close>

lemma filter_reviewable_groups:
  assumes "wf_lines (pre @ concat Ls)" "list_all (\<lambda>l. \<not> is_file_header l) pre"
    "list_all line_group Ls" "Ls \<noteq> []" "\<forall>L\<in>set Ls. \<exists>t. group_target L = Inr t"
  shows "filter_reviewable (concat pre @ concat (concat Ls)) =
         Inr (concat pre @ concat (concat (filter (\<lambda>L. \<not> is_noise (projr (group_target L))) Ls)))"
proof -
  have "emap (\<lambda>L. ebind (group_target L) (\<lambda>t. Inr (t, concat L))) Ls =
        Inr (map (\<lambda>L. (projr (group_target L), concat L)) Ls)"
    using assms(5) by (simp add: emap_groups)
  then show ?thesis
    by (auto simp: filter_reviewable_def split_file_blocks_lines[OF assms(1-4)] filter_map comp_def
        concat_map_concat case_prod_beta)
qed

lemma filter_reviewable_fixed:
  assumes filtered: "filter_reviewable diff = Inr kept"
  shows "filter_reviewable kept = Inr kept"
proof -
  obtain bs where bs: "split_file_blocks diff = Inr bs"
    using filtered by (auto simp: filter_reviewable_def ebind_Inr_iff)
  show ?thesis
    using bs
  proof (cases rule: split_file_blocks_cases)
    case Empty
    with filtered bs show ?thesis by (simp add: filter_reviewable_def)
  next
    case Plain
    with filtered bs show ?thesis by (auto simp: filter_reviewable_def)
  next
    case (Blocks pre Ls)
    let ?keep = "\<lambda>L. \<not> is_noise (projr (group_target L))"
    let ?Ls = "filter ?keep Ls"
    have kept: "kept = concat pre @ concat (concat ?Ls)"
      using filtered Blocks by (simp add: filter_reviewable_groups)
    show ?thesis
    proof (cases "?Ls = []")
      case True
      have "wf_lines pre" using Blocks(1) by (auto simp: wf_lines_append wf_lines_ended split: if_splits)
      with True kept Blocks(2) show ?thesis
        using split_file_blocks_plain[of pre] unfolding filter_reviewable_def
        by (cases "pre = []") (simp_all add: split_file_blocks_def[of "[]"])
    next
      case False
      have "wf_lines (concat (filter (\<lambda>X. X = pre \<or> X \<in> set ?Ls) (pre # Ls)))"
        using Blocks(1) by (intro wf_lines_filter_groups) simp
      moreover have "pre \<notin> set Ls \<or> pre = []"
        using Blocks(2,3) by (cases pre) (auto simp: line_group_def list_all_iff)
      ultimately have "wf_lines (pre @ concat ?Ls)"
        using wf_lines_filter_groups[of Ls ?keep] Blocks(1)
        by (auto simp: wf_lines_append wf_lines_ended split: if_splits)
      moreover have "list_all line_group ?Ls" using Blocks(3) by (simp add: list_all_iff)
      ultimately have "filter_reviewable kept = Inr (concat pre @ concat (concat (filter ?keep ?Ls)))"
        using False Blocks(2,6) by (simp add: kept filter_reviewable_groups)
      then show ?thesis by (simp add: kept)
    qed
  qed
qed

section \<open>Added lines against commentable lines\<close>

text \<open>No line inside a hunk starts with \<open>+++\<close>.\<close>

fun plus_free :: "int option \<Rightarrow> pystr list \<Rightarrow> bool" where
  "plus_free n [] = True"
| "plus_free n (l # ls) =
     (if startswith l (U ''@@'') then plus_free (hunk_header l) ls
      else (n \<noteq> None \<longrightarrow> \<not> startswith l (U ''+++'')) \<and> plus_free n ls)"

lemma plus_free_position: "plus_free (Some a) ls = plus_free (Some b) ls"
  by (induction ls arbitrary: a b) auto

lemma changed_scan_subset: "plus_free n ls \<Longrightarrow> changed_scan n ls \<subseteq> comment_scan n ls"
proof (induction n ls rule: changed_scan.induct)
  case (2 n l ls)
  show ?case
  proof (cases n)
    case (Some k)
    then have "plus_free (Some (k + 1)) ls \<or> startswith l (U ''@@'')"
      using "2.prems" plus_free_position[of k ls "k + 1"] by auto
    with Some 2 show ?thesis by (auto split: if_splits)
  qed (use 2 in \<open>auto split: if_splits\<close>)
qed simp

lemma add_lines_lookup:
  "dict_get (add_lines p s m) q {} = (if q = p then dict_get m p {} \<union> s else dict_get m q {})"
  by (simp add: add_lines_def dict_get_def)

lemma block_lines_snoc:
  "block_lines scan (bs @ [(p, b)]) =
     (if p = [] then block_lines scan bs
      else add_lines p (scan None (splitlines b)) (block_lines scan bs))"
  by (simp add: block_lines_def)

lemma block_lines_lookup:
  "dict_get (block_lines scan bs) q {} =
   (if q = [] then {} else \<Union>(p, b)\<in>set bs. if p = q then scan None (splitlines b) else {})"
proof (induction bs rule: rev_induct)
  case Nil
  show ?case by (simp add: block_lines_def dict_get_def)
next
  case (snoc x bs)
  obtain p b where x: "x = (p, b)" by (cases x)
  show ?case using snoc by (auto simp: x block_lines_snoc add_lines_lookup)
qed

section \<open>Properties\<close>

text \<open>A two-file diff; the second file is a lock file.\<close>

definition sample_diff :: pystr where
  "sample_diff =
     U ''diff --git a/a b/a'' @ [10] @ U ''@@ -1 +1,2 @@'' @ [10] @ U '' k'' @ [10] @ U ''+x'' @ [10] @
     U ''diff --git a/go.sum b/go.sum'' @ [10] @ U ''@@ -1 +1 @@'' @ [10] @ U ''+z'' @ [10]"

text \<open>
  Cutting a diff into file blocks loses nothing: the blocks, in order, are the diff, and a block
  cut again is itself, with the same path.
\<close>

lemma split_blocks_lossless:
  assumes "split_file_blocks diff = Inr bs"
  shows "concat (map snd bs) = diff \<and>
    (\<forall>(path, block)\<in>set bs. split_file_blocks block = Inr [(path, block)])"
  using split_file_blocks_concat[OF assms] split_file_blocks_block[OF assms] by blast

text \<open>
  Filtering noise files out of a diff is idempotent: the reviewable diff filtered again is itself.
\<close>

lemma filter_reviewable_idempotent:
  assumes "filter_reviewable diff = Inr kept"
  shows "filter_reviewable kept = Inr kept"
  by (rule filter_reviewable_fixed[OF assms])

lemma filter_reviewable_idempotent_witness:
  "\<exists>kept. filter_reviewable sample_diff = Inr kept \<and> kept \<noteq> sample_diff \<and> filter_reviewable kept = Inr kept"
proof -
  have "\<not> isl (filter_reviewable sample_diff) \<and> projr (filter_reviewable sample_diff) \<noteq> sample_diff"
    by code_simp
  then obtain kept where kept: "filter_reviewable sample_diff = Inr kept" "kept \<noteq> sample_diff"
    by (cases "filter_reviewable sample_diff") auto
  with filter_reviewable_idempotent[OF kept(1)] show ?thesis by blast
qed

text \<open>
  A line reported as added is one a comment may be attached to, for every diff without an added
  line whose text begins with two plus signs.
\<close>

lemma changed_within_commentable:
  assumes "split_file_blocks diff = Inr bs"
    and "\<forall>(path, block)\<in>set bs. plus_free None (splitlines block)"
  shows "\<exists>changed commentable. changed_lines diff = Inr changed \<and>
    commentable_lines diff = Inr commentable \<and>
    (\<forall>path. dict_get changed path {} \<subseteq> dict_get commentable path {})"
proof -
  have "dict_get (block_lines changed_scan bs) path {} \<subseteq> dict_get (block_lines comment_scan bs) path {}" for path
    using assms(2) changed_scan_subset by (fastforce simp: block_lines_lookup split: if_splits)
  then show ?thesis by (simp add: changed_lines_def commentable_lines_def assms(1))
qed

lemma changed_within_commentable_witness:
  "\<exists>changed commentable. changed_lines sample_diff = Inr changed \<and>
    commentable_lines sample_diff = Inr commentable \<and>
    dict_get changed (U ''a'') {} \<subseteq> dict_get commentable (U ''a'') {}"
proof -
  have "\<not> isl (split_file_blocks sample_diff) \<and>
    (\<forall>(path, block)\<in>set (projr (split_file_blocks sample_diff)). plus_free None (splitlines block))"
    by code_simp
  then obtain bs where "split_file_blocks sample_diff = Inr bs"
    "\<forall>(path, block)\<in>set bs. plus_free None (splitlines block)"
    by (cases "split_file_blocks sample_diff") auto
  from changed_within_commentable[OF this] show ?thesis by blast
qed

text \<open>
  An added line whose text begins with two plus signs is taken for a header of the file: it is
  not counted, so the next added line of the hunk gets its number.  Here the lines 2 and 3 of the
  file are added; \<open>changed_lines\<close> reports line 2 alone, \<open>commentable_lines\<close> counts both.
\<close>

lemma plus_line_miscounted:
  "changed_lines (U ''diff --git a/a b/a'' @ [10] @ U ''@@ -1 +1,3 @@'' @ [10] @ U '' k'' @ [10] @
     U ''+++x;'' @ [10] @ U ''+y'' @ [10]) = Inr [(U ''a'', {2})] \<and>
   commentable_lines (U ''diff --git a/a b/a'' @ [10] @ U ''@@ -1 +1,3 @@'' @ [10] @ U '' k'' @ [10] @
     U ''+++x;'' @ [10] @ U ''+y'' @ [10]) = Inr [(U ''a'', {1, 2, 3})]"
  by code_simp

text \<open>
  A path that git quotes because it holds a backslash followed by an octal number above 377 makes
  every function of the module raise: the number does not fit a byte.
\<close>

lemma octal_path_raises:
  "split_file_blocks (U ''diff --git'' @ [32, 34] @ U ''a/x'' @ [92, 92] @ U ''777'' @ [34, 32, 34] @
     U ''b/x'' @ [92, 92] @ U ''777'' @ [34, 10]) =
   Inl (ValueError (U ''byte must be in range(0, 256)''))"
  by code_simp

end
