(* ===== verification/Diff_Chunks.thy ===== *)
theory Diff_Chunks
  imports Diff_Filter
begin

text \<open>
  The second half of \<open>server/review/diff_filter.py\<close>: blocks larger than the budget become
  continuation hunks, pieces are packed into chunks, and the ownership of added lines is checked.
\<close>

record hunk_line =
  hl_text :: pystr
  hl_old_no :: int
  hl_new_no :: int
  hl_old_count :: int
  hl_new_count :: int
  hl_owned_line :: "int option"

record diff_chunk =
  dc_index :: nat
  dc_text :: pystr
  dc_owned :: line_map
  dc_hash :: pystr

fun hunk_units_go :: "(int \<times> int) option \<Rightarrow> pystr list \<Rightarrow> hunk_line list" where
  "hunk_units_go pos [] = []"
| "hunk_units_go pos (l # ls) =
     (if startswith l (U ''@@'') then hunk_units_go (full_hunk_header l) ls
      else (case pos of
          None \<Rightarrow> hunk_units_go None ls
        | Some (old, new) \<Rightarrow>
            if l = [] then hunk_units_go pos ls
            else if startswith l (U ''+'') \<and> \<not> startswith l (U ''+++'')
            then \<lparr>hl_text = l, hl_old_no = old, hl_new_no = new, hl_old_count = 0,
                  hl_new_count = 1, hl_owned_line = Some new\<rparr>
                 # hunk_units_go (Some (old, new + 1)) ls
            else if startswith l (U ''-'') \<and> \<not> startswith l (U ''---'')
            then \<lparr>hl_text = l, hl_old_no = old, hl_new_no = new, hl_old_count = 1,
                  hl_new_count = 0, hl_owned_line = None\<rparr>
                 # hunk_units_go (Some (old + 1, new)) ls
            else if startswith l (U '' '')
            then \<lparr>hl_text = l, hl_old_no = old, hl_new_no = new, hl_old_count = 1,
                  hl_new_count = 1, hl_owned_line = None\<rparr>
                 # hunk_units_go (Some (old + 1, new + 1)) ls
            else hunk_units_go pos ls))"

definition hunk_line_units :: "pystr \<Rightarrow> hunk_line list" where
  "hunk_line_units t = hunk_units_go None (splitlines_keep t)"

definition diff_git_prefix :: "pystr \<Rightarrow> pystr" where
  "diff_git_prefix display = U ''diff --git a/'' @ display @ U '' b/'' @ display @ [10]"

definition synthetic_diff_prefix :: "(pystr \<Rightarrow> pystr) \<Rightarrow> pystr \<Rightarrow> int \<Rightarrow> pystr" where
  "synthetic_diff_prefix sha path budget =
     (let display = (if path = [] then U ''unknown'' else path);
          prefix = diff_git_prefix display
      in if int (length prefix) + 32 > budget
         then diff_git_prefix (U ''oversized-'' @ take 8 (sha display))
         else prefix)"

definition piece_header :: "hunk_line list \<Rightarrow> pystr" where
  "piece_header units =
     U ''@@ -'' @ int_text (hl_old_no (hd units)) @ U '','' @
     int_text (sum_list (map hl_old_count units)) @ U '' +'' @
     int_text (hl_new_no (hd units)) @ U '','' @
     int_text (sum_list (map hl_new_count units)) @ U '' @@ continued'' @ [10]"

definition render_hunk_piece :: "pystr \<Rightarrow> hunk_line list \<Rightarrow> pystr" where
  "render_hunk_piece prefix units = prefix @ piece_header units @ concat (map hl_text units)"

text \<open>U+2026 is the ellipsis of the marker.\<close>

definition truncation_marker :: pystr where
  "truncation_marker = U '' '' @ [8230] @ U '' [truncated; inspect snapshot]'' @ [10]"

definition shortened_text :: "pystr \<Rightarrow> nat \<Rightarrow> pystr" where
  "shortened_text t available =
     (let sigil = (if take 1 t \<in> {U ''+'', U ''-'', U '' ''} then take 1 t else U '' '') in
      if available \<le> length sigil then take available sigil
      else if available \<le> length sigil + length truncation_marker
      then take available (sigil @ [8230, 10])
      else sigil
           @ rstrip_by (\<lambda>c. c = 10)
               (take (available - length sigil - length truncation_marker) (drop 1 t))
           @ truncation_marker)"

definition truncate_unit_to_budget :: "pystr \<Rightarrow> hunk_line \<Rightarrow> int \<Rightarrow> hunk_line" where
  "truncate_unit_to_budget prefix u budget =
     (let rendered = render_hunk_piece prefix [u];
          header = take (length rendered - length (hl_text u)) rendered;
          available = nat (budget - int (length header))
      in u\<lparr>hl_text := shortened_text (hl_text u) available\<rparr>)"

type_synonym piece = "pystr \<times> line_map"

definition owned_of_units :: "pystr \<Rightarrow> hunk_line list \<Rightarrow> line_map" where
  "owned_of_units path units =
     (let owned = set (List.map_filter hl_owned_line units)
      in if path \<noteq> [] \<and> owned \<noteq> {} then [(path, owned)] else [])"

definition flush_units :: "pystr \<Rightarrow> pystr \<Rightarrow> hunk_line list \<Rightarrow> piece list" where
  "flush_units prefix path current =
     (if current = [] then []
      else [(render_hunk_piece prefix current, owned_of_units path current)])"

definition contiguous :: "hunk_line \<Rightarrow> hunk_line \<Rightarrow> bool" where
  "contiguous previous u \<longleftrightarrow>
     hl_old_no u = hl_old_no previous + hl_old_count previous \<and>
     hl_new_no u = hl_new_no previous + hl_new_count previous"

fun split_units :: "pystr \<Rightarrow> pystr \<Rightarrow> int \<Rightarrow> hunk_line list \<Rightarrow> hunk_line list \<Rightarrow> piece list" where
  "split_units prefix path budget current [] = flush_units prefix path current"
| "split_units prefix path budget current (u # us) =
     (let broken = current \<noteq> [] \<and> \<not> contiguous (last current) u;
          out1 = (if broken then flush_units prefix path current else []);
          current1 = (if broken then [] else current)
      in if int (length (render_hunk_piece prefix (current1 @ [u]))) \<le> budget
         then out1 @ split_units prefix path budget (current1 @ [u]) us
         else out1 @ flush_units prefix path current1 @
              split_units prefix path budget
                [if int (length (render_hunk_piece prefix [u])) > budget
                 then truncate_unit_to_budget prefix u budget else u] us)"

definition split_oversized_block ::
  "(pystr \<Rightarrow> pystr) \<Rightarrow> pystr \<Rightarrow> pystr \<Rightarrow> int \<Rightarrow> piece list" where
  "split_oversized_block sha path t budget =
     (let units = hunk_line_units t;
          prefix = synthetic_diff_prefix sha path budget
      in if units = [] \<or> int (length prefix) + 28 \<ge> budget
         then [(take (nat budget)
                  (prefix @ U ''# oversized diff metadata: '' @
                   (if path = [] then U ''unknown'' else path) @ [10]), [])]
         else split_units prefix path budget [] units)"

section \<open>Packing\<close>

text \<open>The loop's state: the packed chunks so far, the current text and what it owns.\<close>

definition flush_chunk :: "piece list \<times> piece \<Rightarrow> piece list \<times> piece" where
  "flush_chunk st =
     (case st of (packed, (t, owned)) \<Rightarrow>
        if t \<noteq> [] then (packed @ [(t, owned)], ([], [])) else st)"

definition merge_owned :: "line_map \<Rightarrow> line_map \<Rightarrow> line_map" where
  "merge_owned m new = fold (\<lambda>(path, ls) acc. add_lines path ls acc) new m"

definition pack_step :: "int \<Rightarrow> piece list \<times> piece \<Rightarrow> piece \<Rightarrow> piece list \<times> piece" where
  "pack_step budget st p =
     (let st1 = (if fst (snd st) \<noteq> [] \<and> int (length (fst (snd st)) + length (fst p)) > budget
                 then flush_chunk st else st);
          st2 = (fst st1, (fst (snd st1) @ fst p, merge_owned (snd (snd st1)) (snd p)))
      in if int (length (fst (snd st2))) \<ge> budget then flush_chunk st2 else st2)"

definition pack_pieces :: "int \<Rightarrow> piece list \<Rightarrow> piece list" where
  "pack_pieces budget ps = fst (flush_chunk (foldl (pack_step budget) ([], ([], [])) ps))"

definition block_pieces :: "(pystr \<Rightarrow> pystr) \<Rightarrow> int \<Rightarrow> pystr \<times> pystr \<Rightarrow> exn + piece list" where
  "block_pieces sha budget b =
     (case b of (path, t) \<Rightarrow>
        if int (length t) > budget then Inr (split_oversized_block sha path t budget)
        else ebind (changed_lines t) (\<lambda>m. Inr [(t, m)]))"

definition freeze_ownership :: "line_map \<Rightarrow> line_map" where
  "freeze_ownership m = filter (\<lambda>(_, ls). ls \<noteq> {}) m"

definition owned_pairs :: "line_map \<Rightarrow> (pystr \<times> int) set" where
  "owned_pairs m = (\<Union>(path, ls)\<in>set m. Pair path ` ls)"

text \<open>The loop that builds the records and rejects a line owned twice.\<close>

fun build_records ::
  "(pystr \<Rightarrow> pystr) \<Rightarrow> nat \<Rightarrow> (pystr \<times> int) set \<Rightarrow> piece list
   \<Rightarrow> exn + diff_chunk list \<times> (pystr \<times> int) set" where
  "build_records sha i seen [] = Inr ([], seen)"
| "build_records sha i seen ((t, owned) # ps) =
     (let frozen = freeze_ownership owned in
      if owned_pairs frozen \<inter> seen \<noteq> {}
      then Inl (ValueError (U ''changed line belongs to multiple diff chunks''))
      else ebind (build_records sha (Suc i) (seen \<union> owned_pairs frozen) ps) (\<lambda>(recs, seen').
             Inr (\<lparr>dc_index = i, dc_text = t, dc_owned = frozen, dc_hash = sha t\<rparr> # recs, seen')))"

definition chunk_records_by_budget ::
  "(pystr \<Rightarrow> pystr) \<Rightarrow> pystr \<Rightarrow> int \<Rightarrow> exn + diff_chunk list" where
  "chunk_records_by_budget sha diff budget =
     (if budget \<le> 0 then Inl (ValueError (U ''diff chunk budget must be positive''))
      else if diff = [] then Inr []
      else
        ebind (split_file_blocks diff) (\<lambda>bs.
        ebind (emap (block_pieces sha budget) bs) (\<lambda>pss.
        ebind (build_records sha 0 {} (pack_pieces budget (concat pss))) (\<lambda>(recs, seen).
        ebind (changed_lines diff) (\<lambda>m.
          if seen \<noteq> owned_pairs m
          then Inl (ValueError (U ''diff chunk ownership lost changed lines''))
          else Inr recs)))))"

definition chunk_by_budget :: "(pystr \<Rightarrow> pystr) \<Rightarrow> pystr \<Rightarrow> int \<Rightarrow> exn + pystr list" where
  "chunk_by_budget sha diff budget =
     ebind (chunk_records_by_budget sha diff budget) (\<lambda>recs. Inr (map dc_text recs))"

section \<open>Ownership\<close>

abbreviation keys_distinct :: "line_map \<Rightarrow> bool" where
  "keys_distinct m \<equiv> distinct (map fst m)"

lemma owned_pairs_iff: "keys_distinct m \<Longrightarrow> (q, l) \<in> owned_pairs m \<longleftrightarrow> l \<in> dict_get m q {}"
proof -
  assume d: "keys_distinct m"
  have "(q, l) \<in> owned_pairs m \<longleftrightarrow> (\<exists>ls. (q, ls) \<in> set m \<and> l \<in> ls)"
    by (auto simp: owned_pairs_def)
  also have "\<dots> \<longleftrightarrow> (\<exists>ls. map_of m q = Some ls \<and> l \<in> ls)" using d by (simp add: map_of_eq_Some_iff)
  also have "\<dots> \<longleftrightarrow> l \<in> dict_get m q {}" by (auto simp: dict_get_def split: option.splits)
  finally show ?thesis .
qed

lemma keys_add_lines [intro]: "keys_distinct m \<Longrightarrow> keys_distinct (add_lines p s m)"
  by (simp add: add_lines_def distinct_dict_set)

lemma owned_add_lines:
  "keys_distinct m \<Longrightarrow> owned_pairs (add_lines p s m) = owned_pairs m \<union> Pair p ` s"
  by (rule set_eqI) (auto simp: owned_pairs_iff keys_add_lines add_lines_lookup split: if_splits)

lemma merge_owned_Cons: "merge_owned m (x # new) = merge_owned (add_lines (fst x) (snd x) m) new"
  by (simp add: merge_owned_def case_prod_beta)

lemma merge_owned_pairs:
  "keys_distinct m \<Longrightarrow>
   keys_distinct (merge_owned m new) \<and> owned_pairs (merge_owned m new) = owned_pairs m \<union> owned_pairs new"
proof (induction new arbitrary: m)
  case Nil
  then show ?case by (simp add: merge_owned_def owned_pairs_def)
next
  case (Cons x new)
  have "owned_pairs (x # new) = Pair (fst x) ` snd x \<union> owned_pairs new"
    by (cases x) (simp add: owned_pairs_def)
  moreover have "keys_distinct (add_lines (fst x) (snd x) m)" using Cons.prems by (rule keys_add_lines)
  ultimately show ?case
    using Cons.IH Cons.prems unfolding merge_owned_Cons
    by (simp only: owned_add_lines Un_assoc simp_thms)
qed

lemma owned_freeze [simp]: "owned_pairs (freeze_ownership m) = owned_pairs m"
  by (auto simp: owned_pairs_def freeze_ownership_def)

lemma block_lines_distinct: "keys_distinct (block_lines scan bs)"
proof (induction bs rule: rev_induct)
  case Nil
  show ?case by (simp add: block_lines_def)
next
  case (snoc x bs)
  then show ?case by (cases x) (auto simp: block_lines_snoc)
qed

lemma owned_block_lines:
  "owned_pairs (block_lines scan bs) = (\<Union>b\<in>set bs. owned_pairs (block_lines scan [b]))"
proof (induction bs rule: rev_induct)
  case Nil
  show ?case by (simp add: block_lines_def owned_pairs_def)
next
  case (snoc x bs)
  have one: "owned_pairs (block_lines scan [x]) =
             (if fst x = [] then {} else Pair (fst x) ` scan None (splitlines (snd x)))"
    by (cases x) (simp add: block_lines_def owned_pairs_def add_lines_def dict_get_def)
  with snoc show ?case
    by (cases x) (auto simp: block_lines_snoc owned_add_lines block_lines_distinct)
qed

lemma build_records_owned:
  "build_records sha i seen ps = Inr (recs, seen') \<Longrightarrow>
   seen' = seen \<union> (\<Union>r\<in>set recs. owned_pairs (dc_owned r)) \<and>
   (\<forall>r\<in>set recs. owned_pairs (dc_owned r) \<inter> seen = {}) \<and>
   (\<forall>j k. j < k \<longrightarrow> k < length recs \<longrightarrow>
      owned_pairs (dc_owned (recs ! j)) \<inter> owned_pairs (dc_owned (recs ! k)) = {}) \<and>
   map dc_text recs = map fst ps \<and>
   (\<forall>k<length recs. dc_index (recs ! k) = i + k \<and> dc_hash (recs ! k) = sha (dc_text (recs ! k)))"
proof (induction sha i seen ps arbitrary: recs seen' rule: build_records.induct)
  case (1 sha i seen)
  then show ?case by simp
next
  case (2 sha i seen t owned ps)
  let ?f = "freeze_ownership owned"
  have dis: "owned_pairs ?f \<inter> seen = {}" using "2.prems" by (auto simp: Let_def split: if_splits)
  with "2.prems" obtain recs0 where
    rest: "build_records sha (Suc i) (seen \<union> owned_pairs ?f) ps = Inr (recs0, seen')"
    and recs: "recs = \<lparr>dc_index = i, dc_text = t, dc_owned = ?f, dc_hash = sha t\<rparr> # recs0"
    by (auto simp: Let_def ebind_Inr_iff split: if_splits)
  note ih = "2.IH"[OF refl _ rest]
  have ih: "seen' = (seen \<union> owned_pairs ?f) \<union> (\<Union>r\<in>set recs0. owned_pairs (dc_owned r))"
    "\<forall>r\<in>set recs0. owned_pairs (dc_owned r) \<inter> (seen \<union> owned_pairs ?f) = {}"
    "\<forall>j k. j < k \<longrightarrow> k < length recs0 \<longrightarrow>
      owned_pairs (dc_owned (recs0 ! j)) \<inter> owned_pairs (dc_owned (recs0 ! k)) = {}"
    "map dc_text recs0 = map fst ps"
    "\<forall>k<length recs0. dc_index (recs0 ! k) = Suc i + k \<and> dc_hash (recs0 ! k) = sha (dc_text (recs0 ! k))"
    using ih dis by simp_all
  have "j < k \<longrightarrow> k < length recs \<longrightarrow>
      owned_pairs (dc_owned (recs ! j)) \<inter> owned_pairs (dc_owned (recs ! k)) = {}" for j k
    using ih(2,3) by (cases j; cases k) (auto simp: recs dest: nth_mem)
  moreover have "k < length recs \<longrightarrow> dc_index (recs ! k) = i + k \<and> dc_hash (recs ! k) = sha (dc_text (recs ! k))" for k
    using ih(5) by (cases k) (auto simp: recs)
  ultimately show ?case using ih(1,2,4) dis by (auto simp: recs)
qed

section \<open>The size of a chunk\<close>

lemma length_marked:
  "length (if a \<le> length s then take a s
           else if a \<le> length s + length m then take a (s @ e)
           else s @ rstrip_by p (take (a - length s - length m) r) @ m) \<le> a"
  using length_rstrip_by[of p "take (a - length s - length m) r"] by auto

lemma length_shortened_text: "length (shortened_text t a) \<le> a"
  unfolding shortened_text_def Let_def by (rule length_marked)

lemma length_truncated:
  assumes "int (length prefix + length (piece_header [u])) \<le> budget"
  shows "int (length (render_hunk_piece prefix [truncate_unit_to_budget prefix u budget])) \<le> budget"
proof -
  have hdr: "piece_header [u\<lparr>hl_text := x\<rparr>] = piece_header [u]" for x
    by (simp add: piece_header_def)
  show ?thesis
    using assms length_shortened_text[of "hl_text u" "nat (budget - int (length prefix + length (piece_header [u])))"]
    by (simp add: truncate_unit_to_budget_def render_hunk_piece_def hdr Let_def)
qed

definition fits :: "int \<Rightarrow> piece list \<Rightarrow> bool" where
  "fits budget ps \<longleftrightarrow> (\<forall>p\<in>set ps. int (length (fst p)) \<le> budget)"

lemma fits_simps [simp]:
  "fits b []" "fits b (p # ps) \<longleftrightarrow> int (length (fst p)) \<le> b \<and> fits b ps"
  "fits b (ps @ qs) \<longleftrightarrow> fits b ps \<and> fits b qs"
  by (auto simp: fits_def)

lemma fits_flush_units:
  "current \<noteq> [] \<longrightarrow> int (length (render_hunk_piece prefix current)) \<le> budget \<Longrightarrow>
   fits budget (flush_units prefix path current)"
  by (auto simp: flush_units_def)

lemma fits_split_units:
  assumes "\<forall>u\<in>set us. int (length prefix + length (piece_header [u])) \<le> budget"
    and "current \<noteq> [] \<longrightarrow> int (length (render_hunk_piece prefix current)) \<le> budget"
  shows "fits budget (split_units prefix path budget current us)"
  using assms
proof (induction us arbitrary: current)
  case Nil
  then show ?case by (simp add: fits_flush_units)
next
  case (Cons u us)
  have single: "int (length (render_hunk_piece prefix
      [if int (length (render_hunk_piece prefix [u])) > budget
       then truncate_unit_to_budget prefix u budget else u])) \<le> budget"
    using length_truncated Cons.prems(1) by auto
  have "fits budget (split_units prefix path budget
      [if int (length (render_hunk_piece prefix [u])) > budget
       then truncate_unit_to_budget prefix u budget else u] us)"
    using single Cons.prems(1) by (intro Cons.IH) auto
  moreover have "int (length (render_hunk_piece prefix (c @ [u]))) \<le> budget \<Longrightarrow>
      fits budget (split_units prefix path budget (c @ [u]) us)" for c
    using Cons.prems(1) by (intro Cons.IH) auto
  ultimately show ?case using fits_flush_units Cons.prems(2)
    by (simp add: Let_def split del: if_split split: if_split)
qed

text \<open>The room for the header of a continuation hunk.\<close>

definition header_room :: "(pystr \<Rightarrow> pystr) \<Rightarrow> int \<Rightarrow> pystr \<times> pystr \<Rightarrow> bool" where
  "header_room sha budget b \<longleftrightarrow>
     (\<forall>u\<in>set (hunk_line_units (snd b)).
        int (length (synthetic_diff_prefix sha (fst b) budget) + length (piece_header [u])) \<le> budget)"

lemma length_take_nat: "0 < b \<Longrightarrow> int (length (take (nat b) s)) \<le> b"
  by (simp add: min_def) linarith

lemma fits_split_oversized_block:
  assumes "0 < budget" and "header_room sha budget (path, t)"
  shows "fits budget (split_oversized_block sha path t budget)"
proof -
  have "fits budget (split_units (synthetic_diff_prefix sha path budget) path budget [] (hunk_line_units t))"
    using assms(2) by (intro fits_split_units) (auto simp: header_room_def)
  moreover have "fits budget [(take (nat budget) s, [])]" for s
    using length_take_nat[OF assms(1), of s] by (simp only: fits_simps fst_conv)
  ultimately show ?thesis unfolding split_oversized_block_def Let_def by (simp only: if_split simp_thms)
qed

lemma fits_block_pieces:
  assumes "0 < budget" "block_pieces sha budget b = Inr ps"
    and "int (length (snd b)) > budget \<longrightarrow> header_room sha budget b"
  shows "fits budget ps"
proof (cases b)
  case (Pair path t)
  show ?thesis
    using assms fits_split_oversized_block[of budget sha path t]
    by (auto simp: block_pieces_def Pair ebind_Inr_iff split: if_splits)
qed

lemma fits_pack_step:
  "fits budget (fst st) \<Longrightarrow> int (length (fst (snd st))) \<le> budget \<Longrightarrow> int (length (fst p)) \<le> budget \<Longrightarrow>
   fits budget (fst (pack_step budget st p)) \<and> int (length (fst (snd (pack_step budget st p)))) \<le> budget"
  by (cases st) (auto simp: pack_step_def flush_chunk_def Let_def split: if_splits)

lemma fits_foldl_pack:
  "fits budget (fst st) \<Longrightarrow> int (length (fst (snd st))) \<le> budget \<Longrightarrow> fits budget ps \<Longrightarrow>
   fits budget (fst (foldl (pack_step budget) st ps)) \<and>
   int (length (fst (snd (foldl (pack_step budget) st ps)))) \<le> budget"
proof (induction ps arbitrary: st)
  case (Cons p ps)
  then show ?case using fits_pack_step[of budget st p] by simp
qed simp

lemma fits_pack_pieces: "0 < budget \<Longrightarrow> fits budget ps \<Longrightarrow> fits budget (pack_pieces budget ps)"
  using fits_foldl_pack[of budget "([], ([], []))" ps]
  by (auto simp: pack_pieces_def flush_chunk_def split: prod.splits)

lemma emap_pieces:
  "emap f xs = Inr yss \<Longrightarrow> y \<in> set yss \<Longrightarrow> \<exists>x\<in>set xs. f x = Inr y"
  by (induction xs arbitrary: yss) (auto simp: ebind_Inr_iff)

text \<open>
  The size promise of \<open>chunk_records_by_budget\<close>.  When it returns, no chunk is longer than
  the budget, provided the header of every continuation hunk of an oversized file fits.
\<close>

lemma chunk_hard_cap:
  assumes "chunk_records_by_budget sha diff budget = Inr recs"
    and "split_file_blocks diff = Inr bs"
    and "\<forall>b\<in>set bs. int (length (snd b)) > budget \<longrightarrow> header_room sha budget b"
    and "r \<in> set recs"
  shows "int (length (dc_text r)) \<le> budget"
proof -
  have "0 < budget" "diff \<noteq> []" using assms by (auto simp: chunk_records_by_budget_def split: if_splits)
  then obtain pss seen m where pss: "emap (block_pieces sha budget) bs = Inr pss"
    and recs: "build_records sha 0 {} (pack_pieces budget (concat pss)) = Inr (recs, seen)"
    using assms(1,2) by (auto simp: chunk_records_by_budget_def ebind_Inr_iff split: if_splits prod.splits)
  have "\<forall>ps\<in>set pss. fits budget ps"
    using fits_block_pieces[OF \<open>0 < budget\<close>] emap_pieces[OF pss] assms(3) by blast
  then have "fits budget (concat pss)" by (auto simp: fits_def)
  then have "fits budget (pack_pieces budget (concat pss))" using \<open>0 < budget\<close> by (intro fits_pack_pieces)
  moreover have "map dc_text recs = map fst (pack_pieces budget (concat pss))"
    using build_records_owned[OF recs] by simp
  then have "dc_text r \<in> fst ` set (pack_pieces budget (concat pss))"
    using assms(4) by (metis image_eqI list.set_map)
  ultimately show ?thesis by (auto simp: fits_def)
qed

lemma chunk_records_built:
  assumes "chunk_records_by_budget sha diff budget = Inr recs" and "changed_lines diff = Inr m"
  shows "\<exists>ps. build_records sha 0 {} ps = Inr (recs, owned_pairs m)"
proof (cases "diff = []")
  case True
  with assms have "build_records sha 0 {} [] = Inr (recs, owned_pairs m)"
    by (auto simp: chunk_records_by_budget_def changed_lines_def split_file_blocks_def
        block_lines_def owned_pairs_def split: if_splits)
  then show ?thesis ..
next
  case False
  with assms show ?thesis by (auto simp: chunk_records_by_budget_def ebind_Inr_iff split: if_splits prod.splits)
qed

lemma chunk_owned_union:
  assumes "chunk_records_by_budget sha diff budget = Inr recs" and "changed_lines diff = Inr m"
  shows "(\<Union>r\<in>set recs. owned_pairs (dc_owned r)) = owned_pairs m"
proof -
  obtain ps where "build_records sha 0 {} ps = Inr (recs, owned_pairs m)" using chunk_records_built[OF assms] by blast
  from build_records_owned[OF this] show ?thesis by simp
qed

text \<open>
  C2: when \<open>chunk_records_by_budget\<close> returns, the ownership sets of its chunks partition the
  added lines of the whole diff, and every chunk carries its position and the hash of its text.
\<close>

theorem chunk_ownership_partition:
  assumes "chunk_records_by_budget sha diff budget = Inr recs" and "changed_lines diff = Inr m"
  shows "(\<Union>r\<in>set recs. owned_pairs (dc_owned r)) = owned_pairs m \<and>
    (\<forall>j k. j < k \<longrightarrow> k < length recs \<longrightarrow>
      owned_pairs (dc_owned (recs ! j)) \<inter> owned_pairs (dc_owned (recs ! k)) = {}) \<and>
    (\<forall>k<length recs. dc_index (recs ! k) = k \<and> dc_hash (recs ! k) = sha (dc_text (recs ! k)))"
proof -
  obtain ps where "build_records sha 0 {} ps = Inr (recs, owned_pairs m)" using chunk_records_built[OF assms] by blast
  from build_records_owned[OF this] show ?thesis by simp
qed

section \<open>A diff whose files all fit\<close>

text \<open>Pairwise disjoint sets, as the ownership check of \<open>build_records\<close> wants them.\<close>

fun separate :: "'a set list \<Rightarrow> bool" where
  "separate [] = True"
| "separate (s # ss) = (s \<inter> \<Union> (set ss) = {} \<and> separate ss)"

lemma separate_append:
  "separate (xs @ ys) \<longleftrightarrow> separate xs \<and> separate ys \<and> \<Union> (set xs) \<inter> \<Union> (set ys) = {}"
  by (induction xs) auto

abbreviation owned_sets :: "piece list \<Rightarrow> (pystr \<times> int) set list" where
  "owned_sets ps \<equiv> map (\<lambda>p. owned_pairs (snd p)) ps"

lemma build_records_succeeds:
  "separate (owned_sets ps) \<Longrightarrow> \<Union> (set (owned_sets ps)) \<inter> seen = {} \<Longrightarrow>
   \<exists>recs. build_records sha i seen ps = Inr (recs, seen \<union> \<Union> (set (owned_sets ps)))"
proof (induction ps arbitrary: i seen)
  case (Cons p ps)
  obtain t m where p: "p = (t, m)" by (cases p)
  have "\<exists>recs. build_records sha (Suc i) (seen \<union> owned_pairs m) ps =
          Inr (recs, (seen \<union> owned_pairs m) \<union> \<Union> (set (owned_sets ps)))"
    using Cons.prems by (intro Cons.IH) (auto simp: p)
  then obtain recs where "build_records sha (Suc i) (seen \<union> owned_pairs m) ps =
          Inr (recs, (seen \<union> owned_pairs m) \<union> \<Union> (set (owned_sets ps)))" by blast
  moreover have "owned_pairs m \<inter> seen = {}" using Cons.prems by (auto simp: p)
  ultimately show ?case by (simp add: p Let_def Un_assoc)
qed simp

text \<open>
  What packing keeps: the text in order, the disjointness and the union of the ownership sets.
\<close>

fun pack_ok :: "piece list \<times> piece \<Rightarrow> piece list \<Rightarrow> pystr \<Rightarrow> (pystr \<times> int) set \<Rightarrow> bool" where
  "pack_ok (packed, (t, m)) ps whole pairs =
     (concat (map fst packed) @ t @ concat (map fst ps) = whole \<and> keys_distinct m \<and>
      (t = [] \<longrightarrow> m = []) \<and>
      separate (owned_sets packed @ owned_pairs m # owned_sets ps) \<and>
      \<Union> (set (owned_sets packed @ owned_pairs m # owned_sets ps)) = pairs)"

lemma owned_pairs_Nil [simp]: "owned_pairs [] = {}"
  by (simp add: owned_pairs_def)

lemma pack_ok_flush:
  "pack_ok st ps whole pairs \<Longrightarrow> pack_ok (flush_chunk st) ps whole pairs"
  by (cases st) (auto simp: flush_chunk_def separate_append)

lemma pack_ok_add:
  "pack_ok (packed, (t, m)) (p # ps) whole pairs \<Longrightarrow> fst p \<noteq> [] \<Longrightarrow>
   pack_ok (packed, (t @ fst p, merge_owned m (snd p))) ps whole pairs"
proof -
  assume ok: "pack_ok (packed, (t, m)) (p # ps) whole pairs" and ne: "fst p \<noteq> []"
  then have "owned_pairs (merge_owned m (snd p)) = owned_pairs m \<union> owned_pairs (snd p)"
    and "keys_distinct (merge_owned m (snd p))" using merge_owned_pairs by auto
  with ok ne show ?thesis by (simp add: separate_append) blast
qed

lemma if_both: "Q x \<Longrightarrow> Q y \<Longrightarrow> Q (if c then x else y)"
  by simp

lemma pack_ok_step:
  assumes "pack_ok st (p # ps) whole pairs" "fst p \<noteq> []"
  shows "pack_ok (pack_step budget st p) ps whole pairs"
proof -
  let ?st1 = "if fst (snd st) \<noteq> [] \<and> int (length (fst (snd st)) + length (fst p)) > budget
              then flush_chunk st else st"
  let ?st2 = "(fst ?st1, (fst (snd ?st1) @ fst p, merge_owned (snd (snd ?st1)) (snd p)))"
  have ok1: "pack_ok ?st1 (p # ps) whole pairs"
    by (rule if_both[where Q = "\<lambda>s. pack_ok s (p # ps) whole pairs", OF pack_ok_flush[OF assms(1)] assms(1)])
  obtain k t m where st1: "?st1 = (k, (t, m))" by (metis prod.exhaust)
  have ok2: "pack_ok ?st2 ps whole pairs"
    using pack_ok_add[OF ok1[unfolded st1] assms(2)] by (simp only: st1 fst_conv snd_conv)
  show ?thesis unfolding pack_step_def Let_def
    by (rule if_both[where Q = "\<lambda>s. pack_ok s ps whole pairs", OF pack_ok_flush[OF ok2] ok2])
qed

lemma pack_ok_foldl:
  "pack_ok st ps whole pairs \<Longrightarrow> \<forall>p\<in>set ps. fst p \<noteq> [] \<Longrightarrow>
   pack_ok (foldl (pack_step budget) st ps) [] whole pairs"
  by (induction ps arbitrary: st) (simp_all add: pack_ok_step)

lemma pack_pieces_ok:
  assumes "\<forall>p\<in>set ps. fst p \<noteq> []" "separate (owned_sets ps)"
  shows "concat (map fst (pack_pieces budget ps)) = concat (map fst ps)"
    "separate (owned_sets (pack_pieces budget ps))"
    "\<Union> (set (owned_sets (pack_pieces budget ps))) = \<Union> (set (owned_sets ps))"
proof -
  let ?fin = "flush_chunk (foldl (pack_step budget) ([], ([], [])) ps)"
  have "pack_ok ([], ([], [])) ps (concat (map fst ps)) (\<Union> (set (owned_sets ps)))"
    using assms(2) by simp
  then have ok: "pack_ok ?fin [] (concat (map fst ps)) (\<Union> (set (owned_sets ps)))"
    by (intro pack_ok_flush pack_ok_foldl assms(1))
  have "fst (snd ?fin) = []" by (auto simp: flush_chunk_def split: prod.splits)
  with ok show "concat (map fst (pack_pieces budget ps)) = concat (map fst ps)"
    "separate (owned_sets (pack_pieces budget ps))"
    "\<Union> (set (owned_sets (pack_pieces budget ps))) = \<Union> (set (owned_sets ps))"
    by (cases ?fin; auto simp: pack_pieces_def separate_append)+
qed

lemma split_file_blocks_nonempty:
  assumes "split_file_blocks diff = Inr bs" "b \<in> set bs"
  shows "snd b \<noteq> []"
  using assms split_file_blocks_block[of diff bs "fst b" "snd b"] by (auto simp: split_file_blocks_def)

lemma separate_blocks:
  "distinct (filter (\<lambda>p. p \<noteq> []) (map fst bs)) \<Longrightarrow>
   separate (map (\<lambda>b. owned_pairs (block_lines scan [b])) bs)"
proof (induction bs)
  case (Cons b bs)
  have fst_owned: "x \<in> owned_pairs (block_lines scan [c]) \<Longrightarrow> fst x = fst c \<and> fst c \<noteq> []" for c x
    by (cases c) (auto simp: block_lines_def owned_pairs_def add_lines_def dict_get_def split: if_splits)
  have "owned_pairs (block_lines scan [b]) \<inter> owned_pairs (block_lines scan [c]) = {}"
    if "c \<in> set bs" for c
    using Cons.prems that fst_owned[of _ b] fst_owned[of _ c] by (auto split: if_splits) (metis image_eqI)
  then have "owned_pairs (block_lines scan [b]) \<inter>
      \<Union> (set (map (\<lambda>b. owned_pairs (block_lines scan [b])) bs)) = {}" by auto
  with Cons show ?case by (auto split: if_splits)
qed simp

text \<open>
  C16: a diff in which every file fits the budget and no path occurs twice is always chunked: the
  chunker returns, no character is lost or moved, and no chunk exceeds the budget.
\<close>

theorem chunk_lossless:
  assumes "0 < budget" "split_file_blocks diff = Inr bs"
    and "\<forall>b\<in>set bs. int (length (snd b)) \<le> budget"
    and "distinct (filter (\<lambda>p. p \<noteq> []) (map fst bs))"
  shows "\<exists>recs. chunk_records_by_budget sha diff budget = Inr recs \<and>
    concat (map dc_text recs) = diff \<and> (\<forall>r\<in>set recs. int (length (dc_text r)) \<le> budget)"
proof -
  let ?piece = "\<lambda>b. (snd b, block_lines changed_scan [b])"
  let ?ps = "map ?piece bs"
  let ?packed = "pack_pieces budget ?ps"
  have "block_pieces sha budget b = Inr [?piece b]" if "b \<in> set bs" for b
    using assms(3) that split_file_blocks_block[OF assms(2), of "fst b" "snd b"]
    by (auto simp: block_pieces_def changed_lines_def split: prod.splits)
  then have emaps: "emap (block_pieces sha budget) bs = Inr (map (\<lambda>b. [?piece b]) bs)"
    by (intro emap_total)
  have pieces: "concat (map (\<lambda>b. [?piece b]) bs) = ?ps" by (induction bs) auto
  have ne: "\<forall>p\<in>set ?ps. fst p \<noteq> []" using split_file_blocks_nonempty[OF assms(2)] by auto
  have sep: "separate (owned_sets ?ps)"
    using separate_blocks[OF assms(4), of changed_scan] by (simp add: comp_def)
  note packed = pack_pieces_ok[OF ne sep, of budget]
  have pairs: "\<Union> (set (owned_sets ?packed)) = owned_pairs (block_lines changed_scan bs)"
    using packed(3) owned_block_lines[of changed_scan bs] by auto
  obtain recs where recs: "build_records sha 0 {} ?packed =
      Inr (recs, owned_pairs (block_lines changed_scan bs))"
    using build_records_succeeds[of ?packed "{}" sha 0] packed(2) pairs by auto
  then have texts: "map dc_text recs = map fst ?packed" using build_records_owned by blast
  then have whole: "concat (map dc_text recs) = diff"
    using packed(1) split_file_blocks_concat[OF assms(2)] by (simp add: comp_def)
  have "fits budget ?packed" using assms(1,3) by (intro fits_pack_pieces) (auto simp: fits_def)
  moreover have "dc_text ` set recs = fst ` set ?packed" using texts by (metis list.set_map)
  then have "\<exists>p\<in>set ?packed. dc_text r = fst p" if "r \<in> set recs" for r using that by blast
  ultimately have cap: "\<forall>r\<in>set recs. int (length (dc_text r)) \<le> budget"
    unfolding fits_def by fastforce
  show ?thesis
  proof (cases "diff = []")
    case True
    then show ?thesis using assms(1) by (auto simp: chunk_records_by_budget_def)
  next
    case False
    then have "chunk_records_by_budget sha diff budget = Inr recs"
      using assms(1,2) recs emaps pieces
      by (simp add: chunk_records_by_budget_def changed_lines_def)
    with whole cap show ?thesis by blast
  qed
qed

section \<open>A diff cut into three chunks\<close>

definition sample_oversized :: pystr where
  "sample_oversized =
     U ''diff --git a/a b/a'' @ [10] @ U ''@@ -1 +1,3 @@'' @ [10] @ [43] @ replicate 90 107 @ [10] @
     [43] @ replicate 26 108 @ [10] @ U ''+y'' @ [10] @
     U ''diff --git a/go.sum b/go.sum'' @ [10] @ U ''@@ -1 +1 @@'' @ [10] @ U ''+z'' @ [10]"

definition sample_sha :: "pystr \<Rightarrow> pystr" where
  "sample_sha t = int_text (int (length t))"

definition sample_chunks :: "diff_chunk list" where
  "sample_chunks = projr (chunk_records_by_budget sample_sha sample_oversized 110)"

lemma sample_chunks_returned:
  "chunk_records_by_budget sample_sha sample_oversized 110 = Inr sample_chunks"
proof -
  have "\<not> isl (chunk_records_by_budget sample_sha sample_oversized 110)" by code_simp
  then show ?thesis unfolding sample_chunks_def
    by (cases "chunk_records_by_budget sample_sha sample_oversized 110") simp_all
qed

lemma sample_chunks_length: "length sample_chunks = 3"
  by code_simp

lemma chunk_ownership_partition_witness:
  "\<exists>m. changed_lines sample_oversized = Inr m \<and>
    (\<Union>r\<in>set sample_chunks. owned_pairs (dc_owned r)) = owned_pairs m"
proof -
  have "\<not> isl (changed_lines sample_oversized)" by code_simp
  then obtain m where "changed_lines sample_oversized = Inr m"
    by (cases "changed_lines sample_oversized") auto
  with chunk_ownership_partition[OF sample_chunks_returned this] show ?thesis by blast
qed

lemma chunk_lossless_witness:
  "\<exists>recs. chunk_records_by_budget sample_sha sample_oversized 200 = Inr recs \<and>
    concat (map dc_text recs) = sample_oversized"
proof -
  have "\<not> isl (split_file_blocks sample_oversized) \<and>
    (\<forall>b\<in>set (projr (split_file_blocks sample_oversized)). int (length (snd b)) \<le> 200) \<and>
    distinct (filter (\<lambda>p. p \<noteq> []) (map fst (projr (split_file_blocks sample_oversized))))"
    by code_simp
  then obtain bs where "split_file_blocks sample_oversized = Inr bs"
    "\<forall>b\<in>set bs. int (length (snd b)) \<le> 200" "distinct (filter (\<lambda>p. p \<noteq> []) (map fst bs))"
    by (cases "split_file_blocks sample_oversized") auto
  from chunk_lossless[OF _ this, of sample_sha] show ?thesis by auto
qed

end
