(* ===== verification/Vendor_Run.thy ===== *)
theory Vendor_Run
  imports Telemetry Review_Findings Diff_Chunks
begin

text \<open>
  One vendor's part of a review run (\<open>src/server/pipeline.py\<close>, \<open>src/server/review/pipeline_contracts.py\<close>): the
  chunks are reviewed one after the other, each outcome becomes a record, the records become the execution envelope
  that is stored, and a retry reads it back to find the chunks that are still open.  What a vendor answers, the
  clock and the CLI versions are arguments.
\<close>

section \<open>The contracts\<close>

definition REVIEW_CHUNKER_VERSION :: pystr where
  "REVIEW_CHUNKER_VERSION = U ''char-v1''"

record prompt_chunk =
  pk_index :: nat
  pk_prompt :: pystr
  pk_diff :: pystr
  pk_hash :: pystr
  pk_context :: pystr
  pk_nonce :: pystr
  pk_owned :: line_map
  pk_chunker :: pystr

record execution =
  ex_status :: pystr
  ex_duration :: "int option"
  ex_telemetry :: exec_meta

text \<open>The dictionary of a chunk; the members that come from the telemetry are kept as that record.\<close>

record chunk_meta =
  cm_index :: nat
  cm_status :: pystr
  cm_duration :: "int option"
  cm_telemetry :: exec_meta
  cm_hash :: "pystr option"
  cm_context :: "pystr option"
  cm_chunker :: "pystr option"
  cm_nonce :: "pystr option"
  cm_rejected :: nat
  cm_reassigned :: nat
  cm_duplicates :: nat

record vendor_run =
  vr_vendor :: pystr
  vr_status :: pystr
  vr_findings :: "model_finding list"
  vr_duration :: int
  vr_chunks :: "chunk_meta list"
  vr_verify :: "chunk_meta list"

definition run_succeeded :: "vendor_run \<Rightarrow> bool" where
  "run_succeeded r \<longleftrightarrow> vr_status r = U ''done'' \<or> vr_status r = U ''partial''"

section \<open>The record of a chunk\<close>

definition fallback_code :: "pystr \<Rightarrow> pystr option \<Rightarrow> pystr option" where
  "fallback_code status safe_error =
     (case safe_error of
        Some c \<Rightarrow> if c \<noteq> [] then Some c
                  else if status = U ''done'' then None
                  else if status = U ''timeout'' then Some (U ''timeout'') else Some (U ''unknown'')
      | None \<Rightarrow> if status = U ''done'' then None
                else if status = U ''timeout'' then Some (U ''timeout'') else Some (U ''unknown''))"

definition chunk_execution_meta ::
  "(rat \<Rightarrow> pystr) \<Rightarrow> nat \<Rightarrow> pystr \<Rightarrow> pystr \<Rightarrow> prompt_chunk option \<Rightarrow> execution option \<Rightarrow> int option \<Rightarrow> pystr option
   \<Rightarrow> exn + chunk_meta" where
  "chunk_execution_meta num index vendor status p ex duration safe_error =
     ebind (case ex of
              None \<Rightarrow> unavailable_meta num vendor None status (fallback_code status safe_error) None False
            | Some e \<Rightarrow> Inr (ex_telemetry e)) (\<lambda>m.
       Inr \<lparr>cm_index = index, cm_status = status,
            cm_duration = (case ex of None \<Rightarrow> duration | Some e \<Rightarrow> ex_duration e), cm_telemetry = m,
            cm_hash = map_option pk_hash p, cm_context = map_option pk_context p,
            cm_chunker = map_option pk_chunker p, cm_nonce = map_option pk_nonce p, cm_rejected = 0, cm_reassigned = 0, cm_duplicates = 0\<rparr>)"

text \<open>The 23 members as they are stored.\<close>

definition chunk_json :: "chunk_meta \<Rightarrow> json" where
  "chunk_json c =
     (let m = cm_telemetry c
      in JObj (zip (map U CHUNK_KEYS)
        [JInt (int (cm_index c)), JStr (cm_status c), text_json (em_error m), int_json (cm_duration c),
         int_json (em_input m), int_json (em_cached m), int_json (em_output m), int_json (em_reasoning m),
         int_json (em_total m), int_json (em_tool_calls m), int_json (em_events m), JBool (em_truncated m),
         JStr (em_telemetry m), JStr (em_cli_name m), text_json (em_cli_version m), text_json (em_event_schema m),
         text_json (cm_hash c), text_json (cm_context c), text_json (cm_chunker c), text_json (cm_nonce c),
         JInt (int (cm_reassigned c)), JInt (int (cm_rejected c)), JInt (int (cm_duplicates c))]))"

section \<open>Running a vendor\<close>

text \<open>What a call of \<open>ad.review\<close> comes to: findings, a timeout, a failed process or any other exception.\<close>

datatype review_outcome =
    Reviewed "model_finding list" "execution option"
  | Timed_Out
  | Process_Failed "execution option"
  | Raised

text \<open>One turn of the loop: the version the probe answers (none without a probe), the outcome, the clock.\<close>

record review_call =
  rc_version :: "pystr option"
  rc_outcome :: review_outcome
  rc_ms :: int

definition NewFullRunRequired :: exn where
  "NewFullRunRequired = OtherError (U ''NewFullRunRequired'') (U ''new_full_run_required'')"

definition version_drift :: "pystr option \<Rightarrow> review_call \<Rightarrow> bool" where
  "version_drift expected c \<longleftrightarrow>
     (case rc_version c of None \<Rightarrow> False | Some v \<Rightarrow> (case expected of None \<Rightarrow> False | Some w \<Rightarrow> v \<noteq> w))"

text \<open>
  The \<open>try\<close> of a chunk.  An exception in the success branch (a record that does not validate) ends in the last
  handler, with the findings already collected.
\<close>

definition review_chunk ::
  "(rat \<Rightarrow> pystr) \<Rightarrow> pystr \<Rightarrow> prompt_chunk \<Rightarrow> review_call \<Rightarrow> exn + model_finding list \<times> chunk_meta" where
  "review_chunk num vendor p c =
     (let record = (\<lambda>status ex. chunk_execution_meta num (pk_index p) vendor status (Some p) ex (Some (rc_ms c)) None);
          tagged = map (\<lambda>f. f\<lparr>mf_source_chunk := Some (pk_index p)\<rparr>)
      in case rc_outcome c of
           Reviewed fs ex \<Rightarrow>
             (case record (U ''done'') ex of
                Inr m \<Rightarrow> Inr (tagged fs, m)
              | Inl _ \<Rightarrow> ebind (record (U ''failed'') None) (\<lambda>m. Inr (tagged fs, m)))
         | Timed_Out \<Rightarrow> ebind (record (U ''timeout'') None) (\<lambda>m. Inr ([], m))
         | Process_Failed ex \<Rightarrow> ebind (record (U ''failed'') ex) (\<lambda>m. Inr ([], m))
         | Raised \<Rightarrow> ebind (record (U ''failed'') None) (\<lambda>m. Inr ([], m)))"

fun review_chunks ::
  "(rat \<Rightarrow> pystr) \<Rightarrow> pystr \<Rightarrow> pystr option \<Rightarrow> (prompt_chunk \<times> review_call) list
   \<Rightarrow> exn + model_finding list \<times> chunk_meta list" where
  "review_chunks num vendor expected [] = Inr ([], [])"
| "review_chunks num vendor expected ((p, c) # rest) =
     (if version_drift expected c then Inl NewFullRunRequired
      else ebind (review_chunk num vendor p c) (\<lambda>(fs, m).
           ebind (review_chunks num vendor expected rest) (\<lambda>(gs, ms). Inr (fs @ gs, m # ms))))"

definition chunks_status :: "chunk_meta list \<Rightarrow> pystr" where
  "chunks_status ms =
     (let done = length (filter (\<lambda>m. cm_status m = U ''done'') ms)
      in if done = length ms then U ''done''
         else if done > 0 then U ''partial''
         else if ms \<noteq> [] \<and> list_all (\<lambda>m. cm_status m = U ''timeout'') ms then U ''timeout''
         else U ''failed'')"

definition run_vendor_prepared ::
  "(rat \<Rightarrow> pystr) \<Rightarrow> pystr \<Rightarrow> pystr option \<Rightarrow> (prompt_chunk \<times> review_call) list \<Rightarrow> int \<Rightarrow> exn + vendor_run" where
  "run_vendor_prepared num vendor expected calls ms =
     ebind (review_chunks num vendor expected calls) (\<lambda>(fs, chunks).
       Inr \<lparr>vr_vendor = vendor, vr_status = chunks_status chunks, vr_findings = fs, vr_duration = ms,
            vr_chunks = chunks, vr_verify = []\<rparr>)"

definition runtime_failure_result ::
  "(rat \<Rightarrow> pystr) \<Rightarrow> pystr \<Rightarrow> prompt_chunk list \<Rightarrow> pystr \<Rightarrow> exn + vendor_run" where
  "runtime_failure_result num vendor prompts safe_error =
     ebind (emap (\<lambda>p. chunk_execution_meta num (pk_index p) vendor (U ''failed'') (Some p) None None (Some safe_error)) prompts)
       (\<lambda>chunks. Inr \<lparr>vr_vendor = vendor, vr_status = U ''failed'', vr_findings = [], vr_duration = 0,
                      vr_chunks = chunks, vr_verify = []\<rparr>)"

text \<open>
  The credentials of the vendor surround the run; \<open>credentials\<close> is the code of a \<open>RuntimeCredentialError\<close> that
  preparing or removing them raises.
\<close>

definition run_vendor ::
  "(rat \<Rightarrow> pystr) \<Rightarrow> pystr \<Rightarrow> pystr option \<Rightarrow> (prompt_chunk \<times> review_call) list \<Rightarrow> int \<Rightarrow> pystr option
   \<Rightarrow> exn + vendor_run" where
  "run_vendor num vendor expected calls ms credentials =
     (case credentials of
        None \<Rightarrow> run_vendor_prepared num vendor expected calls ms
      | Some code \<Rightarrow> runtime_failure_result num vendor (map fst calls) code)"

text \<open>The results of all vendors: their findings with the row of the vendor, how many succeeded, the errors.\<close>

definition vendor_error :: "vendor_run \<Rightarrow> pystr" where
  "vendor_error r =
     (let codes = List.map_filter (\<lambda>c. em_error (cm_telemetry c)) (vr_chunks r);
          safe = sort_key id (remdups (filter (\<lambda>c. c \<noteq> []) codes))
      in vr_vendor r @ U '':'' @ vr_status r @ (if safe = [] then [] else U '':'' @ join_text (U '','') safe))"

definition prepare_vendor_results ::
  "(pystr \<Rightarrow> nat) \<Rightarrow> vendor_run list \<Rightarrow> (nat \<times> model_finding) list \<times> nat \<times> pystr list" where
  "prepare_vendor_results vr_ids results =
     (let good = filter run_succeeded results
      in (concat (map (\<lambda>r. map (\<lambda>f. (vr_ids (vr_vendor r), f\<lparr>mf_vendor_result := Some (vr_ids (vr_vendor r))\<rparr>))
                             (vr_findings r)) good),
          length good, map vendor_error (filter (\<lambda>r. \<not> run_succeeded r) results)))"

section \<open>The stored envelope\<close>

type_synonym identity = "(pystr \<times> json) list"

definition identity_changed :: exn where
  "identity_changed = RuntimeError (U ''vendor execution identity changed'')"

definition chunk_bound :: "identity \<Rightarrow> chunk_meta \<Rightarrow> bool" where
  "chunk_bound identity c \<longleftrightarrow>
     (let m = cm_telemetry c
      in JStr (em_cli_name m) = fld identity ''vendor'' \<and>
         (em_cli_version m = None \<or> text_json (em_cli_version m) = fld identity ''cli_version'') \<and>
         (em_event_schema m = None \<or> text_json (em_event_schema m) = fld identity ''event_schema_version''))"

definition vendor_execution_envelope ::
  "(rat \<Rightarrow> pystr) \<Rightarrow> vendor_run \<Rightarrow> identity \<Rightarrow> int \<Rightarrow> exn + json" where
  "vendor_execution_envelope num r identity attempt =
     (if \<not> list_all (chunk_bound identity) (vr_chunks r @ vr_verify r) then Inl identity_changed
      else build_execution_envelope num identity attempt (U ''review'') (map chunk_json (vr_chunks r)))"

text \<open>What \<open>_persist_vendor_results\<close> hands to the repository for one vendor: the status text and the envelope.\<close>

definition vendor_safe_error :: "vendor_run \<Rightarrow> pystr option" where
  "vendor_safe_error r =
     (if vr_status r = U ''partial'' then Some (U ''partial chunk failure'')
      else if vr_status r = U ''failed'' \<or> vr_status r = U ''timeout'' then Some (U ''vendor '' @ vr_status r)
      else None)"

definition extend_attempts :: "json \<Rightarrow> json \<Rightarrow> json" where
  "extend_attempts e v =
     (case e of
        JObj o1 \<Rightarrow> JObj (dict_set (U ''attempts'') (JList (envelope_attempts e @ envelope_attempts v)) o1)
      | _ \<Rightarrow> e)"

definition persisted_envelope :: "(rat \<Rightarrow> pystr) \<Rightarrow> vendor_run \<Rightarrow> identity \<Rightarrow> int \<Rightarrow> exn + json" where
  "persisted_envelope num r identity attempt =
     ebind (vendor_execution_envelope num r identity attempt) (\<lambda>e.
       if vr_verify r = [] then Inr e
       else ebind (build_execution_envelope num identity (attempt + 1) (U ''verify'') (map chunk_json (vr_verify r)))
              (\<lambda>v. Inr (extend_attempts e v)))"

section \<open>Retrying\<close>

definition attempt_phase :: "json \<Rightarrow> json" where
  "attempt_phase a = envelope_field a ''phase''"

definition review_attempts :: "json \<Rightarrow> json list" where
  "review_attempts meta = filter (\<lambda>a. attempt_phase a = JStr (U ''review'')) (envelope_attempts meta)"

definition saved_index :: "json \<Rightarrow> int" where
  "saved_index c = (case envelope_field c ''index'' of JInt i \<Rightarrow> i | _ \<Rightarrow> 0)"

fun collect_nonces :: "json list \<Rightarrow> (int \<times> json) list \<Rightarrow> exn + (int \<times> json) list" where
  "collect_nonces [] current = Inr current"
| "collect_nonces (c # cs) current =
     (case map_of current (saved_index c) of
        None \<Rightarrow> collect_nonces cs (current @ [(saved_index c, envelope_field c ''prompt_nonce'')])
      | Some n \<Rightarrow> if n \<noteq> envelope_field c ''prompt_nonce'' then Inl NewFullRunRequired else collect_nonces cs current)"

definition envelope_nonces :: "json option \<Rightarrow> exn + (int \<times> json) list" where
  "envelope_nonces meta =
     (case meta of
        None \<Rightarrow> Inl NewFullRunRequired
      | Some m \<Rightarrow>
          if review_attempts m = [] then Inl NewFullRunRequired
          else collect_nonces (concat (map attempt_chunks (sort_key attempt_number (review_attempts m)))) [])"

text \<open>Every vendor must have seen the same nonces, compared as dictionaries.\<close>

fun retry_nonces_go :: "(int \<times> json) list option \<Rightarrow> json option list \<Rightarrow> exn + (int \<times> json) list" where
  "retry_nonces_go nonces [] = Inr (case nonces of None \<Rightarrow> [] | Some n \<Rightarrow> n)"
| "retry_nonces_go nonces (m # ms) =
     ebind (envelope_nonces m) (\<lambda>current.
       case nonces of
         None \<Rightarrow> retry_nonces_go (Some current) ms
       | Some n \<Rightarrow> if set n \<noteq> set current then Inl NewFullRunRequired else retry_nonces_go (Some n) ms)"

definition retry_prompt_nonces :: "json option list \<Rightarrow> exn + (int \<times> json) list" where
  "retry_prompt_nonces metas = retry_nonces_go None metas"

text \<open>\<open>max(review_attempts, key=..)\<close>: the first of the attempts with the highest number.\<close>

fun latest_attempt :: "json list \<Rightarrow> json" where
  "latest_attempt [] = JNull"
| "latest_attempt [a] = a"
| "latest_attempt (a # b # as) =
     (let l = latest_attempt (b # as) in if attempt_number a \<ge> attempt_number l then a else l)"

definition same_basis :: "json \<Rightarrow> prompt_chunk \<Rightarrow> bool" where
  "same_basis saved p \<longleftrightarrow>
     envelope_field saved ''chunk_hash'' = JStr (pk_hash p) \<and> envelope_field saved ''context_hash'' = JStr (pk_context p) \<and>
     envelope_field saved ''chunker_version'' = JStr (pk_chunker p) \<and>
     envelope_field saved ''prompt_nonce'' = JStr (pk_nonce p)"

definition prompt_at :: "prompt_chunk list \<Rightarrow> int \<Rightarrow> prompt_chunk option" where
  "prompt_at prompts i = List.find (\<lambda>p. int (pk_index p) = i) (rev prompts)"

fun select_retry :: "prompt_chunk list \<Rightarrow> json list \<Rightarrow> exn + prompt_chunk list" where
  "select_retry prompts [] = Inr []"
| "select_retry prompts (saved # rest) =
     (case prompt_at prompts (saved_index saved) of
        None \<Rightarrow> Inl NewFullRunRequired
      | Some p \<Rightarrow>
          if \<not> same_basis saved p then Inl NewFullRunRequired
          else ebind (select_retry prompts rest) (\<lambda>ps.
            Inr (if envelope_field saved ''status'' \<in> set (texts [''failed'', ''timeout'']) then p # ps else ps)))"

definition retry_prompt_chunks :: "json option \<Rightarrow> prompt_chunk list \<Rightarrow> exn + prompt_chunk list" where
  "retry_prompt_chunks meta prompts =
     (case meta of
        None \<Rightarrow> Inl NewFullRunRequired
      | Some m \<Rightarrow>
          if review_attempts m = [] then Inl NewFullRunRequired
          else select_retry prompts (attempt_chunks (latest_attempt (review_attempts m))))"

definition require_retry_identity :: "json option \<Rightarrow> identity \<Rightarrow> exn option" where
  "require_retry_identity stored current =
     (case stored of
        None \<Rightarrow> Some NewFullRunRequired
      | Some s \<Rightarrow>
          if list_ex (\<lambda>k. case fld current k of JStr t \<Rightarrow> t = [] | _ \<Rightarrow> True) EXECUTION_IDENTITY_FIELDS
             \<or> fld current ''cli_version'' = JStr (U ''unknown'')
             \<or> list_ex (\<lambda>k. envelope_field s k \<noteq> fld current k) EXECUTION_IDENTITY_FIELDS
          then Some NewFullRunRequired else None)"

section \<open>A run accounts for every chunk\<close>

definition outcome_status :: "review_call \<Rightarrow> pystr" where
  "outcome_status c = (case rc_outcome c of Reviewed fs ex \<Rightarrow> U ''done'' | Timed_Out \<Rightarrow> U ''timeout'' | _ \<Rightarrow> U ''failed'')"

definition outcome_findings :: "review_call \<Rightarrow> model_finding list" where
  "outcome_findings c = (case rc_outcome c of Reviewed fs ex \<Rightarrow> fs | _ \<Rightarrow> [])"

definition records_call :: "prompt_chunk \<times> review_call \<Rightarrow> chunk_meta \<Rightarrow> bool" where
  "records_call pc m \<longleftrightarrow>
     (case pc of (p, c) \<Rightarrow>
        cm_index m = pk_index p \<and> cm_status m = outcome_status c \<and> cm_hash m = Some (pk_hash p) \<and>
        cm_context m = Some (pk_context p) \<and> cm_chunker m = Some (pk_chunker p) \<and> cm_nonce m = Some (pk_nonce p))"

text \<open>The metadata of a call that left none is always valid.\<close>

lemma unavailable_valid:
  assumes "vendor \<in> set (map U VENDORS)" "status \<in> set (map U [''done'', ''failed'', ''timeout''])"
  shows "\<exists>m. unavailable_meta num vendor None status (fallback_code status None) None False = Inr m"
proof -
  have "list_all (\<lambda>v. list_all (\<lambda>s. \<not> isl (unavailable_meta num v None s (fallback_code s None) None False))
      (map U [''done'', ''failed'', ''timeout''])) (map U VENDORS)"
    by code_simp
  with assms have "\<not> isl (unavailable_meta num vendor None status (fallback_code status None) None False)"
    unfolding list_all_iff by blast
  then show ?thesis by (cases "unavailable_meta num vendor None status (fallback_code status None) None False") auto
qed

lemma chunk_meta_valid:
  assumes "vendor \<in> set (map U VENDORS)" "status \<in> set (map U [''done'', ''failed'', ''timeout''])"
  shows "\<exists>m. chunk_execution_meta num i vendor status (Some p) ex d None = Inr m \<and> cm_index m = i \<and> cm_status m = status \<and>
    cm_hash m = Some (pk_hash p) \<and> cm_context m = Some (pk_context p) \<and> cm_chunker m = Some (pk_chunker p) \<and>
    cm_nonce m = Some (pk_nonce p)"
  using unavailable_valid[OF assms, of num] by (auto simp: chunk_execution_meta_def split: option.split)

lemma review_chunk_records:
  assumes "vendor \<in> set (map U VENDORS)"
  shows "\<exists>m. review_chunk num vendor p c =
      Inr (map (\<lambda>f. f\<lparr>mf_source_chunk := Some (pk_index p)\<rparr>) (outcome_findings c), m) \<and> records_call (p, c) m"
proof -
  have ex: "\<exists>m. chunk_execution_meta num (pk_index p) vendor s (Some p) ex (Some (rc_ms c)) None = Inr m \<and>
      cm_index m = pk_index p \<and> cm_status m = s \<and> cm_hash m = Some (pk_hash p) \<and> cm_context m = Some (pk_context p) \<and>
      cm_chunker m = Some (pk_chunker p) \<and> cm_nonce m = Some (pk_nonce p)"
    if "s \<in> set (map U [''done'', ''failed'', ''timeout''])" for s ex
    using chunk_meta_valid[OF assms that] by blast
  show ?thesis
  proof (cases "rc_outcome c")
    case (Reviewed fs e)
    obtain m where "chunk_execution_meta num (pk_index p) vendor (U ''done'') (Some p) e (Some (rc_ms c)) None = Inr m"
        "cm_index m = pk_index p" "cm_status m = U ''done''" "cm_hash m = Some (pk_hash p)" "cm_context m = Some (pk_context p)"
        "cm_chunker m = Some (pk_chunker p)" "cm_nonce m = Some (pk_nonce p)"
      using ex[of "U ''done''" e] by auto
    with Reviewed show ?thesis
      by (simp add: review_chunk_def Let_def records_call_def outcome_status_def outcome_findings_def)
  next
    case Timed_Out
    with ex[of "U ''timeout''" None] show ?thesis
      by (auto simp: review_chunk_def records_call_def outcome_status_def outcome_findings_def)
  next
    case (Process_Failed e)
    with ex[of "U ''failed''" e] show ?thesis
      by (auto simp: review_chunk_def records_call_def outcome_status_def outcome_findings_def)
  next
    case Raised
    with ex[of "U ''failed''" None] show ?thesis
      by (auto simp: review_chunk_def records_call_def outcome_status_def outcome_findings_def)
  qed
qed

lemma review_chunks_records:
  assumes "vendor \<in> set (map U VENDORS)"
  shows "if list_ex (version_drift expected \<circ> snd) calls then review_chunks num vendor expected calls = Inl NewFullRunRequired
    else \<exists>ms. review_chunks num vendor expected calls =
      Inr (concat (map (\<lambda>(p, c). map (\<lambda>f. f\<lparr>mf_source_chunk := Some (pk_index p)\<rparr>) (outcome_findings c)) calls), ms) \<and>
      list_all2 records_call calls ms"
proof (induction calls)
  case (Cons pc rest)
  obtain p c where pc: "pc = (p, c)" by fastforce
  obtain m where m: "review_chunk num vendor p c =
      Inr (map (\<lambda>f. f\<lparr>mf_source_chunk := Some (pk_index p)\<rparr>) (outcome_findings c), m)" "records_call (p, c) m"
    using review_chunk_records[OF assms] by blast
  show ?case
  proof (cases "version_drift expected c")
    case False
    then show ?thesis using Cons m pc by (auto split: if_splits)
  qed (simp add: pc)
qed simp

lemma length_filter_all: "length (filter P xs) = length xs \<longleftrightarrow> list_all P xs"
proof (induction xs)
  case (Cons x xs)
  have "length (filter P xs) \<noteq> Suc (length xs)" using length_filter_le[of P xs] by linarith
  then show ?case using Cons by (cases "P x") simp_all
qed simp

lemma status_of_records:
  assumes "list_all2 records_call calls ms"
  shows "chunks_status ms = U ''done'' \<longleftrightarrow> list_all (\<lambda>pc. outcome_status (snd pc) = U ''done'') calls"
    "chunks_status ms = U ''partial'' \<longleftrightarrow> list_ex (\<lambda>pc. outcome_status (snd pc) = U ''done'') calls \<and>
       \<not> list_all (\<lambda>pc. outcome_status (snd pc) = U ''done'') calls"
    "chunks_status ms = U ''timeout'' \<longleftrightarrow> calls \<noteq> [] \<and> list_all (\<lambda>pc. outcome_status (snd pc) = U ''timeout'') calls"
proof -
  have st: "map cm_status ms = map (\<lambda>pc. outcome_status (snd pc)) calls"
    using assms by (induction rule: list_all2_induct) (auto simp: records_call_def)
  have len: "length ms = length calls" using assms list_all2_lengthD by fastforce
  define n where "n = length (filter (\<lambda>m. cm_status m = U ''done'') ms)"
  have all: "list_all (\<lambda>m. cm_status m = s) ms = list_all (\<lambda>pc. outcome_status (snd pc) = s) calls" for s
    using arg_cong[OF st, of "list_all (\<lambda>x. x = s)"] by (simp add: list.pred_map o_def)
  have ex: "list_ex (\<lambda>m. cm_status m = U ''done'') ms = list_ex (\<lambda>pc. outcome_status (snd pc) = U ''done'') calls"
    using arg_cong[OF st, of "list_all (\<lambda>x. x \<noteq> U ''done'')"]
    by (simp add: list.pred_map o_def) (auto simp: list_ex_iff list_all_iff)
  have n: "n = length ms \<longleftrightarrow> list_all (\<lambda>m. cm_status m = U ''done'') ms" "0 < n \<longleftrightarrow> list_ex (\<lambda>m. cm_status m = U ''done'') ms"
    unfolding n_def by (rule length_filter_all) (simp add: list_ex_iff filter_empty_conv)
  note d = chunks_status_def Let_def n_def[symmetric] U_eq_iff
  show "chunks_status ms = U ''done'' \<longleftrightarrow> list_all (\<lambda>pc. outcome_status (snd pc) = U ''done'') calls"
    using n(1) all by (simp add: d)
  show "chunks_status ms = U ''partial'' \<longleftrightarrow> list_ex (\<lambda>pc. outcome_status (snd pc) = U ''done'') calls \<and>
       \<not> list_all (\<lambda>pc. outcome_status (snd pc) = U ''done'') calls"
    using n all ex by (simp add: d)
  show "chunks_status ms = U ''timeout'' \<longleftrightarrow> calls \<noteq> [] \<and> list_all (\<lambda>pc. outcome_status (snd pc) = U ''timeout'') calls"
    using n all ex len by (auto simp: d list_all_iff list_ex_iff)
qed

lemma run_vendor_records:
  assumes "vendor \<in> set (map U VENDORS)" "run_vendor num vendor expected calls ms None = Inr r"
  shows "list_all2 records_call calls (vr_chunks r)"
  using review_chunks_records[OF assms(1), where expected = expected and calls = calls and num = num] assms(2)
  by (auto simp: run_vendor_def run_vendor_prepared_def ebind_Inr_iff split: if_splits)


definition sample_prompt :: "nat \<Rightarrow> prompt_chunk" where
  "sample_prompt i = \<lparr>pk_index = i, pk_prompt = U ''p'', pk_diff = U ''d'', pk_hash = U ''h'', pk_context = U ''c'',
     pk_nonce = U ''0123abcd'', pk_owned = [], pk_chunker = REVIEW_CHUNKER_VERSION\<rparr>"

definition sample_calls :: "(prompt_chunk \<times> review_call) list" where
  "sample_calls =
     [(sample_prompt 0, \<lparr>rc_version = None, rc_outcome = Reviewed [] None, rc_ms = 1\<rparr>),
      (sample_prompt 1, \<lparr>rc_version = None, rc_outcome = Timed_Out, rc_ms = 2\<rparr>)]"


section \<open>A retry reads back what the run wrote\<close>

lemma chunk_json_fields:
  "saved_index (chunk_json c) = int (cm_index c)"
  "envelope_field (chunk_json c) ''status'' = JStr (cm_status c)"
  "envelope_field (chunk_json c) ''chunk_hash'' = text_json (cm_hash c)"
  "envelope_field (chunk_json c) ''context_hash'' = text_json (cm_context c)"
  "envelope_field (chunk_json c) ''chunker_version'' = text_json (cm_chunker c)"
  "envelope_field (chunk_json c) ''prompt_nonce'' = text_json (cm_nonce c)"
  by (simp_all add: saved_index_def envelope_field_def chunk_json_def CHUNK_KEYS_def fld_def jget_def Let_def U_eq_iff)

lemma build_attempts:
  assumes "build_execution_envelope num identity n phase cs = Inr e"
  shows "envelope_attempts e = [JObj [(U ''attempt'', JInt n), (U ''phase'', JStr phase), (U ''chunks'', JList cs)]]"
    "\<exists>o1. e = JObj o1"
proof -
  have "has_keys EXECUTION_IDENTITY_FIELDS identity"
    and e: "e = JObj ([(U ''schema_version'', JInt EXECUTION_SCHEMA_VERSION)] @ identity @
               [(U ''attempts'', JList [JObj [(U ''attempt'', JInt n), (U ''phase'', JStr phase), (U ''chunks'', JList cs)]])])"
    using assms by (auto simp: build_execution_envelope_def checked_envelope_def split: if_splits option.splits)
  then have "U ''attempts'' \<notin> fst ` set identity"
    by (auto simp: has_keys_def EXECUTION_IDENTITY_FIELDS_def U_eq_iff)
  then have "map_of identity (U ''attempts'') = None" by (simp add: map_of_eq_None_iff)
  then show "envelope_attempts e = [JObj [(U ''attempt'', JInt n), (U ''phase'', JStr phase), (U ''chunks'', JList cs)]]"
    by (simp add: e envelope_attempts_def fld_def jget_def map_add_def U_eq_iff)
  show "\<exists>o1. e = JObj o1" by (simp add: e)
qed

lemma persisted_attempts:
  assumes "persisted_envelope num r identity n = Inr e"
  shows "review_attempts e = [JObj [(U ''attempt'', JInt n), (U ''phase'', JStr (U ''review'')),
    (U ''chunks'', JList (map chunk_json (vr_chunks r)))]]"
proof -
  obtain e1 where e1: "build_execution_envelope num identity n (U ''review'') (map chunk_json (vr_chunks r)) = Inr e1"
    and e: "if vr_verify r = [] then e = e1 else \<exists>v. build_execution_envelope num identity (n + 1) (U ''verify'')
        (map chunk_json (vr_verify r)) = Inr v \<and> e = extend_attempts e1 v"
    using assms by (auto simp: persisted_envelope_def vendor_execution_envelope_def ebind_Inr_iff split: if_splits)
  note a = build_attempts[OF e1]
  have phase: "attempt_phase (JObj [(U ''attempt'', JInt k), (U ''phase'', p), (U ''chunks'', cs)]) = p" for k p cs
    by (simp add: attempt_phase_def envelope_field_def fld_def jget_def U_eq_iff)
  show ?thesis
  proof (cases "vr_verify r = []")
    case True
    then show ?thesis using e a phase by (simp add: review_attempts_def)
  next
    case False
    then obtain v where v: "build_execution_envelope num identity (n + 1) (U ''verify'') (map chunk_json (vr_verify r)) = Inr v"
      and e: "e = extend_attempts e1 v" using e by auto
    have "envelope_attempts e = envelope_attempts e1 @ envelope_attempts v"
      using a(2) by (auto simp: e extend_attempts_def envelope_attempts_def fld_def jget_def)
    then show ?thesis using a(1) build_attempts(1)[OF v] phase by (simp add: review_attempts_def U_eq_iff)
  qed
qed

lemma prompt_at_own:
  assumes "distinct (map pk_index prompts)" "p \<in> set prompts"
  shows "prompt_at prompts (int (pk_index p)) = Some p"
proof -
  have "List.find (\<lambda>q. int (pk_index q) = int (pk_index p)) ps = Some p"
    if "distinct (map pk_index ps)" "p \<in> set ps" for ps
    using that by (induction ps) auto
  from this[of "rev prompts"] assms show ?thesis by (simp add: prompt_at_def rev_map flip: rev_map)
qed

definition open_call :: "review_call \<Rightarrow> bool" where
  "open_call c \<longleftrightarrow> (case rc_outcome c of Reviewed fs ex \<Rightarrow> False | _ \<Rightarrow> True)"

lemma open_status: "JStr (outcome_status c) \<in> set (texts [''failed'', ''timeout'']) \<longleftrightarrow> open_call c"
  by (auto simp: outcome_status_def open_call_def texts_def U_eq_iff split: review_outcome.split)

lemma select_records:
  assumes "distinct (map pk_index prompts)" "list_all2 records_call calls ms" "set (map fst calls) \<subseteq> set prompts"
  shows "select_retry prompts (map chunk_json ms) = Inr (map fst (filter (open_call \<circ> snd) calls))"
  using assms(2,3)
proof (induction rule: list_all2_induct)
  case (Cons pc calls m ms)
  obtain p c where pc: "pc = (p, c)" by fastforce
  have "same_basis (chunk_json m) p"
    using Cons.hyps(1) by (simp add: pc same_basis_def records_call_def chunk_json_fields text_json_def)
  moreover have "prompt_at prompts (saved_index (chunk_json m)) = Some p"
    using Cons.hyps(1) Cons.prems prompt_at_own[OF assms(1), of p] by (simp add: pc records_call_def chunk_json_fields)
  moreover have "envelope_field (chunk_json m) ''status'' = JStr (outcome_status c)"
    using Cons.hyps(1) by (simp add: pc records_call_def chunk_json_fields)
  ultimately show ?case using Cons.IH Cons.prems by (simp add: pc open_status)
qed simp

text \<open>
  C7: the envelope a vendor's run stores is what a retry of the same prompts expects: it is recognised, and
  exactly the chunks that failed or timed out are selected again, in order.
\<close>

theorem retry_selects_open_chunks:
  assumes "vendor \<in> set (map U VENDORS)" and "distinct (map pk_index prompts)" and "length calls = length prompts"
    and "run_vendor num vendor expected (zip prompts calls) ms None = Inr r"
    and "persisted_envelope num (r\<lparr>vr_verify := vs\<rparr>) identity n = Inr e"
  shows "retry_prompt_chunks (Some e) prompts = Inr (map fst (filter (open_call \<circ> snd) (zip prompts calls)))"
proof -
  have "list_all2 records_call (zip prompts calls) (vr_chunks r)"
    by (rule run_vendor_records[OF assms(1,4)])
  moreover have "set (map fst (zip prompts calls)) \<subseteq> set prompts" by (auto dest: set_zip_leftD)
  ultimately have "select_retry prompts (map chunk_json (vr_chunks r)) = Inr (map fst (filter (open_call \<circ> snd) (zip prompts calls)))"
    by (rule select_records[OF assms(2)])
  then show ?thesis
    using persisted_attempts[OF assms(5)]
    by (simp add: retry_prompt_chunks_def attempt_chunks_def fld_def jget_def U_eq_iff)
qed

lemma not_isl_iff: "\<not> isl x \<longleftrightarrow> (\<exists>y. x = Inr y)"
  by (cases x) auto

lemma retry_selects_open_chunks_witness:
  "\<exists>e. retry_prompt_chunks (Some e) [sample_prompt 0, sample_prompt 1] = Inr [sample_prompt 1]"
proof -
  let ?ps = "[sample_prompt 0, sample_prompt 1]" and ?cs = "map snd sample_calls"
  have v: "U ''codex'' \<in> set (map U VENDORS)" "distinct (map pk_index ?ps)" "length ?cs = length ?ps" by code_simp+
  have "case run_vendor (\<lambda>q. []) (U ''codex'') None (zip ?ps ?cs) 3 None of
      Inl _ \<Rightarrow> False | Inr r \<Rightarrow> \<not> isl (persisted_envelope (\<lambda>q. []) (r\<lparr>vr_verify := []\<rparr>) sample_identity 1)"
    by code_simp
  then obtain r e where r: "run_vendor (\<lambda>q. []) (U ''codex'') None (zip ?ps ?cs) 3 None = Inr r"
      "persisted_envelope (\<lambda>q. []) (r\<lparr>vr_verify := []\<rparr>) sample_identity 1 = Inr e"
    by (auto split: sum.splits simp: not_isl_iff)
  have "map fst (filter (open_call \<circ> snd) (zip ?ps ?cs)) = [sample_prompt 1]" by code_simp
  with retry_selects_open_chunks[OF v r] show ?thesis by auto
qed

end
