(* ===== verification/Finding_Policy.thy ===== *)
theory Finding_Policy
  imports Vendor_Run
begin

text \<open>
  What happens to the findings before they are stored (\<open>src/server/review/finding_policy.py\<close>): the scope
  guard ties a finding to the chunk that owns its line, duplicates are grouped, and the policy of a
  repository decides whether either is enforced.  The Unicode tables, the hash and the benchmark
  attestation are parameters.
\<close>

section \<open>Paths\<close>

text \<open>\<open>PurePosixPath(value)\<close>: the parts are the non-empty components other than a dot.\<close>

definition path_parts :: "pystr \<Rightarrow> pystr list" where
  "path_parts s = filter (\<lambda>p. p \<noteq> [] \<and> p \<noteq> U ''.'') (split_on 47 s)"

definition normalize_finding_path :: "pystr \<Rightarrow> pystr option" where
  "normalize_finding_path s =
     (if s = [] \<or> 0 \<in> set s then None
      else if startswith s (U ''/'') \<or> U ''..'' \<in> set (path_parts s) then None
      else if path_parts s = [] then None
      else Some (join_text (U ''/'') (path_parts s)))"

section \<open>The scope guard\<close>

definition OBSERVE :: pystr where "OBSERVE = U ''observe''"
definition ENFORCE :: pystr where "ENFORCE = U ''enforce''"

text \<open>The owner dictionary, one entry per file of a chunk.\<close>

type_synonym owners = "(pystr \<times> int set \<times> nat) list"

fun add_owners :: "owners \<Rightarrow> owners \<Rightarrow> exn + owners" where
  "add_owners own [] = Inr own"
| "add_owners own ((p, ls, i) # rest) =
     (if list_ex (\<lambda>(q, ms, j). q = p \<and> ls \<inter> ms \<noteq> {}) own
      then Inl (ValueError (U ''changed line has multiple chunk owners''))
      else add_owners (own @ [(p, ls, i)]) rest)"

definition chunk_owners :: "diff_chunk list \<Rightarrow> exn + owners" where
  "chunk_owners chunks = add_owners [] (concat (map (\<lambda>c. map (\<lambda>(p, ls). (p, ls, dc_index c)) (dc_owned c)) chunks))"

definition owner_of :: "owners \<Rightarrow> pystr \<Rightarrow> int \<Rightarrow> nat option" where
  "owner_of own p l = map_option (\<lambda>(q, ls, i). i) (List.find (\<lambda>(q, ls, i). q = p \<and> l \<in> ls) own)"

datatype scope_event = In_Scope | Reassigned | Rejected

definition scope_finding :: "owners \<Rightarrow> pystr \<Rightarrow> model_finding \<Rightarrow> model_finding \<times> scope_event" where
  "scope_finding own mode f =
     (let norm = normalize_finding_path (mf_file f);
          owner = (case norm of None \<Rightarrow> None | Some p \<Rightarrow> owner_of own p (mf_line f));
          g = f\<lparr>mf_file := (case norm of None \<Rightarrow> mf_file f | Some p \<Rightarrow> p), mf_owner_chunk := owner\<rparr>
      in if owner = None
         then (g\<lparr>mf_scope := Some (if mode = ENFORCE then U ''rejected'' else U ''would_reject''), mf_eligible := False\<rparr>,
               Rejected)
         else if owner = mf_source_chunk f then (g\<lparr>mf_scope := Some (U ''owned''), mf_eligible := True\<rparr>, In_Scope)
         else (g\<lparr>mf_scope := Some (U ''reassigned''), mf_eligible := True\<rparr>, Reassigned))"

fun update_first :: "('a \<Rightarrow> bool) \<Rightarrow> ('a \<Rightarrow> 'a) \<Rightarrow> 'a list \<Rightarrow> 'a list" where
  "update_first P f [] = []"
| "update_first P f (x # xs) = (if P x then f x # xs else x # update_first P f xs)"

text \<open>A dictionary built by a comprehension keeps the last chunk of an index.\<close>

definition bump :: "nat option \<Rightarrow> (chunk_meta \<Rightarrow> chunk_meta) \<Rightarrow> chunk_meta list \<Rightarrow> chunk_meta list" where
  "bump index f ms = rev (update_first (\<lambda>m. Some (cm_index m) = index) f (rev ms))"

definition count_event :: "scope_event \<Rightarrow> nat option \<Rightarrow> chunk_meta list \<Rightarrow> chunk_meta list" where
  "count_event ev index ms =
     (case ev of
        In_Scope \<Rightarrow> ms
      | Rejected \<Rightarrow> bump index (\<lambda>m. m\<lparr>cm_rejected := Suc (cm_rejected m)\<rparr>) ms
      | Reassigned \<Rightarrow> bump index (\<lambda>m. m\<lparr>cm_reassigned := Suc (cm_reassigned m)\<rparr>) ms)"

fun scope_findings ::
  "owners \<Rightarrow> pystr \<Rightarrow> model_finding list \<Rightarrow> chunk_meta list \<Rightarrow> model_finding list \<times> chunk_meta list" where
  "scope_findings own mode [] ms = ([], ms)"
| "scope_findings own mode (f # fs) ms =
     (case scope_finding own mode f of
        (g, ev) \<Rightarrow>
          (case scope_findings own mode fs (count_event ev (mf_source_chunk f) ms) of
             (kept, ms') \<Rightarrow> (if ev = Rejected \<and> mode = ENFORCE then kept else g # kept, ms')))"

definition scope_result :: "owners \<Rightarrow> pystr \<Rightarrow> vendor_run \<Rightarrow> vendor_run" where
  "scope_result own mode r =
     (case scope_findings own mode (vr_findings r) (vr_chunks r) of
        (kept, ms) \<Rightarrow> r\<lparr>vr_findings := kept, vr_chunks := ms\<rparr>)"

definition apply_finding_scope :: "pystr \<Rightarrow> diff_chunk list \<Rightarrow> vendor_run list \<Rightarrow> exn + vendor_run list" where
  "apply_finding_scope mode chunks results =
     ebind (chunk_owners chunks) (\<lambda>own. Inr (map (scope_result own mode) results))"

section \<open>Duplicates\<close>

text \<open>NFKC with case folding, and the word characters of \<open>re\<close>: the tables of Unicode.\<close>

record unicode =
  u_fold :: "pystr \<Rightarrow> pystr"
  u_word :: "int \<Rightarrow> bool"

fun collapse :: "(int \<Rightarrow> bool) \<Rightarrow> bool \<Rightarrow> pystr \<Rightarrow> pystr" where
  "collapse word inside [] = []"
| "collapse word inside (c # s) =
     (if word c \<and> c \<noteq> 95 then c # collapse word False s
      else if inside then collapse word True s else 32 # collapse word True s)"

definition canonical_claim :: "unicode \<Rightarrow> pystr \<Rightarrow> pystr" where
  "canonical_claim u s = strip (collapse (u_word u) False (u_fold u s))"

type_synonym finding_key = "pystr \<times> pystr option \<times> int \<times> pystr \<times> pystr"

definition duplicate_key :: "unicode \<Rightarrow> model_finding \<Rightarrow> finding_key" where
  "duplicate_key u f =
     (mf_vendor f, normalize_finding_path (mf_file f), mf_line f, mf_category f, canonical_claim u (mf_claim f))"

text \<open>
  The iterations of the double loop: the position of a finding among all findings, the number of its group
  and its index within the group.
\<close>

definition duplicate_groups :: "'k list \<Rightarrow> ('k \<times> nat list) list" where
  "duplicate_groups keys = filter (\<lambda>(k, ps). \<not> length ps < 2) (group_by (\<lambda>i. keys ! i) [0..<length keys])"

definition duplicate_marks :: "'k list \<Rightarrow> (nat \<times> nat \<times> nat) list" where
  "duplicate_marks keys =
     concat (map (\<lambda>(gid, k, ps). map (\<lambda>(index, p). (p, gid, index)) (enumerate 0 ps))
                 (enumerate 1 (duplicate_groups keys)))"

definition mark_duplicate :: "pystr \<Rightarrow> (nat \<times> nat) option \<Rightarrow> model_finding \<Rightarrow> model_finding" where
  "mark_duplicate mode mark f =
     (case mark of
        None \<Rightarrow> f
      | Some (gid, index) \<Rightarrow>
          f\<lparr>mf_group := Some gid, mf_suggested := True,
            mf_eligible := (if mode = ENFORCE \<and> index > 0 then False else mf_eligible f)\<rparr>)"

definition mark_duplicates :: "unicode \<Rightarrow> pystr \<Rightarrow> model_finding list \<Rightarrow> model_finding list" where
  "mark_duplicates u mode fs =
     (let marks = duplicate_marks (map (duplicate_key u) fs)
      in map (\<lambda>(p, f). mark_duplicate mode (map_of marks p) f) (enumerate 0 fs))"

text \<open>The counter of the chunk a marked finding came from: the last one of its vendor and index.\<close>

definition bump_result :: "pystr \<Rightarrow> nat option \<Rightarrow> vendor_run list \<Rightarrow> vendor_run list" where
  "bump_result vendor index rs =
     rev (update_first (\<lambda>r. vr_vendor r = vendor \<and> list_ex (\<lambda>m. Some (cm_index m) = index) (vr_chunks r))
       (\<lambda>r. r\<lparr>vr_chunks := bump index (\<lambda>m. m\<lparr>cm_duplicates := Suc (cm_duplicates m)\<rparr>) (vr_chunks r)\<rparr>) (rev rs))"

fun deal :: "'a list \<Rightarrow> nat list \<Rightarrow> 'a list list" where
  "deal xs [] = []"
| "deal xs (n # ns) = take n xs # deal (drop n xs) ns"

definition group_duplicate_candidates :: "unicode \<Rightarrow> pystr \<Rightarrow> vendor_run list \<Rightarrow> vendor_run list" where
  "group_duplicate_candidates u mode rs =
     (let fs = concat (map vr_findings rs);
          marks = duplicate_marks (map (duplicate_key u) fs);
          counted = fold (\<lambda>(p, gid, index). bump_result (mf_vendor (fs ! p)) (mf_source_chunk (fs ! p))) marks rs
      in map2 (\<lambda>r fs'. r\<lparr>vr_findings := fs'\<rparr>) counted
           (deal (mark_duplicates u mode fs) (map (\<lambda>r. length (vr_findings r)) rs)))"

section \<open>The policy of a repository\<close>

text \<open>What the decision reads of the configuration, of the repository's row and of the attestation.\<close>

record policy_config =
  cfg_scope_default :: pystr
  cfg_dedupe_default :: pystr
  cfg_scope_repos :: "pystr list"
  cfg_dedupe_repos :: "pystr list"
  cfg_scope_kill :: bool
  cfg_dedupe_kill :: bool
  cfg_unlocked :: bool

record policy_repo =
  rp_full_name :: "pystr option"
  rp_scope_mode :: "pystr option"
  rp_dedupe_mode :: "pystr option"

record attestation =
  att_can_enforce :: bool
  att_report_hash :: "pystr option"

record policy_decision =
  pd_policy :: pystr
  pd_requested :: pystr
  pd_effective :: pystr
  pd_reason :: pystr
  pd_source :: pystr

definition repo_name :: "policy_repo option \<Rightarrow> pystr" where
  "repo_name repo = (case repo of None \<Rightarrow> [] | Some r \<Rightarrow> (case rp_full_name r of None \<Rightarrow> [] | Some n \<Rightarrow> n))"

text \<open>The chain of conditions, for the override, the default, the canaries and the kill switch of one policy.\<close>

definition decide_policy ::
  "pystr \<Rightarrow> pystr option \<Rightarrow> pystr \<Rightarrow> bool \<Rightarrow> bool \<Rightarrow> bool \<Rightarrow> bool \<Rightarrow> policy_decision" where
  "decide_policy policy override dflt canary kill unlocked can_enforce =
     (let explicit = (if override = Some OBSERVE \<or> override = Some ENFORCE then override else None);
          asked = (case explicit of None \<Rightarrow> dflt | Some m \<Rightarrow> m);
          requested = (if asked = OBSERVE \<or> asked = ENFORCE then asked else OBSERVE);
          (effective, reason) =
            (if requested \<noteq> ENFORCE then (OBSERVE, U ''requested'')
             else if kill then (OBSERVE, U ''kill_switch'')
             else if \<not> unlocked then (OBSERVE, U ''benchmark_gate_locked'')
             else if \<not> can_enforce then (OBSERVE, U ''benchmark_gate_locked'')
             else if explicit = Some ENFORCE then (ENFORCE, U ''repo_canary'')
             else if canary then (ENFORCE, U ''global_canary'')
             else (OBSERVE, U ''not_in_global_canary''))
      in \<lparr>pd_policy = policy, pd_requested = requested, pd_effective = effective, pd_reason = reason,
          pd_source = (if explicit \<noteq> None then U ''repo_override'' else U ''global_default'')\<rparr>)"

definition resolve_policy_decision ::
  "policy_config \<Rightarrow> policy_repo option \<Rightarrow> pystr \<Rightarrow> pystr option \<Rightarrow> attestation \<Rightarrow> exn + policy_decision" where
  "resolve_policy_decision cfg repo policy default_mode att =
     (let pick = (\<lambda>d. case default_mode of None \<Rightarrow> d | Some m \<Rightarrow> m);
          name = repo_name repo
      in if policy = U ''scope'' then
           Inr (decide_policy policy (case repo of None \<Rightarrow> None | Some r \<Rightarrow> rp_scope_mode r)
             (pick (cfg_scope_default cfg)) (name \<in> set (cfg_scope_repos cfg)) (cfg_scope_kill cfg)
             (cfg_unlocked cfg) (att_can_enforce att))
         else if policy = U ''dedupe'' then
           Inr (decide_policy policy (case repo of None \<Rightarrow> None | Some r \<Rightarrow> rp_dedupe_mode r)
             (pick (cfg_dedupe_default cfg)) (name \<in> set (cfg_dedupe_repos cfg)) (cfg_dedupe_kill cfg)
             (cfg_unlocked cfg) (att_can_enforce att))
         else Inl (ValueError (U ''invalid policy: '' @ policy)))"

definition policy_mode ::
  "policy_config \<Rightarrow> policy_repo option \<Rightarrow> pystr \<Rightarrow> pystr \<Rightarrow> attestation \<Rightarrow> exn + pystr" where
  "policy_mode cfg repo dflt policy att =
     ebind (resolve_policy_decision cfg repo policy (Some dflt) att) (\<lambda>d. Inr (pd_effective d))"

section \<open>The snapshot of a run's policy\<close>

record policy_snapshot =
  ps_scope :: policy_decision
  ps_dedupe :: policy_decision
  ps_cohort :: pystr
  ps_decision_hash :: pystr
  ps_config_hash :: pystr
  ps_attestation :: "pystr option"

definition asdict :: "policy_decision \<Rightarrow> json" where
  "asdict d =
     JObj [(U ''policy'', JStr (pd_policy d)), (U ''requested_mode'', JStr (pd_requested d)),
           (U ''effective_mode'', JStr (pd_effective d)), (U ''reason'', JStr (pd_reason d)),
           (U ''selection_source'', JStr (pd_source d))]"

definition decision_payload :: "policy_decision \<Rightarrow> policy_decision \<Rightarrow> json" where
  "decision_payload scope dedupe = JObj [(U ''scope'', asdict scope), (U ''dedupe'', asdict dedupe)]"

definition canonical_hash :: "(pystr \<Rightarrow> pystr) \<Rightarrow> (rat \<Rightarrow> pystr) \<Rightarrow> json \<Rightarrow> pystr" where
  "canonical_hash sha num v = sha (compact_json num v)"

definition cohort_key :: "policy_decision \<Rightarrow> policy_decision \<Rightarrow> pystr" where
  "cohort_key scope dedupe =
     U ''scope='' @ pd_source scope @ U '':'' @ pd_effective scope @ U '';dedupe='' @ pd_source dedupe @ U '':'' @
     pd_effective dedupe"

definition opt_json :: "pystr option \<Rightarrow> json" where
  "opt_json v = (case v of None \<Rightarrow> JNull | Some s \<Rightarrow> JStr s)"

definition config_payload ::
  "policy_config \<Rightarrow> policy_repo option \<Rightarrow> attestation \<Rightarrow> json \<Rightarrow> json \<Rightarrow> json" where
  "config_payload cfg repo att identity decisions =
     (let name = repo_name repo
      in JObj
        [(U ''version'', JStr (U ''policy-config-v1'')), (U ''repo'', JStr name),
         (U ''scope_override'', opt_json (case repo of None \<Rightarrow> None | Some r \<Rightarrow> rp_scope_mode r)),
         (U ''dedupe_override'', opt_json (case repo of None \<Rightarrow> None | Some r \<Rightarrow> rp_dedupe_mode r)),
         (U ''scope_default'', JStr (cfg_scope_default cfg)), (U ''dedupe_default'', JStr (cfg_dedupe_default cfg)),
         (U ''scope_global_canary'', JBool (name \<in> set (cfg_scope_repos cfg))),
         (U ''dedupe_global_canary'', JBool (name \<in> set (cfg_dedupe_repos cfg))),
         (U ''enforcement_unlocked'', JBool (cfg_unlocked cfg)),
         (U ''scope_kill_switch'', JBool (cfg_scope_kill cfg)),
         (U ''dedupe_kill_switch'', JBool (cfg_dedupe_kill cfg)),
         (U ''benchmark_attestation_hash'', opt_json (att_report_hash att)),
         (U ''benchmark_runtime_identity'', if att_report_hash att \<noteq> None then identity else JNull),
         (U ''decisions'', decisions)])"

text \<open>
  \<open>attest\<close> stands for \<open>resolve_benchmark_attestation\<close>; \<open>identity\<close> is the runtime identity as JSON.
\<close>

definition resolve_policy_snapshot ::
  "(pystr \<Rightarrow> pystr) \<Rightarrow> (rat \<Rightarrow> pystr) \<Rightarrow> policy_config \<Rightarrow> (json \<Rightarrow> attestation) \<Rightarrow> policy_repo option \<Rightarrow> json
   \<Rightarrow> exn + policy_snapshot" where
  "resolve_policy_snapshot sha num cfg attest repo identity =
     (let att = attest identity
      in ebind (resolve_policy_decision cfg repo (U ''scope'') None att) (\<lambda>scope.
         ebind (resolve_policy_decision cfg repo (U ''dedupe'') None att) (\<lambda>dedupe.
           let payload = decision_payload scope dedupe
           in Inr \<lparr>ps_scope = scope, ps_dedupe = dedupe, ps_cohort = cohort_key scope dedupe,
                   ps_decision_hash = canonical_hash sha num payload,
                   ps_config_hash = canonical_hash sha num (config_payload cfg repo att identity payload),
                   ps_attestation = att_report_hash att\<rparr>)))"

text \<open>The twelve policy columns of a run.\<close>

record policy_row =
  pc_scope_requested :: "pystr option"
  pc_scope_effective :: "pystr option"
  pc_scope_reason :: "pystr option"
  pc_scope_source :: "pystr option"
  pc_dedupe_requested :: "pystr option"
  pc_dedupe_effective :: "pystr option"
  pc_dedupe_reason :: "pystr option"
  pc_dedupe_source :: "pystr option"
  pc_cohort :: "pystr option"
  pc_decision_hash :: "pystr option"
  pc_config_hash :: "pystr option"
  pc_attestation :: "pystr option"

definition policy_snapshot_record :: "policy_snapshot \<Rightarrow> policy_row" where
  "policy_snapshot_record s =
     \<lparr>pc_scope_requested = Some (pd_requested (ps_scope s)), pc_scope_effective = Some (pd_effective (ps_scope s)),
      pc_scope_reason = Some (pd_reason (ps_scope s)), pc_scope_source = Some (pd_source (ps_scope s)),
      pc_dedupe_requested = Some (pd_requested (ps_dedupe s)), pc_dedupe_effective = Some (pd_effective (ps_dedupe s)),
      pc_dedupe_reason = Some (pd_reason (ps_dedupe s)), pc_dedupe_source = Some (pd_source (ps_dedupe s)),
      pc_cohort = Some (ps_cohort s), pc_decision_hash = Some (ps_decision_hash s),
      pc_config_hash = Some (ps_config_hash s), pc_attestation = ps_attestation s\<rparr>"

definition is_hash :: "pystr \<Rightarrow> bool" where
  "is_hash s \<longleftrightarrow> length s = 64 \<and> set s \<subseteq> set (U ''0123456789abcdef'')"

definition mode_ok :: "policy_decision \<Rightarrow> bool" where
  "mode_ok d \<longleftrightarrow> pd_requested d \<in> {OBSERVE, ENFORCE} \<and> pd_effective d \<in> {OBSERVE, ENFORCE} \<and>
     pd_source d \<in> {U ''repo_override'', U ''global_default''}"

definition text_of :: "pystr option \<Rightarrow> pystr" where
  "text_of v = (case v of None \<Rightarrow> [] | Some s \<Rightarrow> s)"

definition policy_snapshot_from_row ::
  "(pystr \<Rightarrow> pystr) \<Rightarrow> (rat \<Rightarrow> pystr) \<Rightarrow> policy_row \<Rightarrow> policy_snapshot option" where
  "policy_snapshot_from_row sha num row =
     (if list_ex (\<lambda>v. text_of v = [])
          [pc_scope_requested row, pc_scope_effective row, pc_scope_reason row, pc_scope_source row,
           pc_dedupe_requested row, pc_dedupe_effective row, pc_dedupe_reason row, pc_dedupe_source row,
           pc_cohort row, pc_decision_hash row, pc_config_hash row]
      then None
      else
        let scope = \<lparr>pd_policy = U ''scope'', pd_requested = text_of (pc_scope_requested row),
              pd_effective = text_of (pc_scope_effective row), pd_reason = text_of (pc_scope_reason row),
              pd_source = text_of (pc_scope_source row)\<rparr>;
            dedupe = \<lparr>pd_policy = U ''dedupe'', pd_requested = text_of (pc_dedupe_requested row),
              pd_effective = text_of (pc_dedupe_effective row), pd_reason = text_of (pc_dedupe_reason row),
              pd_source = text_of (pc_dedupe_source row)\<rparr>
        in if text_of (pc_decision_hash row) \<noteq> canonical_hash sha num (decision_payload scope dedupe) then None
           else if \<not> (mode_ok scope \<and> mode_ok dedupe) then None
           else if text_of (pc_cohort row) \<noteq> cohort_key scope dedupe then None
           else if \<not> (is_hash (text_of (pc_decision_hash row)) \<and> is_hash (text_of (pc_config_hash row))) then None
           else if pc_attestation row \<noteq> None \<and> \<not> is_hash (text_of (pc_attestation row)) then None
           else Some \<lparr>ps_scope = scope, ps_dedupe = dedupe, ps_cohort = text_of (pc_cohort row),
                  ps_decision_hash = text_of (pc_decision_hash row), ps_config_hash = text_of (pc_config_hash row),
                  ps_attestation = pc_attestation row\<rparr>)"

definition apply_scope_and_duplicate_policy ::
  "unicode \<Rightarrow> policy_snapshot \<Rightarrow> diff_chunk list \<Rightarrow> vendor_run list \<Rightarrow> exn + vendor_run list" where
  "apply_scope_and_duplicate_policy u snapshot chunks results =
     ebind (apply_finding_scope (pd_effective (ps_scope snapshot)) chunks results) (\<lambda>rs.
       Inr (group_duplicate_candidates u (pd_effective (ps_dedupe snapshot)) rs))"

section \<open>Lemmas on the scope guard\<close>

definition apart :: "pystr \<times> int set \<times> nat \<Rightarrow> pystr \<times> int set \<times> nat \<Rightarrow> bool" where
  "apart a b \<longleftrightarrow> (fst a = fst b \<longrightarrow> fst (snd a) \<inter> fst (snd b) = {})"

lemma add_owners_apart: "sorted_wrt apart (own @ es) \<Longrightarrow> add_owners own es = Inr (own @ es)"
proof (induction own es rule: add_owners.induct)
  case (2 own p ls i rest)
  then have "\<forall>e\<in>set own. apart e (p, ls, i)" by (simp add: sorted_wrt_append)
  then have "\<not> list_ex (\<lambda>(q, ms, j). q = p \<and> ls \<inter> ms \<noteq> {}) own"
    by (fastforce simp: list_ex_iff apart_def)
  with 2 show ?case by simp
qed simp

definition entries :: "diff_chunk \<Rightarrow> owners" where
  "entries c = map (\<lambda>(p, ls). (p, ls, dc_index c)) (dc_owned c)"

lemma entries_apart: "keys_distinct (dc_owned c) \<Longrightarrow> sorted_wrt apart (entries c)"
proof -
  have "distinct (map fst m) \<Longrightarrow> sorted_wrt apart (map (\<lambda>(p, ls). (p, ls, i)) m)" for m :: line_map and i
    by (induction m) (auto simp: apart_def image_iff)
  then show "keys_distinct (dc_owned c) \<Longrightarrow> ?thesis" by (simp add: entries_def)
qed

lemma entries_iff: "(p, ls, i) \<in> set (entries c) \<longleftrightarrow> (p, ls) \<in> set (dc_owned c) \<and> i = dc_index c"
  by (auto simp: entries_def)

lemma entry_pairs: "(p, ls, i) \<in> set (entries c) \<Longrightarrow> l \<in> ls \<Longrightarrow> (p, l) \<in> owned_pairs (dc_owned c)"
  by (auto simp: entries_def owned_pairs_def)

lemma chunk_entries_apart:
  "sorted_wrt (\<lambda>a b. owned_pairs (dc_owned a) \<inter> owned_pairs (dc_owned b) = {}) chunks \<Longrightarrow>
   list_all (\<lambda>c. keys_distinct (dc_owned c)) chunks \<Longrightarrow> sorted_wrt apart (concat (map entries chunks))"
proof (induction chunks)
  case (Cons c cs)
  have "apart a b" if ab: "a \<in> set (entries c)" "b \<in> set (concat (map entries cs))" for a b
  proof -
    obtain p ls i q ms j where split: "a = (p, ls, i)" "b = (q, ms, j)" by (metis prod.exhaust)
    from ab(2) obtain d where d: "d \<in> set cs" "b \<in> set (entries d)" by auto
    then have "owned_pairs (dc_owned c) \<inter> owned_pairs (dc_owned d) = {}" using Cons.prems(1) by simp
    then show ?thesis
      using entry_pairs[of p ls i c] entry_pairs[of q ms j d] ab(1) d(2) by (auto simp: apart_def split)
  qed
  with Cons show ?case by (simp add: sorted_wrt_append entries_apart)
qed simp

lemma pack_step_keys:
  "list_all (\<lambda>p. keys_distinct (snd p)) (fst st) \<and> keys_distinct (snd (snd st)) \<Longrightarrow>
   list_all (\<lambda>p. keys_distinct (snd p)) (fst (pack_step b st p)) \<and> keys_distinct (snd (snd (pack_step b st p)))"
  by (cases st) (auto simp: pack_step_def flush_chunk_def Let_def merge_owned_pairs split: prod.splits)

lemma pack_pieces_keys: "list_all (\<lambda>p. keys_distinct (snd p)) (pack_pieces b ps)"
proof -
  have "list_all (\<lambda>p. keys_distinct (snd p)) (fst (foldl (pack_step b) st ps)) \<and>
        keys_distinct (snd (snd (foldl (pack_step b) st ps)))"
    if "list_all (\<lambda>p. keys_distinct (snd p)) (fst st) \<and> keys_distinct (snd (snd st))" for st
    using that by (induction ps arbitrary: st) (simp_all add: pack_step_keys)
  from this[of "([], ([], []))"] show ?thesis
    by (auto simp: pack_pieces_def flush_chunk_def split: prod.splits)
qed

lemma build_records_keys:
  "build_records sha i seen ps = Inr (recs, seen') \<Longrightarrow> list_all (\<lambda>p. keys_distinct (snd p)) ps \<Longrightarrow>
   list_all (\<lambda>c. keys_distinct (dc_owned c)) recs"
proof (induction sha i seen ps arbitrary: recs seen' rule: build_records.induct)
  case (2 sha i seen t owned ps)
  then show ?case
    by (auto simp: Let_def ebind_Inr_iff freeze_ownership_def distinct_map_filter split: if_splits)
qed simp

text \<open>The chunker's records never make the guard raise.\<close>

lemma chunker_owners:
  assumes "chunk_records_by_budget sha diff budget = Inr recs"
  shows "chunk_owners recs = Inr (concat (map entries recs))"
proof (cases "diff = []")
  case True
  with assms show ?thesis by (auto simp: chunk_records_by_budget_def chunk_owners_def split: if_splits)
next
  case False
  then obtain pss seen where recs: "build_records sha 0 {} (pack_pieces budget (concat pss)) = Inr (recs, seen)"
    using assms by (auto simp: chunk_records_by_budget_def ebind_Inr_iff split: if_splits prod.splits)
  have "sorted_wrt (\<lambda>a b. owned_pairs (dc_owned a) \<inter> owned_pairs (dc_owned b) = {}) recs"
    using build_records_owned[OF recs] by (simp add: sorted_wrt_iff_nth_less)
  from chunk_entries_apart[OF this build_records_keys[OF recs pack_pieces_keys]]
  have "sorted_wrt apart ([] @ concat (map entries recs))" by simp
  from add_owners_apart[OF this] show ?thesis by (simp add: chunk_owners_def entries_def[abs_def])
qed

lemma owner_of_iff:
  "owner_of (concat (map entries recs)) p l \<noteq> None \<longleftrightarrow> (p, l) \<in> (\<Union>r\<in>set recs. owned_pairs (dc_owned r))"
proof -
  have "owner_of own p l \<noteq> None \<longleftrightarrow> (\<exists>e\<in>set own. fst e = p \<and> l \<in> fst (snd e))" for own
    by (simp add: owner_of_def find_None_iff case_prod_beta) force
  then have "owner_of (concat (map entries recs)) p l \<noteq> None \<longleftrightarrow>
    (\<exists>e\<in>set (concat (map entries recs)). fst e = p \<and> l \<in> fst (snd e))" .
  also have "\<dots> \<longleftrightarrow> (\<exists>r\<in>set recs. \<exists>ls. (p, ls) \<in> set (dc_owned r) \<and> l \<in> ls)"
    by (force simp: entries_def)
  also have "\<dots> \<longleftrightarrow> (p, l) \<in> (\<Union>r\<in>set recs. owned_pairs (dc_owned r))"
    by (auto simp: owned_pairs_def)
  finally show ?thesis .
qed

text \<open>What the guard makes of one finding, without the counters.\<close>

definition in_scope :: "owners \<Rightarrow> model_finding \<Rightarrow> bool" where
  "in_scope own f \<longleftrightarrow> (case normalize_finding_path (mf_file f) of None \<Rightarrow> False | Some p \<Rightarrow> owner_of own p (mf_line f) \<noteq> None)"

lemma scope_finding_facts:
  "scope_finding own mode f = (g, ev) \<Longrightarrow>
   (ev = Rejected \<longleftrightarrow> \<not> in_scope own f) \<and> mf_eligible g = in_scope own f \<and> mf_line g = mf_line f \<and>
   mf_claim g = mf_claim f \<and>
   mf_file g = (case normalize_finding_path (mf_file f) of None \<Rightarrow> mf_file f | Some p \<Rightarrow> p)"
  by (cases "case normalize_finding_path (mf_file f) of None \<Rightarrow> None | Some p \<Rightarrow> owner_of own p (mf_line f)")
    (auto simp: scope_finding_def in_scope_def Let_def split: option.splits if_split_asm)

lemma scope_findings_kept:
  "fst (scope_findings own mode fs ms) =
   map (\<lambda>f. fst (scope_finding own mode f)) (filter (\<lambda>f. in_scope own f \<or> mode \<noteq> ENFORCE) fs)"
proof (induction fs arbitrary: ms)
  case (Cons f fs)
  obtain g ev where g: "scope_finding own mode f = (g, ev)" by (metis prod.exhaust)
  with Cons scope_finding_facts[OF g] show ?case by (auto split: prod.split) (metis fst_conv)+
qed simp

section \<open>Lemmas on the duplicate groups\<close>

abbreviation same_key :: "'k list \<Rightarrow> 'k \<Rightarrow> nat list" where
  "same_key keys k \<equiv> filter (\<lambda>i. keys ! i = k) [0..<length keys]"

lemma duplicate_groups_nth:
  assumes "g < length (duplicate_groups keys)"
  shows "\<exists>k. duplicate_groups keys ! g = (k, same_key keys k) \<and> 2 \<le> length (same_key keys k)"
proof -
  obtain k ps where kp: "duplicate_groups keys ! g = (k, ps)" by (metis prod.exhaust)
  then have "(k, ps) \<in> set (duplicate_groups keys)" using assms by (metis nth_mem)
  then have "map_of (group_by (\<lambda>i. keys ! i) [0..<length keys]) k = Some ps" "2 \<le> length ps"
    by (auto simp: duplicate_groups_def map_of_eq_Some_iff[OF group_by_distinct])
  then show ?thesis using kp by (auto simp: group_by_lookup split: if_splits)
qed

lemma duplicate_groups_distinct: "distinct (map fst (duplicate_groups keys))"
  by (simp add: duplicate_groups_def distinct_map_filter group_by_distinct)

lemma duplicate_groups_all:
  assumes "2 \<le> length (same_key keys k)"
  shows "\<exists>g<length (duplicate_groups keys). duplicate_groups keys ! g = (k, same_key keys k)"
proof -
  from assms have "set (same_key keys k) \<noteq> {}" by (cases "same_key keys k") auto
  then have "k \<in> (\<lambda>i. keys ! i) ` set [0..<length keys]" by auto
  then have "map_of (group_by (\<lambda>i. keys ! i) [0..<length keys]) k = Some (same_key keys k)"
    by (simp add: group_by_lookup)
  then have "(k, same_key keys k) \<in> set (duplicate_groups keys)"
    using assms by (auto simp: duplicate_groups_def dest: map_of_SomeD)
  then show ?thesis by (metis in_set_conv_nth)
qed

lemma duplicate_mark_iff:
  "(p, gid, index) \<in> set (duplicate_marks keys) \<longleftrightarrow>
   (\<exists>g. gid = Suc g \<and> g < length (duplicate_groups keys) \<and>
      index < length (snd (duplicate_groups keys ! g)) \<and> snd (duplicate_groups keys ! g) ! index = p)"
proof -
  have "(p, gid, index) \<in> set (duplicate_marks keys) \<longleftrightarrow>
    (\<exists>e\<in>set (enumerate 1 (duplicate_groups keys)). gid = fst e \<and> (index, p) \<in> set (enumerate 0 (snd (snd e))))"
    by (force simp: duplicate_marks_def)
  also have "\<dots> \<longleftrightarrow> (\<exists>e. 1 \<le> fst e \<and> fst e < Suc (length (duplicate_groups keys)) \<and>
      duplicate_groups keys ! (fst e - 1) = snd e \<and> gid = fst e \<and> index < length (snd (snd e)) \<and> snd (snd e) ! index = p)"
    by (auto simp: Bex_def in_set_enumerate_eq)
  also have "\<dots> \<longleftrightarrow> (\<exists>g. gid = Suc g \<and> g < length (duplicate_groups keys) \<and>
      index < length (snd (duplicate_groups keys ! g)) \<and> snd (duplicate_groups keys ! g) ! index = p)"
    by (cases gid) auto
  finally show ?thesis .
qed

lemma duplicate_mark_same:
  "(p, Suc g, index) \<in> set (duplicate_marks keys) \<Longrightarrow>
   g < length (duplicate_groups keys) \<and> fst (duplicate_groups keys ! g) = keys ! p \<and> p < length keys \<and>
   index < length (same_key keys (keys ! p)) \<and> same_key keys (keys ! p) ! index = p"
proof -
  assume "(p, Suc g, index) \<in> set (duplicate_marks keys)"
  then have g: "g < length (duplicate_groups keys)" "index < length (snd (duplicate_groups keys ! g))"
    "snd (duplicate_groups keys ! g) ! index = p"
    by (auto simp: duplicate_mark_iff)
  obtain k where k: "duplicate_groups keys ! g = (k, same_key keys k)" using duplicate_groups_nth[OF g(1)] by blast
  with g have "p \<in> set (same_key keys k)" by (metis nth_mem snd_conv)
  with g k show ?thesis by auto
qed

lemma duplicate_mark_lookup:
  "map_of (duplicate_marks keys) p = Some (gid, index) \<longleftrightarrow> (p, gid, index) \<in> set (duplicate_marks keys)"
proof
  assume mem: "(p, gid, index) \<in> set (duplicate_marks keys)"
  then obtain g where g: "gid = Suc g" by (auto simp: duplicate_mark_iff)
  obtain gid' index' where look: "map_of (duplicate_marks keys) p = Some (gid', index')"
    using mem by (metis weak_map_of_SomeI prod.exhaust)
  then have mem': "(p, gid', index') \<in> set (duplicate_marks keys)" by (rule map_of_SomeD)
  then obtain g' where g': "gid' = Suc g'" by (auto simp: duplicate_mark_iff)
  note a = duplicate_mark_same[OF mem[unfolded g]] and b = duplicate_mark_same[OF mem'[unfolded g']]
  have "g = g'"
    using a b nth_eq_iff_index_eq[OF duplicate_groups_distinct[of keys], of g g'] by simp
  moreover have "distinct (same_key keys (keys ! p))" by simp
  then have "index = index'"
    using a b nth_eq_iff_index_eq[of "same_key keys (keys ! p)" index index'] by simp
  ultimately show "map_of (duplicate_marks keys) p = Some (gid, index)" using look g g' by simp
qed (rule map_of_SomeD)

lemma duplicate_mark_exists:
  assumes "p < length keys" "2 \<le> length (same_key keys (keys ! p))"
  shows "\<exists>g index. (p, Suc g, index) \<in> set (duplicate_marks keys)"
proof -
  obtain g where g: "g < length (duplicate_groups keys)" "duplicate_groups keys ! g = (keys ! p, same_key keys (keys ! p))"
    using duplicate_groups_all[OF assms(2)] by blast
  have "p \<in> set (same_key keys (keys ! p))" using assms(1) by simp
  then obtain index where "index < length (same_key keys (keys ! p))" "same_key keys (keys ! p) ! index = p"
    by (metis in_set_conv_nth)
  with g show ?thesis by (intro exI[of _ g] exI[of _ index]) (simp add: duplicate_mark_iff)
qed

lemma duplicate_index_0:
  assumes "(p, Suc g, index) \<in> set (duplicate_marks keys)"
  shows "0 < index \<longleftrightarrow> (\<exists>j<p. keys ! j = keys ! p)"
proof -
  let ?ps = "same_key keys (keys ! p)"
  note p = duplicate_mark_same[OF assms]
  have sorted: "sorted_wrt (<) ?ps" by (simp add: sorted_wrt_filter)
  show ?thesis
  proof
    assume "0 < index"
    then have "?ps ! 0 < p" using sorted_wrt_nth_less[OF sorted, of 0 index] p by simp
    moreover have "?ps ! 0 \<in> set ?ps" using p by (intro nth_mem) auto
    ultimately show "\<exists>j<p. keys ! j = keys ! p" by auto
  next
    assume "\<exists>j<p. keys ! j = keys ! p"
    then obtain j where j: "j < p" "j \<in> set ?ps" using p by auto
    then obtain i where "i < length ?ps" "?ps ! i = j" by (metis in_set_conv_nth)
    then show "0 < index" using j(1) p sorted_wrt_nth_less[OF sorted, of 0 i] by (cases index; cases i) auto
  qed
qed

lemma same_key_pair: "i < j \<Longrightarrow> j < length keys \<Longrightarrow> keys ! i = keys ! j \<Longrightarrow> 2 \<le> length (same_key keys (keys ! j))"
proof -
  assume ij: "i < j" "j < length keys" "keys ! i = keys ! j"
  then have "{i, j} \<subseteq> set (same_key keys (keys ! j))" by simp
  then have "card {i, j} \<le> card (set (same_key keys (keys ! j)))" by (intro card_mono) simp_all
  then show ?thesis using ij card_length[of "same_key keys (keys ! j)"] by simp
qed

lemma length_mark_duplicates [simp]: "length (mark_duplicates u mode fs) = length fs"
  by (simp add: mark_duplicates_def)

lemma mark_duplicates_nth:
  "i < length fs \<Longrightarrow>
   mark_duplicates u mode fs ! i = mark_duplicate mode (map_of (duplicate_marks (map (duplicate_key u) fs)) i) (fs ! i)"
  by (simp add: mark_duplicates_def nth_enumerate_eq)

lemma length_update_first [simp]: "length (update_first P f xs) = length xs"
  by (induction xs) auto

lemma length_bump_result [simp]: "length (bump_result v i rs) = length rs"
  by (simp add: bump_result_def)

lemma length_deal [simp]: "length (deal xs ns) = length ns"
  by (induction ns arbitrary: xs) auto

lemma concat_deal: "sum_list ns = length xs \<Longrightarrow> concat (deal xs ns) = xs"
  by (induction ns arbitrary: xs) auto

lemma dealt_findings:
  "length as = length bs \<Longrightarrow> map vr_findings (map2 (\<lambda>r fs'. r\<lparr>vr_findings := fs'\<rparr>) as bs) = bs"
  by (induction as bs rule: list_induct2) auto

lemma findings_grouped:
  "concat (map vr_findings (group_duplicate_candidates u mode rs)) =
   mark_duplicates u mode (concat (map vr_findings rs))"
proof -
  let ?fs = "concat (map vr_findings rs)"
  have counted: "length (fold (\<lambda>(p, gid, index). bump_result (mf_vendor (fs ! p)) (mf_source_chunk (fs ! p))) marks rs)
    = length rs" for fs marks
    by (induction marks arbitrary: rs) (auto split: prod.splits)
  have "map vr_findings (group_duplicate_candidates u mode rs) =
      deal (mark_duplicates u mode ?fs) (map (\<lambda>r. length (vr_findings r)) rs)"
    unfolding group_duplicate_candidates_def Let_def by (rule dealt_findings) (simp only: counted length_deal length_map)
  then show ?thesis by (simp add: concat_deal length_concat comp_def)
qed

section \<open>Lemmas on the policy\<close>

lemma modes_distinct: "OBSERVE \<noteq> ENFORCE" "ENFORCE \<noteq> OBSERVE"
  by (simp_all add: OBSERVE_def ENFORCE_def U_def)

lemma decide_policy_enforces:
  "pd_effective (decide_policy p ov d canary kill unlocked can) = ENFORCE \<longleftrightarrow>
   \<not> kill \<and> unlocked \<and> can \<and> (ov = Some ENFORCE \<or> ov \<noteq> Some OBSERVE \<and> d = ENFORCE \<and> canary)"
  using modes_distinct by (auto simp: decide_policy_def Let_def split: option.splits)

lemma decide_policy_ok:
  "mode_ok (decide_policy p ov d canary kill unlocked can) \<and>
   pd_policy (decide_policy p ov d canary kill unlocked can) = p \<and>
   pd_reason (decide_policy p ov d canary kill unlocked can) \<noteq> []"
  by (auto simp: decide_policy_def mode_ok_def Let_def U_def split: option.split)

lemma resolved_snapshot:
  assumes "resolve_policy_snapshot sha num cfg attest repo identity = Inr s"
  shows "ps_scope s = decide_policy (U ''scope'') (case repo of None \<Rightarrow> None | Some r \<Rightarrow> rp_scope_mode r)
      (cfg_scope_default cfg) (repo_name repo \<in> set (cfg_scope_repos cfg)) (cfg_scope_kill cfg)
      (cfg_unlocked cfg) (att_can_enforce (attest identity))"
    and "ps_dedupe s = decide_policy (U ''dedupe'') (case repo of None \<Rightarrow> None | Some r \<Rightarrow> rp_dedupe_mode r)
      (cfg_dedupe_default cfg) (repo_name repo \<in> set (cfg_dedupe_repos cfg)) (cfg_dedupe_kill cfg)
      (cfg_unlocked cfg) (att_can_enforce (attest identity))"
    and "ps_cohort s = cohort_key (ps_scope s) (ps_dedupe s)"
    and "ps_decision_hash s = canonical_hash sha num (decision_payload (ps_scope s) (ps_dedupe s))"
    and "\<exists>v. ps_config_hash s = canonical_hash sha num v"
    and "ps_attestation s = att_report_hash (attest identity)"
proof -
  have "U ''dedupe'' \<noteq> U ''scope''" by (simp add: U_def)
  with assms show "ps_scope s = decide_policy (U ''scope'') (case repo of None \<Rightarrow> None | Some r \<Rightarrow> rp_scope_mode r)
      (cfg_scope_default cfg) (repo_name repo \<in> set (cfg_scope_repos cfg)) (cfg_scope_kill cfg)
      (cfg_unlocked cfg) (att_can_enforce (attest identity))"
    "ps_dedupe s = decide_policy (U ''dedupe'') (case repo of None \<Rightarrow> None | Some r \<Rightarrow> rp_dedupe_mode r)
      (cfg_dedupe_default cfg) (repo_name repo \<in> set (cfg_dedupe_repos cfg)) (cfg_dedupe_kill cfg)
      (cfg_unlocked cfg) (att_can_enforce (attest identity))"
    "ps_cohort s = cohort_key (ps_scope s) (ps_dedupe s)"
    "ps_decision_hash s = canonical_hash sha num (decision_payload (ps_scope s) (ps_dedupe s))"
    "\<exists>v. ps_config_hash s = canonical_hash sha num v"
    "ps_attestation s = att_report_hash (attest identity)"
    by (auto simp only: resolve_policy_snapshot_def resolve_policy_decision_def Let_def ebind_simps if_True if_False
        refl simp_thms option.case sum.inject policy_snapshot.simps)
qed

section \<open>Properties\<close>

definition on_added_line :: "line_map \<Rightarrow> model_finding \<Rightarrow> bool" where
  "on_added_line m f \<longleftrightarrow>
     (case normalize_finding_path (mf_file f) of None \<Rightarrow> False | Some p \<Rightarrow> (p, mf_line f) \<in> owned_pairs m)"

text \<open>
  C3: the guard and the chunker together.  On the chunks of a diff the guard never raises; the findings it
  keeps are, in order, all of them when observing and those on added lines of the diff when enforcing; and
  a finding may be posted exactly if its file and line are an added line of the diff.
\<close>

theorem scope_guard_exact:
  assumes "chunk_records_by_budget sha diff budget = Inr recs" and "changed_lines diff = Inr m"
  shows "\<exists>rs. apply_finding_scope mode recs results = Inr rs \<and> length rs = length results \<and>
    (\<forall>k<length results.
       list_all2 (\<lambda>f g. mf_eligible g = on_added_line m f \<and> mf_line g = mf_line f \<and> mf_claim g = mf_claim f)
         (filter (\<lambda>f. on_added_line m f \<or> mode \<noteq> ENFORCE) (vr_findings (results ! k))) (vr_findings (rs ! k)))"
proof -
  let ?own = "concat (map entries recs)"
  have "(\<Union>r\<in>set recs. owned_pairs (dc_owned r)) = owned_pairs m"
    using chunk_owned_union[OF assms] .
  then have scope: "in_scope ?own f = on_added_line m f" for f
    using owner_of_iff[of recs] by (simp add: in_scope_def on_added_line_def split: option.split)
  let ?rs = "map (scope_result ?own mode) results"
  have "vr_findings (scope_result ?own mode r) = fst (scope_findings ?own mode (vr_findings r) (vr_chunks r))" for r
    by (simp add: scope_result_def split: prod.split)
  then have "vr_findings (scope_result ?own mode r) =
      map (\<lambda>f. fst (scope_finding ?own mode f)) (filter (\<lambda>f. on_added_line m f \<or> mode \<noteq> ENFORCE) (vr_findings r))" for r
    by (simp add: scope_findings_kept scope)
  moreover have "mf_eligible (fst (scope_finding ?own mode f)) = on_added_line m f \<and>
      mf_line (fst (scope_finding ?own mode f)) = mf_line f \<and> mf_claim (fst (scope_finding ?own mode f)) = mf_claim f" for f
    using scope_finding_facts[of ?own mode f] scope by (metis prod.collapse)
  ultimately show ?thesis
    using chunker_owners[OF assms(1)]
    by (intro exI[of _ ?rs]) (simp add: apply_finding_scope_def list_all2_map2 list_all2_same)
qed

definition small_diff :: pystr where
  "small_diff = U ''diff --git a/f b/f'' @ [10] @ U ''--- a/f'' @ [10] @ U ''+++ b/f'' @ [10] @ U ''@@ -1 +1,2 @@'' @ [10] @
     U '' x'' @ [10] @ U ''+y'' @ [10]"

definition small_run :: vendor_run where
  "small_run = \<lparr>vr_vendor = U ''claude'', vr_status = U ''done'',
     vr_findings = [new_finding (U ''claude'') (U ''./f'') 2 [] [] (U ''on y'') [] 0,
                    new_finding (U ''claude'') (U ''f'') 1 [] [] (U ''on x'') [] 0],
     vr_duration = 0, vr_chunks = [], vr_verify = []\<rparr>"

lemma scope_guard_exact_witness:
  "\<exists>recs rs. chunk_records_by_budget (\<lambda>s. []) small_diff 200 = Inr recs \<and>
     apply_finding_scope ENFORCE recs [small_run] = Inr rs \<and> length rs = 1 \<and>
     length (vr_findings (rs ! 0)) = 1"
proof -
  have returned: "\<not> isl (chunk_records_by_budget (\<lambda>s. []) small_diff 200)" "\<not> isl (changed_lines small_diff)"
    by code_simp+
  then obtain recs m where recs: "chunk_records_by_budget (\<lambda>s. []) small_diff 200 = Inr recs"
    and m: "changed_lines small_diff = Inr m"
    by (cases "chunk_records_by_budget (\<lambda>s. []) small_diff 200"; cases "changed_lines small_diff") auto
  have "length (filter (\<lambda>f. on_added_line (projr (changed_lines small_diff)) f \<or> ENFORCE \<noteq> ENFORCE) (vr_findings small_run)) = 1"
    by code_simp
  then have one: "length (filter (\<lambda>f. on_added_line m f \<or> ENFORCE \<noteq> ENFORCE) (vr_findings small_run)) = 1" by (simp only: m sum.sel)
  from scope_guard_exact[OF recs m, of ENFORCE "[small_run]"]
  obtain rs where rs: "apply_finding_scope ENFORCE recs [small_run] = Inr rs" "length rs = length [small_run]"
    and each: "\<forall>k<length [small_run]. list_all2 (\<lambda>f g. mf_eligible g = on_added_line m f \<and> mf_line g = mf_line f \<and> mf_claim g = mf_claim f)
       (filter (\<lambda>f. on_added_line m f \<or> ENFORCE \<noteq> ENFORCE) (vr_findings ([small_run] ! k))) (vr_findings (rs ! k))"
    by (elim exE conjE) rule
  have zero: "list_all2 (\<lambda>f g. mf_eligible g = on_added_line m f \<and> mf_line g = mf_line f \<and> mf_claim g = mf_claim f)
       (filter (\<lambda>f. on_added_line m f \<or> ENFORCE \<noteq> ENFORCE) (vr_findings ([small_run] ! 0))) (vr_findings (rs ! 0))"
    using each by (rule allE[of _ 0]) simp
  have "length (vr_findings (rs ! 0)) = 1" using list_all2_lengthD[OF zero] one by simp
  with recs rs(1,2) show ?thesis by (intro exI[of _ recs] exI[of _ rs]) simp
qed


definition toy_unicode :: unicode where
  "toy_unicode = \<lparr>u_fold = lower, u_word = (\<lambda>c. 48 \<le> c \<and> c < 58 \<or> 97 \<le> c \<and> c < 123)\<rparr>"

definition sample_run :: vendor_run where
  "sample_run =
     \<lparr>vr_vendor = U ''claude'', vr_status = U ''done'',
      vr_findings = [new_finding (U ''claude'') (U ''a'') 1 [] [] (U ''Bad!'') [] 0,
                     new_finding (U ''claude'') (U ''./a'') 1 [] [] (U ''bad'') [] 0],
      vr_duration = 0, vr_chunks = [], vr_verify = []\<rparr>"


text \<open>
  C22: enforcement is gated.  A run's policy is enforced exactly if the kill switch is off, enforcement is unlocked,
  the benchmark attestation allows it, and the repository asks for it itself, or asks for nothing while the
  default is to enforce and the repository is on the list.  Everything else observes.
\<close>

theorem enforcement_gated:
  assumes "resolve_policy_snapshot sha num cfg attest repo identity = Inr s"
    and "scope_override = (case repo of None \<Rightarrow> None | Some r \<Rightarrow> rp_scope_mode r)"
    and "dedupe_override = (case repo of None \<Rightarrow> None | Some r \<Rightarrow> rp_dedupe_mode r)"
  shows "(pd_effective (ps_scope s) = ENFORCE \<longleftrightarrow>
      \<not> cfg_scope_kill cfg \<and> cfg_unlocked cfg \<and> att_can_enforce (attest identity) \<and>
      (scope_override = Some ENFORCE \<or>
       scope_override \<noteq> Some OBSERVE \<and> cfg_scope_default cfg = ENFORCE \<and> repo_name repo \<in> set (cfg_scope_repos cfg))) \<and>
    (pd_effective (ps_dedupe s) = ENFORCE \<longleftrightarrow>
      \<not> cfg_dedupe_kill cfg \<and> cfg_unlocked cfg \<and> att_can_enforce (attest identity) \<and>
      (dedupe_override = Some ENFORCE \<or>
       dedupe_override \<noteq> Some OBSERVE \<and> cfg_dedupe_default cfg = ENFORCE \<and> repo_name repo \<in> set (cfg_dedupe_repos cfg))) \<and>
    pd_effective (ps_scope s) \<in> {OBSERVE, ENFORCE} \<and> pd_effective (ps_dedupe s) \<in> {OBSERVE, ENFORCE}"
  using decide_policy_ok unfolding assms(2,3) resolved_snapshot(1,2)[OF assms(1)] decide_policy_enforces
  by (auto simp: mode_ok_def)

definition sample_config :: policy_config where
  "sample_config = \<lparr>cfg_scope_default = ENFORCE, cfg_dedupe_default = OBSERVE, cfg_scope_repos = [U ''o/r''],
     cfg_dedupe_repos = [], cfg_scope_kill = False, cfg_dedupe_kill = True, cfg_unlocked = True\<rparr>"

definition sample_repo :: "policy_repo option" where
  "sample_repo = Some \<lparr>rp_full_name = Some (U ''o/r''), rp_scope_mode = None, rp_dedupe_mode = Some ENFORCE\<rparr>"

definition constant_hash :: "pystr \<Rightarrow> pystr" where
  "constant_hash s = replicate 64 97"

lemma enforcement_gated_witness:
  "\<exists>s. resolve_policy_snapshot constant_hash (\<lambda>q. []) sample_config
      (\<lambda>i. \<lparr>att_can_enforce = True, att_report_hash = None\<rparr>) sample_repo JNull = Inr s \<and>
     pd_effective (ps_scope s) = ENFORCE \<and> pd_effective (ps_dedupe s) \<noteq> ENFORCE"
proof -
  obtain s where s: "resolve_policy_snapshot constant_hash (\<lambda>q. []) sample_config
      (\<lambda>i. \<lparr>att_can_enforce = True, att_report_hash = None\<rparr>) sample_repo JNull = Inr s"
    by (simp add: resolve_policy_snapshot_def resolve_policy_decision_def Let_def U_def)
  have "repo_name sample_repo = U ''o/r''" by (simp add: sample_repo_def repo_name_def)
  with enforcement_gated[OF s refl refl] s show ?thesis
    by (intro exI[of _ s]) (simp add: sample_config_def sample_repo_def)
qed

text \<open>
  A snapshot survives the database.  What \<open>policy_snapshot_record\<close> stores is read back by
  \<open>policy_snapshot_from_row\<close> as the same snapshot, for every snapshot the resolver makes, provided hashes
  are 64 hexadecimal digits.
\<close>

lemma policy_snapshot_roundtrip:
  assumes "resolve_policy_snapshot sha num cfg attest repo identity = Inr s"
    and "\<And>x. is_hash (sha x)"
    and "list_all is_hash (case att_report_hash (attest identity) of None \<Rightarrow> [] | Some h \<Rightarrow> [h])"
  shows "policy_snapshot_from_row sha num (policy_snapshot_record s) = Some s"
proof -
  define d1 where "d1 = ps_scope s"
  define d2 where "d2 = ps_dedupe s"
  note made = resolved_snapshot[OF assms(1), folded d1_def d2_def]
  have facts: "pd_policy d1 = U ''scope''" "pd_policy d2 = U ''dedupe''" "mode_ok d1" "mode_ok d2"
    "pd_reason d1 \<noteq> []" "pd_reason d2 \<noteq> []"
    using decide_policy_ok made(1,2) by metis+
  have hashes: "is_hash (ps_decision_hash s)" "is_hash (ps_config_hash s)"
    using made(4,5) assms(2) by (auto simp: canonical_hash_def)
  have nonempty: "is_hash h \<Longrightarrow> h \<noteq> []" for h by (auto simp: is_hash_def)
  have shown: "pd_requested d \<noteq> [] \<and> pd_effective d \<noteq> [] \<and> pd_source d \<noteq> []" if "mode_ok d" for d
    using that by (auto simp: mode_ok_def OBSERVE_def ENFORCE_def U_def)
  have rebuilt: "\<lparr>pd_policy = U ''scope'', pd_requested = pd_requested d1, pd_effective = pd_effective d1,
       pd_reason = pd_reason d1, pd_source = pd_source d1\<rparr> = d1"
    "\<lparr>pd_policy = U ''dedupe'', pd_requested = pd_requested d2, pd_effective = pd_effective d2,
       pd_reason = pd_reason d2, pd_source = pd_source d2\<rparr> = d2"
    using facts(1,2) by simp_all
  have att: "ps_attestation s \<noteq> None \<and> \<not> is_hash (text_of (ps_attestation s)) \<longleftrightarrow> False"
    using assms(3) made(6) by (auto simp: text_of_def split: option.splits)
  have cohort: "cohort_key d1 d2 \<noteq> []" by (simp add: cohort_key_def U_def)
  have some: "text_of (Some t) = t" for t by (simp add: text_of_def)
  show ?thesis
    using shown[OF facts(3)] shown[OF facts(4)] facts(3-6) nonempty[OF hashes(1)] nonempty[OF hashes(2)] hashes made(3,4)
      rebuilt att cohort
    unfolding policy_snapshot_from_row_def policy_snapshot_record_def policy_row.simps some Let_def
      d1_def[symmetric] d2_def[symmetric] rebuilt
    by (simp add: d1_def d2_def some)
qed

end
