(* ===== verification/Work_Queue.thy ===== *)
theory Work_Queue
  imports Prelude
begin

text \<open>
  The interface of a table whose rows are units of work: a worker claims a row, holds it, and
  releases it.  It is stated once as a locale and holds of the review-job table
  (\<open>Job_Queue\<close>) and of the wiki table (\<open>Wiki_Queue\<close>).  The second part is the process lease
  (\<open>src/server/repos/process_repo.py\<close>) that says whether the holder of a row is alive.
\<close>

section \<open>The interface\<close>

text \<open>What happens to the table: a claim (with its parameters) or any other operation.\<close>

datatype ('c, 's) work_event = Claim 'c | Other "'s \<Rightarrow> 's"

locale work_queue = primary_key +
  fixes rows_of :: "'s \<Rightarrow> 'a list"
    and inv :: "'s \<Rightarrow> bool"
    and held :: "'a \<Rightarrow> bool"
    and claim :: "'c \<Rightarrow> 's \<Rightarrow> 'a option \<times> 's"
  assumes claim_none: "claim c s = (None, s') \<Longrightarrow> s' = s"
    and claim_some: "inv s \<Longrightarrow> claim c s = (Some r, s') \<Longrightarrow>
      inv s' \<and> lookup (rows_of s') (key r) = Some r \<and> held r \<and>
      (\<exists>r0. lookup (rows_of s) (key r) = Some r0 \<and> \<not> held r0) \<and>
      (\<forall>k. k \<noteq> key r \<longrightarrow> lookup (rows_of s') k = lookup (rows_of s) k)"
begin

definition held_key :: "'s \<Rightarrow> 'b \<Rightarrow> bool" where
  "held_key s k \<longleftrightarrow> (\<exists>r. lookup (rows_of s) k = Some r \<and> held r)"

fun run :: "('c, 's) work_event list \<Rightarrow> 's \<Rightarrow> 'a list \<times> 's" where
  "run [] s = ([], s)"
| "run (Claim c # es) s =
     (case claim c s of
        (None, s1) \<Rightarrow> run es s1
      | (Some r, s1) \<Rightarrow> (case run es s1 of (got, s2) \<Rightarrow> (r # got, s2)))"
| "run (Other g # es) s = run es (g s)"

text \<open>An operation that leaves the holder of row \<open>k\<close> in place.\<close>

definition quiet :: "'b \<Rightarrow> ('s \<Rightarrow> 's) \<Rightarrow> bool" where
  "quiet k g \<longleftrightarrow> (\<forall>s. inv s \<longrightarrow> inv (g s) \<and> (held_key s k \<longrightarrow> held_key (g s) k))"

lemma claim_held_key:
  assumes "inv s" "claim c s = (Some r, s')"
  shows "inv s'" "\<not> held_key s (key r)"
    "held_key s' k \<longleftrightarrow> held_key s k \<or> k = key r"
proof -
  show "inv s'" "\<not> held_key s (key r)" using claim_some[OF assms] by (auto simp: held_key_def)
  show "held_key s' k \<longleftrightarrow> held_key s k \<or> k = key r"
    using claim_some[OF assms] by (cases "k = key r") (auto simp: held_key_def)
qed

text \<open>A held row is not claimed again until an operation releases it.\<close>

lemma held_not_claimed:
  assumes "inv s" "held_key s k"
    and "\<And>g. Other g \<in> set es \<Longrightarrow> quiet k g"
    and "run es s = (got, s')"
  shows "k \<notin> key ` set got \<and> held_key s' k"
  using assms
proof (induction es s arbitrary: got s' rule: run.induct)
  case (1 s)
  then show ?case by simp
next
  case (2 c es s)
  have quiet: "\<And>g. Other g \<in> set es \<Longrightarrow> quiet k g" using "2.prems"(3) by simp
  show ?case
  proof (cases "claim c s")
    case (Pair o1 s1)
    show ?thesis
    proof (cases o1)
      case None
      with Pair claim_none have same: "s1 = s" by blast
      have rest: "run es s1 = (got, s')" using "2.prems"(4) Pair None by simp
      have "inv s1" "held_key s1 k" using "2.prems"(1,2) same by simp_all
      then show ?thesis by (rule "2.IH"(1)[OF Pair[symmetric] None _ _ quiet rest])
    next
      case (Some r)
      note held = claim_held_key[OF "2.prems"(1) Pair[unfolded Some]]
      obtain got1 where rest: "run es s1 = (got1, s')" "got = r # got1"
        using "2.prems"(4) Pair Some by (auto split: prod.splits)
      have "k \<notin> key ` set got1 \<and> held_key s' k"
        using "2.IH"(2)[OF Pair[symmetric] Some _ _ quiet rest(1)] held "2.prems"(2) by blast
      then show ?thesis using rest(2) held(2) "2.prems"(2) by auto
    qed
  qed
next
  case (3 g es s)
  have "quiet k g" by (rule "3.prems"(3)) simp
  then have "inv (g s)" "held_key (g s) k" using "3.prems"(1,2) by (simp_all add: quiet_def)
  moreover have "\<And>g. Other g \<in> set es \<Longrightarrow> quiet k g" using "3.prems"(3) by simp
  moreover have "run es (g s) = (got, s')" using "3.prems"(4) by simp
  ultimately show ?case by (rule "3.IH")
qed

text \<open>While nothing is released, no row is handed out twice.\<close>

lemma claims_distinct:
  assumes "inv s" "run es s = (got, s')"
    and "\<And>g k. Other g \<in> set es \<Longrightarrow> quiet k g"
  shows "distinct (map key got)"
  using assms
proof (induction es s arbitrary: got s' rule: run.induct)
  case (1 s)
  then show ?case by simp
next
  case (2 c es s)
  have quiet: "\<And>g k. Other g \<in> set es \<Longrightarrow> quiet k g" using "2.prems"(3) by simp
  show ?case
  proof (cases "claim c s")
    case (Pair o1 s1)
    show ?thesis
    proof (cases o1)
      case None
      with Pair claim_none have same: "s1 = s" by blast
      have rest: "run es s1 = (got, s')" using "2.prems"(2) Pair None by simp
      have "inv s1" using "2.prems"(1) same by simp
      then show ?thesis by (rule "2.IH"(1)[OF Pair[symmetric] None _ rest quiet])
    next
      case (Some r)
      note held = claim_held_key[OF "2.prems"(1) Pair[unfolded Some]]
      obtain got1 where rest: "run es s1 = (got1, s')" "got = r # got1"
        using "2.prems"(2) Pair Some by (auto split: prod.splits)
      have "key r \<notin> key ` set got1"
        using held_not_claimed[OF held(1) _ quiet rest(1)] held(3) by blast
      moreover have "distinct (map key got1)"
        using "2.IH"(2)[OF Pair[symmetric] Some held(1) rest(1) quiet] .
      ultimately show ?thesis using rest(2) by simp
    qed
  qed
next
  case (3 g es s)
  have "quiet k g" for k by (rule "3.prems"(3)) simp
  then have "inv (g s)" using "3.prems"(1) by (simp add: quiet_def)
  moreover have "run es (g s) = (got, s')" using "3.prems"(2) by simp
  moreover have "\<And>g k. Other g \<in> set es \<Longrightarrow> quiet k g" using "3.prems"(3) by simp
  ultimately show ?case by (rule "3.IH")
qed

end

section \<open>Process leases\<close>

record process_lease =
  pl_process_id :: pystr
  pl_started_at :: int
  pl_heartbeat_at :: int
  pl_expires_at :: int

definition DEFAULT_TTL_SECONDS :: int where
  "DEFAULT_TTL_SECONDS = 60"

definition register_process :: "int \<Rightarrow> pystr \<Rightarrow> int \<Rightarrow> process_lease list \<Rightarrow> exn + process_lease list" where
  "register_process now p ttl ls =
     (if p \<in> pl_process_id ` set ls
      then Inl (OtherError (U ''IntegrityError'') (U ''UNIQUE constraint failed: process_lease.process_id''))
      else Inr (ls @ [\<lparr>pl_process_id = p, pl_started_at = now, pl_heartbeat_at = now,
                       pl_expires_at = now + ttl\<rparr>]))"

definition heartbeat_process :: "int \<Rightarrow> pystr \<Rightarrow> int \<Rightarrow> process_lease list \<Rightarrow> bool \<times> process_lease list" where
  "heartbeat_process now p ttl ls =
     (let due = (\<lambda>l. pl_process_id l = p \<and> pl_expires_at l > now)
      in (rowcount due ls = 1,
          sql_update due (\<lambda>l. l\<lparr>pl_heartbeat_at := now, pl_expires_at := now + ttl\<rparr>) ls))"

definition release_process :: "pystr \<Rightarrow> process_lease list \<Rightarrow> process_lease list" where
  "release_process p ls = sql_delete (\<lambda>l. pl_process_id l = p) ls"

definition alive :: "int \<Rightarrow> process_lease list \<Rightarrow> pystr \<Rightarrow> bool" where
  "alive now ls p \<longleftrightarrow> list_ex (\<lambda>l. pl_process_id l = p \<and> pl_expires_at l > now) ls"

interpretation lease: primary_key "pl_process_id :: process_lease \<Rightarrow> pystr" .

text \<open>A heartbeat succeeds exactly when the lease is alive; then it lives on for the new term.\<close>

lemma alive_lookup:
  "lease.unique_keys ls \<Longrightarrow>
   alive now ls p \<longleftrightarrow> (\<exists>l. lease.lookup ls p = Some l \<and> pl_expires_at l > now)"
  unfolding alive_def list_ex_iff
  using lease.lookup_unique lease.lookup_Some_set by metis

lemma heartbeat_alive:
  assumes u: "lease.unique_keys ls" and "0 < ttl" and hb: "heartbeat_process now p ttl ls = (ok, ls')"
  shows "ok = alive now ls p" "alive later ls' p \<longleftrightarrow> (if ok then later < now + ttl else alive later ls p)"
    "q \<noteq> p \<Longrightarrow> alive later ls' q = alive later ls q" "lease.unique_keys ls'"
proof -
  show ok: "ok = alive now ls p"
    using hb lease.rowcount_key_1[OF u, of p "\<lambda>l. pl_expires_at l > now"]
    by (auto simp: heartbeat_process_def alive_lookup[OF u] Let_def)
  have keep: "pl_process_id (l\<lparr>pl_heartbeat_at := now, pl_expires_at := now + ttl\<rparr>) = pl_process_id l" for l
    by simp
  have ls': "ls' = sql_update (\<lambda>l. pl_process_id l = p \<and> pl_expires_at l > now)
      (\<lambda>l. l\<lparr>pl_heartbeat_at := now, pl_expires_at := now + ttl\<rparr>) ls"
    using hb by (simp add: heartbeat_process_def Let_def)
  show u': "lease.unique_keys ls'" using u by (simp add: ls' lease.unique_update)
  have find: "lease.lookup ls' k = map_option (\<lambda>l. if pl_process_id l = p \<and> pl_expires_at l > now
      then l\<lparr>pl_heartbeat_at := now, pl_expires_at := now + ttl\<rparr> else l) (lease.lookup ls k)" for k
    unfolding ls' by (rule lease.lookup_update) simp
  show "alive later ls' q = alive later ls q" if "q \<noteq> p"
  proof (cases "lease.lookup ls q")
    case (Some l)
    then have "pl_process_id l = q" using lease.lookup_Some_set by blast
    with Some that show ?thesis by (simp add: alive_lookup[OF u'] alive_lookup[OF u] find)
  qed (simp add: alive_lookup[OF u'] alive_lookup[OF u] find)
  show "alive later ls' p \<longleftrightarrow> (if ok then later < now + ttl else alive later ls p)"
  proof (cases "lease.lookup ls p")
    case (Some l)
    then have "pl_process_id l = p" using lease.lookup_Some_set by blast
    with Some show ?thesis by (simp add: ok alive_lookup[OF u'] alive_lookup[OF u] find)
  qed (simp add: ok alive_lookup[OF u'] alive_lookup[OF u] find)
qed

lemma release_process_dead:
  "\<not> alive now (release_process p ls) p"
  "q \<noteq> p \<Longrightarrow> alive now (release_process p ls) q = alive now ls q"
  by (auto simp: alive_def release_process_def list_ex_iff)

end
