(* ===== verification/Run_Store.thy ===== *)
theory Run_Store
  imports Finding_Policy Work_Queue
begin

text \<open>
  The tables a review run lives in: pull requests (\<open>src/server/repos/pr_repo.py\<close>), runs and the results of the
  vendors (\<open>src/server/repos/review_repo.py\<close>), and the pre-screening log (\<open>src/server/repos/prescreen_repo.py\<close>).
  JSON columns hold the document they encode; \<open>num\<close> renders the floats in it.
\<close>

section \<open>Pull requests\<close>

record pull_request =
  pr_id :: nat
  pr_repo :: nat
  pr_number :: int
  pr_title :: "pystr option"
  pr_author :: "pystr option"
  pr_head_sha :: pystr
  pr_base_ref :: "pystr option"
  pr_base_sha :: "pystr option"
  pr_state :: pystr
  pr_url :: "pystr option"
  pr_created_at :: "pystr option"
  pr_head_ref :: "pystr option"
  pr_body :: "pystr option"
  pr_draft :: bool
  pr_last_reviewed :: "pystr option"
  pr_first_seen :: int
  pr_sort_at :: int
  pr_updated_at :: int

interpretation pr_key: primary_key "pr_id :: pull_request \<Rightarrow> nat" .

definition get_pr :: "nat \<Rightarrow> pull_request table \<Rightarrow> pull_request option" where
  "get_pr pid t = List.find (\<lambda>p. pr_id p = pid) (rows t)"

definition same_pr :: "pull_request \<Rightarrow> pull_request \<Rightarrow> bool" where
  "same_pr new p \<longleftrightarrow> pr_repo p = pr_repo new \<and> pr_number p = pr_number new"

text \<open>The columns whose difference makes the upsert write.\<close>

definition pr_changed :: "pull_request \<Rightarrow> pull_request \<Rightarrow> bool" where
  "pr_changed new p \<longleftrightarrow>
     pr_title p \<noteq> pr_title new \<or> pr_author p \<noteq> pr_author new \<or> pr_head_sha p \<noteq> pr_head_sha new \<or>
     pr_base_ref p \<noteq> pr_base_ref new \<or> pr_base_sha p \<noteq> pr_base_sha new \<or> pr_state p \<noteq> pr_state new \<or>
     pr_url p \<noteq> pr_url new \<or> pr_head_ref p \<noteq> pr_head_ref new \<or> pr_body p \<noteq> pr_body new \<or>
     pr_draft p \<noteq> pr_draft new"

definition merge_pr :: "int \<Rightarrow> pull_request \<Rightarrow> pull_request \<Rightarrow> pull_request" where
  "merge_pr now new p =
     p\<lparr>pr_title := pr_title new, pr_author := pr_author new, pr_head_sha := pr_head_sha new,
       pr_base_ref := pr_base_ref new, pr_base_sha := pr_base_sha new, pr_state := pr_state new, pr_url := pr_url new,
       pr_created_at := (case pr_created_at new of None \<Rightarrow> pr_created_at p | Some c \<Rightarrow> Some c),
       pr_head_ref := pr_head_ref new, pr_body := pr_body new, pr_draft := pr_draft new, pr_updated_at := now\<rparr>"

text \<open>\<open>new\<close> carries the arguments; \<open>parse_time\<close> is SQLite's \<open>datetime\<close> of the creation time.\<close>

definition upsert_pr ::
  "(pystr \<Rightarrow> int option) \<Rightarrow> int \<Rightarrow> pull_request \<Rightarrow> pull_request table \<Rightarrow> nat \<times> pull_request table" where
  "upsert_pr parse_time now new t =
     (case List.find (same_pr new) (rows t) of
        Some p \<Rightarrow>
          (pr_id p, t\<lparr>rows := sql_update (\<lambda>q. same_pr new q \<and> pr_changed new q) (merge_pr now new) (rows t)\<rparr>)
      | None \<Rightarrow>
          (next_id t,
           t\<lparr>rows := rows t @
               [new\<lparr>pr_id := next_id t, pr_last_reviewed := None, pr_first_seen := now, pr_updated_at := now,
                    pr_sort_at := (case (case pr_created_at new of None \<Rightarrow> None | Some c \<Rightarrow> parse_time c) of
                                     None \<Rightarrow> now | Some x \<Rightarrow> x)\<rparr>],
             next_id := Suc (next_id t)\<rparr>))"

definition mark_reviewed :: "nat \<Rightarrow> pystr \<Rightarrow> pull_request table \<Rightarrow> pull_request table" where
  "mark_reviewed pid sha t = t\<lparr>rows := sql_update (\<lambda>p. pr_id p = pid) (\<lambda>p. p\<lparr>pr_last_reviewed := Some sha\<rparr>) (rows t)\<rparr>"

definition needs_review :: "nat \<Rightarrow> pull_request table \<Rightarrow> bool" where
  "needs_review pid t = (case get_pr pid t of None \<Rightarrow> False | Some p \<Rightarrow> Some (pr_head_sha p) \<noteq> pr_last_reviewed p)"

text \<open>Closing in chunks of 500 numbers; the sofar is the number of rows that changed.\<close>

definition close_numbers :: "nat \<Rightarrow> int list \<Rightarrow> pull_request list \<Rightarrow> nat \<times> pull_request list" where
  "close_numbers repo numbers ps =
     (let hit = (\<lambda>p. pr_repo p = repo \<and> pr_state p = U ''open'' \<and> pr_number p \<in> set numbers)
      in (rowcount hit ps, sql_update hit (\<lambda>p. p\<lparr>pr_state := U ''closed''\<rparr>) ps))"

function close_chunks :: "nat \<Rightarrow> int list \<Rightarrow> nat \<times> pull_request list \<Rightarrow> nat \<times> pull_request list" where
  "close_chunks repo numbers (sofar, ps) =
     (if numbers = [] then (sofar, ps)
      else case close_numbers repo (take 500 numbers) ps of
             (n, ps') \<Rightarrow> close_chunks repo (drop 500 numbers) (sofar + n, ps'))"
  by pat_completeness auto
termination
  by (relation "measure (\<lambda>(repo, numbers, acc). length numbers)") auto

declare close_chunks.simps [simp del]

definition mark_closed :: "nat \<Rightarrow> int list \<Rightarrow> pull_request table \<Rightarrow> nat \<times> pull_request table" where
  "mark_closed repo numbers t =
     (case close_chunks repo numbers (0, rows t) of (n, ps) \<Rightarrow> (n, t\<lparr>rows := ps\<rparr>))"

section \<open>Runs\<close>

datatype run_status = Run_Queued | Run_Running | Run_Done | Run_Failed | Run_Canceled

datatype run_trigger = Trigger_Auto | Trigger_Manual | Trigger_Retry

record review_run =
  run_id :: nat
  run_pr :: nat
  run_head_sha :: pystr
  run_base_sha :: "pystr option"
  run_trigger :: run_trigger
  run_effort :: "pystr option"
  run_merge :: bool
  run_status :: run_status
  run_started_at :: int
  run_finished_at :: "int option"
  run_error :: "pystr option"
  run_owner :: "pystr option"
  run_owner_job :: "nat option"
  run_policy :: policy_row
  run_context_text :: "pystr option"
  run_context_meta :: "json option"
  run_context_chunks :: "json option"

interpretation run_key: primary_key "run_id :: review_run \<Rightarrow> nat" .

definition no_policy :: policy_row where
  "no_policy =
     \<lparr>pc_scope_requested = None, pc_scope_effective = None, pc_scope_reason = None, pc_scope_source = None,
      pc_dedupe_requested = None, pc_dedupe_effective = None, pc_dedupe_reason = None, pc_dedupe_source = None,
      pc_cohort = None, pc_decision_hash = None, pc_config_hash = None, pc_attestation = None\<rparr>"

record vendor_result =
  vt_id :: nat
  vt_run :: nat
  vt_vendor :: pystr
  vt_status :: "pystr option"
  vt_duration :: "int option"
  vt_raw_path :: "pystr option"
  vt_error :: "pystr option"
  vt_meta :: "json option"
  vt_started_at :: int

interpretation vt_key: primary_key "vt_id :: vendor_result \<Rightarrow> nat" .

record run_db =
  db_prs :: "pull_request table"
  db_runs :: "review_run table"
  db_results :: "vendor_result table"

definition get_run :: "nat \<Rightarrow> run_db \<Rightarrow> review_run option" where
  "get_run rid db = List.find (\<lambda>r. run_id r = rid) (rows (db_runs db))"

definition update_runs :: "(review_run \<Rightarrow> bool) \<Rightarrow> (review_run \<Rightarrow> review_run) \<Rightarrow> run_db \<Rightarrow> run_db" where
  "update_runs P g db = db\<lparr>db_runs := (db_runs db)\<lparr>rows := sql_update P g (rows (db_runs db))\<rparr>\<rparr>"

definition update_results :: "(vendor_result \<Rightarrow> bool) \<Rightarrow> (vendor_result \<Rightarrow> vendor_result) \<Rightarrow> run_db \<Rightarrow> run_db" where
  "update_results P g db = db\<lparr>db_results := (db_results db)\<lparr>rows := sql_update P g (rows (db_results db))\<rparr>\<rparr>"

definition create_run ::
  "int \<Rightarrow> nat \<Rightarrow> pystr \<Rightarrow> run_trigger \<Rightarrow> pystr option \<Rightarrow> bool \<Rightarrow> pystr option \<Rightarrow> nat option \<Rightarrow> policy_snapshot option
   \<Rightarrow> run_db \<Rightarrow> nat \<times> run_db" where
  "create_run now pid head trig effort merge owner job policy db =
     (let t = db_runs db;
          r = \<lparr>run_id = next_id t, run_pr = pid, run_head_sha = head, run_base_sha = None, run_trigger = trig,
               run_effort = effort, run_merge = merge, run_status = Run_Running, run_started_at = now,
               run_finished_at = None, run_error = None, run_owner = owner, run_owner_job = job,
               run_policy = (case policy of None \<Rightarrow> no_policy | Some s \<Rightarrow> policy_snapshot_record s),
               run_context_text = None, run_context_meta = None, run_context_chunks = None\<rparr>
      in (next_id t, db\<lparr>db_runs := t\<lparr>rows := rows t @ [r], next_id := Suc (next_id t)\<rparr>\<rparr>))"

definition set_policy_snapshot :: "nat \<Rightarrow> policy_snapshot \<Rightarrow> run_db \<Rightarrow> exn + run_db" where
  "set_policy_snapshot rid s db =
     (let open_run = (\<lambda>r. run_id r = rid \<and> run_status r = Run_Running \<and> pc_decision_hash (run_policy r) = None)
      in if rowcount open_run (rows (db_runs db)) \<noteq> 1
         then Inl (RuntimeError (U ''run policy snapshot is not mutable''))
         else Inr (update_runs open_run (\<lambda>r. r\<lparr>run_policy := policy_snapshot_record s\<rparr>) db))"

text \<open>\<open>ORDER BY id DESC LIMIT 1\<close>.\<close>

definition latest_run :: "(review_run \<Rightarrow> bool) \<Rightarrow> run_db \<Rightarrow> review_run option" where
  "latest_run P db = select_first (\<lambda>r. - int (run_id r)) P (rows (db_runs db))"

definition last_done_head_sha :: "nat \<Rightarrow> run_db \<Rightarrow> pystr option" where
  "last_done_head_sha pid db = map_option run_head_sha (latest_run (\<lambda>r. run_pr r = pid \<and> run_status r = Run_Done) db)"

definition set_base_sha :: "nat \<Rightarrow> pystr \<Rightarrow> run_db \<Rightarrow> run_db" where
  "set_base_sha rid sha db = update_runs (\<lambda>r. run_id r = rid) (\<lambda>r. r\<lparr>run_base_sha := Some sha\<rparr>) db"

definition finish_run :: "int \<Rightarrow> nat \<Rightarrow> run_status \<Rightarrow> pystr option \<Rightarrow> run_db \<Rightarrow> run_db" where
  "finish_run now rid s err db =
     update_runs (\<lambda>r. run_id r = rid) (\<lambda>r. r\<lparr>run_status := s, run_error := err, run_finished_at := Some now\<rparr>) db"

definition RESTART_ERROR :: pystr where
  "RESTART_ERROR = [49436, 48260, 32, 51116, 49884, 51089, 51004, 47196, 32, 51473, 45800, 46120]"

definition recover_stale_running :: "int \<Rightarrow> run_db \<Rightarrow> nat \<times> run_db" where
  "recover_stale_running now db =
     (let db1 = update_results (\<lambda>v. vt_status v = Some (U ''running''))
                  (\<lambda>v. v\<lparr>vt_status := Some (U ''failed''), vt_error := Some RESTART_ERROR\<rparr>) db;
          stale = (\<lambda>r. run_status r = Run_Running)
      in (rowcount stale (rows (db_runs db1)),
          update_runs stale (\<lambda>r. r\<lparr>run_status := Run_Failed, run_error := Some RESTART_ERROR, run_finished_at := Some now\<rparr>)
            db1))"

definition set_context :: "nat \<Rightarrow> pystr \<Rightarrow> json \<Rightarrow> run_db \<Rightarrow> run_db" where
  "set_context rid t meta db =
     update_runs (\<lambda>r. run_id r = rid) (\<lambda>r. r\<lparr>run_context_text := Some t, run_context_meta := Some meta\<rparr>) db"

section \<open>The stored contexts of the chunks\<close>

definition CONTEXT_CHUNK_KEYS :: "string list" where
  "CONTEXT_CHUNK_KEYS = [''chunk_hash'', ''context_hash'', ''text'', ''manifest'']"

fun validate_chunk_list :: "int \<Rightarrow> json list \<Rightarrow> exn option" where
  "validate_chunk_list sofar [] = None"
| "validate_chunk_list sofar (v # vs) =
     (case v of
        JObj c \<Rightarrow>
          if \<not> has_keys CONTEXT_CHUNK_KEYS c then Some (ValueError (U ''invalid context chunk''))
          else (let size = (case fld c ''text'' of JStr t \<Rightarrow> sofar + int (length t) | _ \<Rightarrow> sofar)
                in case first_error
                     (map (\<lambda>k. check ''invalid context chunk hash'' (case fld c k of JStr h \<Rightarrow> length h = 64 | _ \<Rightarrow> False))
                        [''chunk_hash'', ''context_hash''] @
                      [check ''invalid context chunk text'' (is_text (fld c ''text'')),
                       check ''context chunks exceed size cap'' (size \<le> 2000000),
                       check ''invalid context chunk manifest''
                         (case fld c ''manifest'' of JList ms \<Rightarrow> int (length ms) \<le> 2000 | _ \<Rightarrow> False)]) of
                     Some e \<Rightarrow> Some e
                   | None \<Rightarrow> validate_chunk_list size vs)
      | _ \<Rightarrow> Some (ValueError (U ''invalid context chunk'')))"

definition validate_context_chunks :: "json \<Rightarrow> exn option" where
  "validate_context_chunks v =
     (case v of
        JList cs \<Rightarrow> if int (length cs) > 1000 then Some (ValueError (U ''invalid context chunk list''))
                    else validate_chunk_list 0 cs
      | _ \<Rightarrow> Some (ValueError (U ''invalid context chunk list'')))"

definition dict_update :: "(pystr \<times> json) list \<Rightarrow> (pystr \<times> json) list \<Rightarrow> (pystr \<times> json) list" where
  "dict_update patch d = fold (\<lambda>(k, v). dict_set k v) patch d"

definition set_context_chunks :: "nat \<Rightarrow> json \<Rightarrow> (pystr \<times> json) list \<Rightarrow> run_db \<Rightarrow> exn + run_db" where
  "set_context_chunks rid chunks patch db =
     (case validate_context_chunks chunks of
        Some e \<Rightarrow> Inl e
      | None \<Rightarrow>
          let old = (case get_run rid db of None \<Rightarrow> None | Some r \<Rightarrow> run_context_meta r);
              meta = (case old of Some (JObj m) \<Rightarrow> m | _ \<Rightarrow> [])
          in Inr (update_runs (\<lambda>r. run_id r = rid)
                    (\<lambda>r. r\<lparr>run_context_chunks := Some chunks, run_context_meta := Some (JObj (dict_update patch meta))\<rparr>) db))"

definition get_context_chunks :: "review_run \<Rightarrow> json option" where
  "get_context_chunks r =
     (case run_context_chunks r of
        None \<Rightarrow> None
      | Some v \<Rightarrow> (case validate_context_chunks v of None \<Rightarrow> Some v | Some e \<Rightarrow> None))"

section \<open>The results of the vendors\<close>

definition add_vendor_result :: "int \<Rightarrow> nat \<Rightarrow> pystr \<Rightarrow> pystr \<Rightarrow> run_db \<Rightarrow> nat \<times> run_db" where
  "add_vendor_result now rid vendor status db =
     (let t = db_results db;
          v = \<lparr>vt_id = next_id t, vt_run = rid, vt_vendor = vendor, vt_status = Some status, vt_duration = None,
               vt_raw_path = None, vt_error = None, vt_meta = None, vt_started_at = now\<rparr>
      in (next_id t, db\<lparr>db_results := t\<lparr>rows := rows t @ [v], next_id := Suc (next_id t)\<rparr>\<rparr>))"

definition decode_execution_meta :: "(rat \<Rightarrow> pystr) \<Rightarrow> json option \<Rightarrow> json option" where
  "decode_execution_meta num v =
     (case v of
        None \<Rightarrow> None
      | Some m \<Rightarrow> (case validate_execution_envelope num m of None \<Rightarrow> Some m | Some e \<Rightarrow> None))"

definition find_result :: "nat \<Rightarrow> run_db \<Rightarrow> vendor_result option" where
  "find_result vid db = List.find (\<lambda>v. vt_id v = vid) (rows (db_results db))"

definition finish_vendor_result ::
  "(rat \<Rightarrow> pystr) \<Rightarrow> nat \<Rightarrow> pystr option \<Rightarrow> pystr option \<Rightarrow> int option \<Rightarrow> pystr option \<Rightarrow> json option
   \<Rightarrow> run_db \<Rightarrow> exn + run_db" where
  "finish_vendor_result num vid status err duration raw meta db =
     (let terminal = (case status of
                        Some s \<Rightarrow> if s \<noteq> [] then s else if err \<noteq> None then U ''failed'' else U ''done''
                      | None \<Rightarrow> if err \<noteq> None then U ''failed'' else U ''done'')
      in if terminal \<notin> set (map U [''done'', ''partial'', ''failed'', ''timeout'', ''canceled''])
         then Inl (ValueError (U ''invalid vendor result status''))
         else ebind (case meta of
                       None \<Rightarrow> Inr None
                     | Some m \<Rightarrow>
                         (case validate_execution_envelope num m of
                            Some e \<Rightarrow> Inl e
                          | None \<Rightarrow>
                              (case find_result vid db of
                                 None \<Rightarrow> Inl (ValueError (U ''vendor result not found''))
                               | Some v \<Rightarrow>
                                   ebind (append_execution_attempt num (decode_execution_meta num (vt_meta v)) m)
                                     (\<lambda>x. Inr (Some x))))) (\<lambda>encoded.
           Inr (update_results (\<lambda>v. vt_id v = vid)
             (\<lambda>v. v\<lparr>vt_status := Some terminal, vt_error := err, vt_duration := duration,
                    vt_raw_path := (case raw of None \<Rightarrow> vt_raw_path v | Some p \<Rightarrow> Some p),
                    vt_meta := (case encoded of None \<Rightarrow> vt_meta v | Some x \<Rightarrow> Some x)\<rparr>) db)))"

definition failed_vendors :: "nat \<Rightarrow> run_db \<Rightarrow> pystr list" where
  "failed_vendors rid db =
     map vt_vendor (filter (\<lambda>v. vt_run v = rid \<and>
       (case vt_status v of None \<Rightarrow> False | Some s \<Rightarrow> s \<in> set (map U [''failed'', ''partial'', ''timeout''])))
       (rows (db_results db)))"

text \<open>
  An envelope without attempts makes \<open>max\<close> fail: its arguments are then a single number.
\<close>

fun next_attempt_go :: "(rat \<Rightarrow> pystr) \<Rightarrow> run_db \<Rightarrow> int \<Rightarrow> nat list \<Rightarrow> exn + int" where
  "next_attempt_go num db maximum [] = Inr maximum"
| "next_attempt_go num db maximum (vid # vids) =
     (case decode_execution_meta num (case find_result vid db of None \<Rightarrow> None | Some v \<Rightarrow> vt_meta v) of
        None \<Rightarrow> next_attempt_go num db maximum vids
      | Some m \<Rightarrow>
          if envelope_attempts m = [] then Inl (TypeError (U ''object is not iterable''))
          else next_attempt_go num db (Max (set (maximum # map attempt_number (envelope_attempts m)))) vids)"

definition next_execution_attempt :: "(rat \<Rightarrow> pystr) \<Rightarrow> nat list \<Rightarrow> run_db \<Rightarrow> exn + int" where
  "next_execution_attempt num vids db = ebind (next_attempt_go num db 0 vids) (\<lambda>m. Inr (m + 1))"

definition find_vendor_result :: "nat \<Rightarrow> pystr \<Rightarrow> run_db \<Rightarrow> vendor_result option" where
  "find_vendor_result rid vendor db = List.find (\<lambda>v. vt_run v = rid \<and> vt_vendor v = vendor) (rows (db_results db))"

definition vendor_result_id :: "nat \<Rightarrow> pystr \<Rightarrow> run_db \<Rightarrow> exn + nat" where
  "vendor_result_id rid vendor db =
     (case find_vendor_result rid vendor db of
        None \<Rightarrow> Inl (TypeError (U ''NoneType object is not subscriptable'')) | Some v \<Rightarrow> Inr (vt_id v))"

definition vendor_execution_meta :: "(rat \<Rightarrow> pystr) \<Rightarrow> nat \<Rightarrow> pystr \<Rightarrow> run_db \<Rightarrow> json option" where
  "vendor_execution_meta num rid vendor db =
     decode_execution_meta num (case find_vendor_result rid vendor db of None \<Rightarrow> None | Some v \<Rightarrow> vt_meta v)"

record result_view =
  rv_id :: nat
  rv_vendor :: pystr
  rv_status :: "pystr option"
  rv_error :: "pystr option"
  rv_started_at :: int
  rv_duration :: "int option"
  rv_meta :: "json option"

definition list_vendor_results :: "(rat \<Rightarrow> pystr) \<Rightarrow> int \<Rightarrow> nat \<Rightarrow> run_db \<Rightarrow> result_view list" where
  "list_vendor_results num now rid db =
     map (\<lambda>v. \<lparr>rv_id = vt_id v, rv_vendor = vt_vendor v, rv_status = vt_status v, rv_error = vt_error v,
               rv_started_at = vt_started_at v,
               rv_duration = (if vt_status v = Some (U ''running'') then Some ((now - vt_started_at v) * 1000)
                              else vt_duration v),
               rv_meta = decode_execution_meta num (vt_meta v)\<rparr>)
       (sort_key vt_vendor (filter (\<lambda>v. vt_run v = rid) (rows (db_results db))))"

section \<open>Pre-screening\<close>

record pre_screen =
  sc_id :: nat
  sc_pr :: nat
  sc_head_sha :: pystr
  sc_model :: pystr
  sc_complexity :: "pystr option"
  sc_score :: json
  sc_reason :: pystr
  sc_duration :: int
  sc_decided :: pystr
  sc_diff_hash :: "pystr option"
  sc_created_at :: int

definition add_screen :: "int \<Rightarrow> pre_screen \<Rightarrow> pre_screen table \<Rightarrow> nat \<times> pre_screen table" where
  "add_screen now s t =
     (next_id t, t\<lparr>rows := rows t @ [s\<lparr>sc_id := next_id t, sc_created_at := now\<rparr>], next_id := Suc (next_id t)\<rparr>)"

definition find_reusable :: "nat \<Rightarrow> pystr \<Rightarrow> pystr \<Rightarrow> pre_screen table \<Rightarrow> pre_screen option" where
  "find_reusable pid hash model t =
     select_first (\<lambda>s. - int (sc_id s))
       (\<lambda>s. sc_pr s = pid \<and> sc_diff_hash s = Some hash \<and> sc_model s = model \<and> sc_complexity s \<noteq> None) (rows t)"

section \<open>Closing in chunks\<close>

definition closable :: "nat \<Rightarrow> int list \<Rightarrow> pull_request \<Rightarrow> bool" where
  "closable repo numbers p \<longleftrightarrow> pr_repo p = repo \<and> pr_state p = U ''open'' \<and> pr_number p \<in> set numbers"

lemma close_twice:
  fixes close :: "pull_request \<Rightarrow> pull_request"
  assumes "close = (\<lambda>p. p\<lparr>pr_state := U ''closed''\<rparr>)"
  shows "sql_update (closable repo b) close (sql_update (closable repo a) close ps) = sql_update (closable repo (a @ b)) close ps"
    "rowcount (closable repo a) ps + rowcount (closable repo b) (sql_update (closable repo a) close ps) =
     rowcount (closable repo (a @ b)) ps"
proof -
  have "U ''closed'' \<noteq> U ''open''" by (simp add: U_eq_iff)
  then show "sql_update (closable repo b) close (sql_update (closable repo a) close ps) = sql_update (closable repo (a @ b)) close ps"
    "rowcount (closable repo a) ps + rowcount (closable repo b) (sql_update (closable repo a) close ps) =
     rowcount (closable repo (a @ b)) ps"
    by (induction ps) (auto simp: sql_update_def rowcount_def closable_def assms)
qed

lemma close_numbers_closable:
  "close_numbers repo numbers ps =
     (rowcount (closable repo numbers) ps, sql_update (closable repo numbers) (\<lambda>p. p\<lparr>pr_state := U ''closed''\<rparr>) ps)"
  by (simp add: close_numbers_def closable_def[abs_def] Let_def)

lemma close_chunks_closable:
  "close_chunks repo numbers (n, ps) =
     (n + rowcount (closable repo numbers) ps, sql_update (closable repo numbers) (\<lambda>p. p\<lparr>pr_state := U ''closed''\<rparr>) ps)"
proof (induction repo numbers "(n, ps)" arbitrary: n ps rule: close_chunks.induct)
  case (1 repo numbers n ps)
  show ?case
  proof (cases "numbers = []")
    case True
    have "closable repo [] = (\<lambda>p. False)" by (simp add: closable_def[abs_def])
    with True show ?thesis by (simp add: close_chunks.simps rowcount_def sql_update_def)
  next
    case False
    have "take 500 numbers @ drop 500 numbers = numbers" by simp
    with close_twice[OF refl, where repo = repo and b = "drop 500 numbers" and a = "take 500 numbers" and ps = ps] 1 False show ?thesis
      by (simp add: close_chunks.simps[of repo numbers] close_numbers_closable add.assoc)
  qed
qed

text \<open>
  Closing in chunks is closing at once.  However many numbers are handed over, the chunked statements close exactly the
  open pull requests of the repository with one of the numbers, and the number returned is the number of rows that
  changed, even when a number is given twice.
\<close>

lemma mark_closed_at_once:
  "mark_closed repo numbers t =
     (rowcount (closable repo numbers) (rows t),
      t\<lparr>rows := sql_update (closable repo numbers) (\<lambda>p. p\<lparr>pr_state := U ''closed''\<rparr>) (rows t)\<rparr>)"
  by (simp add: mark_closed_def close_chunks_closable)

end
