(* ===== verification/Prescreen.thy ===== *)
theory Prescreen
  imports Review_Findings
begin

text \<open>
  The gate before a review (\<open>src/server/review/prescreen.py\<close>): which model may be used, what is read from the
  answer of the command line tool, and whether an automatic review is skipped.  The run of the tool, JSON parsing, \<open>str\<close>,
  \<open>float\<close> of a text and the digits of Unicode are parameters.
\<close>

datatype complexity = Trivial | Moderate | Complex

fun ORDER :: "complexity \<Rightarrow> nat" where
  "ORDER Trivial = 0" | "ORDER Moderate = 1" | "ORDER Complex = 2"

definition complexity_name :: "complexity \<Rightarrow> pystr" where
  "complexity_name c = (case c of Trivial \<Rightarrow> U ''trivial'' | Moderate \<Rightarrow> U ''moderate'' | Complex \<Rightarrow> U ''complex'')"

definition complexity_of :: "pystr \<Rightarrow> complexity option" where
  "complexity_of s =
     (if s = U ''trivial'' then Some Trivial else if s = U ''moderate'' then Some Moderate
      else if s = U ''complex'' then Some Complex else None)"

definition FALLBACK_REASON :: pystr where
  "FALLBACK_REASON = [49324, 51204, 54217, 44032, 32, 54028, 49905, 32, 49892, 54056, 8594, 44592, 48376, 32, 47532,
    48624]"

definition CLI_FAILURE_REASON :: pystr where
  "CLI_FAILURE_REASON = [49324, 51204, 54217, 44032, 32, 67, 76, 73, 32, 49892, 54056, 8594, 44592, 48376, 32, 47532,
    48624]"

definition is_nondeterministic_reason :: "pystr \<Rightarrow> bool" where
  "is_nondeterministic_reason reason \<longleftrightarrow> contains reason FALLBACK_REASON \<or> contains reason CLI_FAILURE_REASON"

record screen_result =
  sr_complexity :: pystr
  sr_score :: json
  sr_reason :: pystr

text \<open>\<open>decide\<close>: a name outside the table is a \<open>KeyError\<close>.\<close>

definition decide :: "pystr \<Rightarrow> pystr \<Rightarrow> exn + pystr" where
  "decide complexity threshold =
     (case (complexity_of complexity, complexity_of threshold) of
        (None, _) \<Rightarrow> Inl (KeyError complexity)
      | (_, None) \<Rightarrow> Inl (KeyError threshold)
      | (Some c, Some t) \<Rightarrow> Inr (if ORDER c \<ge> ORDER t then U ''review'' else U ''skip''))"

definition CLAUDE_MODELS :: "pystr list" where
  "CLAUDE_MODELS = map U [''opus'', ''sonnet'', ''haiku'', ''fable'', ''claude-opus-4-8'', ''claude-sonnet-5'', ''claude-haiku-4-5'']"

definition DEFAULT_PRESCREEN_MODEL :: pystr where
  "DEFAULT_PRESCREEN_MODEL = U ''haiku''"

definition is_valid_prescreen_model :: "(int \<Rightarrow> bool) \<Rightarrow> pystr option \<Rightarrow> bool" where
  "is_valid_prescreen_model is_digit model =
     (let v = strip (case model of None \<Rightarrow> [] | Some m \<Rightarrow> m);
          l = lower v
      in v \<noteq> [] \<and>
         (v \<in> set CLAUDE_MODELS \<or> startswith l (U ''claude-'') \<and> list_ex is_digit (drop 7 l)))"

definition normalize_prescreen_model :: "(int \<Rightarrow> bool) \<Rightarrow> pystr option \<Rightarrow> pystr \<times> pystr option" where
  "normalize_prescreen_model is_digit model =
     (let v = strip (case model of None \<Rightarrow> [] | Some m \<Rightarrow> m)
      in if v = [] then (DEFAULT_PRESCREEN_MODEL, Some (U ''empty_model_fallback''))
         else if \<not> is_valid_prescreen_model is_digit (Some v)
         then (DEFAULT_PRESCREEN_MODEL, Some (U ''non_claude_model_fallback''))
         else (v, None))"

definition SCREEN_DIFF_CHARS :: int where
  "SCREEN_DIFF_CHARS = 100000"

definition diff_too_large_reason :: "pystr \<Rightarrow> pystr" where
  "diff_too_large_reason diff =
     U ''diff too large for inline review: '' @ int_text (int (length diff)) @ U '' chars > '' @ int_text SCREEN_DIFF_CHARS"

definition screen_answer ::
  "(pystr \<Rightarrow> pystr + (pystr \<times> json) list) \<Rightarrow> (pystr \<Rightarrow> json option) \<Rightarrow> (json \<Rightarrow> pystr) \<Rightarrow> pystr \<Rightarrow> screen_result" where
  "screen_answer loads of_text show out =
     (let fallback = \<lparr>sr_complexity = U ''moderate'', sr_score = JNum (1 / 2), sr_reason = FALLBACK_REASON\<rparr>
      in case last_json_block loads out of
           Inl e \<Rightarrow> fallback
         | Inr d \<Rightarrow>
             (case get_or d ''complexity'' (JStr (U ''moderate'')) of
                JStr c \<Rightarrow>
                  if complexity_of c = None then fallback
                  else (case py_float of_text (get_or d ''score'' (JNum (1 / 2))) of
                          None \<Rightarrow> fallback
                        | Some s \<Rightarrow> \<lparr>sr_complexity = c, sr_score = s,
                                     sr_reason = py_str show (get_or d ''reason'' (JStr []))\<rparr>)
              | _ \<Rightarrow> fallback))"

text \<open>\<open>runner\<close> is the run of the tool: its output or the exception it raises.\<close>

definition prescreen ::
  "(pystr \<Rightarrow> pystr + (pystr \<times> json) list) \<Rightarrow> (pystr \<Rightarrow> json option) \<Rightarrow> (json \<Rightarrow> pystr)
   \<Rightarrow> (pystr \<Rightarrow> pystr \<Rightarrow> exn + pystr) \<Rightarrow> pystr \<Rightarrow> pystr \<Rightarrow> exn + screen_result" where
  "prescreen loads of_text show runner diff model =
     (if int (length diff) > SCREEN_DIFF_CHARS
      then Inr \<lparr>sr_complexity = U ''complex'', sr_score = JNum 1, sr_reason = diff_too_large_reason diff\<rparr>
      else ebind (runner model diff) (\<lambda>out. Inr (screen_answer loads of_text show out)))"

text \<open>The answer always has a complexity the gate knows.\<close>

lemma prescreen_complexity:
  "prescreen loads of_text show runner diff model = Inr r \<Longrightarrow> complexity_of (sr_complexity r) \<noteq> None"
proof (cases "int (length diff) > SCREEN_DIFF_CHARS")
  case True
  moreover assume "prescreen loads of_text show runner diff model = Inr r"
  ultimately show ?thesis by (auto simp: prescreen_def complexity_of_def)
next
  case False
  have known: "complexity_of (U ''moderate'') \<noteq> None" by (simp add: complexity_of_def)
  have "complexity_of (sr_complexity (screen_answer loads of_text show out)) \<noteq> None" for out
    using known by (auto simp: screen_answer_def Let_def split: sum.split json.split option.split)
  moreover assume "prescreen loads of_text show runner diff model = Inr r"
  ultimately show ?thesis using False by (auto simp: prescreen_def ebind_Inr_iff)
qed

end
