(* ===== verification/Verification.thy ===== *)
theory Verification
  imports Finding_Policy
begin

text \<open>
  The second look at a finding only one vendor raised (\<open>src/server/review/verify.py\<close> and \<open>_verify_singles\<close> of
  \<open>src/server/pipeline.py\<close>): another vendor tries to refute it, its author may answer, and the verdict changes
  the verification members of the finding and at most its confidence.  What a vendor answers is an argument.
\<close>

section \<open>Verdicts\<close>

record verdict =
  vd_refuted :: bool
  vd_rationale :: pystr
  vd_contested :: bool
  vd_degraded :: bool
  vd_independent :: bool
  vd_evidence :: pystr
  vd_attempts :: "(pystr \<times> execution) list"

definition degraded_verdict :: verdict where
  "degraded_verdict =
     \<lparr>vd_refuted = False, vd_rationale = [], vd_contested = False, vd_degraded = True, vd_independent = False,
      vd_evidence = U ''degraded'', vd_attempts = []\<rparr>"

text \<open>\<open>VerdictError\<close> is a \<open>ValueError\<close>; \<open>show\<close> stands for \<open>str\<close> of a value that is not a text.\<close>

definition verdict_error :: "pystr \<Rightarrow> exn" where
  "verdict_error m = OtherError (U ''VerdictError'') m"

definition parse_verdict ::
  "(pystr \<Rightarrow> pystr + (pystr \<times> json) list) \<Rightarrow> (json \<Rightarrow> pystr) \<Rightarrow> pystr \<Rightarrow> exn + verdict" where
  "parse_verdict loads show raw =
     (case last_json_block loads raw of
        Inl (OtherError name m) \<Rightarrow> Inl (verdict_error ([74, 83, 79, 78, 32, 54028, 49905, 32, 49892,
          54056, 58, 32] @ m))
      | Inl (ValueError m) \<Rightarrow> Inl (verdict_error m)
      | Inl e \<Rightarrow> Inl e
      | Inr data \<Rightarrow>
          (case jget data (U ''refuted'') of
             None \<Rightarrow> Inl (verdict_error [114, 101, 102, 117, 116, 101, 100, 32, 54596, 46300, 32, 50630,
          51020])
           | Some v \<Rightarrow>
               Inr \<lparr>vd_refuted = truthy v,
                    vd_rationale = (case jget data (U ''rationale'') of None \<Rightarrow> [] | Some r \<Rightarrow> py_str show r),
                    vd_contested = False, vd_degraded = False, vd_independent = False,
                    vd_evidence = U ''unverified'', vd_attempts = []\<rparr>))"

section \<open>The prompts\<close>

definition finding_lines :: "pystr \<Rightarrow> pystr \<Rightarrow> model_finding \<Rightarrow> pystr" where
  "finding_lines claim rationale f =
     [45, 32, 54028, 51068, 58, 32] @ mf_file f @ U '':'' @ int_text (mf_line f) @ [10] @
     [45, 32, 49900, 44033, 46020, 47, 48516, 47448, 58, 32] @ mf_severity f @ U ''/'' @ mf_category f @ [10] @
     claim @ mf_claim f @ [10] @ rationale @ mf_rationale f @ [10, 10]"

definition diff_block :: "pystr \<Rightarrow> pystr" where
  "diff_block diff = U ''## Diff'' @ [10, 96, 96, 96] @ U ''diff'' @ [10] @ diff @ [10, 96, 96, 96, 10]"

definition build_verify_prompt :: "model_finding \<Rightarrow> pystr \<Rightarrow> pystr" where
  "build_verify_prompt f diff =
     [35, 32, 47532, 48624, 32, 51648, 51201, 32, 51116, 44160, 51613] @ [10] @
     finding_lines [45, 32, 51452, 51109, 58, 32] [45, 32, 44540, 44144, 58, 32] f @ diff_block diff @
     [54596, 50836, 54616, 47732, 32, 47112, 54252, 47484, 32, 51069, 50612, 32, 54869, 51064, 54616, 46972, 40,
       49688, 51221, 32, 44552, 51648, 41, 46]"

definition build_rebuttal_prompt :: "model_finding \<Rightarrow> pystr \<Rightarrow> pystr \<Rightarrow> pystr" where
  "build_rebuttal_prompt f diff challenge =
     [35, 32, 47532, 48624, 32, 51648, 51201, 50640, 32, 45824, 54620, 32, 48152, 48149, 32, 51116, 44160,
       53664] @ [10] @
     finding_lines [45, 32, 50896, 47000, 32, 51452, 51109, 58, 32] [45, 32, 50896, 47000, 32, 44540, 44144, 58,
       32] f @
     [35, 35, 32, 45796, 47480, 32, 48292, 45908, 51032, 32, 48152, 48149] @ [10] @ challenge @ [10,
       10] @ diff_block diff @
     [51060, 32, 48152, 48149, 51060, 32, 53440, 45817, 54620, 44032, 63, 32, 51648, 51201, 51060, 32, 49892, 51228,
       47196, 32, 50724, 53456, 51060, 47732, 32, 114, 101, 102, 117, 116, 101, 100, 61, 116, 114, 117, 101, 44, 32,
         48152, 48149, 51060, 32, 53952, 47160, 44256, 32] @
     [51648, 51201, 51060, 32, 50976, 54952, 54616, 47732, 32, 114, 101, 102, 117, 116, 101, 100, 61, 102, 97, 108,
       115, 101, 46, 32, 54596, 50836, 54616, 47732, 32, 47112, 54252, 47484, 32, 51069, 50612, 32, 54869, 51064,
         54616, 46972, 40, 49688, 51221, 32, 44552, 51648, 41, 46]"

section \<open>The debate\<close>

text \<open>
  What asking a vendor comes to: a verdict with the record of the execution if there is one, a
  \<open>RuntimeCredentialError\<close> with its code, or another exception with the cleanup code and the execution it carries.
\<close>

datatype ask_outcome =
    Answered bool pystr "execution option"
  | Credentials_Failed pystr
  | Ask_Failed "pystr option" "execution option"

definition credential_error :: "pystr \<Rightarrow> exn" where
  "credential_error code = OtherError (U ''RuntimeCredentialError'') code"

definition attempt_of :: "pystr \<Rightarrow> execution option \<Rightarrow> (pystr \<times> execution) list" where
  "attempt_of vendor ex = (case ex of None \<Rightarrow> [] | Some e \<Rightarrow> [(vendor, e)])"

definition refuted_verdict :: "pystr \<Rightarrow> bool \<Rightarrow> (pystr \<times> execution) list \<Rightarrow> verdict" where
  "refuted_verdict rationale indep attempts =
     \<lparr>vd_refuted = True, vd_rationale = rationale, vd_contested = False, vd_degraded = False,
      vd_independent = indep, vd_evidence = U ''refuted'', vd_attempts = attempts\<rparr>"

text \<open>
  Adapters are told apart by their vendor.  \<open>ask\<close> gives the outcome of asking a vendor with a prompt.
\<close>

definition debate ::
  "(pystr \<Rightarrow> pystr \<Rightarrow> ask_outcome) \<Rightarrow> model_finding \<Rightarrow> pystr option \<Rightarrow> pystr option \<Rightarrow> pystr \<Rightarrow> exn + verdict" where
  "debate ask f refuter author diff =
     (case refuter of
        None \<Rightarrow> Inr degraded_verdict
      | Some r \<Rightarrow>
          let indep = (case author of None \<Rightarrow> False | Some a \<Rightarrow> r \<noteq> a)
          in case ask r (build_verify_prompt f diff) of
               Credentials_Failed code \<Rightarrow>
                 if code = U ''runtime_cleanup_failed'' then Inl (credential_error code) else Inr degraded_verdict
             | Ask_Failed (Some code) ex \<Rightarrow> Inl (credential_error code)
             | Ask_Failed None ex \<Rightarrow> Inr (degraded_verdict\<lparr>vd_attempts := attempt_of r ex\<rparr>)
             | Answered refutes why ex \<Rightarrow>
                 let attempts = attempt_of r ex
                 in if \<not> refutes then
                      Inr \<lparr>vd_refuted = False, vd_rationale = why, vd_contested = False, vd_degraded = False,
                           vd_independent = indep,
                           vd_evidence = (if indep then U ''independent_model_support'' else U ''supported_self''),
                           vd_attempts = attempts\<rparr>
                    else (case author of
                            None \<Rightarrow> Inr (refuted_verdict why indep attempts)
                          | Some a \<Rightarrow>
                              if a = r then Inr (refuted_verdict why indep attempts)
                              else (case ask a (build_rebuttal_prompt f diff why) of
                                      Credentials_Failed code \<Rightarrow>
                                        if code = U ''runtime_cleanup_failed'' then Inl (credential_error code)
                                        else Inr (refuted_verdict why indep attempts)
                                    | Ask_Failed (Some code) ex2 \<Rightarrow> Inl (credential_error code)
                                    | Ask_Failed None ex2 \<Rightarrow>
                                        Inr (refuted_verdict why indep (attempts @ attempt_of a ex2))
                                    | Answered concedes defence ex2 \<Rightarrow>
                                        if concedes
                                        then Inr (refuted_verdict why indep (attempts @ attempt_of a ex2))
                                        else Inr \<lparr>vd_refuted = False,
                                               vd_rationale = [48152, 48149, 58, 32] @ why @ [32, 47, 32, 51200,
          51088, 32, 48320, 54840, 58, 32] @ defence,
                                               vd_contested = True, vd_degraded = False,
                                               vd_independent = indep, vd_evidence = U ''contested'',
                                               vd_attempts = attempts @ attempt_of a ex2\<rparr>)))"

definition pick_verifier :: "pystr list \<Rightarrow> pystr \<Rightarrow> pystr option" where
  "pick_verifier vendors author =
     (case List.find (\<lambda>n. n \<noteq> author) vendors of
        Some n \<Rightarrow> Some n
      | None \<Rightarrow> if author \<in> set vendors then Some author else None)"

text \<open>The verifier: all targets of a group in turn, in one checkout.\<close>

definition verify_targets ::
  "(pystr \<Rightarrow> pystr \<Rightarrow> ask_outcome) \<Rightarrow> pystr list \<Rightarrow> pystr \<Rightarrow> model_finding list \<Rightarrow> exn + verdict list" where
  "verify_targets ask vendors diff targets =
     emap (\<lambda>f. debate ask f (pick_verifier vendors (mf_vendor f))
                 (if mf_vendor f \<in> set vendors then Some (mf_vendor f) else None) diff) targets"

section \<open>Which findings are verified, and what becomes of them\<close>

text \<open>
  What \<open>deps.verify\<close> comes to: verdicts, a \<open>RuntimeCredentialError\<close> with its code and cleanup code, the error of
  a snapshot, or another exception with its cleanup code.
\<close>

datatype verify_outcome =
    Verdicts "verdict list"
  | Verify_Credentials pystr "pystr option"
  | Snapshot_Error
  | Verify_Failed "pystr option"

definition snapshot_error :: exn where
  "snapshot_error = OtherError (U ''ReviewSnapshotCleanupError'') (U ''snapshot cleanup failed'')"

definition group_verdicts :: "verify_outcome \<Rightarrow> nat \<Rightarrow> exn + verdict list" where
  "group_verdicts out n =
     (case out of
        Verdicts vs \<Rightarrow> Inr vs
      | Verify_Credentials code cleanup \<Rightarrow>
          (case cleanup of
             None \<Rightarrow> Inr (replicate n degraded_verdict)
           | Some c \<Rightarrow> if c = U ''snapshot_cleanup_failed'' then Inl snapshot_error else Inl (credential_error code))
      | Snapshot_Error \<Rightarrow> Inl snapshot_error
      | Verify_Failed cleanup \<Rightarrow>
          (case cleanup of
             None \<Rightarrow> Inr (replicate n degraded_verdict)
           | Some c \<Rightarrow>
               if c = U ''runtime_cleanup_failed'' then Inl (credential_error c)
               else if c = U ''snapshot_cleanup_failed'' then Inl snapshot_error
               else Inr (replicate n degraded_verdict)))"

definition verify_target :: "merged_finding \<Rightarrow> bool" where
  "verify_target m \<longleftrightarrow>
     mg_consensus m = U ''single'' \<and> mf_severity (mg_finding m) \<in> {U ''critical'', U ''high''} \<and>
     mf_eligible (mg_finding m) \<and> mf_owner_chunk (mg_finding m) \<noteq> None"

definition target_positions :: "merged_finding list \<Rightarrow> nat list" where
  "target_positions ms = filter (\<lambda>i. verify_target (ms ! i)) [0..<length ms]"

text \<open>The groups of targets by owning chunk, and the verdicts by target; missing verdicts count as degraded.\<close>

definition owner_groups :: "merged_finding list \<Rightarrow> (nat option \<times> nat list) list" where
  "owner_groups ms = group_by (\<lambda>i. mf_owner_chunk (mg_finding (ms ! i))) (target_positions ms)"

definition pair_verdicts :: "nat list \<Rightarrow> verdict list \<Rightarrow> (nat \<times> verdict) list" where
  "pair_verdicts ps vs = zip ps vs @ map (\<lambda>p. (p, degraded_verdict)) (drop (length vs) ps)"

fun all_verdicts ::
  "(nat option \<Rightarrow> nat list \<Rightarrow> verify_outcome) \<Rightarrow> (nat option \<times> nat list) list \<Rightarrow> exn + (nat \<times> verdict) list" where
  "all_verdicts ask_group [] = Inr []"
| "all_verdicts ask_group ((owner, ps) # gs) =
     ebind (group_verdicts (ask_group owner ps) (length ps)) (\<lambda>vs.
     ebind (all_verdicts ask_group gs) (\<lambda>rest. Inr (pair_verdicts ps vs @ rest)))"

definition judged :: "(rat \<Rightarrow> rat) \<Rightarrow> verdict \<Rightarrow> model_finding \<Rightarrow> model_finding" where
  "judged round3 v f =
     (let g = f\<lparr>mf_verify_independent := Some (vd_independent v), mf_evidence := Some (vd_evidence v)\<rparr>
      in if vd_degraded v then g\<lparr>mf_verify_status := Some (U ''degraded''), mf_verify_rationale := None\<rparr>
         else (if vd_refuted v
               then g\<lparr>mf_verify_status := Some (U ''refuted''), mf_confidence := round3 (mf_confidence f * (1 / 2))\<rparr>
               else if vd_contested v then g\<lparr>mf_verify_status := Some (U ''contested'')\<rparr>
               else if vd_independent v then g\<lparr>mf_verify_status := Some (U ''confirmed'')\<rparr>
               else g\<lparr>mf_verify_status := Some (U ''supported_self'')\<rparr>)
              \<lparr>mf_verify_rationale := Some (vd_rationale v)\<rparr>)"

type_synonym verify_chunks = "(pystr \<times> chunk_meta list) list"

fun record_attempts ::
  "(rat \<Rightarrow> pystr) \<Rightarrow> prompt_chunk option \<Rightarrow> (pystr \<times> execution) list \<Rightarrow> verify_chunks \<Rightarrow> exn + verify_chunks" where
  "record_attempts num owner [] acc = Inr acc"
| "record_attempts num owner ((vendor, ex) # rest) acc =
     ebind (chunk_execution_meta num (length (dict_get acc vendor [])) vendor (ex_status ex) owner (Some ex) None None)
       (\<lambda>m. record_attempts num owner rest (dict_append vendor m acc))"

text \<open>The last loop over the targets: positions in the list of merged findings.\<close>

fun judge_targets ::
  "(rat \<Rightarrow> pystr) \<Rightarrow> (rat \<Rightarrow> rat) \<Rightarrow> prompt_chunk list \<Rightarrow> (nat \<times> verdict) list \<Rightarrow> nat list
   \<Rightarrow> merged_finding list \<Rightarrow> verify_chunks \<Rightarrow> exn + merged_finding list \<times> verify_chunks" where
  "judge_targets num round3 prompts verdicts [] ms acc = Inr (ms, acc)"
| "judge_targets num round3 prompts verdicts (p # ps) ms acc =
     (let v = (case map_of verdicts p of None \<Rightarrow> degraded_verdict | Some v \<Rightarrow> v);
          m = ms ! p;
          owner = (case mf_owner_chunk (mg_finding m) of None \<Rightarrow> None | Some i \<Rightarrow> prompt_at prompts (int i))
      in ebind (record_attempts num owner (vd_attempts v) acc) (\<lambda>acc'.
           judge_targets num round3 prompts verdicts ps
             (ms[p := m\<lparr>mg_finding := judged round3 v (mg_finding m)\<rparr>]) acc'))"

definition verify_singles ::
  "(rat \<Rightarrow> pystr) \<Rightarrow> (rat \<Rightarrow> rat) \<Rightarrow> (nat option \<Rightarrow> nat list \<Rightarrow> verify_outcome) \<Rightarrow> prompt_chunk list
   \<Rightarrow> merged_finding list \<Rightarrow> exn + merged_finding list \<times> verify_chunks" where
  "verify_singles num round3 ask_group prompts ms =
     (if target_positions ms = [] then Inr (ms, [])
      else ebind (all_verdicts ask_group (owner_groups ms)) (\<lambda>verdicts.
             judge_targets num round3 prompts verdicts (target_positions ms) ms []))"

section \<open>What verification can and cannot change\<close>

definition verdict_at :: "(nat \<times> verdict) list \<Rightarrow> nat \<Rightarrow> verdict" where
  "verdict_at verdicts p = (case map_of verdicts p of None \<Rightarrow> degraded_verdict | Some v \<Rightarrow> v)"

lemma judge_targets_nth:
  "judge_targets num round3 prompts verdicts ps ms acc = Inr (ms', acc') \<Longrightarrow> distinct ps \<Longrightarrow> set ps \<subseteq> {..<length ms} \<Longrightarrow>
   length ms' = length ms \<and>
   (\<forall>i<length ms. ms' ! i = (if i \<in> set ps
      then (ms ! i)\<lparr>mg_finding := judged round3 (verdict_at verdicts i) (mg_finding (ms ! i))\<rparr> else ms ! i))"
proof (induction ps arbitrary: ms acc)
  case (Cons p ps)
  let ?ms = "ms[p := (ms ! p)\<lparr>mg_finding := judged round3 (verdict_at verdicts p) (mg_finding (ms ! p))\<rparr>]"
  obtain acc1 where "judge_targets num round3 prompts verdicts ps ?ms acc1 = Inr (ms', acc')"
    using Cons.prems(1) by (auto simp: Let_def verdict_at_def ebind_Inr_iff)
  from Cons.IH[OF this] Cons.prems show ?case by (auto simp: nth_list_update)
qed simp

lemma target_positions_facts:
  "distinct (target_positions ms)" "set (target_positions ms) \<subseteq> {..<length ms}"
  "i < length ms \<Longrightarrow> i \<in> set (target_positions ms) \<longleftrightarrow> verify_target (ms ! i)"
  by (auto simp: target_positions_def)

lemma verify_singles_nth:
  assumes "verify_singles num round3 ask_group prompts ms = Inr (ms', acc)"
  obtains verdicts where "target_positions ms = [] \<or> all_verdicts ask_group (owner_groups ms) = Inr verdicts"
    "length ms' = length ms"
    "\<And>i. i < length ms \<Longrightarrow> ms' ! i = (if verify_target (ms ! i)
      then (ms ! i)\<lparr>mg_finding := judged round3 (verdict_at verdicts i) (mg_finding (ms ! i))\<rparr> else ms ! i)"
proof (cases "target_positions ms = []")
  case True
  then have "\<not> verify_target (ms ! i)" if "i < length ms" for i
    using target_positions_facts(3)[OF that] by auto
  with True assms that show thesis by (simp add: verify_singles_def)
next
  case False
  then obtain verdicts where v: "all_verdicts ask_group (owner_groups ms) = Inr verdicts"
      "judge_targets num round3 prompts verdicts (target_positions ms) ms [] = Inr (ms', acc)"
    using assms by (auto simp: verify_singles_def ebind_Inr_iff)
  show thesis
    using judge_targets_nth[OF v(2) target_positions_facts(1,2)] v(1) target_positions_facts(3)
    by (intro that[of verdicts]) simp_all
qed

lemma judged_only:
  "\<exists>s why i e c. judged round3 v f = f\<lparr>mf_verify_status := s, mf_verify_rationale := why, mf_verify_independent := i,
     mf_evidence := e, mf_confidence := c\<rparr> \<and> (s = Some (U ''refuted'') \<or> c = mf_confidence f)"
  by (cases f) (auto simp: judged_def Let_def intro!: exI)

text \<open>The verdict of a target came from its group.\<close>

lemma all_verdicts_member:
  "all_verdicts ask_group gs = Inr verdicts \<Longrightarrow> (p, v) \<in> set verdicts \<Longrightarrow>
   \<exists>owner ps vs. (owner, ps) \<in> set gs \<and> group_verdicts (ask_group owner ps) (length ps) = Inr vs \<and>
     (p, v) \<in> set (pair_verdicts ps vs)"
proof (induction gs arbitrary: verdicts)
  case (Cons g gs)
  obtain owner ps where g: "g = (owner, ps)" by fastforce
  with Cons.prems(1) obtain vs rest where
    r: "group_verdicts (ask_group owner ps) (length ps) = Inr vs" "all_verdicts ask_group gs = Inr rest"
      "verdicts = pair_verdicts ps vs @ rest"
    by (auto simp: ebind_Inr_iff)
  show ?case
  proof (cases "(p, v) \<in> set (pair_verdicts ps vs)")
    case True
    with r(1) show ?thesis unfolding g by (intro exI[of _ owner] exI[of _ ps] exI[of _ vs]) simp
  next
    case False
    with Cons.prems(2) r(3) have "(p, v) \<in> set rest" by simp
    from Cons.IH[OF r(2) this] obtain owner1 ps1 vs1 where "(owner1, ps1) \<in> set gs"
      "group_verdicts (ask_group owner1 ps1) (length ps1) = Inr vs1" "(p, v) \<in> set (pair_verdicts ps1 vs1)" by blast
    then show ?thesis by (intro exI[of _ owner1] exI[of _ ps1] exI[of _ vs1]) simp
  qed
qed simp

lemma owner_groups_member:
  assumes "(owner, ps) \<in> set (owner_groups ms)" "p \<in> set ps"
  shows "mf_owner_chunk (mg_finding (ms ! p)) = owner"
proof -
  have "map_of (owner_groups ms) owner = Some ps"
    using assms(1) group_by_distinct unfolding owner_groups_def by (metis map_of_eq_Some_iff)
  then show ?thesis
    using assms(2) unfolding owner_groups_def by (auto simp: group_by_lookup split: if_splits)
qed

text \<open>
  Verification drops no finding and adds none; it touches only single findings of high severity that may be
  posted and have an owning chunk, and of those only the verification members, and the confidence only of a refuted one.
\<close>

lemma verify_singles_confined:
  assumes "verify_singles num round3 ask_group prompts ms = Inr (ms', acc)"
  shows "length ms' = length ms \<and>
    (\<forall>i < length ms. mg_consensus (ms' ! i) = mg_consensus (ms ! i) \<and> mg_group (ms' ! i) = mg_group (ms ! i) \<and>
      (if verify_target (ms ! i)
       then \<exists>s why n e c. mg_finding (ms' ! i) =
           (mg_finding (ms ! i))\<lparr>mf_verify_status := s, mf_verify_rationale := why, mf_verify_independent := n,
             mf_evidence := e, mf_confidence := c\<rparr> \<and>
           (s = Some (U ''refuted'') \<or> c = mf_confidence (mg_finding (ms ! i)))
       else mg_finding (ms' ! i) = mg_finding (ms ! i)))"
proof -
  obtain verdicts where v: "length ms' = length ms"
      "\<And>i. i < length ms \<Longrightarrow> ms' ! i = (if verify_target (ms ! i)
        then (ms ! i)\<lparr>mg_finding := judged round3 (verdict_at verdicts i) (mg_finding (ms ! i))\<rparr> else ms ! i)"
    using verify_singles_nth[OF assms] by metis
  show ?thesis
  proof (intro conjI allI impI)
    fix i assume i: "i < length ms"
    show "if verify_target (ms ! i)
       then \<exists>s why n e c. mg_finding (ms' ! i) =
           (mg_finding (ms ! i))\<lparr>mf_verify_status := s, mf_verify_rationale := why, mf_verify_independent := n,
             mf_evidence := e, mf_confidence := c\<rparr> \<and>
           (s = Some (U ''refuted'') \<or> c = mf_confidence (mg_finding (ms ! i)))
       else mg_finding (ms' ! i) = mg_finding (ms ! i)"
    proof (cases "verify_target (ms ! i)")
      case True
      then have "mg_finding (ms' ! i) = judged round3 (verdict_at verdicts i) (mg_finding (ms ! i))"
        by (simp add: v(2)[OF i])
      with True show ?thesis by (simp only: if_True judged_only)
    qed (simp add: v(2)[OF i])
  qed (simp_all add: v)
qed

section \<open>Who confirms and who refutes\<close>

text \<open>\<open>make_verifier\<close> as \<open>deps.verify\<close>: an error of the debate reaches the caller with its code.\<close>

definition CLEANUP_CODES :: "pystr list" where
  "CLEANUP_CODES = [U ''runtime_cleanup_failed'', U ''snapshot_cleanup_failed'']"

definition wired_verifier ::
  "(pystr \<Rightarrow> pystr \<Rightarrow> ask_outcome) \<Rightarrow> pystr list \<Rightarrow> (nat option \<Rightarrow> pystr) \<Rightarrow> merged_finding list
   \<Rightarrow> nat option \<Rightarrow> nat list \<Rightarrow> verify_outcome" where
  "wired_verifier ask vendors diff_of ms owner ps =
     (case verify_targets ask vendors (diff_of owner) (map (\<lambda>p. mg_finding (ms ! p)) ps) of
        Inr vs \<Rightarrow> Verdicts vs
      | Inl (OtherError name code) \<Rightarrow> Verify_Credentials code (if code \<in> set CLEANUP_CODES then Some code else None)
      | Inl e \<Rightarrow> Verify_Failed None)"

lemma pick_verifier_cases:
  assumes "pick_verifier vendors author = Some n"
  shows "n \<in> set vendors" "n = author \<Longrightarrow> set vendors = {author}"
proof -
  have "n \<in> set vendors \<and> (n = author \<longrightarrow> set vendors = {author})"
  proof (cases "List.find (\<lambda>n. n \<noteq> author) vendors")
    case None
    then have n: "n = author" "author \<in> set vendors" using assms by (simp_all add: pick_verifier_def split: if_splits)
    from None have "\<forall>m\<in>set vendors. m = author" unfolding find_None_iff by blast
    with n show ?thesis by blast
  next
    case (Some m)
    then obtain i where "i < length vendors" "vendors ! i = m" "m \<noteq> author" unfolding find_Some_iff by auto
    with Some assms show ?thesis by (auto simp: pick_verifier_def)
  qed
  then show "n \<in> set vendors" "n = author \<Longrightarrow> set vendors = {author}" by simp_all
qed

text \<open>What the status of a judged finding says about the answers given.\<close>

definition confirmed_by :: "(pystr \<Rightarrow> pystr \<Rightarrow> ask_outcome) \<Rightarrow> pystr list \<Rightarrow> model_finding \<Rightarrow> pystr \<Rightarrow> bool" where
  "confirmed_by ask vendors f diff \<longleftrightarrow>
     (\<exists>n\<in>set vendors. n \<noteq> mf_vendor f \<and> (\<exists>why ex. ask n (build_verify_prompt f diff) = Answered False why ex))"

definition refuted_by :: "(pystr \<Rightarrow> pystr \<Rightarrow> ask_outcome) \<Rightarrow> pystr list \<Rightarrow> model_finding \<Rightarrow> pystr \<Rightarrow> bool" where
  "refuted_by ask vendors f diff \<longleftrightarrow>
     (\<exists>n\<in>set vendors. \<exists>why ex. ask n (build_verify_prompt f diff) = Answered True why ex \<and>
        (n = mf_vendor f \<longrightarrow> set vendors = {mf_vendor f}) \<and>
        (n \<noteq> mf_vendor f \<and> mf_vendor f \<in> set vendors \<longrightarrow>
           (\<forall>defence ex2. ask (mf_vendor f) (build_rebuttal_prompt f diff why) \<noteq> Answered False defence ex2)))"

definition verdict_backed :: "(pystr \<Rightarrow> pystr \<Rightarrow> ask_outcome) \<Rightarrow> pystr list \<Rightarrow> model_finding \<Rightarrow> pystr \<Rightarrow> verdict \<Rightarrow> bool" where
  "verdict_backed ask vendors f diff v \<longleftrightarrow>
     (\<not> vd_degraded v \<and> \<not> vd_refuted v \<and> \<not> vd_contested v \<and> vd_independent v \<longrightarrow> confirmed_by ask vendors f diff) \<and>
     (\<not> vd_degraded v \<and> vd_refuted v \<longrightarrow> refuted_by ask vendors f diff)"

lemma debate_backed:
  assumes "debate ask f (pick_verifier vendors (mf_vendor f))
     (if mf_vendor f \<in> set vendors then Some (mf_vendor f) else None) diff = Inr v"
  shows "verdict_backed ask vendors f diff v"
proof (cases "pick_verifier vendors (mf_vendor f)")
  case None
  with assms show ?thesis by (auto simp: debate_def verdict_backed_def degraded_verdict_def)
next
  case (Some n)
  note n = pick_verifier_cases[OF Some]
  show ?thesis
  proof (cases "ask n (build_verify_prompt f diff)")
    case (Answered refutes why ex)
    show ?thesis
    proof (cases refutes)
      case False
      then show ?thesis
        using assms Some Answered n(1)
        by (auto simp: debate_def Let_def verdict_backed_def confirmed_by_def split: if_splits)
    next
      case True
      have r: "refuted_by ask vendors f diff" if "vd_refuted v"
      proof -
        have "\<forall>defence ex2. ask (mf_vendor f) (build_rebuttal_prompt f diff why) \<noteq> Answered False defence ex2"
          if "n \<noteq> mf_vendor f" "mf_vendor f \<in> set vendors"
          using assms Some Answered True that \<open>vd_refuted v\<close>
          by (auto simp: debate_def Let_def refuted_verdict_def split: if_splits)
        with Answered True n show ?thesis
          unfolding refuted_by_def by (intro bexI[of _ n] exI[of _ why] exI[of _ ex]) simp_all
      qed
      have "vd_refuted v \<or> vd_contested v"
        using assms Some Answered True
        by (auto simp: debate_def Let_def refuted_verdict_def split: if_splits ask_outcome.splits option.splits)
      with r show ?thesis unfolding verdict_backed_def by blast
    qed
  next
    case (Credentials_Failed code)
    with assms Some show ?thesis
      by (auto simp: debate_def verdict_backed_def degraded_verdict_def split: if_splits)
  next
    case (Ask_Failed cleanup ex)
    with assms Some show ?thesis
      by (auto simp: debate_def verdict_backed_def degraded_verdict_def split: option.splits)
  qed
qed

lemma emap_nth: "emap g xs = Inr ys \<Longrightarrow> i < length xs \<Longrightarrow> g (xs ! i) = Inr (ys ! i)"
proof (induction xs arbitrary: ys i)
  case (Cons x xs)
  then show ?case by (cases i) (auto simp: ebind_Inr_iff)
qed simp

lemma pair_verdicts_backed:
  assumes "group_verdicts (wired_verifier ask vendors diff_of ms owner ps) (length ps) = Inr vs"
    and "(p, v) \<in> set (pair_verdicts ps vs)"
  shows "p \<in> set ps \<and> verdict_backed ask vendors (mg_finding (ms ! p)) (diff_of owner) v"
proof -
  have degraded: "verdict_backed ask vendors f diff degraded_verdict" for f diff
    by (simp add: verdict_backed_def degraded_verdict_def)
  consider "vs = replicate (length ps) degraded_verdict"
    | "verify_targets ask vendors (diff_of owner) (map (\<lambda>p. mg_finding (ms ! p)) ps) = Inr vs"
  proof (cases "verify_targets ask vendors (diff_of owner) (map (\<lambda>p. mg_finding (ms ! p)) ps)")
    case (Inl e)
    then show ?thesis
      using assms(1) that(1)
      by (cases e) (auto simp: wired_verifier_def group_verdicts_def split: if_splits)
  next
    case (Inr ws)
    then show ?thesis using assms(1) that(2) by (simp add: wired_verifier_def group_verdicts_def)
  qed
  then show ?thesis
  proof cases
    case 1
    with assms(2) degraded show ?thesis by (auto simp: pair_verdicts_def set_zip)
  next
    case 2
    from emap_Inr_length[OF this[unfolded verify_targets_def]] have len: "length vs = length ps" by simp
    with assms(2) obtain i where i: "i < length ps" "p = ps ! i" "v = vs ! i"
      by (auto simp: pair_verdicts_def set_zip)
    have "debate ask (mg_finding (ms ! p)) (pick_verifier vendors (mf_vendor (mg_finding (ms ! p))))
        (if mf_vendor (mg_finding (ms ! p)) \<in> set vendors then Some (mf_vendor (mg_finding (ms ! p))) else None)
        (diff_of owner) = Inr v"
      using emap_nth[OF 2[unfolded verify_targets_def], of i] i by (simp cong: if_cong)
    with i show ?thesis by (auto intro: debate_backed)
  qed
qed

lemma verdict_at_backed:
  assumes "all_verdicts (wired_verifier ask vendors diff_of ms) (owner_groups ms) = Inr verdicts"
  shows "verdict_backed ask vendors (mg_finding (ms ! i)) (diff_of (mf_owner_chunk (mg_finding (ms ! i)))) (verdict_at verdicts i)"
proof (cases "map_of verdicts i")
  case None
  then show ?thesis by (simp add: verdict_at_def verdict_backed_def degraded_verdict_def)
next
  case (Some v)
  then have "(i, v) \<in> set verdicts" by (rule map_of_SomeD)
  from all_verdicts_member[OF assms this] obtain owner ps vs where
    g: "(owner, ps) \<in> set (owner_groups ms)" "group_verdicts (wired_verifier ask vendors diff_of ms owner ps) (length ps) = Inr vs"
      "(i, v) \<in> set (pair_verdicts ps vs)" by blast
  note b = pair_verdicts_backed[OF g(2,3)]
  then have "mf_owner_chunk (mg_finding (ms ! i)) = owner" using owner_groups_member[OF g(1)] by blast
  with b Some show ?thesis by (simp add: verdict_at_def)
qed

lemma judged_status:
  "mf_verify_status (judged round3 v f) = Some (U ''confirmed'') \<longleftrightarrow>
     \<not> vd_degraded v \<and> \<not> vd_refuted v \<and> \<not> vd_contested v \<and> vd_independent v"
  "mf_verify_status (judged round3 v f) = Some (U ''refuted'') \<longleftrightarrow> \<not> vd_degraded v \<and> vd_refuted v"
  by (simp_all add: judged_def Let_def U_eq_iff)

text \<open>
  A finding is marked confirmed only if a vendor other than its author was asked with the diff of its own
  chunk and did not refute it; and marked refuted only if a vendor refuted it, which is the author itself only where
  no other vendor is configured, and where the author was not heard to defend it.
\<close>

lemma verified_by_another_vendor:
  assumes "verify_singles num round3 (wired_verifier ask vendors diff_of ms) prompts ms = Inr (ms', acc)"
    and "i < length ms" "verify_target (ms ! i)" and "f = mg_finding (ms ! i)" "diff = diff_of (mf_owner_chunk f)"
  shows "(mf_verify_status (mg_finding (ms' ! i)) = Some (U ''confirmed'') \<longrightarrow> confirmed_by ask vendors f diff) \<and>
    (mf_verify_status (mg_finding (ms' ! i)) = Some (U ''refuted'') \<longrightarrow> refuted_by ask vendors f diff)"
proof -
  obtain verdicts where v: "target_positions ms = [] \<or> all_verdicts (wired_verifier ask vendors diff_of ms) (owner_groups ms) = Inr verdicts"
      "ms' ! i = (ms ! i)\<lparr>mg_finding := judged round3 (verdict_at verdicts i) (mg_finding (ms ! i))\<rparr>"
    using verify_singles_nth[OF assms(1)] assms(2,3) by metis
  moreover have "target_positions ms \<noteq> []" using target_positions_facts(3)[OF assms(2)] assms(3) by auto
  ultimately have "verdict_backed ask vendors f diff (verdict_at verdicts i)"
    using verdict_at_backed[of ask vendors diff_of ms verdicts i] assms(4,5) by simp
  then show ?thesis by (simp add: v(2) judged_status verdict_backed_def)
qed

definition sample_single :: merged_finding where
  "sample_single =
     \<lparr>mg_finding = (new_finding (U ''claude'') (U ''f'') 1 (U ''high'') [] (U ''bad'') [] 0)
        \<lparr>mf_owner_chunk := Some 0, mf_eligible := True\<rparr>, mg_consensus = U ''single'', mg_group = 0\<rparr>"

definition sample_ask :: "pystr \<Rightarrow> pystr \<Rightarrow> ask_outcome" where
  "sample_ask vendor prompt = Answered (vendor = U ''claude'') (U ''why'') None"

end
