(* ===== verification/Finding_Store.thy ===== *)
theory Finding_Store
  imports Complex_Main Prelude
begin

text \<open>
  Findings and what hangs on them: the table \<open>finding\<close> with the functions of
  \<open>src/server/repos/finding_repo.py\<close>, the audit table \<open>finding_decision\<close>, and the table
  \<open>run_finding_summary\<close> that three triggers of \<open>src/server/db.py\<close> keep up to date.
\<close>

section \<open>The tables\<close>

datatype finding_status = Pending | Approved | Dismissed | Edited | Posted | Other_Status pystr

record finding =
  f_id :: nat
  f_run :: nat
  f_vendor_result :: "nat option"
  f_vendor :: pystr
  f_file :: "pystr option"
  f_line :: "int option"
  f_severity :: "pystr option"
  f_category :: "pystr option"
  f_claim :: "pystr option"
  f_rationale :: "pystr option"
  f_confidence :: "rat option"
  f_consensus :: "pystr option"
  f_consensus_group :: "nat option"
  f_status :: finding_status
  f_edited_text :: "pystr option"
  f_created_at :: int
  f_posting_op :: "nat option"
  f_source_chunk :: "nat option"
  f_owner_chunk :: "nat option"
  f_scope_status :: "pystr option"
  f_posting_eligible :: bool
  f_duplicate_group :: "nat option"
  f_duplicate_suggested :: bool
  f_verify_status :: "pystr option"
  f_verify_rationale :: "pystr option"
  f_verify_independent :: "bool option"
  f_verify_evidence :: "pystr option"

record finding_decision =
  d_finding :: nat
  d_from :: finding_status
  d_to :: finding_status
  d_at :: int

record finding_summary =
  s_run :: nat
  s_max_id :: nat
  s_total :: int
  s_pending :: int
  s_approved :: int
  s_dismissed :: int
  s_edited :: int
  s_posted :: int
  s_unknown :: int
  s_postable :: int

record finding_store =
  findings :: "finding list"
  next_finding :: nat
  decisions :: "finding_decision list"
  summaries :: "finding_summary list"

section \<open>The triggers\<close>

definition unknown_status :: "finding \<Rightarrow> bool" where
  "unknown_status f \<longleftrightarrow> f_status f \<notin> {Pending, Approved, Dismissed, Edited, Posted}"

definition postable :: "finding \<Rightarrow> bool" where
  "postable f \<longleftrightarrow> f_posting_eligible f \<and> f_status f \<in> {Approved, Edited}"

definition get_summary :: "nat \<Rightarrow> finding_summary list \<Rightarrow> finding_summary option" where
  "get_summary run ss = List.find (\<lambda>s. s_run s = run) ss"

text \<open>The part shared by the insert and the update trigger: the row of \<open>NEW\<close> is counted in.\<close>

definition counted_in :: "finding \<Rightarrow> finding_summary \<Rightarrow> finding_summary" where
  "counted_in new s =
     s\<lparr>s_max_id := max (s_max_id s) (f_id new),
       s_total := s_total s + 1,
       s_pending := s_pending s + of_bool (f_status new = Pending),
       s_approved := s_approved s + of_bool (f_status new = Approved),
       s_dismissed := s_dismissed s + of_bool (f_status new = Dismissed),
       s_edited := s_edited s + of_bool (f_status new = Edited),
       s_posted := s_posted s + of_bool (f_status new = Posted),
       s_unknown := s_unknown s + of_bool (unknown_status new),
       s_postable := s_postable s + of_bool (postable new)\<rparr>"

definition first_summary :: "finding \<Rightarrow> finding_summary" where
  "first_summary new =
     \<lparr>s_run = f_run new, s_max_id = f_id new, s_total = 1,
      s_pending = of_bool (f_status new = Pending),
      s_approved = of_bool (f_status new = Approved),
      s_dismissed = of_bool (f_status new = Dismissed),
      s_edited = of_bool (f_status new = Edited),
      s_posted = of_bool (f_status new = Posted),
      s_unknown = of_bool (unknown_status new),
      s_postable = of_bool (postable new)\<rparr>"

definition count_in :: "finding \<Rightarrow> finding_summary list \<Rightarrow> finding_summary list" where
  "count_in new ss =
     (if get_summary (f_run new) ss = None then ss @ [first_summary new]
      else sql_update (\<lambda>s. s_run s = f_run new) (counted_in new) ss)"

text \<open>\<open>SELECT id FROM finding WHERE run_id=? ORDER BY id DESC LIMIT 1\<close>, or 0.\<close>

definition latest_id :: "nat \<Rightarrow> finding list \<Rightarrow> nat" where
  "latest_id run fs = fold (\<lambda>f m. if f_run f = run then max (f_id f) m else m) fs 0"

text \<open>
  The part shared by the delete and the update trigger: the row of \<open>OLD\<close> is counted out.  The
  condition under which the maximum is looked up again differs between the two.
\<close>

definition counted_out :: "bool \<Rightarrow> finding \<Rightarrow> finding list \<Rightarrow> finding_summary \<Rightarrow> finding_summary" where
  "counted_out lookup_max old fs s =
     s\<lparr>s_max_id := (if lookup_max \<and> s_max_id s = f_id old then latest_id (f_run old) fs else s_max_id s),
       s_total := max 0 (s_total s - 1),
       s_pending := max 0 (s_pending s - of_bool (f_status old = Pending)),
       s_approved := max 0 (s_approved s - of_bool (f_status old = Approved)),
       s_dismissed := max 0 (s_dismissed s - of_bool (f_status old = Dismissed)),
       s_edited := max 0 (s_edited s - of_bool (f_status old = Edited)),
       s_posted := max 0 (s_posted s - of_bool (f_status old = Posted)),
       s_unknown := max 0 (s_unknown s - of_bool (unknown_status old)),
       s_postable := max 0 (s_postable s - of_bool (postable old))\<rparr>"

definition count_out :: "bool \<Rightarrow> finding \<Rightarrow> finding list \<Rightarrow> finding_summary list \<Rightarrow> finding_summary list" where
  "count_out lookup_max old fs ss = sql_update (\<lambda>s. s_run s = f_run old) (counted_out lookup_max old fs) ss"

definition trg_insert :: "finding \<Rightarrow> finding_summary list \<Rightarrow> finding_summary list" where
  "trg_insert new ss = count_in new ss"

definition trg_delete :: "finding \<Rightarrow> finding list \<Rightarrow> finding_summary list \<Rightarrow> finding_summary list" where
  "trg_delete old fs ss = count_out True old fs ss"

definition trg_update :: "finding \<Rightarrow> finding \<Rightarrow> finding list \<Rightarrow> finding_summary list \<Rightarrow> finding_summary list" where
  "trg_update old new fs ss = count_in new (count_out (f_run old \<noteq> f_run new) old fs ss)"

section \<open>Statements on the finding table\<close>

definition get_finding :: "nat \<Rightarrow> finding_store \<Rightarrow> finding option" where
  "get_finding fid st = List.find (\<lambda>f. f_id f = fid) (findings st)"

text \<open>\<open>INSERT INTO finding\<close> with the trigger; the new row gets the next id and status.\<close>

definition insert_finding :: "finding \<Rightarrow> finding_store \<Rightarrow> nat \<times> finding_store" where
  "insert_finding f st =
     (let new = f\<lparr>f_id := next_finding st\<rparr>
      in (next_finding st,
          st\<lparr>findings := findings st @ [new], next_finding := Suc (next_finding st),
             summaries := trg_insert new (summaries st)\<rparr>))"

text \<open>
  \<open>UPDATE finding SET status=.. WHERE id=? AND ..\<close>: at most one row changes; the update trigger
  runs for it.  The number of rows is returned.
\<close>

definition update_finding_status ::
  "nat \<Rightarrow> (finding \<Rightarrow> bool) \<Rightarrow> (finding \<Rightarrow> finding) \<Rightarrow> finding_store \<Rightarrow> nat \<times> finding_store" where
  "update_finding_status fid P g st =
     (case get_finding fid st of
        None \<Rightarrow> (0, st)
      | Some old \<Rightarrow>
          if \<not> P old then (0, st)
          else let fs' = sql_update (\<lambda>f. f_id f = fid) g (findings st)
               in (1, st\<lparr>findings := fs', summaries := trg_update old (g old) fs' (summaries st)\<rparr>))"

text \<open>An \<open>UPDATE\<close> of columns no trigger watches.\<close>

definition update_findings_quiet :: "(finding \<Rightarrow> bool) \<Rightarrow> (finding \<Rightarrow> finding) \<Rightarrow> finding_store \<Rightarrow> nat \<times> finding_store" where
  "update_findings_quiet P g st =
     (rowcount P (findings st), st\<lparr>findings := sql_update P g (findings st)\<rparr>)"

definition delete_finding :: "nat \<Rightarrow> finding_store \<Rightarrow> finding_store" where
  "delete_finding fid st =
     (case get_finding fid st of
        None \<Rightarrow> st
      | Some old \<Rightarrow>
          let fs' = sql_delete (\<lambda>f. f_id f = fid) (findings st)
          in st\<lparr>findings := fs', summaries := trg_delete old fs' (summaries st)\<rparr>)"

section \<open>\<open>finding_repo\<close>\<close>

text \<open>
  \<open>add\<close>: \<open>f\<close> carries the arguments; the row starts pending, unreserved and without an edit.
\<close>

definition add_finding :: "int \<Rightarrow> finding \<Rightarrow> finding_store \<Rightarrow> nat \<times> finding_store" where
  "add_finding now f st =
     insert_finding (f\<lparr>f_status := Pending, f_edited_text := None, f_created_at := now, f_posting_op := None\<rparr>) st"

definition severity_rank :: "pystr option \<Rightarrow> nat" where
  "severity_rank s =
     (if s = Some (U ''critical'') then 0 else if s = Some (U ''high'') then 1
      else if s = Some (U ''medium'') then 2 else 3)"

definition consensus_rank :: "pystr option \<Rightarrow> nat" where
  "consensus_rank c = (if c = Some (U ''consensus'') then 0 else 1)"

text \<open>\<open>NULL\<close> sorts before every value: last in descending and first in ascending order.\<close>

definition confidence_key :: "rat option \<Rightarrow> nat \<times> rat" where
  "confidence_key c = (case c of None \<Rightarrow> (1, 0) | Some x \<Rightarrow> (0, - x))"

definition text_key :: "pystr option \<Rightarrow> nat \<times> pystr" where
  "text_key t = (case t of None \<Rightarrow> (0, []) | Some x \<Rightarrow> (1, x))"

definition list_key :: "finding \<Rightarrow> nat \<times> nat \<times> (nat \<times> rat) \<times> (nat \<times> pystr)" where
  "list_key f = (severity_rank (f_severity f), consensus_rank (f_consensus f),
                 confidence_key (f_confidence f), text_key (f_file f))"

definition list_for_run :: "nat \<Rightarrow> finding_store \<Rightarrow> finding list" where
  "list_for_run run st = sort_key list_key (filter (\<lambda>f. f_run f = run) (findings st))"

text \<open>\<open>edited\<close> is \<open>None\<close> when the argument is left out, else the new text (possibly \<open>None\<close>).\<close>

definition set_status :: "int \<Rightarrow> nat \<Rightarrow> finding_status \<Rightarrow> pystr option option \<Rightarrow> finding_store \<Rightarrow> finding_store" where
  "set_status now fid s edited st =
     (let prev = get_finding fid st;
          st1 = snd (update_finding_status fid (\<lambda>_. True)
                  (case edited of None \<Rightarrow> (\<lambda>f. f\<lparr>f_status := s\<rparr>)
                   | Some t \<Rightarrow> (\<lambda>f. f\<lparr>f_status := s, f_edited_text := t\<rparr>)) st)
      in case prev of
           None \<Rightarrow> st1
         | Some f \<Rightarrow>
             if f_status f = s then st1
             else st1\<lparr>decisions := decisions st1 @
                        [\<lparr>d_finding = fid, d_from = f_status f, d_to = s, d_at = now\<rparr>]\<rparr>)"

section \<open>The summary is the tally\<close>

interpretation finding_key: primary_key "f_id :: finding \<Rightarrow> nat" .

interpretation summary_key: primary_key "s_run :: finding_summary \<Rightarrow> nat" .

lemma get_finding_lookup: "get_finding fid st = finding_key.lookup (findings st) fid"
  by (simp add: get_finding_def finding_key.lookup_def)

lemma get_summary_lookup: "get_summary run ss = summary_key.lookup ss run"
  by (simp add: get_summary_def summary_key.lookup_def)

definition tally :: "nat \<Rightarrow> (finding \<Rightarrow> bool) \<Rightarrow> finding list \<Rightarrow> int" where
  "tally run P fs = int (length (filter (\<lambda>f. f_run f = run \<and> P f) fs))"

text \<open>What the summary row of a run has to be: recomputed from the findings.\<close>

definition recount :: "nat \<Rightarrow> finding list \<Rightarrow> finding_summary" where
  "recount run fs =
     \<lparr>s_run = run, s_max_id = latest_id run fs, s_total = tally run (\<lambda>_. True) fs,
      s_pending = tally run (\<lambda>f. f_status f = Pending) fs,
      s_approved = tally run (\<lambda>f. f_status f = Approved) fs,
      s_dismissed = tally run (\<lambda>f. f_status f = Dismissed) fs,
      s_edited = tally run (\<lambda>f. f_status f = Edited) fs,
      s_posted = tally run (\<lambda>f. f_status f = Posted) fs,
      s_unknown = tally run unknown_status fs,
      s_postable = tally run postable fs\<rparr>"

definition summary_correct :: "finding list \<Rightarrow> finding_summary list \<Rightarrow> bool" where
  "summary_correct fs ss \<longleftrightarrow>
     (\<forall>run. (case get_summary run ss of
               None \<Rightarrow> list_all (\<lambda>f. f_run f \<noteq> run) fs
             | Some s \<Rightarrow> s = recount run fs))"

definition store_wf :: "finding_store \<Rightarrow> bool" where
  "store_wf st \<longleftrightarrow> finding_key.unique_keys (findings st) \<and>
     list_all (\<lambda>f. f_id f < next_finding st \<and> 0 < f_id f) (findings st) \<and> 0 < next_finding st \<and>
     summary_correct (findings st) (summaries st)"

lemma latest_id_fold: "fold (\<lambda>f m. if f_run f = run then max (f_id f) m else m) fs m = max m (latest_id run fs)"
proof (induction fs arbitrary: m)
  case Nil
  then show ?case by (simp add: latest_id_def)
next
  case (Cons f fs)
  have "latest_id run (f # fs) = max (if f_run f = run then max (f_id f) 0 else 0) (latest_id run fs)"
    using Cons[of "if f_run f = run then max (f_id f) 0 else 0"] by (simp add: latest_id_def)
  with Cons show ?case by (simp add: max.assoc max.left_commute)
qed

lemma latest_id_append [simp]: "latest_id run (xs @ ys) = max (latest_id run xs) (latest_id run ys)"
proof -
  have "latest_id run (xs @ ys) = fold (\<lambda>f m. if f_run f = run then max (f_id f) m else m) ys (latest_id run xs)"
    by (simp add: latest_id_def)
  then show ?thesis by (simp only: latest_id_fold)
qed

lemma latest_id_Cons [simp]:
  "latest_id run [] = 0"
  "latest_id run (f # fs) = (if f_run f = run then max (f_id f) (latest_id run fs) else latest_id run fs)"
  using latest_id_append[of run "[f]" fs] by (simp_all add: latest_id_def)

lemma latest_id_none: "list_all (\<lambda>f. f_run f \<noteq> run) fs \<Longrightarrow> latest_id run fs = 0"
  by (induction fs) auto

lemma tally_append [simp]: "tally run P (xs @ ys) = tally run P xs + tally run P ys"
  by (simp add: tally_def)

lemma tally_Cons [simp]:
  "tally run P [] = 0"
  "tally run P (f # fs) = of_bool (f_run f = run \<and> P f) + tally run P fs"
  by (simp_all add: tally_def)

lemma tally_none: "list_all (\<lambda>f. f_run f \<noteq> run) fs \<Longrightarrow> tally run P fs = 0"
  by (induction fs) auto

lemma tally_nonneg [simp]: "0 \<le> tally run P fs"
  by (simp add: tally_def)

lemma get_summary_append:
  "get_summary run (ss @ [s]) = (case get_summary run ss of Some x \<Rightarrow> Some x
     | None \<Rightarrow> if s_run s = run then Some s else None)"
  unfolding get_summary_lookup by (rule summary_key.lookup_insert)

lemma get_summary_update:
  "(\<And>s. s_run (g s) = s_run s) \<Longrightarrow>
   get_summary run (sql_update P g ss) = map_option (\<lambda>s. if P s then g s else s) (get_summary run ss)"
  unfolding get_summary_lookup by (rule summary_key.lookup_update)

lemma counted_run [simp]: "s_run (counted_in new s) = s_run s" "s_run (counted_out b old fs s) = s_run s"
  "s_run (first_summary new) = f_run new" "s_run (recount run fs) = run"
  by (simp_all add: counted_in_def counted_out_def first_summary_def recount_def)

text \<open>Counting a row in and out, wherever it stands in the table.\<close>

lemma recount_other: "f_run f \<noteq> run \<Longrightarrow> recount run (xs @ f # ys) = recount run (xs @ ys)"
  by (simp add: recount_def)

lemma recount_in: "recount (f_run new) (xs @ new # ys) = counted_in new (recount (f_run new) (xs @ ys))"
  by (simp add: recount_def counted_in_def max.left_commute max.commute)

lemma recount_first:
  "list_all (\<lambda>f. f_run f \<noteq> f_run new) (xs @ ys) \<Longrightarrow> recount (f_run new) (xs @ new # ys) = first_summary new"
  by (simp add: recount_def first_summary_def tally_none latest_id_none)

lemma recount_out:
  assumes "lookup_max \<longrightarrow> latest_id (f_run old) fs = latest_id (f_run old) (xs @ ys)"
  shows "counted_out lookup_max old fs (recount (f_run old) (xs @ old # ys)) =
    (recount (f_run old) (xs @ ys))\<lparr>s_max_id := if lookup_max then latest_id (f_run old) (xs @ ys)
       else latest_id (f_run old) (xs @ old # ys)\<rparr>"
proof -
  have "max 0 (tally r P xs + (of_bool b + tally r P ys) - of_bool b) = tally r P xs + tally r P ys" for r P b
    by (simp add: add_nonneg_nonneg)
  moreover have "max 0 (tally r P xs + (1 + tally r P ys) - 1) = tally r P xs + tally r P ys" for r P
    by (simp add: add_nonneg_nonneg)
  ultimately show ?thesis
    using assms by (auto simp: recount_def counted_out_def max_def)
qed

definition summary_for :: "finding list \<Rightarrow> finding_summary list \<Rightarrow> nat \<Rightarrow> bool" where
  "summary_for fs ss run \<longleftrightarrow> (case get_summary run ss of
     None \<Rightarrow> list_all (\<lambda>f. f_run f \<noteq> run) fs | Some s \<Rightarrow> s = recount run fs)"

lemma summary_correct_all: "summary_correct fs ss \<longleftrightarrow> (\<forall>run. summary_for fs ss run)"
  by (simp add: summary_correct_def summary_for_def)

lemma get_summary_run: "get_summary run ss = Some s \<Longrightarrow> s_run s = run"
  using summary_key.lookup_Some_set by (simp add: get_summary_lookup)

lemma count_in_other: "run \<noteq> f_run new \<Longrightarrow> get_summary run (count_in new ss) = get_summary run ss"
proof -
  have "map_option (\<lambda>s. if s_run s = f_run new then counted_in new s else s) (get_summary run ss) =
      get_summary run ss" if "run \<noteq> f_run new"
    using that by (cases "get_summary run ss") (auto dest: get_summary_run)
  then show "run \<noteq> f_run new \<Longrightarrow> ?thesis"
    by (auto simp: count_in_def get_summary_append get_summary_update split: option.splits)
qed

lemma count_in_same:
  "get_summary (f_run new) (count_in new ss) =
     Some (case get_summary (f_run new) ss of None \<Rightarrow> first_summary new | Some s \<Rightarrow> counted_in new s)"
  by (cases "get_summary (f_run new) ss")
    (auto simp: count_in_def get_summary_append get_summary_update dest: get_summary_run)

lemma count_out_summary:
  "get_summary run (count_out b old fs ss) =
     (if run = f_run old then map_option (counted_out b old fs) (get_summary run ss) else get_summary run ss)"
  by (cases "get_summary run ss") (auto simp: count_out_def get_summary_update dest: get_summary_run)

lemma count_in_correct:
  assumes "summary_correct (xs @ ys) ss"
  shows "summary_correct (xs @ new # ys) (count_in new ss)"
  unfolding summary_correct_all
proof
  fix run
  have old: "summary_for (xs @ ys) ss run" using assms by (simp add: summary_correct_all)
  show "summary_for (xs @ new # ys) (count_in new ss) run"
  proof (cases "run = f_run new")
    case True
    show ?thesis
    proof (cases "get_summary run ss")
      case None
      with True old recount_first[of new xs ys] show ?thesis by (simp add: summary_for_def count_in_same)
    next
      case (Some s)
      with True old recount_in[of new xs ys] show ?thesis by (simp add: summary_for_def count_in_same)
    qed
  next
    case False
    with old show ?thesis by (auto simp: summary_for_def count_in_other recount_other split: option.splits)
  qed
qed

lemma count_out_correct:
  assumes "summary_correct (xs @ old # ys) ss"
  shows "summary_correct (xs @ ys) (count_out True old (xs @ ys) ss)"
  unfolding summary_correct_all
proof
  fix run
  have old: "summary_for (xs @ old # ys) ss run" using assms by (simp add: summary_correct_all)
  have "(recount r (xs @ ys))\<lparr>s_max_id := latest_id r (xs @ ys)\<rparr> = recount r (xs @ ys)" for r
    by (simp add: recount_def)
  then have out: "counted_out True old (xs @ ys) (recount (f_run old) (xs @ old # ys)) = recount (f_run old) (xs @ ys)"
    using recount_out[of True old "xs @ ys" xs ys] by simp
  show "summary_for (xs @ ys) (count_out True old (xs @ ys) ss) run"
  proof (cases "run = f_run old")
    case True
    with old out show ?thesis by (auto simp: summary_for_def count_out_summary split: option.splits)
  next
    case False
    with old show ?thesis by (auto simp: summary_for_def count_out_summary recount_other split: option.splits)
  qed
qed

lemma trg_update_correct:
  assumes correct: "summary_correct (xs @ old # ys) ss" and id: "f_id new = f_id old"
  shows "summary_correct (xs @ new # ys) (trg_update old new (xs @ new # ys) ss)"
proof (cases "f_run old = f_run new")
  case False
  have "latest_id (f_run old) (xs @ new # ys) = latest_id (f_run old) (xs @ ys)" using False by simp
  then have "counted_out True old (xs @ new # ys) = counted_out True old (xs @ ys)"
    by (intro ext) (simp add: counted_out_def)
  then have "count_out True old (xs @ new # ys) ss = count_out True old (xs @ ys) ss" by (simp add: count_out_def)
  with False show ?thesis
    using count_in_correct[OF count_out_correct[OF correct]] by (simp add: trg_update_def)
next
  case True
  show ?thesis
    unfolding summary_correct_all
  proof
    fix run
    have old: "summary_for (xs @ old # ys) ss run" using correct by (simp add: summary_correct_all)
    show "summary_for (xs @ new # ys) (trg_update old new (xs @ new # ys) ss) run"
    proof (cases "run = f_run new")
      case run: True
      let ?out = "counted_out False old (xs @ new # ys) (recount (f_run old) (xs @ old # ys))"
      have out: "?out = (recount run (xs @ ys))\<lparr>s_max_id := latest_id run (xs @ old # ys)\<rparr>"
        using recount_out[of False old "xs @ new # ys" xs ys] True run by simp
      have "counted_in new ?out = recount run (xs @ new # ys)"
        unfolding out run
        using True id by (simp add: recount_def counted_in_def max.left_commute max.commute)
      moreover have "get_summary run ss = Some (recount run (xs @ old # ys))"
        using old run True by (auto simp: summary_for_def split: option.splits)
      ultimately show ?thesis
        using run True by (simp add: summary_for_def trg_update_def count_in_same count_out_summary)
    next
      case False
      with old True show ?thesis
        by (auto simp: summary_for_def trg_update_def count_in_other count_out_summary recount_other
            split: option.splits)
    qed
  qed
qed

lemma split_at_finding:
  assumes "finding_key.unique_keys fs" "finding_key.lookup fs fid = Some old"
  obtains xs ys where "fs = xs @ old # ys" "f_id old = fid" "sql_delete (\<lambda>f. f_id f = fid) fs = xs @ ys"
    "\<And>g. sql_update (\<lambda>f. f_id f = fid) g fs = xs @ g old # ys"
proof -
  have mem: "old \<in> set fs" "f_id old = fid" using finding_key.lookup_Some_set[OF assms(2)] by auto
  then obtain xs ys where fs: "fs = xs @ old # ys" by (meson split_list)
  have other: "f_id f \<noteq> fid" if "f \<in> set xs \<union> set ys" for f
    using assms(1) that mem(2) by (auto simp: fs finding_key.unique_keys_def) (metis image_eqI)+
  have "sql_delete (\<lambda>f. f_id f = fid) zs = zs" "sql_update (\<lambda>f. f_id f = fid) g zs = zs"
    if "\<forall>f\<in>set zs. f_id f \<noteq> fid" for zs :: "finding list" and g
    using that by (auto simp: sql_delete_def sql_update_def filter_id_conv intro: map_idI)
  moreover have "\<forall>f\<in>set xs. f_id f \<noteq> fid" "\<forall>f\<in>set ys. f_id f \<noteq> fid" using other by auto
  ultimately show thesis
    using that[of xs ys] mem(2) by (simp add: fs sql_delete_def sql_update_def)
qed

section \<open>Every statement keeps the store well formed\<close>

lemma wf_insert_finding: "store_wf st \<Longrightarrow> store_wf (snd (insert_finding f st))"
  using count_in_correct[of "findings st" "[]" "summaries st"]
  by (auto simp: store_wf_def insert_finding_def trg_insert_def Let_def finding_key.unique_keys_def list_all_iff)

lemma wf_update_finding_status:
  assumes wf: "store_wf st" and id: "\<And>f. f_id (g f) = f_id f"
  shows "store_wf (snd (update_finding_status fid P g st))"
proof (cases "get_finding fid st")
  case None
  with wf show ?thesis by (simp add: update_finding_status_def)
next
  case (Some old)
  have u: "finding_key.unique_keys (findings st)" using wf by (simp add: store_wf_def)
  obtain xs ys where split: "findings st = xs @ old # ys" "f_id old = fid"
    "\<And>g. sql_update (\<lambda>f. f_id f = fid) g (findings st) = xs @ g old # ys"
    using split_at_finding[OF u Some[unfolded get_finding_lookup]] by blast
  have "summary_correct (xs @ g old # ys) (trg_update old (g old) (xs @ g old # ys) (summaries st))"
    using wf split(1) id by (intro trg_update_correct) (simp_all add: store_wf_def)
  moreover have "finding_key.unique_keys (sql_update (\<lambda>f. f_id f = fid) g (findings st))"
    using u id by (simp add: finding_key.unique_update)
  ultimately show ?thesis
    using wf split Some id by (auto simp: update_finding_status_def store_wf_def Let_def)
qed

lemma wf_delete_finding:
  assumes wf: "store_wf st"
  shows "store_wf (delete_finding fid st)"
proof (cases "get_finding fid st")
  case None
  with wf show ?thesis by (simp add: delete_finding_def)
next
  case (Some old)
  have u: "finding_key.unique_keys (findings st)" using wf by (simp add: store_wf_def)
  obtain xs ys where split: "findings st = xs @ old # ys" "sql_delete (\<lambda>f. f_id f = fid) (findings st) = xs @ ys"
    using split_at_finding[OF u Some[unfolded get_finding_lookup]] by blast
  have "summary_correct (xs @ ys) (trg_delete old (xs @ ys) (summaries st))"
    using wf split(1) unfolding trg_delete_def by (intro count_out_correct) (simp add: store_wf_def)
  then show ?thesis
    using wf split Some finding_key.unique_delete[OF u, of "\<lambda>f. f_id f = fid"]
    by (auto simp: delete_finding_def store_wf_def Let_def)
qed

text \<open>An update of columns that the summary does not depend on.\<close>

definition quiet_finding :: "(finding \<Rightarrow> finding) \<Rightarrow> bool" where
  "quiet_finding g \<longleftrightarrow> (\<forall>f. f_id (g f) = f_id f \<and> f_run (g f) = f_run f \<and> f_status (g f) = f_status f \<and>
     f_posting_eligible (g f) = f_posting_eligible f)"

lemma recount_quiet: "quiet_finding g \<Longrightarrow> recount run (sql_update P g fs) = recount run fs"
proof -
  assume q: "quiet_finding g"
  have "tally run Q (sql_update P g fs) = tally run Q fs" if "\<And>f. Q (g f) = Q f" for Q
    using q that by (induction fs) (auto simp: sql_update_def quiet_finding_def)
  moreover have "latest_id run (sql_update P g fs) = latest_id run fs"
    using q by (induction fs) (auto simp: sql_update_def quiet_finding_def)
  ultimately show ?thesis
    using q by (simp add: recount_def quiet_finding_def unknown_status_def postable_def)
qed

lemma wf_update_findings_quiet:
  assumes "store_wf st" "quiet_finding g"
  shows "store_wf (snd (update_findings_quiet P g st))"
proof -
  have runs: "list_all (\<lambda>f. f_run f \<noteq> run) (sql_update P g fs) = list_all (\<lambda>f. f_run f \<noteq> run) fs" for run fs
    using assms(2) by (induction fs) (auto simp: sql_update_def quiet_finding_def)
  have "summary_for (sql_update P g (findings st)) (summaries st) run = summary_for (findings st) (summaries st) run" for run
    using assms(2) runs by (simp add: summary_for_def recount_quiet split: option.split)
  moreover have "finding_key.unique_keys (sql_update P g (findings st)) = finding_key.unique_keys (findings st)"
    using assms(2) by (intro finding_key.unique_update) (simp add: quiet_finding_def)
  ultimately show ?thesis
    using assms by (auto simp: store_wf_def update_findings_quiet_def summary_correct_all list_all_iff
        set_sql_update quiet_finding_def)
qed

lemma wf_decisions [simp]: "store_wf (st\<lparr>decisions := ds\<rparr>) = store_wf st"
  by (simp add: store_wf_def)

lemma wf_set_status:
  assumes "store_wf st"
  shows "store_wf (set_status now fid s edited st)"
proof -
  have "store_wf (snd (update_finding_status fid (\<lambda>_. True)
      (case edited of None \<Rightarrow> (\<lambda>f. f\<lparr>f_status := s\<rparr>) | Some t \<Rightarrow> (\<lambda>f. f\<lparr>f_status := s, f_edited_text := t\<rparr>)) st))"
    using assms by (intro wf_update_finding_status) (auto split: option.split)
  then show ?thesis by (auto simp: set_status_def Let_def split: option.split)
qed

section \<open>Reachable stores\<close>

text \<open>
  What the program does with findings: a review adds them, a person judges them, the posting of a
  review reserves, releases and posts them, and the removal of a repository deletes them.
\<close>

definition reserve_finding :: "nat \<Rightarrow> nat \<Rightarrow> nat \<Rightarrow> finding_store \<Rightarrow> nat \<times> finding_store" where
  "reserve_finding op run fid st =
     update_findings_quiet (\<lambda>f. f_id f = fid \<and> f_run f = run \<and> f_status f \<in> {Approved, Edited} \<and> f_posting_op f = None)
       (\<lambda>f. f\<lparr>f_posting_op := Some op\<rparr>) st"

definition release_findings :: "nat \<Rightarrow> finding_store \<Rightarrow> finding_store" where
  "release_findings op st =
     snd (update_findings_quiet (\<lambda>f. f_posting_op f = Some op) (\<lambda>f. f\<lparr>f_posting_op := None\<rparr>) st)"

definition post_finding :: "nat \<Rightarrow> nat \<Rightarrow> finding_store \<Rightarrow> nat \<times> finding_store" where
  "post_finding op fid st =
     update_finding_status fid (\<lambda>f. f_posting_op f = Some op \<and> f_status f \<in> {Approved, Edited})
       (\<lambda>f. f\<lparr>f_status := Posted, f_posting_op := None\<rparr>) st"

text \<open>A retry regroups the duplicates of a run and tags its findings anew.\<close>

definition regroup_finding :: "bool \<Rightarrow> nat \<Rightarrow> nat \<Rightarrow> finding_store \<Rightarrow> finding_store" where
  "regroup_finding block grp fid st =
     snd (update_finding_status fid (\<lambda>_. True)
       (\<lambda>f. f\<lparr>f_duplicate_group := Some grp, f_duplicate_suggested := True,
              f_posting_eligible := (if block then False else f_posting_eligible f)\<rparr>) st)"

definition retag_finding :: "pystr \<Rightarrow> nat \<Rightarrow> nat \<Rightarrow> finding_store \<Rightarrow> finding_store" where
  "retag_finding tag grp fid st =
     snd (update_findings_quiet (\<lambda>f. f_id f = fid) (\<lambda>f. f\<lparr>f_consensus := Some tag, f_consensus_group := Some grp\<rparr>) st)"

inductive store_reachable :: "finding_store \<Rightarrow> bool" where
  empty: "store_reachable \<lparr>findings = [], next_finding = 1, decisions = [], summaries = []\<rparr>"
| add: "store_reachable st \<Longrightarrow> store_reachable (snd (add_finding now f st))"
| judge: "store_reachable st \<Longrightarrow> store_reachable (set_status now fid s edited st)"
| reserve: "store_reachable st \<Longrightarrow> store_reachable (snd (reserve_finding op run fid st))"
| release: "store_reachable st \<Longrightarrow> store_reachable (release_findings op st)"
| post: "store_reachable st \<Longrightarrow> store_reachable (snd (post_finding op fid st))"
| regroup: "store_reachable st \<Longrightarrow> store_reachable (regroup_finding block grp fid st)"
| retag: "store_reachable st \<Longrightarrow> store_reachable (retag_finding tag grp fid st)"
| delete: "store_reachable st \<Longrightarrow>
    store_reachable ((delete_finding fid st)\<lparr>decisions := filter (\<lambda>d. d_finding d \<noteq> fid) (decisions st)\<rparr>)"

lemma store_reachable_wf: "store_reachable st \<Longrightarrow> store_wf st"
proof (induction rule: store_reachable.induct)
  case empty
  show ?case by (simp add: store_wf_def finding_key.unique_keys_def summary_correct_def get_summary_def)
next
  case (add st now f)
  then show ?case by (simp add: add_finding_def wf_insert_finding)
next
  case (judge st now fid s edited)
  then show ?case by (simp add: wf_set_status)
next
  case (reserve st op run fid)
  then show ?case by (simp add: reserve_finding_def wf_update_findings_quiet quiet_finding_def)
next
  case (release st op)
  then show ?case by (simp add: release_findings_def wf_update_findings_quiet quiet_finding_def)
next
  case (post st op fid)
  then show ?case by (simp add: post_finding_def wf_update_finding_status)
next
  case (regroup st block grp fid)
  then show ?case by (simp add: regroup_finding_def wf_update_finding_status)
next
  case (retag st tag grp fid)
  then show ?case by (simp add: retag_finding_def wf_update_findings_quiet quiet_finding_def)
next
  case (delete st fid)
  then show ?case by (simp add: wf_delete_finding)
qed

section \<open>Properties\<close>

text \<open>
  C19: the summary the page of a run shows is exact.  However findings are added, judged, posted and
  deleted, the counters the triggers maintain for a run are those of its findings, and a run without a
  summary row has no findings; the guards that keep the counters from going negative never act.
\<close>

theorem summary_exact:
  assumes "store_reachable st"
  shows "case get_summary run (summaries st) of
      None \<Rightarrow> filter (\<lambda>f. f_run f = run) (findings st) = []
    | Some s \<Rightarrow>
        s_total s = int (length (filter (\<lambda>f. f_run f = run) (findings st))) \<and>
        s_pending s = int (length (filter (\<lambda>f. f_run f = run \<and> f_status f = Pending) (findings st))) \<and>
        s_posted s = int (length (filter (\<lambda>f. f_run f = run \<and> f_status f = Posted) (findings st))) \<and>
        s_postable s = int (length (filter (\<lambda>f. f_run f = run \<and> postable f) (findings st))) \<and>
        s = recount run (findings st)"
proof -
  have "summary_for (findings st) (summaries st) run"
    using store_reachable_wf[OF assms] by (simp add: store_wf_def summary_correct_all)
  then show ?thesis
    by (auto simp: summary_for_def recount_def tally_def list_all_iff filter_empty_conv split: option.splits)
qed

definition sample_finding :: "nat \<Rightarrow> finding" where
  "sample_finding run =
     \<lparr>f_id = 0, f_run = run, f_vendor_result = None, f_vendor = U ''claude'', f_file = Some (U ''a.py''),
      f_line = Some 3, f_severity = Some (U ''high''), f_category = None, f_claim = Some (U ''c''),
      f_rationale = None, f_confidence = Some 1, f_consensus = Some (U ''single''), f_consensus_group = None,
      f_status = Pending, f_edited_text = None, f_created_at = 0, f_posting_op = None, f_source_chunk = None,
      f_owner_chunk = None, f_scope_status = None, f_posting_eligible = True, f_duplicate_group = None,
      f_duplicate_suggested = False, f_verify_status = None, f_verify_rationale = None,
      f_verify_independent = None, f_verify_evidence = None\<rparr>"

text \<open>Three findings of run 7; the first is approved and posted, the second dismissed and deleted.\<close>

definition sample_store :: finding_store where
  "sample_store =
     (let s0 = \<lparr>findings = [], next_finding = 1, decisions = [], summaries = []\<rparr>;
          s1 = snd (add_finding 1 (sample_finding 7) s0);
          s2 = snd (add_finding 2 (sample_finding 7) s1);
          s3 = snd (add_finding 3 (sample_finding 7) s2);
          s4 = set_status 4 1 Approved None s3;
          s5 = set_status 5 2 Dismissed None s4;
          s6 = snd (reserve_finding 9 7 1 s5);
          s7 = snd (post_finding 9 1 s6)
      in (delete_finding 2 s7)\<lparr>decisions := filter (\<lambda>d. d_finding d \<noteq> 2) (decisions s7)\<rparr>)"

lemma sample_store_reachable: "store_reachable sample_store"
  unfolding sample_store_def Let_def by (intro store_reachable.intros)

lemma summary_exact_witness:
  "\<exists>s. get_summary 7 (summaries sample_store) = Some s \<and> s_total s = 2 \<and> s_posted s = 1 \<and>
    s = recount 7 (findings sample_store)"
proof -
  have "map_option (\<lambda>s. (s_total s, s_posted s)) (get_summary 7 (summaries sample_store)) = Some (2, 1)"
    by code_simp
  then obtain s where "get_summary 7 (summaries sample_store) = Some s" "s_total s = 2" "s_posted s = 1" by auto
  with summary_exact[OF sample_store_reachable, of 7] show ?thesis by auto
qed

text \<open>
  The audit trail of a finding: each decision starts at the status the previous one left, where
  only the posting of the review may have intervened.
\<close>

definition posted_between :: "finding_status \<Rightarrow> finding_status \<Rightarrow> bool" where
  "posted_between s t \<longleftrightarrow> s = t \<or> s \<in> {Approved, Edited} \<and> t = Posted"

fun audit_chain :: "finding_status \<Rightarrow> finding_decision list \<Rightarrow> finding_status \<Rightarrow> bool" where
  "audit_chain s [] t = posted_between s t"
| "audit_chain s (d # ds) t = (posted_between s (d_from d) \<and> d_from d \<noteq> d_to d \<and> audit_chain (d_to d) ds t)"

lemma audit_chain_snoc:
  "audit_chain s ds t \<Longrightarrow> d_from d = t \<Longrightarrow> d_to d \<noteq> t \<Longrightarrow> audit_chain s (ds @ [d]) (d_to d)"
  by (induction ds arbitrary: s) (auto simp: posted_between_def)

lemma audit_chain_posted: "audit_chain s ds t \<Longrightarrow> t \<in> {Approved, Edited} \<Longrightarrow> audit_chain s ds Posted"
  by (induction ds arbitrary: s) (auto simp: posted_between_def)

definition audit_of :: "nat \<Rightarrow> finding_store \<Rightarrow> finding_decision list" where
  "audit_of fid st = filter (\<lambda>d. d_finding d = fid) (decisions st)"

definition audit_ok :: "finding_store \<Rightarrow> bool" where
  "audit_ok st \<longleftrightarrow> list_all (\<lambda>d. d_finding d < next_finding st) (decisions st) \<and>
     (\<forall>f\<in>set (findings st). audit_chain Pending (audit_of (f_id f) st) (f_status f))"

lemma update_status_rows:
  assumes "store_wf st" "f \<in> set (findings (snd (update_finding_status fid P g st)))" "\<And>f. f_id (g f) = f_id f"
  shows "f \<in> set (findings st) \<and> (f_id f = fid \<longrightarrow> \<not> P f) \<or>
    (\<exists>old. old \<in> set (findings st) \<and> f_id old = fid \<and> P old \<and> f = g old)"
proof (cases "get_finding fid st")
  case None
  then have "f \<in> set (findings st)" using assms(2) by (simp add: update_finding_status_def)
  moreover have "fid \<notin> f_id ` set (findings st)"
    using None finding_key.lookup_None by (simp add: get_finding_lookup)
  ultimately show ?thesis by blast
next
  case (Some old)
  have u: "finding_key.unique_keys (findings st)" using assms(1) by (simp add: store_wf_def)
  have same: "f' = old" if "f' \<in> set (findings st)" "f_id f' = fid" for f'
    using finding_key.lookup_unique[OF u that(1)] that(2) Some by (simp add: get_finding_lookup)
  show ?thesis
  proof (cases "P old")
    case False
    then show ?thesis using assms(2) Some same by (auto simp: update_finding_status_def)
  next
    case True
    have "old \<in> set (findings st)" "f_id old = fid"
      using Some finding_key.lookup_Some_set by (auto simp: get_finding_lookup)
    moreover have "f \<in> set (sql_update (\<lambda>f. f_id f = fid) g (findings st))"
      using assms(2) Some True by (simp add: update_finding_status_def Let_def)
    then have "f \<in> set (findings st) \<and> f_id f \<noteq> fid \<or>
        (\<exists>f'. f' \<in> set (findings st) \<and> f_id f' = fid \<and> f = g f')"
      by (auto simp: set_sql_update)
    ultimately show ?thesis using True same by blast
  qed
qed

lemma update_status_others [simp]:
  "decisions (snd (update_finding_status fid P g st)) = decisions st"
  "next_finding (snd (update_finding_status fid P g st)) = next_finding st"
  by (cases "get_finding fid st"; simp add: update_finding_status_def Let_def)+

lemma audit_quiet:
  assumes "audit_ok st" "quiet_finding g"
  shows "audit_ok (snd (update_findings_quiet P g st))"
  using assms by (auto simp: audit_ok_def update_findings_quiet_def audit_of_def set_sql_update quiet_finding_def)

lemma audit_judge:
  assumes wf: "store_wf st" and ok: "audit_ok st"
  shows "audit_ok (set_status now fid s edited st)"
proof -
  define g :: "finding \<Rightarrow> finding" where "g = (case edited of None \<Rightarrow> (\<lambda>f. f\<lparr>f_status := s\<rparr>) | Some t \<Rightarrow> (\<lambda>f. f\<lparr>f_status := s, f_edited_text := t\<rparr>))"
  let ?st1 = "snd (update_finding_status fid (\<lambda>_. True) g st)"
  have g: "f_id (g f) = f_id f" "f_status (g f) = s" for f by (simp_all add: g_def split: option.split)
  show ?thesis
  proof (cases "get_finding fid st")
    case None
    then have "set_status now fid s edited st = st" by (simp add: set_status_def update_finding_status_def)
    with ok show ?thesis by simp
  next
    case (Some prev)
    have u: "finding_key.unique_keys (findings st)" using wf by (simp add: store_wf_def)
    have prev: "prev \<in> set (findings st)" "f_id prev = fid"
      using Some finding_key.lookup_Some_set by (auto simp: get_finding_lookup)
    have same: "f = prev" if "f \<in> set (findings st)" "f_id f = fid" for f
      using finding_key.lookup_unique[OF u that(1)] that(2) Some by (simp add: get_finding_lookup)
    have rows: "f \<in> set (findings st) \<and> f_id f \<noteq> fid \<or> f = g prev" if "f \<in> set (findings ?st1)" for f
      using update_status_rows[OF wf that g(1)] same by blast
    have less: "fid < next_finding st" using wf prev by (auto simp: store_wf_def list_all_iff)
    let ?d = "\<lparr>d_finding = fid, d_from = f_status prev, d_to = s, d_at = now\<rparr>"
    let ?ds = "if f_status prev = s then [] else [?d]"
    have chain: "audit_chain Pending (audit_of fid st) (f_status prev)" using ok prev by (auto simp: audit_ok_def)
    have eq: "set_status now fid s edited st = ?st1\<lparr>decisions := decisions st @ ?ds\<rparr>"
      using Some by (simp add: set_status_def Let_def g_def)
    have new: "audit_chain Pending (audit_of fid st @ ?ds) s"
      using audit_chain_snoc[OF chain, of ?d] chain by auto
    have "audit_chain Pending (filter (\<lambda>d. d_finding d = f_id f) (decisions st @ ?ds)) (f_status f)"
      if "f \<in> set (findings ?st1)" for f
      using rows[OF that]
    proof
      assume f: "f \<in> set (findings st) \<and> f_id f \<noteq> fid"
      then have "filter (\<lambda>d. d_finding d = f_id f) (decisions st @ ?ds) = audit_of (f_id f) st"
        by (simp add: audit_of_def)
      with f ok show ?thesis by (simp add: audit_ok_def)
    next
      assume f: "f = g prev"
      have "filter (\<lambda>d. d_finding d = fid) ?ds = ?ds" by simp
      with new f prev g show ?thesis by (simp only: filter_append audit_of_def)
    qed
    with ok less show ?thesis unfolding eq by (simp add: audit_ok_def audit_of_def)
  qed
qed

lemma reachable_audit: "store_reachable st \<Longrightarrow> audit_ok st"
proof (induction rule: store_reachable.induct)
  case empty
  show ?case by (simp add: audit_ok_def)
next
  case (add st now f)
  then have "audit_of (next_finding st) st = []"
    by (auto simp: audit_ok_def audit_of_def list_all_iff filter_empty_conv)
  with add show ?case
    by (auto simp: audit_ok_def audit_of_def add_finding_def insert_finding_def Let_def list_all_iff posted_between_def)
next
  case (judge st now fid s edited)
  then show ?case using audit_judge store_reachable_wf by blast
next
  case (reserve st op run fid)
  then show ?case by (simp add: reserve_finding_def audit_quiet quiet_finding_def)
next
  case (release st op)
  then show ?case by (simp add: release_findings_def audit_quiet quiet_finding_def)
next
  case (post st op fid)
  have "audit_chain Pending (audit_of (f_id f) st) (f_status f)"
    if "f \<in> set (findings (snd (post_finding op fid st)))" for f
    using update_status_rows[OF store_reachable_wf[OF post.hyps] that[unfolded post_finding_def]]
  proof
    assume "f \<in> set (findings st) \<and> (f_id f = fid \<longrightarrow> \<not> (f_posting_op f = Some op \<and> f_status f \<in> {Approved, Edited}))"
    with post.IH show ?thesis by (simp add: audit_ok_def)
  next
    assume "\<exists>old. old \<in> set (findings st) \<and> f_id old = fid \<and>
      (f_posting_op old = Some op \<and> f_status old \<in> {Approved, Edited}) \<and>
      f = old\<lparr>f_status := Posted, f_posting_op := None\<rparr>"
    then obtain old where old: "old \<in> set (findings st)" "f_status old \<in> {Approved, Edited}"
      "f = old\<lparr>f_status := Posted, f_posting_op := None\<rparr>" by blast
    have "audit_chain Pending (audit_of (f_id old) st) (f_status old)" using post.IH old(1) by (simp add: audit_ok_def)
    from audit_chain_posted[OF this old(2)] old(3) show ?thesis by simp
  qed simp
  with post.IH show ?case by (auto simp: audit_ok_def audit_of_def post_finding_def)
next
  case (regroup st block grp fid)
  have "audit_chain Pending (audit_of (f_id f) st) (f_status f)" if "f \<in> set (findings (regroup_finding block grp fid st))" for f
    using update_status_rows[OF store_reachable_wf[OF regroup.hyps] that[unfolded regroup_finding_def]] regroup.IH
    by (auto simp: audit_ok_def)
  with regroup.IH show ?case by (auto simp: audit_ok_def audit_of_def regroup_finding_def)
next
  case (retag st tag grp fid)
  then show ?case by (simp add: retag_finding_def audit_quiet quiet_finding_def)
next
  case (delete st fid)
  have "audit_of k ((delete_finding fid st)\<lparr>decisions := filter (\<lambda>d. d_finding d \<noteq> fid) (decisions st)\<rparr>) =
      audit_of k st" if "k \<noteq> fid" for k
    using that by (auto simp: audit_of_def intro: filter_cong)
  moreover have "findings (delete_finding fid st) = sql_delete (\<lambda>f. f_id f = fid) (findings st)"
    by (auto simp: delete_finding_def get_finding_lookup finding_key.lookup_None Let_def sql_delete_def
        intro!: filter_True[symmetric] split: option.split)
  moreover have "next_finding (delete_finding fid st) = next_finding st"
    by (auto simp: delete_finding_def Let_def split: option.split)
  ultimately show ?case using delete.IH by (auto simp: audit_ok_def list_all_iff)
qed

text \<open>
  C20: the audit trail explains the status.  The decisions recorded for a finding lead, step by step
  and without a repetition, from \<open>pending\<close> to its present status; the one change that leaves no
  record is the posting of an approved or edited finding.
\<close>

theorem audit_trail_complete:
  assumes "store_reachable st" and "f \<in> set (findings st)"
  shows "audit_chain Pending (filter (\<lambda>d. d_finding d = f_id f) (decisions st)) (f_status f)"
  using reachable_audit[OF assms(1)] assms(2) by (auto simp: audit_ok_def audit_of_def)

lemma audit_trail_complete_witness:
  "\<exists>f. f \<in> set (findings sample_store) \<and> f_status f = Posted \<and>
    audit_chain Pending (filter (\<lambda>d. d_finding d = f_id f) (decisions sample_store)) (f_status f)"
proof -
  have "f_status (hd (findings sample_store)) = Posted \<and> findings sample_store \<noteq> []" by code_simp
  then have "hd (findings sample_store) \<in> set (findings sample_store)" "f_status (hd (findings sample_store)) = Posted"
    by auto
  with audit_trail_complete[OF sample_store_reachable] show ?thesis by blast
qed

end
