(* ===== verification/Pipeline.thy ===== *)
theory Pipeline
  imports Prompts Prescreen Verification Finding_Store Context_Blocks
begin

text \<open>
  The run of a review (\<open>review_pr\<close> and \<open>_execute_run\<close> of \<open>src/server/pipeline.py\<close>): from the pull request's row to
  stored findings.  An action maps the database to a result and the database left behind, whether it
  raises or not.  Everything outside (GitHub, the vendors, the checkout, the context providers, the clock) answers through
  the record \<open>world\<close>; what other processes do to the database while the run waits is the member \<open>w_meanwhile\<close>.
\<close>

section \<open>State, actions and errors\<close>

record pipe_db =
  q_db :: run_db
  q_store :: finding_store
  q_screens :: "pre_screen table"
  q_leases :: "process_lease list"

datatype pipe_error =
    Stale_Head nat pystr pystr
  | Lease_Lost nat
  | Pipeline_Error nat pystr
  | Raised_Exn exn

type_synonym 'a act = "pipe_db \<Rightarrow> (pipe_error + 'a) \<times> pipe_db"

definition ret :: "'a \<Rightarrow> 'a act" where
  "ret x s = (Inr x, s)"

definition fail :: "pipe_error \<Rightarrow> 'a act" where
  "fail e s = (Inl e, s)"

definition andthen :: "'a act \<Rightarrow> ('a \<Rightarrow> 'b act) \<Rightarrow> 'b act" where
  "andthen m f s = (case m s of (Inl e, s') \<Rightarrow> (Inl e, s') | (Inr x, s') \<Rightarrow> f x s')"

definition lift :: "exn + 'a \<Rightarrow> 'a act" where
  "lift r s = (case r of Inl e \<Rightarrow> (Inl (Raised_Exn e), s) | Inr x \<Rightarrow> (Inr x, s))"

definition change :: "(pipe_db \<Rightarrow> pipe_db) \<Rightarrow> unit act" where
  "change f s = (Inr (), f s)"

definition change_db :: "(run_db \<Rightarrow> run_db) \<Rightarrow> unit act" where
  "change_db f = change (\<lambda>s. s\<lparr>q_db := f (q_db s)\<rparr>)"

definition change_with :: "(run_db \<Rightarrow> 'a \<times> run_db) \<Rightarrow> 'a act" where
  "change_with f s = (case f (q_db s) of (x, d) \<Rightarrow> (Inr x, s\<lparr>q_db := d\<rparr>))"

definition try_db :: "(run_db \<Rightarrow> exn + run_db) \<Rightarrow> unit act" where
  "try_db f s = (case f (q_db s) of Inl e \<Rightarrow> (Inl (Raised_Exn e), s) | Inr d \<Rightarrow> (Inr (), s\<lparr>q_db := d\<rparr>))"

definition look :: "(pipe_db \<Rightarrow> 'a) \<Rightarrow> 'a act" where
  "look f s = (Inr (f s), s)"

text \<open>A transaction: rolled back when it raises.\<close>

definition atomic :: "'a act \<Rightarrow> 'a act" where
  "atomic m s = (case m s of (Inl e, s') \<Rightarrow> (Inl e, s) | (Inr x, s') \<Rightarrow> (Inr x, s'))"

fun each :: "('a \<Rightarrow> unit act) \<Rightarrow> 'a list \<Rightarrow> unit act" where
  "each f [] = ret ()"
| "each f (x # xs) = andthen (f x) (\<lambda>_. each f xs)"

section \<open>Settings\<close>

record settings =
  st_review_model :: "pystr option"
  st_default_effort :: "pystr option"
  st_claude_effort :: "pystr option"
  st_codex_effort :: "pystr option"
  st_codex_model :: "pystr option"
  st_prescreen_model :: "pystr option"
  st_threshold :: pystr
  st_concurrency :: json
  st_verify :: int
  st_incremental :: int

record repo_row =
  rr_id :: nat
  rr_full_name :: pystr
  rr_harness :: pystr
  rr_claude_on :: bool
  rr_codex_on :: bool
  rr_merge :: bool
  rr_claude_model :: "pystr option"
  rr_claude_effort :: "pystr option"
  rr_codex_model :: "pystr option"
  rr_codex_effort :: "pystr option"
  rr_verify :: "int option"
  rr_incremental :: "int option"
  rr_scope_mode :: "pystr option"
  rr_dedupe_mode :: "pystr option"

definition row_value :: "pystr option \<Rightarrow> pystr \<Rightarrow> pystr" where
  "row_value v dflt = (case v of None \<Rightarrow> dflt | Some s \<Rightarrow> if s = [] then dflt else s)"

definition effective :: "int option \<Rightarrow> int \<Rightarrow> bool" where
  "effective own inherited \<longleftrightarrow> (case own of Some v \<Rightarrow> v | None \<Rightarrow> inherited) \<noteq> 0"

definition safe_concurrency_limit :: "json \<Rightarrow> int" where
  "safe_concurrency_limit v = (case v of JInt i \<Rightarrow> if 1 \<le> i \<and> i \<le> 8 then i else 2 | _ \<Rightarrow> 2)"

definition context_budget :: "nat \<Rightarrow> nat \<Rightarrow> int" where
  "context_budget prompts vendors = MAX_CONTEXT_CHARS_TOTAL div (max 1 (int prompts) * max 1 (int vendors))"

record harness =
  hp_name :: pystr
  hp_prompt :: "pystr \<Rightarrow> pystr"
  hp_tools :: json
  hp_sandbox :: json
  hp_model :: pystr
  hp_effort :: pystr
  hp_codex_model :: pystr
  hp_codex_effort :: pystr

definition apply_models :: "repo_row \<Rightarrow> settings \<Rightarrow> harness \<Rightarrow> harness" where
  "apply_models repo st hp =
     (let g_model = row_value (st_review_model st) (U ''sonnet'');
          g_effort = row_value (st_default_effort st) (U ''medium'');
          g_claude_effort = row_value (st_claude_effort st) g_effort;
          g_codex_effort = row_value (st_codex_effort st) g_effort;
          g_codex = row_value (st_codex_model st) []
      in hp\<lparr>hp_model := row_value (rr_claude_model repo) g_model,
            hp_effort := row_value (rr_claude_effort repo) g_claude_effort,
            hp_codex_model := row_value (rr_codex_model repo) g_codex,
            hp_codex_effort := row_value (rr_codex_effort repo) g_codex_effort\<rparr>)"

definition policy_repo_of :: "repo_row \<Rightarrow> policy_repo" where
  "policy_repo_of r = \<lparr>rp_full_name = Some (rr_full_name r), rp_scope_mode = rr_scope_mode r, rp_dedupe_mode = rr_dedupe_mode r\<rparr>"

section \<open>Adapters and their identity\<close>

text \<open>
  What the pipeline reads of an adapter: the version its probe answers, its contract under a bound version, the
  texts and arguments it will send if it can tell, its arguments and timeout.
\<close>

record adapter =
  ad_vendor :: pystr
  ad_probe :: "pystr option"
  ad_contract :: "pystr option \<Rightarrow> (pystr \<times> json) list"
  ad_inputs :: "(pystr option \<Rightarrow> pystr list \<Rightarrow> json) option"
  ad_argv :: json
  ad_timeout :: json

definition enabled_adapters :: "repo_row \<Rightarrow> adapter list \<Rightarrow> adapter list" where
  "enabled_adapters repo ads =
     filter (\<lambda>a. \<not> (ad_vendor a = U ''claude'' \<and> \<not> rr_claude_on repo) \<and> \<not> (ad_vendor a = U ''codex'' \<and> \<not> rr_codex_on repo)) ads"

definition adapter_contract :: "adapter \<Rightarrow> pystr option \<Rightarrow> exn + (pystr \<times> json) list" where
  "adapter_contract a version =
     (let c = ad_contract a version
      in if has_keys [''adapter_name'', ''adapter_version'', ''cli_version'', ''event_schema_version''] c then Inr c
         else Inl (ValueError (U ''invalid adapter execution contract'')))"

text \<open>The checks of \<open>review_execution_inputs\<close>: one wire text for each prompt, a list of arguments.\<close>

definition execution_inputs :: "json \<Rightarrow> nat \<Rightarrow> exn + json \<times> json" where
  "execution_inputs v n =
     (let bad = Inl (ValueError (U ''invalid adapter review execution inputs''))
      in case v of
           JObj o1 \<Rightarrow>
             if \<not> has_keys [''wire_prompts'', ''review_argv''] o1 then bad
             else (case (fld o1 ''wire_prompts'', fld o1 ''review_argv'') of
                     (JList ws, JList argv) \<Rightarrow>
                       if length ws \<noteq> n \<or> \<not> list_all is_text ws \<or> \<not> list_all is_text argv then bad
                       else Inr (JList ws, JList argv)
                   | _ \<Rightarrow> bad)
         | _ \<Rightarrow> bad)"

record hashing =
  h_sha :: "pystr \<Rightarrow> pystr"
  h_num :: "rat \<Rightarrow> pystr"

definition hash_json :: "hashing \<Rightarrow> json \<Rightarrow> pystr" where
  "hash_json h v = canonical_hash (h_sha h) (h_num h) v"

definition harness_config :: "pystr \<Rightarrow> harness \<Rightarrow> json" where
  "harness_config vendor hp =
     JObj [(U ''name'', JStr (hp_name hp)), (U ''system_prompt'', JStr (hp_prompt hp vendor)),
           (U ''tools'', if vendor = U ''claude'' then hp_tools hp else JNull),
           (U ''sandbox'', if vendor = U ''codex'' then hp_sandbox hp else JNull)]"

definition policy_members :: "policy_snapshot \<Rightarrow> identity" where
  "policy_members s =
     [(U ''scope_policy_mode'', JStr (pd_effective (ps_scope s))), (U ''dedupe_policy_mode'', JStr (pd_effective (ps_dedupe s))),
      (U ''policy_decision_hash'', JStr (ps_decision_hash s)), (U ''policy_config_hash'', JStr (ps_config_hash s))]"

definition vendor_execution_identity ::
  "hashing \<Rightarrow> adapter \<Rightarrow> harness \<Rightarrow> prompt_chunk list \<Rightarrow> pystr \<Rightarrow> policy_snapshot \<Rightarrow> exn + identity" where
  "vendor_execution_identity h a hp prompts diff policy =
     (if ad_vendor a \<notin> set (map U VENDORS) \<or> prompts = []
      then Inl (ValueError (U ''invalid vendor execution identity''))
      else
        ebind (adapter_contract a (ad_probe a)) (\<lambda>contract.
          let (model, effort) = (if ad_vendor a = U ''codex'' then (hp_codex_model hp, hp_codex_effort hp)
                                 else (hp_model hp, hp_effort hp))
          in if length (remdups (map pk_chunker prompts)) \<noteq> 1 then Inl (ValueError (U ''mixed chunker versions''))
             else
               ebind (case ad_inputs a of
                        Some f \<Rightarrow> execution_inputs (f (ad_probe a) (map pk_prompt prompts)) (length prompts)
                      | None \<Rightarrow> Inr (JList (map (\<lambda>p. JStr (pk_prompt p)) prompts), ad_argv a)) (\<lambda>(wire, argv).
                 Inr ([(U ''protocol_version'', JStr (U ''evidence-v1'')), (U ''vendor'', JStr (ad_vendor a)),
                       (U ''model'', JStr model), (U ''effort'', JStr effort), (U ''prompt_hash'', JStr (hash_json h wire)),
                       (U ''harness_config_hash'', JStr (hash_json h (harness_config (ad_vendor a) hp))),
                       (U ''adapter_name'', fld contract ''adapter_name''),
                       (U ''adapter_version'', fld contract ''adapter_version''),
                       (U ''adapter_config_hash'', JStr (hash_json h (JObj [(U ''contract'', JObj contract),
                          (U ''review_argv'', argv), (U ''timeout'', ad_timeout a)]))),
                       (U ''cli_version'', fld contract ''cli_version''),
                       (U ''event_schema_version'', fld contract ''event_schema_version''),
                       (U ''diff_hash'', JStr (h_sha h diff)),
                       (U ''context_hash'', JStr (hash_json h (JList (map (\<lambda>p. JStr (pk_context p)) prompts)))),
                       (U ''chunker_version'', JStr (pk_chunker (hd prompts)))] @ policy_members policy))))"

text \<open>The identity of the runtime for the attestation: of the only vendor, if there is one.\<close>

definition benchmark_runtime_identity :: "hashing \<Rightarrow> identity list \<Rightarrow> json" where
  "benchmark_runtime_identity h ids =
     (case ids of
        [i] \<Rightarrow> JObj
          [(U ''vendor'', fld i ''vendor''), (U ''model'', fld i ''model''), (U ''effort'', fld i ''effort''),
           (U ''prompt_sha256'', fld i ''harness_config_hash''),
           (U ''protocol_sha256'', JStr (hash_json h (fld i ''protocol_version''))),
           (U ''chunker_sha256'', JStr (hash_json h (fld i ''chunker_version''))),
           (U ''chunk_budget'', JInt MAX_INLINE_DIFF_CHARS), (U ''adapter_sha256'', fld i ''adapter_config_hash''),
           (U ''cli_version'', fld i ''cli_version''),
           (U ''event_schema_sha256'', JStr (hash_json h (fld i ''event_schema_version'')))]
      | _ \<Rightarrow> JNull)"

definition bind_policy_identity :: "policy_snapshot \<Rightarrow> identity \<Rightarrow> identity" where
  "bind_policy_identity policy i = dict_update (policy_members policy) i"

section \<open>The world\<close>

text \<open>
  What the call of the context provider comes to: the text, or an exception (or the time limit); the results the provider
  holds when it returns, and those it holds when the chunk contexts are rendered.
\<close>

record provider_call =
  gc_text :: "exn + pystr"
  gc_ms :: int
  gc_results :: "context_result list"
  gc_later :: "context_result list"
  gc_nonces :: "nat \<Rightarrow> pystr"

record world =
  w_hash :: hashing
  w_unicode :: unicode
  w_is_digit :: "int \<Rightarrow> bool"
  w_round3 :: "rat \<Rightarrow> rat"
  w_show :: "exn \<Rightarrow> pystr"
  w_now :: int
  w_later :: int
  w_config :: policy_config
  w_attest :: "json \<Rightarrow> attestation"
  w_harness :: "exn + harness"
  w_adapters :: "adapter list"
  w_compare :: "(pystr \<Rightarrow> pystr \<Rightarrow> exn + pystr) option"
  w_diff :: "exn + pystr"
  w_screen :: "pystr \<Rightarrow> pystr \<Rightarrow> exn + screen_result"
  w_screen_ms :: int
  w_secrets :: "pystr list"
  w_gather :: "int \<Rightarrow> provider_call"
  w_nonces :: "nat \<Rightarrow> pystr option"
  w_enter :: "exn option"
  w_snapshot :: "exn option"
  w_leave :: "exn option"
  w_calls :: "pystr \<Rightarrow> prompt_chunk \<Rightarrow> review_call"
  w_ms :: "pystr \<Rightarrow> int"
  w_credentials :: "pystr \<Rightarrow> pystr option"
  w_verify :: "(merged_finding list \<Rightarrow> nat option \<Rightarrow> nat list \<Rightarrow> verify_outcome) option"
  w_meanwhile :: "nat \<Rightarrow> pipe_db \<Rightarrow> pipe_db"

text \<open>Waiting: the other processes act.  The number tells the waits of a run apart.\<close>

definition wait :: "world \<Rightarrow> nat \<Rightarrow> unit act" where
  "wait w k = change (w_meanwhile w k)"

definition lift_option :: "exn option \<Rightarrow> unit act" where
  "lift_option e = (case e of None \<Rightarrow> ret () | Some x \<Rightarrow> fail (Raised_Exn x))"

section \<open>The diff of a run\<close>

definition FIXED_DIFF_ERROR :: pystr where
  "FIXED_DIFF_ERROR = [44256, 51221, 46108, 32, 80, 82, 32, 104, 101, 97, 100, 32, 100, 105, 102, 102, 47484, 32,
    44032, 51256, 50724, 51648, 32, 47803, 54664, 49845, 45768, 45796]"

definition FIXED_BASE_ERROR :: pystr where
  "FIXED_BASE_ERROR = [44256, 51221, 46108, 32, 80, 82, 32, 104, 101, 97, 100, 32, 100, 105, 102, 102, 47484, 32,
    51312, 54924, 54624, 32, 44592, 51456, 32, 83, 72, 65, 44032, 32, 50630, 49845, 45768, 45796]"

definition nonempty :: "pystr option \<Rightarrow> pystr option" where
  "nonempty v = (case v of None \<Rightarrow> None | Some s \<Rightarrow> if s = [] then None else Some s)"

text \<open>The full diff: against the fixed base if that is possible, else the diff GitHub shows.\<close>

definition full_diff :: "world \<Rightarrow> pull_request \<Rightarrow> bool \<Rightarrow> exn + pystr" where
  "full_diff w pr exact =
     (case (w_compare w, nonempty (pr_base_sha pr)) of
        (Some compare, Some base) \<Rightarrow>
          (case compare base (pr_head_sha pr) of
             Inr d \<Rightarrow> Inr d
           | Inl e \<Rightarrow> if exact then Inl (RuntimeError FIXED_DIFF_ERROR) else w_diff w)
      | _ \<Rightarrow> if exact then Inl (RuntimeError FIXED_BASE_ERROR) else w_diff w)"

definition incremental_base :: "world \<Rightarrow> repo_row \<Rightarrow> settings \<Rightarrow> pull_request \<Rightarrow> run_db \<Rightarrow> pystr option" where
  "incremental_base w repo st pr db =
     (if effective (rr_incremental repo) (st_incremental st) \<and> w_compare w \<noteq> None
      then (case nonempty (last_done_head_sha (pr_id pr) db) of
              None \<Rightarrow> None | Some prior \<Rightarrow> if prior = pr_head_sha pr then None else Some prior)
      else None)"

definition resolve_diff :: "world \<Rightarrow> nat \<Rightarrow> repo_row \<Rightarrow> pull_request \<Rightarrow> settings \<Rightarrow> bool \<Rightarrow> pystr act" where
  "resolve_diff w rid repo pr st exact =
     andthen (look (\<lambda>s. incremental_base w repo st pr (q_db s))) (\<lambda>base.
       let delta = (case (w_compare w, base) of
                      (Some compare, Some b) \<Rightarrow>
                        (case compare b (pr_head_sha pr) of
                           Inr d \<Rightarrow> if strip d = [] then None else Some (b, d)
                         | Inl e \<Rightarrow> None)
                    | _ \<Rightarrow> None)
       in andthen (wait w 0) (\<lambda>_.
            case delta of
              Some (b, d) \<Rightarrow> andthen (change_db (set_base_sha rid b)) (\<lambda>_. ret d)
            | None \<Rightarrow> lift (full_diff w pr exact)))"

definition resolve_retry_diff :: "world \<Rightarrow> pull_request \<Rightarrow> review_run \<Rightarrow> bool \<Rightarrow> exn + pystr" where
  "resolve_retry_diff w pr run exact =
     (case (nonempty (run_base_sha run), w_compare w) of
        (Some b, Some compare) \<Rightarrow>
          (case compare b (pr_head_sha pr) of Inr d \<Rightarrow> Inr d | Inl e \<Rightarrow> full_diff w pr exact)
      | _ \<Rightarrow> full_diff w pr exact)"

section \<open>Guards\<close>

definition STALE_RUN_ERROR :: pystr where
  "STALE_RUN_ERROR = [80, 82, 32, 104, 101, 97, 100, 44032, 32, 48320, 44221, 46104, 50612, 32, 51060, 51204, 32,
    47532, 48624, 32, 49892, 54665, 32, 52712, 49548]"

definition NO_CHANGES_ERROR :: pystr where
  "NO_CHANGES_ERROR = [47532, 48624, 54624, 32, 48320, 44221, 51060, 32, 50630, 49845, 45768, 45796, 40, 45432,
    51060, 51592, 32, 54028, 51068, 47564, 32, 48320, 44221, 41, 46]"

definition actual_head :: "pull_request \<Rightarrow> pipe_db \<Rightarrow> pystr" where
  "actual_head pr s = (case get_pr (pr_id pr) (db_prs (q_db s)) of None \<Rightarrow> [] | Some p \<Rightarrow> pr_head_sha p)"

definition assert_process_lease :: "world \<Rightarrow> nat \<Rightarrow> pystr option \<Rightarrow> unit act" where
  "assert_process_lease w rid owner s =
     (case owner of
        None \<Rightarrow> (Inr (), s)
      | Some p \<Rightarrow> if alive (w_later w) (q_leases s) p then (Inr (), s) else (Inl (Lease_Lost rid), s))"

definition ensure_current_head :: "world \<Rightarrow> nat \<Rightarrow> pull_request \<Rightarrow> bool \<Rightarrow> unit act" where
  "ensure_current_head w rid pr cancel_run =
     andthen (look (actual_head pr)) (\<lambda>actual.
       if actual = pr_head_sha pr then ret ()
       else andthen (if cancel_run \<and> rid \<noteq> 0
                     then change_db (finish_run (w_now w) rid Run_Canceled (Some STALE_RUN_ERROR)) else ret ()) (\<lambda>_.
              fail (Stale_Head rid (pr_head_sha pr) actual)))"

definition mark_pr_reviewed :: "pull_request \<Rightarrow> unit act" where
  "mark_pr_reviewed pr = change_db (\<lambda>d. d\<lparr>db_prs := mark_reviewed (pr_id pr) (pr_head_sha pr) (db_prs d)\<rparr>)"

section \<open>Pre-screening in the run\<close>

definition prescreen_reason :: "pystr option \<Rightarrow> pystr \<Rightarrow> pystr" where
  "prescreen_reason fallback reason =
     (case fallback of
        None \<Rightarrow> reason
      | Some f \<Rightarrow> if f = [] \<or> startswith reason f then reason else f @ U ''; '' @ reason)"

definition exn_name :: "exn \<Rightarrow> pystr" where
  "exn_name e = (case e of ValueError m \<Rightarrow> U ''ValueError'' | KeyError m \<Rightarrow> U ''KeyError'' | TypeError m \<Rightarrow> U ''TypeError''
     | RuntimeError m \<Rightarrow> U ''RuntimeError'' | OtherError n m \<Rightarrow> n)"

text \<open>The result that is reused, or that the call comes to.\<close>

definition screen_outcome :: "world \<Rightarrow> pystr \<Rightarrow> pystr \<Rightarrow> pre_screen option \<Rightarrow> screen_result" where
  "screen_outcome w diff model reused =
     (case reused of
        Some r \<Rightarrow> \<lparr>sr_complexity = (case sc_complexity r of None \<Rightarrow> [] | Some c \<Rightarrow> c), sr_score = sc_score r, sr_reason = sc_reason r\<rparr>
      | None \<Rightarrow>
          (case w_screen w diff model of
             Inr r \<Rightarrow> r
           | Inl e \<Rightarrow> \<lparr>sr_complexity = U ''moderate'', sr_score = JNum (1 / 2),
                       sr_reason = CLI_FAILURE_REASON @ U '': '' @ exn_name e\<rparr>))"

definition prescreen_diff :: "world \<Rightarrow> pull_request \<Rightarrow> pystr \<Rightarrow> pystr \<Rightarrow> pystr \<Rightarrow> pystr option \<Rightarrow> pystr act" where
  "prescreen_diff w pr diff model threshold fallback =
     (let hash = h_sha (w_hash w) diff
      in andthen (look (\<lambda>s. find_reusable (pr_id pr) hash model (q_screens s))) (\<lambda>reused.
         andthen (wait w 1) (\<lambda>_.
           let r = screen_outcome w diff model reused;
               reason = prescreen_reason fallback (sr_reason r)
           in andthen (lift (decide (sr_complexity r) threshold)) (\<lambda>decision.
                andthen (change (\<lambda>s. s\<lparr>q_screens := snd (add_screen (w_now w)
                  \<lparr>sc_id = 0, sc_pr = pr_id pr, sc_head_sha = pr_head_sha pr, sc_model = model,
                   sc_complexity = Some (sr_complexity r), sc_score = sr_score r, sc_reason = reason,
                   sc_duration = w_screen_ms w, sc_decided = decision,
                   sc_diff_hash = (if nonempty fallback \<noteq> None \<or> is_nondeterministic_reason reason then None else Some hash),
                   sc_created_at = 0\<rparr> (q_screens s))\<rparr>)) (\<lambda>_.
                ret decision)))))"

section \<open>Storing what was found\<close>

text \<open>An item to store: the row of the vendor, the finding, its consensus tag and group.\<close>

type_synonym item = "nat option \<times> model_finding \<times> pystr \<times> nat option"

definition run_findings :: "nat \<Rightarrow> finding_store \<Rightarrow> finding list" where
  "run_findings rid st = filter (\<lambda>f. f_run f = rid) (findings st)"

definition finding_of_item :: "nat \<Rightarrow> item \<Rightarrow> finding" where
  "finding_of_item rid it =
     (case it of (vr, f, tag, grp) \<Rightarrow>
        \<lparr>f_id = 0, f_run = rid, f_vendor_result = vr, f_vendor = mf_vendor f, f_file = Some (mf_file f),
         f_line = Some (mf_line f), f_severity = Some (mf_severity f), f_category = Some (mf_category f),
         f_claim = Some (mf_claim f), f_rationale = Some (mf_rationale f), f_confidence = Some (mf_confidence f),
         f_consensus = Some tag, f_consensus_group = grp, f_status = Pending, f_edited_text = None, f_created_at = 0,
         f_posting_op = None, f_source_chunk = mf_source_chunk f, f_owner_chunk = mf_owner_chunk f,
         f_scope_status = mf_scope f, f_posting_eligible = mf_eligible f, f_duplicate_group = mf_group f,
         f_duplicate_suggested = mf_suggested f, f_verify_status = mf_verify_status f,
         f_verify_rationale = mf_verify_rationale f, f_verify_independent = mf_verify_independent f,
         f_verify_evidence = mf_evidence f\<rparr>)"

definition persist :: "int \<Rightarrow> nat \<Rightarrow> item list \<Rightarrow> unit act" where
  "persist now rid items =
     each (\<lambda>it. change (\<lambda>s. s\<lparr>q_store := snd (add_finding now (finding_of_item rid it) (q_store s))\<rparr>)) items"

type_synonym identities = "(pystr \<times> identity) list"

type_synonym result_ids = "(pystr \<times> nat) list"

definition id_of :: "result_ids \<Rightarrow> pystr \<Rightarrow> nat" where
  "id_of ids v = dict_get ids v 0"

definition persist_vendor_results ::
  "(rat \<Rightarrow> pystr) \<Rightarrow> vendor_run list \<Rightarrow> result_ids \<Rightarrow> identities \<Rightarrow> int \<Rightarrow> unit act" where
  "persist_vendor_results num results ids idents attempt =
     each (\<lambda>r. andthen (lift (persisted_envelope num r (dict_get idents (vr_vendor r) []) attempt)) (\<lambda>e.
             try_db (finish_vendor_result num (id_of ids (vr_vendor r)) (Some (vr_status r)) (vendor_safe_error r)
                       (Some (vr_duration r)) None (Some e)))) results"

text \<open>
  The last transaction.  It first reads the head again; the inner transaction of the code that records the cancellation
  runs after the outer one was rolled back.
\<close>

definition cancel_stale_results ::
  "world \<Rightarrow> nat \<Rightarrow> vendor_run list \<Rightarrow> result_ids \<Rightarrow> identities \<Rightarrow> unit act" where
  "cancel_stale_results w rid results ids idents =
     atomic (andthen (persist_vendor_results (h_num (w_hash w)) (map (\<lambda>r. r\<lparr>vr_status := U ''canceled''\<rparr>) results) ids idents 1)
       (\<lambda>_. change_db (finish_run (w_later w) rid Run_Canceled (Some STALE_RUN_ERROR))))"

definition commit_results ::
  "world \<Rightarrow> nat \<Rightarrow> pull_request \<Rightarrow> pystr option \<Rightarrow> vendor_run list \<Rightarrow> result_ids \<Rightarrow> identities \<Rightarrow> item list \<Rightarrow> unit act" where
  "commit_results w rid pr owner results ids idents items =
     andthen
       (atomic (andthen (assert_process_lease w rid owner) (\<lambda>_.
          andthen (look (actual_head pr)) (\<lambda>actual.
            if actual \<noteq> pr_head_sha pr then ret (Some actual)
            else andthen (persist_vendor_results (h_num (w_hash w)) results ids idents 1) (\<lambda>_.
                 andthen (persist (w_later w) rid items) (\<lambda>_.
                 andthen (change_db (finish_run (w_later w) rid Run_Done None)) (\<lambda>_.
                 andthen (mark_pr_reviewed pr) (\<lambda>_. ret None))))))))
       (\<lambda>stale. case stale of
          None \<Rightarrow> ret ()
        | Some actual \<Rightarrow>
            andthen (cancel_stale_results w rid results ids idents) (\<lambda>_. fail (Stale_Head rid (pr_head_sha pr) actual)))"

section \<open>From the vendors' results to the stored run\<close>

text \<open>
  The findings are objects that the merged list shares: what verification writes is seen in the vendors' order too.
  \<open>merge_order\<close> gives the position of each merged finding among all findings.
\<close>

fun place_at :: "nat \<times> model_finding \<Rightarrow> (nat \<times> model_finding) list list \<Rightarrow> (nat \<times> model_finding) list list" where
  "place_at f [] = [[f]]"
| "place_at f (g # gs) = (if close_to (snd (hd g)) (snd f) then (g @ [f]) # gs else g # place_at f gs)"

definition merge_order :: "model_finding list \<Rightarrow> nat list" where
  "merge_order fs = map fst (concat (fold place_at (enumerate 0 fs) []))"

definition shared_findings :: "model_finding list \<Rightarrow> merged_finding list \<Rightarrow> model_finding list" where
  "shared_findings fs ms =
     map (\<lambda>i. case map_of (zip (merge_order fs) (map mg_finding ms)) i of Some g \<Rightarrow> g | None \<Rightarrow> fs ! i) [0..<length fs]"

definition items_to_store ::
  "repo_row \<Rightarrow> (nat \<times> model_finding) list \<Rightarrow> merged_finding list \<Rightarrow> item list" where
  "items_to_store repo found ruled =
     (if rr_merge repo
      then map (\<lambda>m. (mf_vendor_result (mg_finding m), mg_finding m, mg_consensus m, Some (mg_group m))) ruled
      else map2 (\<lambda>(vr, _) f. (Some vr, f, U ''single'', None)) found (shared_findings (map snd found) ruled))"

definition verify_step ::
  "world \<Rightarrow> repo_row \<Rightarrow> settings \<Rightarrow> prompt_chunk list \<Rightarrow> merged_finding list \<Rightarrow> (merged_finding list \<times> verify_chunks) act" where
  "verify_step w repo st prompts merged =
     (case w_verify w of
        Some ask \<Rightarrow>
          if effective (rr_verify repo) (st_verify st) \<and> merged \<noteq> []
          then andthen (wait w 4) (\<lambda>_.
                 lift (verify_singles (h_num (w_hash w)) (w_round3 w) (ask merged) prompts merged))
          else ret (merged, [])
      | None \<Rightarrow> ret (merged, []))"

definition ALL_FAILED :: pystr where
  "ALL_FAILED = U ''all vendors failed''"

definition fail_all ::
  "world \<Rightarrow> nat \<Rightarrow> vendor_run list \<Rightarrow> result_ids \<Rightarrow> identities \<Rightarrow> pystr list \<Rightarrow> unit act" where
  "fail_all w rid results ids idents errors =
     andthen (atomic (andthen (persist_vendor_results (h_num (w_hash w)) results ids idents 1) (\<lambda>_.
                        change_db (finish_run (w_later w) rid Run_Failed (Some ALL_FAILED)))))
       (\<lambda>_. fail (Raised_Exn (RuntimeError (ALL_FAILED @ [32, 8594, 32] @ join_text (U ''; '') errors))))"

definition settle_results ::
  "world \<Rightarrow> nat \<Rightarrow> pull_request \<Rightarrow> repo_row \<Rightarrow> settings \<Rightarrow> pystr option \<Rightarrow> result_ids \<Rightarrow> identities \<Rightarrow> prompt_chunk list
   \<Rightarrow> vendor_run list \<Rightarrow> unit act" where
  "settle_results w rid pr repo st owner ids idents prompts results =
     (case prepare_vendor_results (id_of ids) results of
        (found, succeeded, errors) \<Rightarrow>
          if succeeded = 0 then fail_all w rid results ids idents errors
          else andthen (verify_step w repo st prompts (deterministic_merge (map snd found))) (\<lambda>(ruled, chunks).
                 commit_results w rid pr owner (map (\<lambda>r. r\<lparr>vr_verify := dict_get chunks (vr_vendor r) []\<rparr>) results) ids
                   idents (items_to_store repo found ruled)))"

section \<open>The run\<close>

definition meta_of :: "context_result \<Rightarrow> string \<Rightarrow> pystr \<times> json" where
  "meta_of r k = (U k, fld (cx_meta r) k)"

definition source_meta :: "pystr list \<Rightarrow> context_result \<Rightarrow> json" where
  "source_meta secrets r =
     JObj ([(U ''provider'', JStr (cx_provider r)), (U ''status'', JStr (cx_status r)),
            (U ''chars'', JInt (int (length (cx_text r))))] @
           map (meta_of r) [''duration_ms'', ''cache_hit'', ''items_read'', ''items_selected'', ''automated_items_selected'',
             ''content_chars_read'', ''content_chars_selected'', ''failed_sources''] @
           [(U ''error'', case cx_error r of
               None \<Rightarrow> JNull | Some e \<Rightarrow> if e = [] then JNull else JStr (redact_secrets secrets e))])"

definition payload_persistable :: "pystr \<Rightarrow> context_result list \<Rightarrow> bool" where
  "payload_persistable t rs \<longleftrightarrow>
     t = [] \<or> context_blocks rs \<noteq> [] \<and> list_all (\<lambda>b. \<not> confidential b) (context_blocks rs)"

text \<open>\<open>_gather_context\<close>: a failing provider degrades to an empty context.\<close>

definition gather_meta :: "pystr list \<Rightarrow> provider_call \<Rightarrow> int \<Rightarrow> int \<Rightarrow> nat \<Rightarrow> nat \<Rightarrow> (pystr \<times> json) list" where
  "gather_meta secrets call budget diff_chars prompts vendors =
     (let t = (case gc_text call of Inr s \<Rightarrow> s | Inl e \<Rightarrow> []);
          rs = (if isl (gc_text call) then [] else gc_results call);
          persist = payload_persistable t rs;
          chars = int (length t)
      in [(U ''duration_ms'', JInt (gc_ms call)), (U ''diff_chars'', JInt diff_chars), (U ''context_chars'', JInt chars),
          (U ''context_budget_chars'', JInt budget), (U ''prompt_count'', JInt (int prompts)),
          (U ''vendor_count'', JInt (int vendors)),
          (U ''repeated_context_chars'', JInt (chars * int prompts * int vendors)),
          (U ''sources'', JList (map (source_meta secrets) rs)), (U ''context_payload_persisted'', JBool persist),
          (U ''context_payload_policy'', JStr (if persist then U ''review_history'' else U ''manifest_only''))] @
         (if isl (gc_text call) then [(U ''degraded'', JBool True)] else []))"

text \<open>\<open>_render_and_store_chunk_contexts\<close>: one selection of blocks for each chunk.\<close>

definition chunk_results :: "provider_call \<Rightarrow> pystr \<Rightarrow> context_result list" where
  "chunk_results call fallback =
     (if gc_later call = [] \<and> fallback \<noteq> []
      then [\<lparr>cx_provider = U ''legacy_context'', cx_status = U ''ok'', cx_text = fallback, cx_meta = [], cx_error = None,
             cx_blocks = []\<rparr>]
      else gc_later call)"

definition selected_item :: "json \<Rightarrow> bool" where
  "selected_item m \<longleftrightarrow> (case m of JObj o1 \<Rightarrow> fld o1 ''selected'' = JBool True | _ \<Rightarrow> False)"

definition context_row :: "(pystr \<Rightarrow> pystr) \<Rightarrow> diff_chunk \<Rightarrow> rendered_context \<Rightarrow> json" where
  "context_row sha c r =
     JObj [(U ''chunk_hash'', JStr (dc_hash c)), (U ''context_hash'', JStr (sha (rx_text r))),
           (U ''text'', JStr (if rx_persistable r then rx_text r else [])), (U ''manifest'', JList (rx_manifest r))]"

definition context_row_meta :: "(pystr \<Rightarrow> pystr) \<Rightarrow> diff_chunk \<Rightarrow> rendered_context \<Rightarrow> json" where
  "context_row_meta sha c r =
     JObj [(U ''chunk_hash'', JStr (dc_hash c)), (U ''context_hash'', JStr (sha (rx_text r))),
           (U ''context_chars'', JInt (int (length (rx_text r)))),
           (U ''selected_blocks'', JInt (int (length (filter selected_item (rx_manifest r))))),
           (U ''omitted_blocks'', JInt (int (length (filter (\<lambda>m. \<not> selected_item m) (rx_manifest r))))),
           (U ''payload_persisted'', JBool (rx_persistable r)), (U ''manifest'', JList (rx_manifest r))]"

definition chunk_contexts ::
  "provider_call \<Rightarrow> int \<Rightarrow> pystr \<Rightarrow> diff_chunk list \<Rightarrow> (diff_chunk \<times> rendered_context) list" where
  "chunk_contexts call budget fallback chunks =
     map (\<lambda>c. (c, render_context_blocks (gc_nonces call (dc_index c)) (chunk_results call fallback) (Some budget)
                    (map fst (dc_owned c)))) chunks"

definition texts_by_hash :: "(diff_chunk \<times> rendered_context) list \<Rightarrow> (pystr \<times> pystr) list" where
  "texts_by_hash rs = fold (\<lambda>(c, r). dict_set (dc_hash c) (rx_text r)) rs []"

definition contexts_patch :: "(pystr \<Rightarrow> pystr) \<Rightarrow> nat \<Rightarrow> (diff_chunk \<times> rendered_context) list \<Rightarrow> (pystr \<times> json) list" where
  "contexts_patch sha vendors rs =
     (let chars = sum_list (map (\<lambda>(h, t). int (length t)) (texts_by_hash rs))
      in [(U ''chunk_contexts'', JList (map (\<lambda>(c, r). context_row_meta sha c r) rs)),
          (U ''chunk_context_chars'', JInt chars),
          (U ''persisted_chunk_context_chars'',
             JInt (sum_list (map (\<lambda>(c, r). if rx_persistable r then int (length (rx_text r)) else 0) rs))),
          (U ''repeated_context_chars'', JInt (chars * int vendors))])"

definition gather_contexts :: "world \<Rightarrow> nat \<Rightarrow> pystr \<Rightarrow> nat \<Rightarrow> nat \<Rightarrow> (pystr \<times> (pystr \<times> pystr) list) act" where
  "gather_contexts w rid diff prompts vendors =
     (let budget = context_budget prompts vendors; call = w_gather w budget;
          context = (case gc_text call of Inr s \<Rightarrow> s | Inl e \<Rightarrow> []);
          meta = gather_meta (w_secrets w) call budget (int (length diff)) prompts vendors;
          kept = payload_persistable context (if isl (gc_text call) then [] else gc_results call)
      in andthen (wait w 2) (\<lambda>_.
         andthen (change_db (set_context rid (if kept then context else []) (JObj meta))) (\<lambda>_.
         andthen (lift (chunk_records_by_budget (h_sha (w_hash w)) diff MAX_INLINE_DIFF_CHARS)) (\<lambda>chunks.
           let rs = chunk_contexts call budget context chunks
           in andthen (try_db (set_context_chunks rid (JList (map (\<lambda>(c, r). context_row (h_sha (w_hash w)) c r) rs))
                        (contexts_patch (h_sha (w_hash w)) vendors rs))) (\<lambda>_.
              ret (context, texts_by_hash rs))))))"

definition bind_identities ::
  "world \<Rightarrow> nat \<Rightarrow> repo_row \<Rightarrow> adapter list \<Rightarrow> harness \<Rightarrow> prompt_chunk list \<Rightarrow> pystr \<Rightarrow> policy_snapshot
   \<Rightarrow> (policy_snapshot \<times> identities) act" where
  "bind_identities w rid repo ads hp prompts diff policy =
     (if \<not> distinct (map ad_vendor ads) then fail (Raised_Exn (ValueError (U ''duplicate vendor adapter'')))
      else
        andthen (lift (emap (\<lambda>a. ebind (vendor_execution_identity (w_hash w) a hp prompts diff policy)
                                   (\<lambda>i. Inr (ad_vendor a, i))) ads)) (\<lambda>idents.
        andthen (lift (resolve_policy_snapshot (h_sha (w_hash w)) (h_num (w_hash w)) (w_config w) (w_attest w)
                   (Some (policy_repo_of repo)) (benchmark_runtime_identity (w_hash w) (map snd idents)))) (\<lambda>bound.
        andthen (try_db (set_policy_snapshot rid bound)) (\<lambda>_.
          ret (bound, if bound = policy then idents
                      else map (\<lambda>(v, i). (v, bind_policy_identity bound i)) idents)))))"

fun start_results :: "world \<Rightarrow> nat \<Rightarrow> adapter list \<Rightarrow> result_ids act" where
  "start_results w rid [] = ret []"
| "start_results w rid (a # as) =
     andthen (change_with (add_vendor_result (w_now w) rid (ad_vendor a) (U ''running''))) (\<lambda>i.
     andthen (start_results w rid as) (\<lambda>ids. ret ((ad_vendor a, i) # ids)))"

definition run_vendors :: "world \<Rightarrow> adapter list \<Rightarrow> identities \<Rightarrow> (adapter \<Rightarrow> prompt_chunk list) \<Rightarrow> vendor_run list act" where
  "run_vendors w ads idents prompts_of =
     andthen (wait w 3) (\<lambda>_.
       lift (emap (\<lambda>a. run_vendor (h_num (w_hash w)) (ad_vendor a)
                         (case fld (dict_get idents (ad_vendor a) []) ''cli_version'' of JStr v \<Rightarrow> Some v | _ \<Rightarrow> None)
                         (map (\<lambda>p. (p, w_calls w (ad_vendor a) p)) (prompts_of a)) (w_ms w (ad_vendor a))
                         (w_credentials w (ad_vendor a))) ads))"

definition chunk_of_prompt :: "prompt_chunk \<Rightarrow> diff_chunk" where
  "chunk_of_prompt p = \<lparr>dc_index = pk_index p, dc_text = pk_diff p, dc_owned = pk_owned p, dc_hash = pk_hash p\<rparr>"

definition review_diff ::
  "world \<Rightarrow> nat \<Rightarrow> pull_request \<Rightarrow> repo_row \<Rightarrow> settings \<Rightarrow> pystr option \<Rightarrow> policy_snapshot \<Rightarrow> harness \<Rightarrow> adapter list \<Rightarrow> pystr
   \<Rightarrow> unit act" where
  "review_diff w rid pr repo st owner policy hp ads diff =
     andthen (lift (chunk_by_budget (h_sha (w_hash w)) diff MAX_INLINE_DIFF_CHARS)) (\<lambda>chunks.
     andthen (lift_option (w_enter w)) (\<lambda>_.
     andthen (gather_contexts w rid diff (length chunks) (length ads)) (\<lambda>(context, contexts).
     andthen (lift (build_prompt_chunks (h_sha (w_hash w)) pr diff context (Some contexts) (w_nonces w))) (\<lambda>prompts.
     andthen (bind_identities w rid repo ads hp prompts diff policy) (\<lambda>(bound, idents).
     andthen (lift_option (w_snapshot w)) (\<lambda>_.
     andthen (start_results w rid ads) (\<lambda>ids.
     andthen (run_vendors w ads idents (\<lambda>_. prompts)) (\<lambda>raw.
     andthen (lift_option (w_leave w)) (\<lambda>_.
     andthen (lift (apply_scope_and_duplicate_policy (w_unicode w) bound (map chunk_of_prompt prompts) raw)) (\<lambda>results.
       settle_results w rid pr repo st owner ids idents prompts results))))))))))"

definition cancel_unreviewed :: "world \<Rightarrow> nat \<Rightarrow> pull_request \<Rightarrow> pystr option \<Rightarrow> unit act" where
  "cancel_unreviewed w rid pr err =
     andthen (ensure_current_head w rid pr True) (\<lambda>_.
     andthen (change_db (finish_run (w_now w) rid Run_Canceled err)) (\<lambda>_. mark_pr_reviewed pr))"

definition execute_run ::
  "world \<Rightarrow> nat \<Rightarrow> pull_request \<Rightarrow> repo_row \<Rightarrow> settings \<Rightarrow> run_trigger \<Rightarrow> bool \<Rightarrow> pystr option \<Rightarrow> policy_snapshot \<Rightarrow> unit act" where
  "execute_run w rid pr repo st trig exact owner policy =
     andthen (lift (w_harness w)) (\<lambda>hp.
     andthen (resolve_diff w rid repo pr st exact) (\<lambda>raw.
     andthen (lift (filter_reviewable raw)) (\<lambda>diff.
       if strip diff = [] then cancel_unreviewed w rid pr (Some NO_CHANGES_ERROR)
       else
         (case normalize_prescreen_model (w_is_digit w) (st_prescreen_model st) of
            (model, fallback) \<Rightarrow>
              andthen (prescreen_diff w pr diff model (st_threshold st) fallback) (\<lambda>decided.
                if decided = U ''skip'' \<and> trig = Trigger_Auto then cancel_unreviewed w rid pr None
                else let ads = enabled_adapters repo (w_adapters w)
                     in if ads = []
                        then change_db (finish_run (w_now w) rid Run_Canceled (Some (U ''no vendor enabled'')))
                        else review_diff w rid pr repo st owner policy (apply_models repo st hp) ads diff)))))"

definition effort_of :: "repo_row \<Rightarrow> settings \<Rightarrow> pystr" where
  "effort_of repo st =
     row_value (rr_codex_effort repo) (row_value (st_codex_effort st) (row_value (st_default_effort st) (U ''medium'')))"

text \<open>\<open>review_pr\<close>; \<open>repo\<close> and \<open>st\<close> are the rows it reads at its start.\<close>

definition close_run :: "world \<Rightarrow> nat \<Rightarrow> unit act \<Rightarrow> nat act" where
  "close_run w rid m s =
     (case m s of
        (Inr _, s') \<Rightarrow> (Inr rid, s')
      | (Inl (Raised_Exn e), s') \<Rightarrow>
          (Inl (Pipeline_Error rid (w_show w e)),
           s'\<lparr>q_db := finish_run (w_later w) rid Run_Failed (Some (w_show w e)) (q_db s')\<rparr>)
      | (Inl e, s') \<Rightarrow> (Inl e, s'))"

definition review_pr ::
  "world \<Rightarrow> nat \<Rightarrow> run_trigger \<Rightarrow> pystr option \<Rightarrow> pystr option \<Rightarrow> nat option \<Rightarrow> repo_row \<Rightarrow> settings \<Rightarrow> nat act" where
  "review_pr w pid trig expected owner job repo st =
     andthen (look (\<lambda>s. get_pr pid (db_prs (q_db s)))) (\<lambda>found.
       case found of
         None \<Rightarrow> fail (Raised_Exn (TypeError (U ''NoneType object is not subscriptable'')))
       | Some pr \<Rightarrow>
           if (case expected of None \<Rightarrow> False | Some h \<Rightarrow> h \<noteq> pr_head_sha pr)
           then fail (Stale_Head 0 (case expected of None \<Rightarrow> [] | Some h \<Rightarrow> h) (pr_head_sha pr))
           else
             andthen (lift (resolve_policy_snapshot (h_sha (w_hash w)) (h_num (w_hash w)) (w_config w) (w_attest w)
                        (Some (policy_repo_of repo)) JNull)) (\<lambda>policy.
             andthen (change_with (create_run (w_now w) pid (pr_head_sha pr) trig (Some (effort_of repo st)) (rr_merge repo)
                        owner job None)) (\<lambda>rid.
               close_run w rid (execute_run w rid pr repo st trig (expected \<noteq> None) owner policy))))"

end
