(* ===== verification/Retry.thy ===== *)
theory Retry
  imports Pipeline
begin

text \<open>
  The retry of a run (\<open>retry_pr\<close> and \<open>_retry_failed_vendors\<close> of \<open>src/server/pipeline.py\<close>): the vendors that failed review the
  chunks that are still open, against the same diff, contexts, policy and identity as the run; one transaction adds what they
  find, regroups the duplicates and tags all findings of the run anew.
\<close>

section \<open>Retrying the failed vendors of a run\<close>

text \<open>
  The key of a stored finding; a new finding is compared under the same key.
\<close>

type_synonym stored_key = "pystr \<times> pystr option \<times> int option \<times> pystr option \<times> pystr"

definition row_key :: "unicode \<Rightarrow> finding \<Rightarrow> stored_key" where
  "row_key u f =
     (f_vendor f, normalize_finding_path (text_of (f_file f)), f_line f, f_category f, canonical_claim u (text_of (f_claim f)))"

definition new_key :: "unicode \<Rightarrow> model_finding \<Rightarrow> stored_key" where
  "new_key u f =
     (mf_vendor f, normalize_finding_path (mf_file f), Some (mf_line f), Some (mf_category f), canonical_claim u (mf_claim f))"

text \<open>One key: the number of the next group, the table and the marks of the new findings by position.\<close>

type_synonym regrouping = "nat \<times> finding_store \<times> (nat \<times> (nat \<times> nat) option) list"

definition group_of_rows :: "finding list \<Rightarrow> nat option" where
  "group_of_rows old = (case List.map_filter f_duplicate_group old of [] \<Rightarrow> None | g # gs \<Rightarrow> Some g)"

definition regroup_key :: "pystr \<Rightarrow> finding list \<Rightarrow> nat list \<Rightarrow> regrouping \<Rightarrow> regrouping" where
  "regroup_key mode old ps acc =
     (case acc of (next, st, marks) \<Rightarrow>
        if length old + length ps < 2 then (next, st, marks @ map (\<lambda>p. (p, None)) ps)
        else
          let (next', g) = (case group_of_rows old of Some g \<Rightarrow> (next, g) | None \<Rightarrow> (Suc next, Suc next))
          in (next', fold (\<lambda>(i, f). regroup_finding (mode = ENFORCE \<and> i > 0) g (f_id f)) (enumerate 0 old) st,
              marks @ map (\<lambda>(i, p). (p, Some (g, i))) (enumerate (length old) ps)))"

definition unmark :: "model_finding \<Rightarrow> model_finding" where
  "unmark f = f\<lparr>mf_group := None, mf_suggested := False\<rparr>"

definition group_retry_duplicates ::
  "unicode \<Rightarrow> pystr \<Rightarrow> nat \<Rightarrow> vendor_run list \<Rightarrow> finding_store \<Rightarrow> vendor_run list \<times> finding_store" where
  "group_retry_duplicates u mode rid rs st =
     (let existing = run_findings rid st;
          fs = concat (map vr_findings rs);
          by_key = group_by (\<lambda>p. new_key u (fs ! p)) [0..<length fs];
          next = foldr (\<lambda>f m. max (case f_duplicate_group f of None \<Rightarrow> 0 | Some g \<Rightarrow> g) m) existing 0;
          (next', st', marks) =
            fold (\<lambda>(k, ps). regroup_key mode (filter (\<lambda>f. row_key u f = k) existing) ps) by_key (next, st, []);
          marked = map (\<lambda>(p, f). case map_of marks p of
                                   Some (Some mark) \<Rightarrow> mark_duplicate mode (Some mark) f
                                 | _ \<Rightarrow> unmark f) (enumerate 0 fs)
      in (map2 (\<lambda>r fs'. r\<lparr>vr_findings := fs'\<rparr>) rs (deal marked (map (\<lambda>r. length (vr_findings r)) rs)), st'))"

text \<open>
  \<open>_retag_consensus\<close>: the rows are merged as findings without texts.  Rows of a run always come from \<open>_persist\<close>,
  which fills every column that is read here.
\<close>

definition finding_of_row :: "finding \<Rightarrow> model_finding" where
  "finding_of_row f =
     \<lparr>mf_vendor = f_vendor f, mf_file = text_of (f_file f), mf_line = (case f_line f of None \<Rightarrow> 0 | Some l \<Rightarrow> l),
      mf_severity = text_of (f_severity f), mf_category = text_of (f_category f), mf_claim = [], mf_rationale = [],
      mf_confidence = (case f_confidence f of None \<Rightarrow> 0 | Some c \<Rightarrow> c), mf_vendor_result = None,
      mf_verify_status = None, mf_verify_rationale = None, mf_verify_independent = None, mf_evidence = None,
      mf_source_chunk = None, mf_owner_chunk = None, mf_scope = None, mf_eligible = True, mf_group = None,
      mf_suggested = False\<rparr>"

definition retag_consensus :: "nat \<Rightarrow> finding_store \<Rightarrow> finding_store" where
  "retag_consensus rid st =
     (let rs = run_findings rid st; fs = map finding_of_row rs
      in fold (\<lambda>(m, i). retag_finding (mg_consensus m) (mg_group m) (f_id (rs ! i)))
           (zip (deterministic_merge fs) (merge_order fs)) st)"

definition unless :: "bool \<Rightarrow> pipe_error \<Rightarrow> unit act" where
  "unless ok e = (if ok then ret () else fail e)"

definition full_run_required :: "bool \<Rightarrow> unit act" where
  "full_run_required bad = unless (\<not> bad) (Raised_Exn NewFullRunRequired)"

text \<open>The contexts a run stored, by chunk; none when it stored none.\<close>

definition chunk_rows :: "json \<Rightarrow> (pystr \<times> json) list list" where
  "chunk_rows v = (case v of JList vs \<Rightarrow> map (\<lambda>x. case x of JObj o1 \<Rightarrow> o1 | _ \<Rightarrow> []) vs | _ \<Rightarrow> [])"

definition text_field :: "(pystr \<times> json) list \<Rightarrow> string \<Rightarrow> pystr" where
  "text_field d k = (case fld d k of JStr s \<Rightarrow> s | _ \<Rightarrow> [])"

definition stored_contexts :: "(pystr \<Rightarrow> pystr) \<Rightarrow> review_run \<Rightarrow> exn + (pystr \<times> pystr) list option" where
  "stored_contexts sha run =
     (case run_context_chunks run of
        None \<Rightarrow> Inr None
      | Some _ \<Rightarrow>
          (case get_context_chunks run of
             None \<Rightarrow> Inl NewFullRunRequired
           | Some v \<Rightarrow>
               let cs = chunk_rows v
               in if cs = [] then Inr None
                  else if list_ex (\<lambda>c. sha (text_field c ''text'') \<noteq> text_field c ''context_hash'') cs
                  then Inl NewFullRunRequired
                  else Inr (Some (fold (\<lambda>c. dict_set (text_field c ''chunk_hash'') (text_field c ''text'')) cs []))))"

definition stored_nonce :: "(int \<times> json) list \<Rightarrow> nat \<Rightarrow> pystr option" where
  "stored_nonce ns i = (case map_of ns (int i) of Some (JStr s) \<Rightarrow> Some s | _ \<Rightarrow> None)"

definition same_policy :: "policy_snapshot \<Rightarrow> policy_snapshot \<Rightarrow> bool" where
  "same_policy a b \<longleftrightarrow>
     ps_config_hash a = ps_config_hash b \<and> ps_decision_hash a = ps_decision_hash b \<and> ps_cohort a = ps_cohort b \<and>
     ps_attestation a = ps_attestation b"

text \<open>What a retry knows before it runs anything: the prompts, the identities, the chunks that are open per vendor.\<close>

record retry_plan =
  rt_prompts :: "prompt_chunk list"
  rt_ids :: result_ids
  rt_idents :: identities
  rt_open :: "(pystr \<times> prompt_chunk list) list"

definition retry_adapters :: "repo_row \<Rightarrow> adapter list \<Rightarrow> pystr list \<Rightarrow> exn + adapter list" where
  "retry_adapters repo ads failed =
     (let chosen = filter (\<lambda>a. ad_vendor a \<in> set failed) (enabled_adapters repo ads)
      in if \<not> distinct (map ad_vendor chosen) \<or>
            \<not> set (map ad_vendor chosen) \<subseteq> {U ''claude'', U ''codex''} \<or>
            \<not> set failed \<subseteq> set (map ad_vendor chosen)
         then Inl NewFullRunRequired else Inr chosen)"

text \<open>The prompts of the run once more: the same diff, the stored contexts, the stored nonces.\<close>

definition retry_prompts ::
  "(pystr \<Rightarrow> pystr) \<Rightarrow> pull_request \<Rightarrow> review_run \<Rightarrow> pystr \<Rightarrow> (int \<times> json) list \<Rightarrow> exn + prompt_chunk list" where
  "retry_prompts sha pr run diff nonces =
     (if strip diff = [] then Inl NewFullRunRequired
      else
        ebind (stored_contexts sha run) (\<lambda>contexts.
        ebind (build_prompt_chunks sha pr diff (text_of (run_context_text run)) contexts (stored_nonce nonces)) (\<lambda>prompts.
          if (case contexts of None \<Rightarrow> False | Some d \<Rightarrow> list_ex (\<lambda>p. map_of d (pk_hash p) = None) prompts)
          then Inl NewFullRunRequired else Inr prompts)))"

definition require_all_identities :: "(pystr \<times> json option) list \<Rightarrow> identities \<Rightarrow> exn option" where
  "require_all_identities stored idents =
     first_error (map (\<lambda>(v, meta). require_retry_identity meta (dict_get idents v [])) stored)"

definition plan_retry ::
  "world \<Rightarrow> pull_request \<Rightarrow> repo_row \<Rightarrow> review_run \<Rightarrow> policy_snapshot \<Rightarrow> harness \<Rightarrow> adapter list \<Rightarrow> (pystr \<times> json option) list
   \<Rightarrow> pystr \<Rightarrow> prompt_chunk list \<Rightarrow> run_db \<Rightarrow> exn + retry_plan" where
  "plan_retry w pr repo run policy hp ads stored diff prompts db =
     ebind (emap (\<lambda>a. ebind (vendor_result_id (run_id run) (ad_vendor a) db) (\<lambda>i. Inr (ad_vendor a, i))) ads) (\<lambda>ids.
     ebind (emap (\<lambda>a. ebind (vendor_execution_identity (w_hash w) a hp prompts diff policy) (\<lambda>i. Inr (ad_vendor a, i))) ads)
       (\<lambda>idents.
     ebind (resolve_policy_snapshot (h_sha (w_hash w)) (h_num (w_hash w)) (w_config w) (w_attest w)
              (Some (policy_repo_of repo)) (benchmark_runtime_identity (w_hash w) (map snd idents))) (\<lambda>current.
       if \<not> same_policy current policy then Inl NewFullRunRequired
       else
         (case require_all_identities stored idents of
            Some e \<Rightarrow> Inl e
          | None \<Rightarrow>
              ebind (emap (\<lambda>(v, meta). ebind (retry_prompt_chunks meta prompts) (\<lambda>ps. Inr (v, ps))) stored) (\<lambda>opens.
                Inr \<lparr>rt_prompts = prompts, rt_ids = ids, rt_idents = idents, rt_open = opens\<rparr>)))))"

text \<open>The one transaction of a retry: regroup, store the results and the findings, tag anew.\<close>

definition store_retry ::
  "world \<Rightarrow> nat \<Rightarrow> repo_row \<Rightarrow> retry_plan \<Rightarrow> vendor_run list \<Rightarrow> unit act" where
  "store_retry w rid repo plan grouped =
     (case prepare_vendor_results (id_of (rt_ids plan)) grouped of
        (found, _, _) \<Rightarrow>
          andthen (look (\<lambda>s. next_execution_attempt (h_num (w_hash w)) (map snd (rt_ids plan)) (q_db s))) (\<lambda>n.
          andthen (lift n) (\<lambda>attempt.
          andthen (persist_vendor_results (h_num (w_hash w)) grouped (rt_ids plan) (rt_idents plan) attempt) (\<lambda>_.
          andthen (persist (w_later w) rid (map (\<lambda>(vr, f). (Some vr, f, U ''single'', None)) found)) (\<lambda>_.
            if rr_merge repo then change (\<lambda>s. s\<lparr>q_store := retag_consensus rid (q_store s)\<rparr>) else ret ())))))"

definition retry_transaction ::
  "world \<Rightarrow> nat \<Rightarrow> pull_request \<Rightarrow> repo_row \<Rightarrow> pystr option \<Rightarrow> policy_snapshot \<Rightarrow> retry_plan \<Rightarrow> vendor_run list \<Rightarrow> unit act" where
  "retry_transaction w rid pr repo owner policy plan results =
     andthen (assert_process_lease w rid owner) (\<lambda>_.
     andthen (ensure_current_head w rid pr False) (\<lambda>_.
     andthen (look (\<lambda>s. group_retry_duplicates (w_unicode w) (pd_effective (ps_dedupe policy)) rid results (q_store s)))
       (\<lambda>(grouped, st).
     andthen (change (\<lambda>s. s\<lparr>q_store := st\<rparr>)) (\<lambda>_. store_retry w rid repo plan grouped))))"

definition commit_retry ::
  "world \<Rightarrow> nat \<Rightarrow> pull_request \<Rightarrow> repo_row \<Rightarrow> pystr option \<Rightarrow> policy_snapshot \<Rightarrow> retry_plan \<Rightarrow> vendor_run list \<Rightarrow> unit act" where
  "commit_retry w rid pr repo owner policy plan results =
     atomic (retry_transaction w rid pr repo owner policy plan results)"

definition rerun_vendors ::
  "world \<Rightarrow> nat \<Rightarrow> pull_request \<Rightarrow> repo_row \<Rightarrow> pystr option \<Rightarrow> policy_snapshot \<Rightarrow> adapter list \<Rightarrow> retry_plan \<Rightarrow> unit act" where
  "rerun_vendors w rid pr repo owner policy ads plan =
     (let active = filter (\<lambda>a. dict_get (rt_open plan) (ad_vendor a) [] \<noteq> []) ads
      in if active = [] then ret ()
         else
           andthen (lift_option (w_enter w)) (\<lambda>_.
           andthen (lift_option (w_snapshot w)) (\<lambda>_.
           andthen (run_vendors w active (rt_idents plan) (\<lambda>a. dict_get (rt_open plan) (ad_vendor a) [])) (\<lambda>raw.
           andthen (lift_option (w_leave w)) (\<lambda>_.
           andthen (lift (apply_finding_scope (pd_effective (ps_scope policy)) (map chunk_of_prompt (rt_prompts plan)) raw))
             (\<lambda>results. commit_retry w rid pr repo owner policy plan results))))))"

definition retry_failed_vendors ::
  "world \<Rightarrow> review_run \<Rightarrow> pull_request \<Rightarrow> repo_row \<Rightarrow> settings \<Rightarrow> bool \<Rightarrow> pystr option \<Rightarrow> unit act" where
  "retry_failed_vendors w run pr repo st exact owner =
     (case policy_snapshot_from_row (h_sha (w_hash w)) (h_num (w_hash w)) (run_policy run) of
        None \<Rightarrow> fail (Raised_Exn NewFullRunRequired)
      | Some policy \<Rightarrow>
          andthen (look (\<lambda>s. retry_adapters repo (w_adapters w) (failed_vendors (run_id run) (q_db s)))) (\<lambda>chosen.
          andthen (lift chosen) (\<lambda>ads.
            if ads = [] then ret ()
            else
              andthen (lift (w_harness w)) (\<lambda>hp.
              andthen (look (\<lambda>s. map (\<lambda>a. (ad_vendor a,
                 vendor_execution_meta (h_num (w_hash w)) (run_id run) (ad_vendor a) (q_db s))) ads)) (\<lambda>stored.
              andthen (lift (retry_prompt_nonces (map snd stored))) (\<lambda>nonces.
              andthen (wait w 5) (\<lambda>_.
              andthen (lift (ebind (resolve_retry_diff w pr run exact) filter_reviewable)) (\<lambda>diff.
              andthen (lift (retry_prompts (h_sha (w_hash w)) pr run diff nonces)) (\<lambda>prompts.
              andthen (look (\<lambda>s. plan_retry w pr repo run policy (apply_models repo st hp) ads stored diff prompts (q_db s)))
                (\<lambda>plan.
              andthen (lift plan) (\<lambda>p. rerun_vendors w (run_id run) pr repo owner policy ads p)))))))))))"

definition close_retry :: "world \<Rightarrow> nat \<Rightarrow> unit act \<Rightarrow> nat act" where
  "close_retry w rid m s =
     (case m s of
        (Inr _, s') \<Rightarrow> (Inr rid, s')
      | (Inl (Raised_Exn e), s') \<Rightarrow> (Inl (Pipeline_Error rid (w_show w e)), s')
      | (Inl e, s') \<Rightarrow> (Inl e, s'))"

definition NO_TARGET :: pystr where "NO_TARGET = [51116, 49884, 46020, 32, 45824, 49345, 32, 114, 117, 110, 47, 112,
  114, 44032, 32, 50630, 49845, 45768, 45796]"
definition OLD_RUN :: pystr where "OLD_RUN = [44284, 44144, 32, 47532, 48624, 32, 114, 117, 110, 32, 51116, 49884,
  46020, 32, 52712, 49548, 40, 52572, 49888, 32, 51204, 52404, 32, 51116, 47532, 48624, 32, 54596, 50836, 41]"
definition NOT_PARTIAL :: pystr where "NOT_PARTIAL = [48512, 48516, 32, 49892, 54056, 32, 49345, 53468, 44032, 32,
  50500, 45768, 46972, 32, 51116, 49884, 46020, 32, 52712, 49548]"

definition retry_pr ::
  "world \<Rightarrow> nat \<Rightarrow> nat \<Rightarrow> pystr option \<Rightarrow> pystr option \<Rightarrow> repo_row \<Rightarrow> settings \<Rightarrow> nat act" where
  "retry_pr w pid rid expected owner repo st =
     andthen (look (\<lambda>s. (if rid = 0 then None else get_run rid (q_db s), get_pr pid (db_prs (q_db s)),
                         latest_run (\<lambda>r. run_pr r = pid) (q_db s)))) (\<lambda>found.
       case found of
         (Some run, Some pr, latest) \<Rightarrow>
           if run_head_sha run \<noteq> pr_head_sha pr \<or> (case expected of None \<Rightarrow> False | Some h \<Rightarrow> pr_head_sha pr \<noteq> h)
           then fail (Stale_Head rid (run_head_sha run) (pr_head_sha pr))
           else if (case latest of None \<Rightarrow> True | Some r \<Rightarrow> run_id r \<noteq> rid) then fail (Pipeline_Error rid OLD_RUN)
           else if run_status run \<noteq> Run_Done then fail (Pipeline_Error rid NOT_PARTIAL)
           else close_retry w rid (retry_failed_vendors w run pr repo st (expected \<noteq> None) owner)
       | _ \<Rightarrow> fail (Pipeline_Error rid NO_TARGET))"

end
