(* ===== verification/Review_Outcome.thy ===== *)
theory Review_Outcome
  imports Pipeline
begin

text \<open>
  How a review run ends.  While a run is open every step of it keeps the run's row running and its findings empty; the run
  is closed by one of four statements, and only the last transaction stores findings.
\<close>

section \<open>Steps that keep the run open\<close>

definition untouched :: "nat \<Rightarrow> (pipe_db \<Rightarrow> pipe_db) \<Rightarrow> bool" where
  "untouched rid f \<longleftrightarrow>
     (\<forall>s. get_run rid (q_db (f s)) = get_run rid (q_db s) \<and>
          run_findings rid (q_store (f s)) = run_findings rid (q_store s))"

definition open_run :: "nat \<Rightarrow> pystr \<Rightarrow> pipe_db \<Rightarrow> bool" where
  "open_run rid head s \<longleftrightarrow>
     (\<exists>r. get_run rid (q_db s) = Some r \<and> run_status r = Run_Running \<and> run_head_sha r = head) \<and>
     run_findings rid (q_store s) = []"

definition closed_empty :: "nat \<Rightarrow> run_status \<Rightarrow> pipe_db \<Rightarrow> bool" where
  "closed_empty rid status s \<longleftrightarrow>
     (\<exists>r. get_run rid (q_db s) = Some r \<and> run_status r = status \<and> run_finished_at r \<noteq> None) \<and>
     run_findings rid (q_store s) = []"

definition reviewed_head :: "nat \<Rightarrow> pystr \<Rightarrow> pipe_db \<Rightarrow> bool" where
  "reviewed_head pid head s \<longleftrightarrow>
     (case get_pr pid (db_prs (q_db s)) of
        None \<Rightarrow> True | Some p \<Rightarrow> pr_head_sha p = head \<and> pr_last_reviewed p = Some head)"

definition closed_done :: "nat \<Rightarrow> nat \<Rightarrow> pystr \<Rightarrow> pipe_db \<Rightarrow> bool" where
  "closed_done rid pid head s \<longleftrightarrow>
     (\<exists>r. get_run rid (q_db s) = Some r \<and> run_status r = Run_Done \<and> run_head_sha r = head \<and> run_finished_at r \<noteq> None) \<and>
     reviewed_head pid head s"

definition quiet :: "nat \<Rightarrow> pystr \<Rightarrow> 'a act \<Rightarrow> bool" where
  "quiet rid head m \<longleftrightarrow>
     (\<forall>s. open_run rid head s \<longrightarrow>
        open_run rid head (snd (m s)) \<and> (\<forall>e. fst (m s) = Inl e \<longrightarrow> (\<exists>x. e = Raised_Exn x)))"

text \<open>What an action that ends the run may leave.\<close>

definition outcome :: "nat \<Rightarrow> nat \<Rightarrow> pystr \<Rightarrow> pipe_error + unit \<Rightarrow> pipe_db \<Rightarrow> bool" where
  "outcome rid pid head r s \<longleftrightarrow>
     (case r of
        Inr _ \<Rightarrow> closed_empty rid Run_Canceled s \<or> closed_done rid pid head s
      | Inl (Stale_Head n h a) \<Rightarrow> n = rid \<and> h = head \<and> a \<noteq> head \<and> closed_empty rid Run_Canceled s
      | Inl (Lease_Lost n) \<Rightarrow> n = rid \<and> open_run rid head s
      | Inl (Raised_Exn x) \<Rightarrow> (\<exists>r. get_run rid (q_db s) = Some r) \<and> run_findings rid (q_store s) = []
      | Inl (Pipeline_Error n x) \<Rightarrow> False)"

definition settles :: "nat \<Rightarrow> nat \<Rightarrow> pystr \<Rightarrow> unit act \<Rightarrow> bool" where
  "settles rid pid head m \<longleftrightarrow> (\<forall>s. open_run rid head s \<longrightarrow> outcome rid pid head (fst (m s)) (snd (m s)))"

lemma get_run_lookup: "get_run rid db = run_key.lookup (rows (db_runs db)) rid"
  by (simp add: get_run_def run_key.lookup_def)

lemma get_run_update:
  "(\<And>r. run_id (g r) = run_id r) \<Longrightarrow>
   get_run rid (update_runs P g db) = map_option (\<lambda>r. if P r then g r else r) (get_run rid db)"
  by (simp add: get_run_lookup update_runs_def run_key.lookup_update)

lemma get_run_id: "get_run rid db = Some r \<Longrightarrow> run_id r = rid"
  by (auto simp: get_run_def find_Some_iff)

lemma get_run_results [simp]: "get_run rid (update_results P g db) = get_run rid db"
  by (simp add: get_run_def update_results_def)

lemma get_run_prs [simp]: "get_run rid (db\<lparr>db_prs := ps\<rparr>) = get_run rid db"
  by (simp add: get_run_def)

lemma get_run_add_result [simp]: "get_run rid (snd (add_vendor_result now n v st db)) = get_run rid db"
  by (simp add: get_run_def add_vendor_result_def Let_def)

named_theorems quiet_steps

lemma quietD:
  "quiet rid head m \<Longrightarrow> open_run rid head s \<Longrightarrow> m s = (r, s') \<Longrightarrow>
   open_run rid head s' \<and> (\<forall>e. r = Inl e \<longrightarrow> (\<exists>x. e = Raised_Exn x))"
  by (metis fst_conv quiet_def snd_conv)

lemma quiet_ret [quiet_steps]: "quiet rid head (ret x)"
  by (simp add: quiet_def ret_def)

lemma quiet_look [quiet_steps]: "quiet rid head (look f)"
  by (simp add: quiet_def look_def)

lemma quiet_raise [quiet_steps]: "quiet rid head (fail (Raised_Exn e))"
  by (simp add: quiet_def fail_def)

lemma quiet_lift [quiet_steps]: "quiet rid head (lift r)"
  by (simp add: quiet_def lift_def split: sum.split)

lemma quiet_lift_option [quiet_steps]: "quiet rid head (lift_option e)"
  by (simp add: quiet_steps lift_option_def split: option.split)

lemma quiet_andthen [quiet_steps]:
  assumes "quiet rid head m" "\<And>x. quiet rid head (f x)"
  shows "quiet rid head (andthen m f)"
  unfolding quiet_def
proof (intro allI impI)
  fix s assume "open_run rid head s"
  with assms(1) have m: "open_run rid head (snd (m s))" "\<forall>e. fst (m s) = Inl e \<longrightarrow> (\<exists>x. e = Raised_Exn x)"
    by (auto simp: quiet_def)
  then show "open_run rid head (snd (andthen m f s)) \<and> (\<forall>e. fst (andthen m f s) = Inl e \<longrightarrow> (\<exists>x. e = Raised_Exn x))"
    using assms(2) by (auto simp: andthen_def quiet_def split: prod.split sum.split)
qed

lemma open_untouched: "untouched rid f \<Longrightarrow> open_run rid head (f s) = open_run rid head s"
  by (simp add: untouched_def open_run_def)

lemma quiet_change: "untouched rid f \<Longrightarrow> quiet rid head (change f)"
  by (simp add: quiet_def change_def open_untouched)

lemma quiet_wait [quiet_steps]: "(\<And>k. untouched rid (w_meanwhile w k)) \<Longrightarrow> quiet rid head (wait w k)"
  by (simp add: wait_def quiet_change)

lemma quiet_each [quiet_steps]: "(\<And>x. quiet rid head (f x)) \<Longrightarrow> quiet rid head (each f xs)"
  by (induction xs) (simp_all add: quiet_steps)

lemma quiet_screens [quiet_steps]: "quiet rid head (change (\<lambda>s. s\<lparr>q_screens := f s\<rparr>))"
  by (intro quiet_change) (simp add: untouched_def)

text \<open>An update of the run's row that leaves its status and its head.\<close>

lemma open_update:
  assumes "\<And>r. run_id (g r) = run_id r" "\<And>r. run_status (g r) = run_status r" "\<And>r. run_head_sha (g r) = run_head_sha r"
    "open_run rid head s"
  shows "open_run rid head (s\<lparr>q_db := update_runs P g (q_db s)\<rparr>)"
proof -
  obtain r where "get_run rid (q_db s) = Some r" "run_status r = Run_Running" "run_head_sha r = head"
    using assms(4) by (auto simp: open_run_def)
  then show ?thesis
    using assms by (cases "P r") (simp_all add: open_run_def get_run_update)
qed

lemma quiet_set_base_sha [quiet_steps]: "quiet rid head (change_db (set_base_sha rid b))"
  by (auto simp: quiet_def change_db_def change_def set_base_sha_def intro!: open_update)

lemma quiet_set_context [quiet_steps]: "quiet rid head (change_db (set_context n t meta))"
  by (auto simp: quiet_def change_db_def change_def set_context_def intro!: open_update)

lemma quiet_set_chunks [quiet_steps]: "quiet rid head (try_db (set_context_chunks n rws patch))"
  by (auto simp: quiet_def try_db_def set_context_chunks_def Let_def intro!: open_update split: option.split sum.split)

lemma quiet_set_policy [quiet_steps]: "quiet rid head (try_db (set_policy_snapshot n p))"
  by (auto simp: quiet_def try_db_def set_policy_snapshot_def Let_def intro!: open_update split: sum.split)

lemma quiet_add_result [quiet_steps]: "quiet rid head (change_with (add_vendor_result now n v st))"
  by (simp add: quiet_def change_with_def open_run_def case_prod_beta)

lemma finish_result_cases:
  "finish_vendor_result num vid status err dur raw meta db = Inr db' \<Longrightarrow> \<exists>P g. db' = update_results P g db"
  by (auto simp: finish_vendor_result_def Let_def ebind_Inr_iff split: if_splits)

lemma quiet_finish_result [quiet_steps]: "quiet rid head (try_db (finish_vendor_result num vid status err dur raw meta))"
  by (auto simp: quiet_def try_db_def open_run_def dest!: finish_result_cases split: sum.split)

lemma quiet_persist_results [quiet_steps]: "quiet rid head (persist_vendor_results num rs ids idents n)"
  by (auto simp: persist_vendor_results_def intro!: quiet_steps)

lemma quiet_atomic [quiet_steps]: "quiet rid head m \<Longrightarrow> quiet rid head (atomic m)"
  by (auto simp: quiet_def atomic_def split: prod.split sum.split)

lemma quiet_resolve_diff [quiet_steps]:
  "(\<And>k. untouched rid (w_meanwhile w k)) \<Longrightarrow> quiet rid head (resolve_diff w rid repo pr st exact)"
  unfolding resolve_diff_def Let_def
  by (intro quiet_steps) (auto intro!: quiet_steps split: option.split prod.split)

lemma quiet_prescreen [quiet_steps]:
  "(\<And>k. untouched rid (w_meanwhile w k)) \<Longrightarrow> quiet rid head (prescreen_diff w pr diff model threshold fallback)"
  unfolding prescreen_diff_def Let_def by (intro quiet_steps)

lemma quiet_gather [quiet_steps]:
  "(\<And>k. untouched rid (w_meanwhile w k)) \<Longrightarrow> quiet rid head (gather_contexts w rid diff n m)"
  unfolding gather_contexts_def Let_def by (intro quiet_steps)

lemma quiet_bind [quiet_steps]: "quiet rid head (bind_identities w rid repo ads hp prompts diff policy)"
  unfolding bind_identities_def by (auto intro!: quiet_steps)

lemma quiet_start [quiet_steps]: "quiet rid head (start_results w rid ads)"
  by (induction ads) (auto intro!: quiet_steps)

lemma quiet_vendors [quiet_steps]:
  "(\<And>k. untouched rid (w_meanwhile w k)) \<Longrightarrow> quiet rid head (run_vendors w ads idents prompts_of)"
  unfolding run_vendors_def by (intro quiet_steps)

lemma quiet_verify [quiet_steps]:
  "(\<And>k. untouched rid (w_meanwhile w k)) \<Longrightarrow> quiet rid head (verify_step w repo st prompts merged)"
  unfolding verify_step_def by (auto intro!: quiet_steps split: option.split)

section \<open>The statements that end a run\<close>

lemma settles_andthen:
  assumes "quiet rid head m" "\<And>x. settles rid pid head (f x)"
  shows "settles rid pid head (andthen m f)"
  unfolding settles_def
proof (intro allI impI)
  fix s assume s: "open_run rid head s"
  obtain r s' where m: "m s = (r, s')" by fastforce
  from quietD[OF assms(1) s m] have o: "open_run rid head s'" "\<forall>e. r = Inl e \<longrightarrow> (\<exists>x. e = Raised_Exn x)" by auto
  show "outcome rid pid head (fst (andthen m f s)) (snd (andthen m f s))"
  proof (cases r)
    case (Inl e)
    with o obtain x where "e = Raised_Exn x" by auto
    with Inl m o(1) show ?thesis by (auto simp: andthen_def outcome_def open_run_def)
  next
    case (Inr x)
    with m o(1) assms(2)[of x] show ?thesis by (simp add: andthen_def settles_def)
  qed
qed

lemma settles_raise: "settles rid pid head (fail (Raised_Exn e))"
  by (auto simp: settles_def fail_def outcome_def open_run_def)

lemma finish_open:
  assumes "open_run rid head s"
  shows "closed_empty rid status (s\<lparr>q_db := finish_run now rid status err (q_db s)\<rparr>)"
  using assms get_run_id by (fastforce simp: open_run_def closed_empty_def finish_run_def get_run_update)

lemma closed_prs [simp]: "closed_empty rid status (s\<lparr>q_db := (q_db s)\<lparr>db_prs := ps\<rparr>\<rparr>) = closed_empty rid status s"
  by (simp add: closed_empty_def)

lemma settles_finish: "settles rid pid head (change_db (finish_run now rid Run_Canceled err))"
  by (simp add: settles_def change_db_def change_def outcome_def finish_open)

lemma settles_cancel_unreviewed:
  assumes "pr_head_sha pr = head" "rid \<noteq> 0"
  shows "settles rid pid head (cancel_unreviewed w rid pr err)"
  unfolding settles_def
proof (intro allI impI)
  fix s assume s: "open_run rid head s"
  have "closed_empty rid Run_Canceled
      (s\<lparr>q_db := (finish_run (w_now w) rid Run_Canceled err (q_db s))\<lparr>db_prs := ps\<rparr>\<rparr>)" for ps
    using finish_open[OF s, of Run_Canceled "w_now w" err] by (simp add: closed_empty_def)
  with assms finish_open[OF s, of Run_Canceled "w_now w"]
  show "outcome rid pid head (fst (cancel_unreviewed w rid pr err s)) (snd (cancel_unreviewed w rid pr err s))"
    by (simp add: cancel_unreviewed_def ensure_current_head_def mark_pr_reviewed_def andthen_def look_def ret_def fail_def
        change_db_def change_def outcome_def)
qed

lemma open_raised: "open_run rid head s \<Longrightarrow> outcome rid pid head (Inl (Raised_Exn x)) s"
  by (auto simp: open_run_def outcome_def)

lemma settles_fail_all: "settles rid pid head (fail_all w rid results ids idents errors)"
  unfolding settles_def
proof (intro allI impI)
  fix s assume s: "open_run rid head s"
  obtain r s' where m: "persist_vendor_results (h_num (w_hash w)) results ids idents 1 s = (r, s')" by fastforce
  from quietD[OF quiet_persist_results s m] have o: "open_run rid head s'" "\<forall>e. r = Inl e \<longrightarrow> (\<exists>x. e = Raised_Exn x)"
    by auto
  from finish_open[OF o(1), of Run_Failed] have "\<And>e. outcome rid pid head (Inl (Raised_Exn e))
      (s'\<lparr>q_db := finish_run (w_later w) rid Run_Failed (Some ALL_FAILED) (q_db s')\<rparr>)"
    by (auto simp: closed_empty_def outcome_def)
  with m s o(2) open_raised show "outcome rid pid head (fst (fail_all w rid results ids idents errors s))
      (snd (fail_all w rid results ids idents errors s))"
    by (cases r) (auto simp: fail_all_def atomic_def andthen_def change_db_def change_def fail_def)
qed

text \<open>Actions that leave a part of the database as it is.\<close>

definition keeps :: "(pipe_db \<Rightarrow> 'b) \<Rightarrow> 'a act \<Rightarrow> bool" where
  "keeps part_of m \<longleftrightarrow> (\<forall>s. part_of (snd (m s)) = part_of s)"

named_theorems keep_steps

lemma keepsD: "keeps f m \<Longrightarrow> m s = (r, s') \<Longrightarrow> f s' = f s"
  by (metis keeps_def snd_conv)

lemma keeps_andthen [keep_steps]: "keeps f m \<Longrightarrow> (\<And>x. keeps f (g x)) \<Longrightarrow> keeps f (andthen m g)"
  by (simp add: keeps_def andthen_def split: prod.split sum.split) (metis snd_conv)

lemma keeps_plain [keep_steps]: "keeps f (ret x)" "keeps f (fail e)" "keeps f (lift r)" "keeps f (look g)"
  by (simp_all add: keeps_def ret_def fail_def lift_def look_def split: sum.split)

lemma keeps_each [keep_steps]: "(\<And>x. keeps f (g x)) \<Longrightarrow> keeps f (each g xs)"
  by (induction xs) (simp_all add: keep_steps)

lemma keeps_finish_result [keep_steps]:
  "keeps (\<lambda>s. db_prs (q_db s)) (try_db (finish_vendor_result num vid status err dur raw meta))"
  "keeps q_store (try_db (finish_vendor_result num vid status err dur raw meta))"
  by (auto simp: keeps_def try_db_def update_results_def dest!: finish_result_cases split: sum.split)

lemma keeps_persist_results [keep_steps]:
  "keeps (\<lambda>s. db_prs (q_db s)) (persist_vendor_results num rs ids idents n)"
  "keeps q_store (persist_vendor_results num rs ids idents n)"
  unfolding persist_vendor_results_def by (intro keep_steps)+

definition persist_items :: "int \<Rightarrow> nat \<Rightarrow> item list \<Rightarrow> finding_store \<Rightarrow> finding_store" where
  "persist_items now rid items st = fold (\<lambda>it st. snd (add_finding now (finding_of_item rid it) st)) items st"

lemma persist_run: "persist now rid items s = (Inr (), s\<lparr>q_store := persist_items now rid items (q_store s)\<rparr>)"
  by (induction items arbitrary: s) (simp_all add: persist_def persist_items_def ret_def andthen_def change_def)

lemma get_pr_lookup: "get_pr pid t = pr_key.lookup (rows t) pid"
  by (simp add: get_pr_def pr_key.lookup_def)

lemma get_pr_marked:
  "get_pr pid (mark_reviewed pid sha t) = map_option (\<lambda>p. p\<lparr>pr_last_reviewed := Some sha\<rparr>) (get_pr pid t)"
  by (auto simp: get_pr_lookup mark_reviewed_def pr_key.lookup_update dest: pr_key.lookup_Some_set
      intro!: option.map_cong0 split: option.split)

lemma reviewed_marked:
  "actual_head pr s = pr_head_sha pr \<Longrightarrow> db_prs (q_db s') = mark_reviewed (pr_id pr) (pr_head_sha pr) (db_prs (q_db s)) \<Longrightarrow>
   reviewed_head (pr_id pr) (pr_head_sha pr) s'"
  by (simp add: reviewed_head_def get_pr_marked actual_head_def split: option.splits)

lemma open_done:
  assumes "open_run rid head s"
  shows "\<exists>r. get_run rid (finish_run now rid Run_Done err (q_db s)) = Some r \<and> run_status r = Run_Done \<and> run_head_sha r = head
    \<and> run_finished_at r \<noteq> None"
  using assms get_run_id by (fastforce simp: open_run_def finish_run_def get_run_update)

lemma finish_keeps_prs [simp]: "db_prs (finish_run now rid st err db) = db_prs db"
  by (simp add: finish_run_def update_runs_def)

lemma settles_commit:
  assumes "pr_head_sha pr = head" "pr_id pr = pid"
  shows "settles rid pid head (commit_results w rid pr owner results ids idents items)"
  unfolding settles_def
proof (intro allI impI)
  fix s assume s: "open_run rid head s"
  let ?num = "h_num (w_hash w)"
  let ?canceled = "map (\<lambda>r. r\<lparr>vr_status := U ''canceled''\<rparr>) results"
  obtain r s1 where m: "persist_vendor_results ?num results ids idents 1 s = (r, s1)" by fastforce
  from quietD[OF quiet_persist_results s m] have o: "open_run rid head s1" "\<forall>e. r = Inl e \<longrightarrow> (\<exists>x. e = Raised_Exn x)" by auto
  have prs: "db_prs (q_db s1) = db_prs (q_db s)" using keepsD[OF keeps_persist_results(1) m] by simp
  obtain r2 s2 where m2: "persist_vendor_results ?num ?canceled ids idents 1 s = (r2, s2)" by fastforce
  from quietD[OF quiet_persist_results s m2] have o2: "open_run rid head s2" "\<forall>e. r2 = Inl e \<longrightarrow> (\<exists>x. e = Raised_Exn x)"
    by auto
  have finished: "closed_done rid pid head
      (s1\<lparr>q_store := st, q_db := (finish_run (w_later w) rid Run_Done None (q_db s1))
         \<lparr>db_prs := mark_reviewed pid head (db_prs (q_db s1))\<rparr>\<rparr>)" if "actual_head pr s = head" for st
  proof -
    have "reviewed_head pid head s'" if "db_prs (q_db s') = mark_reviewed pid head (db_prs (q_db s))" for s'
      using reviewed_marked[of pr s s'] that \<open>actual_head pr s = head\<close> assms by simp
    with open_done[OF o(1), of "w_later w" None] prs show ?thesis by (simp add: closed_done_def)
  qed
  show "outcome rid pid head (fst (commit_results w rid pr owner results ids idents items s))
      (snd (commit_results w rid pr owner results ids idents items s))"
  proof (cases "assert_process_lease w rid owner s = (Inr (), s)")
    case False
    then have "assert_process_lease w rid owner s = (Inl (Lease_Lost rid), s)"
      by (auto simp: assert_process_lease_def split: option.splits if_splits)
    with s show ?thesis by (simp add: commit_results_def atomic_def andthen_def outcome_def)
  next
    case leased: True
    show ?thesis
    proof (cases "actual_head pr s = head")
      case True
      from leased True assms m o(2) finished[OF True] open_raised[OF s] show ?thesis
        by (cases r) (auto simp: commit_results_def atomic_def andthen_def look_def persist_run change_db_def change_def
            mark_pr_reviewed_def ret_def outcome_def)
    next
      case False
      note closed = finish_open[OF o2(1), of Run_Canceled "w_later w" "Some STALE_RUN_ERROR"] and here = leased False assms m2
      show ?thesis
      proof (cases r2)
        case (Inl e)
        with o2(2) obtain x where x: "e = Raised_Exn x" by blast
        from open_raised[OF s] here Inl x show ?thesis
          by (simp add: commit_results_def cancel_stale_results_def atomic_def andthen_def look_def ret_def outcome_def)
      next
        case (Inr u)
        with closed here show ?thesis
          by (simp add: commit_results_def cancel_stale_results_def atomic_def andthen_def look_def change_db_def
              change_def ret_def fail_def outcome_def)
      qed
    qed
  qed
qed

section \<open>The run as a whole\<close>

lemma settles_settle_results:
  assumes "\<And>k. untouched rid (w_meanwhile w k)" "pr_head_sha pr = head" "pr_id pr = pid"
  shows "settles rid pid head (settle_results w rid pr repo st owner ids idents prompts results)"
  unfolding settle_results_def
  by (auto intro!: settles_andthen quiet_steps settles_fail_all settles_commit assms split: prod.split)

lemma settles_review_diff:
  assumes "\<And>k. untouched rid (w_meanwhile w k)" "pr_head_sha pr = head" "pr_id pr = pid"
  shows "settles rid pid head (review_diff w rid pr repo st owner policy hp ads diff)"
  unfolding review_diff_def
  by (auto intro!: settles_andthen quiet_steps settles_settle_results assms split: prod.split)

lemma settles_execute_run:
  assumes "\<And>k. untouched rid (w_meanwhile w k)" "pr_head_sha pr = head" "pr_id pr = pid" "rid \<noteq> 0"
  shows "settles rid pid head (execute_run w rid pr repo st trig exact owner policy)"
  unfolding execute_run_def Let_def
  by (auto intro!: settles_andthen quiet_steps settles_review_diff settles_cancel_unreviewed settles_finish assms split: prod.split)

definition run_ended :: "nat \<Rightarrow> pipe_error + nat \<Rightarrow> run_status \<Rightarrow> bool" where
  "run_ended rid r status \<longleftrightarrow>
     (case r of
        Inr n \<Rightarrow> n = rid \<and> status \<in> {Run_Done, Run_Canceled}
      | Inl (Pipeline_Error n m) \<Rightarrow> n = rid \<and> status = Run_Failed
      | Inl (Stale_Head n h a) \<Rightarrow> n = rid \<and> h \<noteq> a \<and> status = Run_Canceled
      | Inl (Lease_Lost n) \<Rightarrow> n = rid \<and> status = Run_Running
      | Inl (Raised_Exn e) \<Rightarrow> False)"

definition not_started :: "pipe_error + nat \<Rightarrow> bool" where
  "not_started r \<longleftrightarrow> (\<exists>h a. r = Inl (Stale_Head 0 h a)) \<or> (\<exists>e. r = Inl (Raised_Exn e))"

definition settled :: "nat \<Rightarrow> nat \<Rightarrow> pipe_error + nat \<Rightarrow> pipe_db \<Rightarrow> bool" where
  "settled rid pid r s \<longleftrightarrow>
     (\<exists>run. get_run rid (q_db s) = Some run \<and> run_ended rid r (run_status run) \<and>
        (run_findings rid (q_store s) = [] \<or> run_status run = Run_Done) \<and>
        (run_status run \<noteq> Run_Running \<longrightarrow> run_finished_at run \<noteq> None) \<and>
        (run_status run = Run_Done \<longrightarrow> reviewed_head pid (run_head_sha run) s))"

lemma close_run_settled:
  assumes "settles rid pid head m" "open_run rid head s" "close_run w rid m s = (r, s')"
  shows "settled rid pid r s'"
proof -
  obtain q t where m: "m s = (q, t)" by fastforce
  with assms(1,2) have o: "outcome rid pid head q t" by (force simp: settles_def)
  show ?thesis
  proof (cases q)
    case (Inr u)
    with m assms(3) have "r = Inr rid" "s' = t" by (auto simp: close_run_def)
    with o Inr show ?thesis by (auto simp: outcome_def closed_empty_def closed_done_def settled_def run_ended_def)
  next
    case (Inl e)
    show ?thesis
    proof (cases e)
      case (Raised_Exn x)
      with m Inl assms(3) have r: "r = Inl (Pipeline_Error rid (w_show w x))"
        "s' = t\<lparr>q_db := finish_run (w_later w) rid Run_Failed (Some (w_show w x)) (q_db t)\<rparr>"
        by (auto simp: close_run_def)
      from o Inl Raised_Exn obtain run where "get_run rid (q_db t) = Some run" "run_findings rid (q_store t) = []"
        by (auto simp: outcome_def)
      with get_run_id[OF this(1)] r show ?thesis by (simp add: settled_def run_ended_def finish_run_def get_run_update)
    qed (use m Inl assms(3) o in \<open>auto simp: close_run_def outcome_def open_run_def closed_empty_def settled_def run_ended_def\<close>)
  qed
qed

lemma create_run_open:
  assumes "get_run rid (q_db s) = None" "run_findings rid (q_store s) = []" "rid = next_id (db_runs (q_db s))"
    "create_run now pid head trig effort merge owner job policy (q_db s) = (n, d)"
  shows "n = rid \<and> open_run rid head (s\<lparr>q_db := d\<rparr>)"
  using assms by (auto simp: create_run_def Let_def open_run_def get_run_lookup run_key.lookup_insert)

lemma review_pr_cases:
  assumes fresh: "rid = next_id (db_runs (q_db s))" "rid \<noteq> 0" "get_run rid (q_db s) = None" "run_findings rid (q_store s) = []"
    and apart: "\<forall>k. untouched rid (w_meanwhile w k)"
    and run: "review_pr w pid trig expected owner job repo st s = (r, s')"
  shows "not_started r \<and> s' = s \<or> settled rid pid r s'"
proof (cases "get_pr pid (db_prs (q_db s))")
  case None
  with run show ?thesis by (auto simp: review_pr_def andthen_def look_def fail_def not_started_def)
next
  case (Some pr)
  then have id: "pr_id pr = pid" by (auto simp: get_pr_def find_Some_iff)
  let ?late = "case expected of None \<Rightarrow> False | Some h \<Rightarrow> h \<noteq> pr_head_sha pr"
  let ?policy = "resolve_policy_snapshot (h_sha (w_hash w)) (h_num (w_hash w)) (w_config w) (w_attest w)
                        (Some (policy_repo_of repo)) JNull"
  show ?thesis
  proof (cases "?late \<or> isl ?policy")
    case True
    with run Some show ?thesis
      by (cases ?policy)
        (auto simp: review_pr_def andthen_def look_def fail_def lift_def not_started_def split: if_splits)
  next
    case False
    then obtain policy where p: "?policy = Inr policy" by (cases ?policy) auto
    obtain n d where c: "create_run (w_now w) pid (pr_head_sha pr) trig (Some (effort_of repo st)) (rr_merge repo)
        owner job None (q_db s) = (n, d)" by fastforce
    have o: "n = rid" "open_run rid (pr_head_sha pr) (s\<lparr>q_db := d\<rparr>)"
      using create_run_open[OF fresh(3,4,1) c] by auto
    have "settles rid pid (pr_head_sha pr) (execute_run w rid pr repo st trig (expected \<noteq> None) owner policy)"
      using apart fresh(2) id by (intro settles_execute_run) auto
    moreover have "close_run w rid (execute_run w rid pr repo st trig (expected \<noteq> None) owner policy) (s\<lparr>q_db := d\<rparr>) = (r, s')"
      using run Some False p c o(1) by (simp add: review_pr_def andthen_def look_def lift_def change_with_def)
    ultimately show ?thesis using close_run_settled o(2) by blast
  qed
qed

end
