(* ===== verification/Retry_Outcome.thy ===== *)
theory Retry_Outcome
  imports Retry Review_Outcome
begin

text \<open>
  What a retry may do to the database: its one transaction adds findings to the run and regroups the ones that are there, and
  nothing else is ever written.
\<close>

section \<open>How the findings grow\<close>

text \<open>The same finding as far as a person has seen or judged it; it can lose its eligibility but not regain it.\<close>

definition judged_part :: "finding \<Rightarrow> finding" where
  "judged_part f = f\<lparr>f_duplicate_group := None, f_duplicate_suggested := False, f_posting_eligible := True,
                      f_consensus := None, f_consensus_group := None\<rparr>"

definition same_finding :: "finding \<Rightarrow> finding \<Rightarrow> bool" where
  "same_finding f g \<longleftrightarrow> judged_part g = judged_part f \<and> (f_posting_eligible g \<longrightarrow> f_posting_eligible f)"

definition others_of :: "nat \<Rightarrow> finding_store \<Rightarrow> finding list" where
  "others_of rid st = filter (\<lambda>f. f_run f \<noteq> rid) (findings st)"

definition grown :: "nat \<Rightarrow> finding_store \<Rightarrow> finding_store \<Rightarrow> bool" where
  "grown rid st st' \<longleftrightarrow>
     decisions st' = decisions st \<and>
     (\<exists>old new. findings st' = old @ new \<and> list_all2 same_finding (findings st) old \<and>
        list_all (\<lambda>f. f_run f = rid \<and> f_status f = Pending) new) \<and>
     (store_wf st \<longrightarrow> store_wf st' \<and> others_of rid st' = others_of rid st)"

lemma same_finding_refl [simp]: "same_finding f f"
  by (simp add: same_finding_def)

lemma same_finding_facts:
  assumes "same_finding f g"
  shows "f_id g = f_id f" "f_run g = f_run f" "f_status g = f_status f"
proof -
  have eq: "judged_part g = judged_part f" using assms by (simp add: same_finding_def)
  show "f_id g = f_id f" "f_run g = f_run f" "f_status g = f_status f"
    using arg_cong[OF eq, of f_id] arg_cong[OF eq, of f_run] arg_cong[OF eq, of f_status] by (simp_all add: judged_part_def)
qed

lemma same_finding_trans: "same_finding f g \<Longrightarrow> same_finding g h \<Longrightarrow> same_finding f h"
  by (simp add: same_finding_def)

lemma grownI:
  assumes "decisions st' = decisions st" "findings st' = old @ new" "list_all2 same_finding (findings st) old"
    "list_all (\<lambda>f. f_run f = rid \<and> f_status f = Pending) new"
    "store_wf st \<Longrightarrow> store_wf st' \<and> others_of rid st' = others_of rid st"
  shows "grown rid st st'"
  using assms unfolding grown_def by blast

lemma grown_refl [simp]: "grown rid st st"
  by (rule grownI[of _ _ "findings st" "[]"]) (simp_all add: list_all2_same)

lemma grown_trans:
  assumes "grown rid a b" "grown rid b c"
  shows "grown rid a c"
proof -
  obtain o1 n1 where 1: "findings b = o1 @ n1" "list_all2 same_finding (findings a) o1"
    "list_all (\<lambda>f. f_run f = rid \<and> f_status f = Pending) n1" using assms(1) by (auto simp: grown_def)
  obtain o2 n2 where 2: "findings c = o2 @ n2" "list_all2 same_finding (findings b) o2"
    "list_all (\<lambda>f. f_run f = rid \<and> f_status f = Pending) n2" using assms(2) by (auto simp: grown_def)
  obtain p q where pq: "o2 = p @ q" "list_all2 same_finding o1 p" "list_all2 same_finding n1 q"
    using 2(2) 1(1) by (auto simp: list_all2_append1)
  have "list_all2 same_finding (findings a) p"
    using list_all2_trans[OF same_finding_trans 1(2) pq(2)] .
  moreover have "list_all (\<lambda>f. f_run f = rid \<and> f_status f = Pending) q"
    using pq(3) 1(3) by (induction rule: list_all2_induct) (auto dest: same_finding_facts)
  ultimately have "\<exists>old new. findings c = old @ new \<and> list_all2 same_finding (findings a) old \<and>
      list_all (\<lambda>f. f_run f = rid \<and> f_status f = Pending) new"
    using 2(1,3) pq(1) by (intro exI[of _ p] exI[of _ "q @ n2"]) simp
  with assms show ?thesis by (auto simp: grown_def)
qed

lemma grown_fold:
  assumes "\<And>x st'. x \<in> set xs \<Longrightarrow> grown rid st st' \<Longrightarrow> grown rid st' (f x st')"
  shows "grown rid st (fold f xs st)"
proof -
  have "grown rid st t \<Longrightarrow> grown rid st (fold f xs t)" for t
    using assms
  proof (induction xs arbitrary: t)
    case (Cons x xs)
    from Cons.prems(1) Cons.prems(2)[of x t] have "grown rid st (f x t)" by (auto intro: grown_trans)
    with Cons.IH Cons.prems(2) show ?case by simp
  qed simp
  then show ?thesis by simp
qed

definition has_row :: "nat \<Rightarrow> nat \<Rightarrow> finding_store \<Rightarrow> bool" where
  "has_row rid fid st \<longleftrightarrow> (\<exists>f\<in>set (findings st). f_id f = fid \<and> f_run f = rid)"

lemma grown_has_row:
  assumes "grown rid st st'" "has_row rid fid st"
  shows "has_row rid fid st'"
proof -
  obtain old new where st': "findings st' = old @ new" "list_all2 same_finding (findings st) old"
    using assms(1) by (auto simp: grown_def)
  obtain i where i: "i < length (findings st)" "f_id (findings st ! i) = fid" "f_run (findings st ! i) = rid"
    using assms(2) by (auto simp: has_row_def in_set_conv_nth)
  have "same_finding (findings st ! i) (old ! i)" "i < length old"
    using st'(2) i(1) by (simp_all add: list_all2_conv_all_nth)
  with i(2,3) st'(1) same_finding_facts[of "findings st ! i" "old ! i"] show ?thesis
    by (auto simp: has_row_def intro!: bexI[of _ "old ! i"])
qed

text \<open>An update of one row by its id.\<close>

lemma others_update:
  assumes "store_wf st" "has_row rid fid st" "\<And>f. f_run (g f) = f_run f"
  shows "filter (\<lambda>f. f_run f \<noteq> rid) (sql_update (\<lambda>f. f_id f = fid) g (findings st)) = others_of rid st"
proof -
  have u: "finding_key.unique_keys (findings st)" using assms(1) by (simp add: store_wf_def)
  obtain h where h: "h \<in> set (findings st)" "f_id h = fid" "f_run h = rid" using assms(2) by (auto simp: has_row_def)
  have "f_run f = rid" if "f \<in> set (findings st)" "f_id f = fid" for f
    using finding_key.lookup_unique[OF u that(1)] finding_key.lookup_unique[OF u h(1)] that(2) h(2,3) by simp
  then have "filter (\<lambda>f. f_run f \<noteq> rid) (map (\<lambda>f. if f_id f = fid then g f else f) fs) = filter (\<lambda>f. f_run f \<noteq> rid) fs"
    if "set fs \<subseteq> set (findings st)" for fs
    using assms(3) that by (induction fs) auto
  then show ?thesis by (simp add: others_of_def sql_update_def)
qed

lemma grown_update:
  assumes "findings st' = sql_update (\<lambda>f. f_id f = fid) g (findings st)" "decisions st' = decisions st"
    "store_wf st \<Longrightarrow> store_wf st'" "\<And>f. same_finding f (g f)" "has_row rid fid st"
  shows "grown rid st st'"
proof (rule grownI[of _ _ "findings st'" "[]"])
  show "list_all2 same_finding (findings st) (findings st')"
    using assms(4) by (simp add: assms(1) sql_update_def list_all2_conv_all_nth)
  show "store_wf st \<Longrightarrow> store_wf st' \<and> others_of rid st' = others_of rid st"
    using assms(1,3) others_update[OF _ assms(5), of g] same_finding_facts(2)[OF assms(4)] by (simp add: others_of_def)
qed (simp_all add: assms(2))

lemma regroup_rows:
  "findings (regroup_finding block grp fid st) =
     (case get_finding fid st of None \<Rightarrow> findings st
      | Some f \<Rightarrow> sql_update (\<lambda>f. f_id f = fid)
          (\<lambda>f. f\<lparr>f_duplicate_group := Some grp, f_duplicate_suggested := True,
                 f_posting_eligible := (if block then False else f_posting_eligible f)\<rparr>) (findings st))"
  by (simp add: regroup_finding_def update_finding_status_def Let_def split: option.split)

lemma grown_regroup: 
  assumes "has_row rid fid st"
  shows "grown rid st (regroup_finding block grp fid st)"
proof (rule grown_update[OF _ _ _ _ assms])
  have "get_finding fid st \<noteq> None" using assms by (auto simp: has_row_def get_finding_def find_None_iff)
  then obtain f where "get_finding fid st = Some f" by blast
  then show "findings (regroup_finding block grp fid st) = sql_update (\<lambda>f. f_id f = fid)
      (\<lambda>f. f\<lparr>f_duplicate_group := Some grp, f_duplicate_suggested := True,
             f_posting_eligible := (if block then False else f_posting_eligible f)\<rparr>) (findings st)"
    by (simp add: regroup_rows)
  show "store_wf st \<Longrightarrow> store_wf (regroup_finding block grp fid st)"
    by (simp add: regroup_finding_def wf_update_finding_status)
qed (simp_all add: regroup_finding_def same_finding_def judged_part_def)

lemma grown_retag:
  assumes "has_row rid fid st"
  shows "grown rid st (retag_finding tag grp fid st)"
proof (rule grown_update[OF _ _ _ _ assms])
  show "findings (retag_finding tag grp fid st) = sql_update (\<lambda>f. f_id f = fid)
      (\<lambda>f. f\<lparr>f_consensus := Some tag, f_consensus_group := Some grp\<rparr>) (findings st)"
    by (simp add: retag_finding_def update_findings_quiet_def)
  show "store_wf st \<Longrightarrow> store_wf (retag_finding tag grp fid st)"
    by (simp add: retag_finding_def wf_update_findings_quiet quiet_finding_def)
qed (simp_all add: retag_finding_def update_findings_quiet_def same_finding_def judged_part_def)

lemma grown_add:
  assumes "f_run f = rid"
  shows "grown rid st (snd (add_finding now f st))"
proof (rule grownI)
  let ?new = "f\<lparr>f_status := Pending, f_edited_text := None, f_created_at := now, f_posting_op := None, f_id := next_finding st\<rparr>"
  show rows: "findings (snd (add_finding now f st)) = findings st @ [?new]"
    by (simp add: add_finding_def insert_finding_def Let_def)
  show "store_wf st \<Longrightarrow> store_wf (snd (add_finding now f st)) \<and> others_of rid (snd (add_finding now f st)) = others_of rid st"
    by (simp add: others_of_def rows assms) (simp add: add_finding_def wf_insert_finding)
qed (simp_all add: assms add_finding_def insert_finding_def Let_def list_all2_same)

lemma grown_persist: "grown rid st (persist_items now rid items st)"
  unfolding persist_items_def
  by (intro grown_fold grown_add) (simp add: finding_of_item_def split: prod.split)

section \<open>Regrouping and retagging\<close>

lemma grown_regroup_key:
  assumes "\<forall>f\<in>set old. has_row rid (f_id f) st"
  shows "grown rid st (fst (snd (regroup_key mode old ps (next, st, marks))))"
proof -
  have all: "grown rid st (fold (\<lambda>(i, f). regroup_finding (b i) g (f_id f)) (enumerate 0 old) st)" for b g
  proof (intro grown_fold)
    fix x st' assume x: "x \<in> set (enumerate 0 old)" and g: "grown rid st st'"
    obtain i f where xif: "x = (i, f)" by fastforce
    with x have "f \<in> set old" by (auto simp: in_set_enumerate_eq)
    with assms g have "has_row rid (f_id f) st'" by (auto intro: grown_has_row)
    then show "grown rid st' ((case x of (i, f) \<Rightarrow> regroup_finding (b i) g (f_id f)) st')"
      by (simp add: xif grown_regroup)
  qed
  show ?thesis
  proof (cases "length old + length ps < 2")
    case True
    then show ?thesis by (simp add: regroup_key_def)
  next
    case False
    then show ?thesis using all[of "\<lambda>i. mode = ENFORCE \<and> i > 0"]
      by (cases "group_of_rows old") (simp_all add: regroup_key_def)
  qed
qed

lemma grown_group_retry: "grown rid st (snd (group_retry_duplicates u mode rid rs st))"
proof -
  let ?existing = "run_findings rid st"
  let ?step = "\<lambda>(k, ps). regroup_key mode (filter (\<lambda>f. row_key u f = k) ?existing) ps"
  have rows: "has_row rid (f_id f) st" if "f \<in> set ?existing" for f
    using that by (auto simp: has_row_def run_findings_def)
  have "grown rid st (fst (snd acc)) \<Longrightarrow> grown rid st (fst (snd (fold ?step ks acc)))" for ks acc
  proof (induction ks arbitrary: acc)
    case (Cons k ks)
    obtain key ps where k: "k = (key, ps)" by fastforce
    obtain n t m where acc: "acc = (n, t, m)" using prod_cases3 by blast
    have "\<forall>f\<in>set (filter (\<lambda>f. row_key u f = key) ?existing). has_row rid (f_id f) t"
      using rows Cons.prems acc by (auto intro: grown_has_row)
    from grown_regroup_key[OF this, of mode ps n m] Cons.prems acc k
    have "grown rid st (fst (snd (?step k acc)))" by (auto intro: grown_trans)
    with Cons.IH show ?case by simp
  qed simp
  note all = this[of "(n, st, [])" for n]
  show ?thesis using all by (auto simp: group_retry_duplicates_def Let_def split: prod.split) (metis fst_conv snd_conv)
qed

lemma place_at_members: "set (concat (place_at f gs)) = insert f (set (concat gs))"
  by (induction gs) auto

lemma merge_order_bound: "i \<in> set (merge_order fs) \<Longrightarrow> i < length fs"
proof -
  have "set (concat (fold place_at xs gs)) = set xs \<union> set (concat gs)" for xs gs
    by (induction xs arbitrary: gs) (auto simp del: set_concat simp: place_at_members)
  then show "i \<in> set (merge_order fs) \<Longrightarrow> i < length fs"
    by (auto simp: merge_order_def in_set_enumerate_eq simp del: set_concat)
qed

lemma grown_retag_consensus: "grown rid st (retag_consensus rid st)"
  unfolding retag_consensus_def Let_def
proof (intro grown_fold)
  fix x st' assume x: "x \<in> set (zip (deterministic_merge (map finding_of_row (run_findings rid st)))
      (merge_order (map finding_of_row (run_findings rid st))))" and g: "grown rid st st'"
  obtain m i where mi: "x = (m, i)" by fastforce
  have "i < length (map finding_of_row (run_findings rid st))"
    using x mi by (intro merge_order_bound) (auto dest: set_zip_rightD)
  then have "i < length (run_findings rid st)" by simp
  then have "run_findings rid st ! i \<in> set (run_findings rid st)" by simp
  then have "has_row rid (f_id (run_findings rid st ! i)) st" by (auto simp: has_row_def run_findings_def)
  with g mi show "grown rid st' ((case x of (m, i) \<Rightarrow>
      retag_finding (mg_consensus m) (mg_group m) (f_id (run_findings rid st ! i))) st')"
    by (auto intro: grown_retag grown_has_row)
qed

section \<open>What a retry leaves behind\<close>

definition kept :: "nat \<Rightarrow> pipe_db \<Rightarrow> pipe_error + 'a \<Rightarrow> pipe_db \<Rightarrow> bool" where
  "kept rid t r s' \<longleftrightarrow>
     (isl r \<longrightarrow> s' = t) \<and> db_runs (q_db s') = db_runs (q_db t) \<and> db_prs (q_db s') = db_prs (q_db t) \<and>
     q_screens s' = q_screens t \<and> q_leases s' = q_leases t \<and> grown rid (q_store t) (q_store s')"

definition still :: "'a act \<Rightarrow> bool" where
  "still m \<longleftrightarrow> (\<forall>s. snd (m s) = s)"

definition leads :: "nat \<Rightarrow> (pipe_db \<Rightarrow> pipe_db set) \<Rightarrow> 'a act \<Rightarrow> bool" where
  "leads rid W m \<longleftrightarrow> (\<forall>s. s \<in> W s \<and> (\<exists>t\<in>W s. kept rid t (fst (m s)) (snd (m s))))"

lemma kept_same [simp]: "kept rid s r s"
  by (simp add: kept_def)

lemma still_plain [simp]: "still (ret x)" "still (fail e)" "still (lift r)" "still (look g)" "still (lift_option err)"
  by (simp_all add: still_def ret_def fail_def lift_def look_def lift_option_def split: sum.split option.split)

lemma leads_still: "still m \<Longrightarrow> (\<And>s. s \<in> W s) \<Longrightarrow> leads rid W m"
  by (auto simp: leads_def still_def intro!: bexI)

lemma leads_andthen:
  assumes "still m" "\<And>x. leads rid W (f x)"
  shows "leads rid W (andthen m f)"
  unfolding leads_def
proof (intro allI conjI)
  fix s
  show W: "s \<in> W s" using assms(2) by (simp add: leads_def)
  obtain r where m: "m s = (r, s)" using assms(1) by (metis still_def surjective_pairing)
  show "\<exists>t\<in>W s. kept rid t (fst (andthen m f s)) (snd (andthen m f s))"
  proof (cases r)
    case (Inl e)
    with m W show ?thesis by (auto simp: andthen_def intro!: bexI[of _ s])
  next
    case (Inr x)
    with m assms(2)[of x] show ?thesis by (simp add: andthen_def leads_def)
  qed
qed

lemma leads_wait:
  "leads rid W m \<Longrightarrow> leads rid (\<lambda>s. insert s (W (w_meanwhile w k s))) (andthen (wait w k) (\<lambda>_. m))"
  by (simp add: leads_def andthen_def wait_def change_def)

lemma leads_mono: "leads rid W m \<Longrightarrow> (\<And>s. W s \<subseteq> V s) \<Longrightarrow> leads rid V m"
  unfolding leads_def by blast

lemma andthen_assoc: "andthen (andthen m f) g = andthen m (\<lambda>x. andthen (f x) g)"
  by (rule ext) (simp add: andthen_def split: prod.split sum.split)

lemma leads_atomic:
  assumes "\<And>s x s'. m s = (Inr x, s') \<Longrightarrow> kept rid s (Inr x :: pipe_error + unit) s'"
  shows "leads rid (\<lambda>s. {s}) (atomic m)"
  unfolding leads_def
proof (intro allI conjI)
  fix s
  obtain r s' where m: "m s = (r, s')" by fastforce
  show "\<exists>t\<in>{s}. kept rid t (fst (atomic m s)) (snd (atomic m s))"
    using m assms[of s _ s'] by (cases r) (auto simp: atomic_def)
qed simp

lemma assert_lease_still: "assert_process_lease w rid owner s = (r, s') \<Longrightarrow> s' = s"
  by (auto simp: assert_process_lease_def split: option.splits if_splits)

lemma ensure_head_still: "ensure_current_head w rid pr False s = (Inr x, s') \<Longrightarrow> s' = s"
  by (auto simp: ensure_current_head_def andthen_def look_def ret_def fail_def split: if_splits)

lemma finish_result_keeps:
  "finish_vendor_result num vid status err dur raw meta db = Inr db' \<Longrightarrow>
   db_runs db' = db_runs db \<and> db_prs db' = db_prs db"
  by (drule finish_result_cases) (auto simp: update_results_def)

lemma keeps_results_rest:
  "keeps (\<lambda>s. (db_runs (q_db s), db_prs (q_db s), q_store s, q_screens s, q_leases s)) (persist_vendor_results num rs ids idents n)"
  unfolding persist_vendor_results_def
  by (intro keep_steps) (auto simp: keeps_def try_db_def dest: finish_result_keeps split: sum.split)

lemma andthen_Inr:
  "andthen m f s = (Inr y, s') \<Longrightarrow> \<exists>x t. m s = (Inr x, t) \<and> f x t = (Inr y, s')"
  by (auto simp: andthen_def split: prod.splits sum.splits)

lemma store_retry_grown:
  assumes "store_retry w rid repo plan grouped s = (Inr x, s')"
  shows "db_runs (q_db s') = db_runs (q_db s) \<and> db_prs (q_db s') = db_prs (q_db s) \<and> q_screens s' = q_screens s \<and>
    q_leases s' = q_leases s \<and> grown rid (q_store s) (q_store s')"
proof -
  let ?num = "h_num (w_hash w)"
  obtain found a b where p: "prepare_vendor_results (id_of (rt_ids plan)) grouped = (found, a, b)" using prod_cases3 by blast
  let ?items = "map (\<lambda>(vr, f). (Some vr, f, U ''single'', None)) found :: item list"
  obtain attempt t u where t:
      "persist_vendor_results ?num grouped (rt_ids plan) (rt_idents plan) attempt s = (Inr u, t)"
      "s' = t\<lparr>q_store := (if rr_merge repo then retag_consensus rid else id) (persist_items (w_later w) rid ?items (q_store t))\<rparr>"
    using assms p
    by (fastforce dest!: andthen_Inr simp: store_retry_def look_def change_def persist_run ret_def lift_def
        split: sum.splits if_splits)
  have rest: "db_runs (q_db t) = db_runs (q_db s)" "db_prs (q_db t) = db_prs (q_db s)" "q_store t = q_store s"
    "q_screens t = q_screens s" "q_leases t = q_leases s"
    using keepsD[OF keeps_results_rest t(1)] by simp_all
  have "grown rid (q_store s) (persist_items (w_later w) rid ?items (q_store s))" by (rule grown_persist)
  then have "grown rid (q_store s) ((if rr_merge repo then retag_consensus rid else id)
      (persist_items (w_later w) rid ?items (q_store s)))"
    by (auto intro: grown_trans grown_retag_consensus)
  with t(2) rest show ?thesis by simp
qed

lemma commit_retry_leads: "leads rid (\<lambda>s. {s}) (commit_retry w rid pr repo owner policy plan results)"
  unfolding commit_retry_def
proof (rule leads_atomic)
  fix s :: pipe_db and x s'
  obtain grouped st where g: "group_retry_duplicates (w_unicode w) (pd_effective (ps_dedupe policy)) rid results (q_store s) =
      (grouped, st)" by fastforce
  assume "retry_transaction w rid pr repo owner policy plan results s = (Inr x, s')"
  then have run: "store_retry w rid repo plan grouped (s\<lparr>q_store := st\<rparr>) = (Inr x, s')"
    using g by (auto dest!: andthen_Inr assert_lease_still ensure_head_still simp: retry_transaction_def look_def change_def)
  have "grown rid (q_store s) st" using grown_group_retry[of rid "q_store s" "w_unicode w" "pd_effective (ps_dedupe policy)" results] g by (metis snd_conv)
  with store_retry_grown[OF run] show "kept rid s (Inr x) s'" by (auto simp: kept_def intro: grown_trans)
qed

text \<open>What a retry waits for: the diff and then the vendors.\<close>

definition retry_states :: "world \<Rightarrow> pipe_db \<Rightarrow> pipe_db set" where
  "retry_states w s = {s, w_meanwhile w 5 s, w_meanwhile w 3 (w_meanwhile w 5 s)}"

lemma rerun_leads:
  "leads rid (\<lambda>s. {s, w_meanwhile w 3 s}) (rerun_vendors w rid pr repo owner policy ads plan)"
proof -
  have commit: "leads rid (\<lambda>s. {s}) (commit_retry w rid pr repo owner policy plan results)" for results
    by (rule commit_retry_leads)
  show ?thesis
    unfolding rerun_vendors_def run_vendors_def Let_def andthen_assoc
    by (auto intro!: leads_still leads_andthen leads_wait[of rid "\<lambda>s. {s}"] commit)
qed

lemma leads_if: "(P \<Longrightarrow> leads rid W m) \<Longrightarrow> (\<not> P \<Longrightarrow> leads rid W n) \<Longrightarrow> leads rid W (if P then m else n)"
  by simp

lemma retry_leads:
  "leads (run_id run) (retry_states w) (retry_failed_vendors w run pr repo st exact owner)"
proof -
  have late: "leads (run_id run) (\<lambda>s. insert s {w_meanwhile w 5 s, w_meanwhile w 3 (w_meanwhile w 5 s)})
      (andthen (wait w 5) (\<lambda>_. m))"
    if "leads (run_id run) (\<lambda>s. {s, w_meanwhile w 3 s}) m" for m :: "unit act"
    using leads_wait[OF that, of w 5] by simp
  show ?thesis
    unfolding retry_failed_vendors_def retry_states_def
    by (auto intro!: leads_still leads_andthen leads_if late rerun_leads split: option.split)
qed

end
