(* ===== verification/Run_Properties.thy ===== *)
theory Run_Properties
  imports Retry_Outcome
begin

text \<open>
  The properties of \<open>review_pr\<close> and \<open>retry_pr\<close>, and a small world in which a whole review is computed.
\<close>

section \<open>Properties\<close>

text \<open>
  C5: a review always comes to an end.  Whatever the vendors, GitHub and the context providers answer, and as long as no
  other process touches the run, \<open>review_pr\<close> returns; if it created a run, the run's row is closed with the status that
  matches the result: done or canceled if it returns, failed if it raises, canceled if the head moved.  The one
  exception is the loss of the worker's lease, which leaves the run to the recovery.
\<close>

theorem review_pr_settles:
  assumes "rid = next_id (db_runs (q_db s))" "rid \<noteq> 0" "get_run rid (q_db s) = None" "run_findings rid (q_store s) = []"
    and "\<forall>k. untouched rid (w_meanwhile w k)"
    and "review_pr w pid trig expected owner job repo st s = (r, s')"
  shows "not_started r \<and> s' = s \<or>
    (\<exists>run. get_run rid (q_db s') = Some run \<and> run_ended rid r (run_status run) \<and>
       (run_status run \<noteq> Run_Running \<longrightarrow> run_finished_at run \<noteq> None))"
  using review_pr_cases[OF assms] by (auto simp: settled_def)

text \<open>
  C1: findings are stored all at once or not at all.  A run has findings only if it is done, and then the pull
  request still had the head that was reviewed, and is marked as reviewed at this head.  A run that failed, was canceled,
  lost its lease or found the head moved leaves no finding behind.
\<close>

theorem review_stores_only_when_done:
  assumes "rid = next_id (db_runs (q_db s))" "rid \<noteq> 0" "get_run rid (q_db s) = None" "run_findings rid (q_store s) = []"
    and "\<forall>k. untouched rid (w_meanwhile w k)"
    and "review_pr w pid trig expected owner job repo st s = (r, s')"
  shows "run_findings rid (q_store s') = [] \<or>
    (\<exists>run. get_run rid (q_db s') = Some run \<and> run_status run = Run_Done \<and> r = Inr rid \<and>
       reviewed_head pid (run_head_sha run) s')"
  using review_pr_cases[OF assms]
proof
  assume "settled rid pid r s'"
  then obtain run where run: "get_run rid (q_db s') = Some run" "run_ended rid r (run_status run)"
    "run_findings rid (q_store s') = [] \<or> run_status run = Run_Done"
    "run_status run = Run_Done \<longrightarrow> reviewed_head pid (run_head_sha run) s'" by (auto simp: settled_def)
  then have "run_status run = Run_Done \<Longrightarrow> r = Inr rid" by (simp add: run_ended_def split: sum.splits pipe_error.splits)
  with run show ?thesis by blast
qed (simp add: assms(4))


section \<open>Examples\<close>

definition sample_pr :: pull_request where
  "sample_pr =
     \<lparr>pr_id = 1, pr_repo = 1, pr_number = 7, pr_title = Some (U ''t''), pr_author = Some (U ''a''), pr_head_sha = U ''h1'',
      pr_base_ref = None, pr_base_sha = None, pr_state = U ''open'', pr_url = None, pr_created_at = None, pr_head_ref = None,
      pr_body = None, pr_draft = False, pr_last_reviewed = None, pr_first_seen = 0, pr_sort_at = 0, pr_updated_at = 0\<rparr>"

definition sample_db :: pipe_db where
  "sample_db =
     \<lparr>q_db = \<lparr>db_prs = \<lparr>rows = [sample_pr], next_id = 2\<rparr>, db_runs = \<lparr>rows = [], next_id = 1\<rparr>,
              db_results = \<lparr>rows = [], next_id = 1\<rparr>\<rparr>,
      q_store = \<lparr>findings = [], next_finding = 1, decisions = [], summaries = []\<rparr>,
      q_screens = \<lparr>rows = [], next_id = 1\<rparr>, q_leases = []\<rparr>"

definition sample_row :: repo_row where
  "sample_row =
     \<lparr>rr_id = 1, rr_full_name = U ''o/r'', rr_harness = U ''d'', rr_claude_on = True, rr_codex_on = False, rr_merge = True,
      rr_claude_model = None, rr_claude_effort = None, rr_codex_model = None, rr_codex_effort = None, rr_verify = Some 0,
      rr_incremental = Some 0, rr_scope_mode = None, rr_dedupe_mode = None\<rparr>"

definition sample_settings :: settings where
  "sample_settings =
     \<lparr>st_review_model = None, st_default_effort = None, st_claude_effort = None, st_codex_effort = None,
      st_codex_model = None, st_prescreen_model = Some (U ''haiku''), st_threshold = U ''moderate'', st_concurrency = JInt 2,
      st_verify = 0, st_incremental = 0\<rparr>"

definition sample_adapter :: adapter where
  "sample_adapter =
     \<lparr>ad_vendor = U ''claude'', ad_probe = Some (U ''1''),
      ad_contract = (\<lambda>v. [(U ''adapter_name'', JStr (U ''a'')), (U ''adapter_version'', JStr (U ''1'')),
                          (U ''cli_version'', JStr (U ''1'')), (U ''event_schema_version'', JStr (U ''1''))]),
      ad_inputs = Some (\<lambda>v ps. JObj [(U ''wire_prompts'', JList (map (\<lambda>p. JStr []) ps)), (U ''review_argv'', JList [])]),
      ad_argv = JList [], ad_timeout = JInt 60\<rparr>"

definition sample_harness :: harness where
  "sample_harness =
     \<lparr>hp_name = U ''d'', hp_prompt = (\<lambda>v. U ''p''), hp_tools = JNull, hp_sandbox = JNull, hp_model = [], hp_effort = [],
      hp_codex_model = [], hp_codex_effort = []\<rparr>"

definition sample_world :: world where
  "sample_world =
     \<lparr>w_hash = \<lparr>h_sha = constant_hash, h_num = (\<lambda>q. [])\<rparr>, w_unicode = toy_unicode, w_is_digit = (\<lambda>c. False),
      w_round3 = (\<lambda>q. q), w_show = (\<lambda>e. []), w_now = 10, w_later = 20, w_config = sample_config,
      w_attest = (\<lambda>i. \<lparr>att_can_enforce = False, att_report_hash = None\<rparr>), w_harness = Inr sample_harness,
      w_adapters = [sample_adapter], w_compare = None, w_diff = Inr small_diff,
      w_screen = (\<lambda>d m. Inr \<lparr>sr_complexity = U ''complex'', sr_score = JInt 1, sr_reason = []\<rparr>), w_screen_ms = 5,
      w_secrets = [],
      w_gather = (\<lambda>b. \<lparr>gc_text = Inr [], gc_ms = 2, gc_results = [], gc_later = [], gc_nonces = (\<lambda>i. [])\<rparr>),
      w_nonces = (\<lambda>i. Some (U ''0123abcd'')),
      w_enter = None, w_snapshot = None, w_leave = None,
      w_calls = (\<lambda>v p. \<lparr>rc_version = Some (U ''1''),
        rc_outcome = Reviewed [new_finding v (U ''f'') 2 (U ''high'') (U ''bug'') (U ''c'') (U ''r'') 1] None, rc_ms = 9\<rparr>),
      w_ms = (\<lambda>v. 11), w_credentials = (\<lambda>v. None), w_verify = None, w_meanwhile = (\<lambda>k s. s)\<rparr>"

definition sample_review :: "world \<Rightarrow> (pipe_error + nat) \<times> pipe_db" where
  "sample_review w = review_pr w 1 Trigger_Auto None None None sample_row sample_settings sample_db"

definition easy_world :: world where
  "easy_world = sample_world\<lparr>w_screen := (\<lambda>d m. Inr \<lparr>sr_complexity = U ''trivial'', sr_score = JInt 0, sr_reason = []\<rparr>)\<rparr>"

lemma sample_fresh:
  "1 = next_id (db_runs (q_db sample_db))" "(1 :: nat) \<noteq> 0" "get_run 1 (q_db sample_db) = None"
  "run_findings 1 (q_store sample_db) = []"
  by (simp_all add: sample_db_def get_run_def run_findings_def)

lemma sample_apart: "\<forall>k. untouched 1 (w_meanwhile sample_world k)" "\<forall>k. untouched 1 (w_meanwhile easy_world k)"
  by (simp_all add: sample_world_def easy_world_def untouched_def)

lemma review_pr_settles_witness:
  "\<exists>run. get_run 1 (q_db (snd (sample_review easy_world))) = Some run \<and> run_status run \<in> {Run_Done, Run_Canceled}"
proof -
  obtain r s' where run: "sample_review easy_world = (r, s')" by fastforce
  have "fst (sample_review easy_world) = Inr 1" by code_simp
  with run have r: "r = Inr 1" by simp
  from review_pr_settles[OF sample_fresh sample_apart(2) run[unfolded sample_review_def]] r run show ?thesis
    by (auto simp: not_started_def run_ended_def)
qed

lemma sample_done: "case sample_review sample_world of (r, s) \<Rightarrow> r = Inr 1 \<and> run_findings 1 (q_store s) \<noteq> []"
  by code_simp

lemma review_stores_only_when_done_witness:
  "\<exists>run. get_run 1 (q_db (snd (sample_review sample_world))) = Some run \<and> run_status run = Run_Done \<and>
     reviewed_head 1 (run_head_sha run) (snd (sample_review sample_world))"
proof -
  obtain r s' where run: "sample_review sample_world = (r, s')" by fastforce
  with sample_done have "run_findings 1 (q_store s') \<noteq> []" by simp
  with review_stores_only_when_done[OF sample_fresh sample_apart(1) run[unfolded sample_review_def]] run show ?thesis by auto
qed


end
