(* ===== verification/Job_Queue.thy ===== *)
theory Job_Queue
  imports Work_Queue
begin

text \<open>
  The review-job queue (\<open>src/server/repos/job_repo.py\<close>, table \<open>review_job\<close> of
  \<open>src/server/db.py\<close>).  Every function of the module is a function from the table to its result
  and the new table; the clock \<open>now\<close> is an argument, and a raise is an \<open>Inl\<close>.
\<close>

section \<open>The table\<close>

datatype trigger = Auto | Manual | Retry

datatype job_status = Queued | Running | Done | Failed | Canceled

record job =
  j_id :: nat
  j_pr :: nat
  j_sha :: pystr
  j_trigger :: trigger
  j_status :: job_status
  j_priority :: int
  j_attempts :: nat
  j_max_attempts :: nat
  j_locked_by :: "pystr option"
  j_locked_at :: "int option"
  j_owner :: "pystr option"
  j_next_run_at :: "int option"
  j_run_id :: "nat option"
  j_retry_run_id :: "nat option"
  j_error :: "pystr option"
  j_created_at :: int

type_synonym job_table = "job table"

text \<open>The reasons with which the system, not a user, cancels a job.\<close>

definition CLOSED_PR_CANCEL_ERROR :: pystr where
  "CLOSED_PR_CANCEL_ERROR = [80, 82, 44032, 32, 45803, 54784, 32, 47532, 48624, 32, 52712, 49548]"

definition DISABLED_REPO_CANCEL_ERROR :: pystr where
  "DISABLED_REPO_CANCEL_ERROR =
     [47112, 54252, 44032, 32, 48708, 54876, 49457, 54868, 46104, 50612, 32, 47532, 48624, 32,
      52712, 49548]"

definition NO_VENDOR_CANCEL_ERROR :: pystr where
  "NO_VENDOR_CANCEL_ERROR =
     [54876, 49457, 32, 47532, 48624, 32, 118, 101, 110, 100, 111, 114, 44032, 32, 50630, 50612, 32,
      47532, 48624, 32, 52712, 49548]"

definition STALE_HEAD_CANCEL_ERROR :: pystr where
  "STALE_HEAD_CANCEL_ERROR =
     [80, 82, 32, 104, 101, 97, 100, 44032, 32, 48320, 44221, 46104, 50612, 32, 51060, 51204, 32,
      47532, 48624, 32, 51105, 32, 52712, 49548]"

definition SYSTEM_CANCEL_ERRORS :: "pystr list" where
  "SYSTEM_CANCEL_ERRORS =
     [CLOSED_PR_CANCEL_ERROR, DISABLED_REPO_CANCEL_ERROR, NO_VENDOR_CANCEL_ERROR,
      STALE_HEAD_CANCEL_ERROR]"

definition is_system_cancel_error :: "pystr option \<Rightarrow> bool" where
  "is_system_cancel_error e = (case e of None \<Rightarrow> False | Some m \<Rightarrow> m \<in> set SYSTEM_CANCEL_ERRORS)"

definition LeaseLostError :: "nat \<Rightarrow> exn" where
  "LeaseLostError jid = OtherError (U ''LeaseLostError'') (U ''job '' @ nat_text jid @ U '' lease lost'')"

definition find_job :: "nat \<Rightarrow> pystr \<Rightarrow> job list \<Rightarrow> job option" where
  "find_job pr sha js = List.find (\<lambda>j. j_pr j = pr \<and> j_sha j = sha) js"

definition get_job :: "nat \<Rightarrow> job list \<Rightarrow> job option" where
  "get_job jid js = List.find (\<lambda>j. j_id j = jid) js"

text \<open>
  \<open>INSERT .. ON CONFLICT(pr_id, head_sha) DO NOTHING\<close> with the column defaults of the schema.
\<close>

definition new_job :: "nat \<Rightarrow> pystr \<Rightarrow> trigger \<Rightarrow> int \<Rightarrow> nat option \<Rightarrow> int \<Rightarrow> nat \<Rightarrow> job" where
  "new_job pr sha trig prio retry_run now jid =
     \<lparr>j_id = jid, j_pr = pr, j_sha = sha, j_trigger = trig, j_status = Queued, j_priority = prio,
      j_attempts = 0, j_max_attempts = 3, j_locked_by = None, j_locked_at = None, j_owner = None,
      j_next_run_at = None, j_run_id = None, j_retry_run_id = retry_run, j_error = None,
      j_created_at = now\<rparr>"

definition insert_job ::
  "nat \<Rightarrow> pystr \<Rightarrow> trigger \<Rightarrow> int \<Rightarrow> nat option \<Rightarrow> int \<Rightarrow> job_table \<Rightarrow> bool \<times> job_table" where
  "insert_job pr sha trig prio retry_run now js =
     (if find_job pr sha (rows js) \<noteq> None then (False, js)
      else (True, js\<lparr>rows := rows js @ [new_job pr sha trig prio retry_run now (next_id js)],
                     next_id := Suc (next_id js)\<rparr>))"

definition update_jobs :: "(job \<Rightarrow> bool) \<Rightarrow> (job \<Rightarrow> job) \<Rightarrow> job_table \<Rightarrow> job_table" where
  "update_jobs P f js = js\<lparr>rows := sql_update P f (rows js)\<rparr>"

section \<open>Enqueue\<close>

definition enqueue_with_result ::
  "int \<Rightarrow> nat \<Rightarrow> pystr \<Rightarrow> trigger \<Rightarrow> int \<Rightarrow> job_table \<Rightarrow> (exn + nat \<times> bool) \<times> job_table" where
  "enqueue_with_result now pr sha trig prio js =
     (case insert_job pr sha trig prio None now js of (inserted, js1) \<Rightarrow>
        (case find_job pr sha (rows js1) of
           None \<Rightarrow> (Inl (TypeError (U ''NoneType'')), js1)
         | Some row \<Rightarrow>
             if j_status row = Canceled \<and> is_system_cancel_error (j_error row)
             then let hit = (\<lambda>j. j_id j = j_id row \<and> j_status j = Canceled \<and> j_error j = j_error row);
                      js2 = update_jobs hit
                        (\<lambda>j. j\<lparr>j_status := Queued, j_trigger := trig, j_locked_by := None,
                             j_locked_at := None, j_next_run_at := None, j_attempts := 0,
                             j_error := None\<rparr>) js1;
                      revived = (rowcount hit (rows js1) = 1)
                  in (Inr (j_id row, inserted \<or> revived), js2)
             else (Inr (j_id row, inserted), js1)))"

definition enqueue ::
  "int \<Rightarrow> nat \<Rightarrow> pystr \<Rightarrow> trigger \<Rightarrow> int \<Rightarrow> job_table \<Rightarrow> (exn + nat) \<times> job_table" where
  "enqueue now pr sha trig prio js =
     (case enqueue_with_result now pr sha trig prio js of (r, js') \<Rightarrow>
        (ebind r (\<lambda>(jid, _). Inr jid), js'))"

definition finished :: "job_status \<Rightarrow> bool" where
  "finished s \<longleftrightarrow> s \<in> {Done, Failed, Canceled}"

definition active :: "job_status \<Rightarrow> bool" where
  "active s \<longleftrightarrow> s \<in> {Queued, Running}"

definition other_active_error :: exn where
  "other_active_error = ValueError
     [45796, 47480, 32, 47532, 48624, 32, 51089, 50629, 51060, 32, 51060, 48120, 32, 44057, 51008,
      32, 80, 82, 32, 104, 101, 97, 100, 50640, 49436, 32, 51652, 54665, 32, 51473, 51077, 45768,
      45796]"

definition revive_job :: "trigger \<Rightarrow> nat option \<Rightarrow> job \<Rightarrow> job" where
  "revive_job trig retry_run j =
     j\<lparr>j_status := Queued, j_trigger := trig, j_retry_run_id := retry_run, j_locked_by := None,
       j_locked_at := None, j_next_run_at := None, j_attempts := 0, j_error := None\<rparr>"

definition enqueue_or_revive ::
  "int \<Rightarrow> nat \<Rightarrow> pystr \<Rightarrow> trigger \<Rightarrow> int \<Rightarrow> nat option \<Rightarrow> job_table \<Rightarrow> (exn + nat) \<times> job_table" where
  "enqueue_or_revive now pr sha trig prio retry_run js =
     (let js1 = (if find_job pr sha (rows js) = None
                 then snd (insert_job pr sha trig prio retry_run now js) else js)
      in case find_job pr sha (rows js1) of
           None \<Rightarrow> (Inl (TypeError (U ''NoneType'')), js1)
         | Some row \<Rightarrow>
             let js2 = (if finished (j_status row)
                        then update_jobs (\<lambda>j. j_id j = j_id row \<and> finished (j_status j))
                          (revive_job trig retry_run) js1
                        else js1);
                 js3 = (case get_job (j_id row) (rows js2) of
                          None \<Rightarrow> js2
                        | Some current \<Rightarrow>
                            if trig = Manual \<and> j_status current = Queued \<and> j_trigger current = Auto
                            then update_jobs
                              (\<lambda>j. j_id j = j_id row \<and> j_status j = Queued \<and> j_trigger j = Auto)
                              (\<lambda>j. j\<lparr>j_trigger := Manual\<rparr>) js2
                            else js2)
             in case get_job (j_id row) (rows js3) of
                  None \<Rightarrow> (Inl (TypeError (U ''NoneType'')), js3)
                | Some current \<Rightarrow>
                    if active (j_status current) \<and>
                       (trig = Retry \<and> (j_trigger current \<noteq> Retry \<or> j_retry_run_id current \<noteq> retry_run)
                        \<or> trig = Manual \<and> j_trigger current \<noteq> Manual)
                    then (Inl other_active_error, js3)
                    else (Inr (j_id row), js3))"

definition enqueue_manual :: "int \<Rightarrow> nat \<Rightarrow> pystr \<Rightarrow> int \<Rightarrow> job_table \<Rightarrow> (exn + nat) \<times> job_table" where
  "enqueue_manual now pr sha prio js = enqueue_or_revive now pr sha Manual prio None js"

definition retry_enqueue_conflict :: "nat \<Rightarrow> pystr \<Rightarrow> nat \<Rightarrow> job_table \<Rightarrow> bool" where
  "retry_enqueue_conflict pr sha run js =
     (case find_job pr sha (rows js) of
        None \<Rightarrow> False
      | Some current \<Rightarrow> active (j_status current) \<and>
          (j_trigger current \<noteq> Retry \<or> j_retry_run_id current \<noteq> Some run))"

definition enqueue_retry :: "int \<Rightarrow> nat \<Rightarrow> pystr \<Rightarrow> nat \<Rightarrow> job_table \<Rightarrow> (exn + nat) \<times> job_table" where
  "enqueue_retry now pr sha run js = enqueue_or_revive now pr sha Retry 0 (Some run) js"

section \<open>Claim and recovery\<close>

definition due :: "int \<Rightarrow> int option \<Rightarrow> bool" where
  "due now t = (case t of None \<Rightarrow> True | Some at_time \<Rightarrow> at_time \<le> now)"

definition claimable :: "int \<Rightarrow> job \<Rightarrow> bool" where
  "claimable now j \<longleftrightarrow> j_status j = Queued \<and> due now (j_next_run_at j)"

definition take_job :: "int \<Rightarrow> pystr \<Rightarrow> pystr option \<Rightarrow> job \<Rightarrow> job" where
  "take_job now worker owner j =
     j\<lparr>j_status := Running, j_locked_by := Some worker, j_locked_at := Some now, j_owner := owner,
       j_attempts := j_attempts j + 1\<rparr>"

text \<open>
  \<open>busy\<close> says that the database is locked by another writer (\<open>sqlite3.OperationalError\<close>).
\<close>

definition claim_next ::
  "bool \<times> int \<times> pystr \<times> pystr option \<Rightarrow> job_table \<Rightarrow> job option \<times> job_table" where
  "claim_next = (\<lambda>(busy, now, worker, owner) js.
     if busy then (None, js)
     else (case select_first (\<lambda>j. (- j_priority j, j_id j)) (claimable now) (rows js) of
             None \<Rightarrow> (None, js)
           | Some row \<Rightarrow>
               let js' = update_jobs (\<lambda>j. j_id j = j_id row) (take_job now worker owner) js
               in (get_job (j_id row) (rows js'), js')))"

definition STALE_LOCK_MINUTES :: int where
  "STALE_LOCK_MINUTES = 30"

definition recover_stale :: "int \<Rightarrow> int \<Rightarrow> job_table \<Rightarrow> nat \<times> job_table" where
  "recover_stale now minutes js =
     (let hit = (\<lambda>j. j_status j = Running \<and>
                     (case j_locked_at j of None \<Rightarrow> False | Some t \<Rightarrow> t \<le> now - 60 * minutes))
      in (rowcount hit (rows js),
          update_jobs hit (\<lambda>j. j\<lparr>j_status := Queued, j_locked_by := None,
              j_error := Some (U ''recovered from stale lock'')\<rparr>) js))"

section \<open>The end of a job\<close>

text \<open>\<open>? IS NULL OR owner_process_id = ?\<close>.\<close>

definition owner_ok :: "pystr option \<Rightarrow> job \<Rightarrow> bool" where
  "owner_ok p j \<longleftrightarrow> p = None \<or> j_owner j = p"

definition finish_job ::
  "nat \<Rightarrow> pystr option \<Rightarrow> (job \<Rightarrow> job) \<Rightarrow> job_table \<Rightarrow> (exn + unit) \<times> job_table" where
  "finish_job jid p f js =
     (let hit = (\<lambda>j. j_id j = jid \<and> owner_ok p j)
      in if rowcount hit (rows js) \<noteq> 1 then (Inl (LeaseLostError jid), update_jobs hit f js)
         else (Inr (), update_jobs hit f js))"

definition mark_done :: "nat \<Rightarrow> nat option \<Rightarrow> pystr option \<Rightarrow> job_table \<Rightarrow> (exn + unit) \<times> job_table" where
  "mark_done jid run p js =
     finish_job jid p
       (\<lambda>j. j\<lparr>j_status := Done, j_run_id := run, j_locked_by := None, j_locked_at := None,
            j_owner := None\<rparr>) js"

definition mark_canceled :: "nat \<Rightarrow> pystr \<Rightarrow> pystr option \<Rightarrow> job_table \<Rightarrow> (exn + unit) \<times> job_table" where
  "mark_canceled jid err p js =
     finish_job jid p
       (\<lambda>j. j\<lparr>j_status := Canceled, j_error := Some err, j_locked_by := None, j_locked_at := None,
            j_owner := None\<rparr>) js"

definition coalesce :: "'a option \<Rightarrow> 'a option \<Rightarrow> 'a option" where
  "coalesce a b = (case a of None \<Rightarrow> b | Some x \<Rightarrow> Some x)"

definition mark_failed ::
  "int \<Rightarrow> nat \<Rightarrow> pystr \<Rightarrow> bool \<Rightarrow> nat option \<Rightarrow> pystr option \<Rightarrow> job_table \<Rightarrow> (exn + unit) \<times> job_table" where
  "mark_failed now jid err retry run p js =
     (case get_job jid (rows js) of
        None \<Rightarrow> (Inl (LeaseLostError jid), js)
      | Some row \<Rightarrow>
          if p \<noteq> None \<and> j_owner row \<noteq> p then (Inl (LeaseLostError jid), js)
          else if retry \<and> j_attempts row < j_max_attempts row
          then (Inr (), update_jobs (\<lambda>j. j_id j = jid \<and> owner_ok p j)
                  (\<lambda>j. j\<lparr>j_status := Queued, j_locked_by := None, j_error := Some err,
                       j_run_id := coalesce run (j_run_id j), j_owner := None, j_locked_at := None,
                       j_next_run_at := Some (now + 60 * 2 ^ j_attempts j)\<rparr>) js)
          else (Inr (), update_jobs (\<lambda>j. j_id j = jid \<and> owner_ok p j)
                  (\<lambda>j. j\<lparr>j_status := Failed, j_error := Some err,
                       j_run_id := coalesce run (j_run_id j), j_locked_by := None,
                       j_locked_at := None, j_owner := None\<rparr>) js))"

definition cancel_queued :: "nat \<Rightarrow> pystr \<Rightarrow> job_table \<Rightarrow> nat \<times> job_table" where
  "cancel_queued pr err js =
     (let hit = (\<lambda>j. j_pr j = pr \<and> j_status j = Queued)
      in (rowcount hit (rows js),
          update_jobs hit (\<lambda>j. j\<lparr>j_status := Canceled, j_error := Some err, j_locked_by := None\<rparr>) js))"

text \<open>
  \<open>pr_head\<close> is the lookup \<open>SELECT head_sha FROM pull_request WHERE id=?\<close>.
\<close>

definition cancel_stale_and_enqueue_latest ::
  "(nat \<Rightarrow> pystr option) \<Rightarrow> int \<Rightarrow> nat \<Rightarrow> pystr option \<Rightarrow> job_table \<Rightarrow> (exn + nat option) \<times> job_table" where
  "cancel_stale_and_enqueue_latest pr_head now jid p js =
     (case get_job jid (rows js) of
        None \<Rightarrow> (Inr None, js)
      | Some row \<Rightarrow>
          let js1 = update_jobs (\<lambda>j. j_id j = jid \<and> active (j_status j) \<and> owner_ok p j)
                (\<lambda>j. j\<lparr>j_status := Canceled, j_error := Some STALE_HEAD_CANCEL_ERROR,
                     j_locked_by := None, j_locked_at := None, j_owner := None\<rparr>) js
          in case pr_head (j_pr row) of
               None \<Rightarrow> (Inr None, js1)
             | Some head \<Rightarrow>
                 if head = [] \<or> head = j_sha row then (Inr None, js1)
                 else
                   let trig = (if j_trigger row = Auto then Auto else Manual);
                       js2 = snd (insert_job (j_pr row) head trig (j_priority row) None now js1)
                   in case find_job (j_pr row) head (rows js2) of
                        None \<Rightarrow> (Inl (TypeError (U ''NoneType'')), js)
                      | Some latest \<Rightarrow>
                          let js3 = (if j_status latest = Canceled \<and> is_system_cancel_error (j_error latest)
                                     then update_jobs
                                       (\<lambda>j. j_id j = j_id latest \<and> j_status j = Canceled \<and>
                                            j_error j = j_error latest)
                                       (\<lambda>j. j\<lparr>j_status := Queued, j_trigger := trig,
                                            j_retry_run_id := None, j_locked_by := None,
                                            j_locked_at := None, j_next_run_at := None,
                                            j_attempts := 0, j_error := None\<rparr>) js2
                                     else js2)
                          in (Inr (Some (j_id latest)), js3))"

section \<open>The queue invariant\<close>

interpretation jobs: primary_key "j_id :: job \<Rightarrow> nat" .

interpretation job_target: primary_key "\<lambda>j :: job. (j_pr j, j_sha j)" .

lemma get_job_lookup: "get_job jid js = jobs.lookup js jid"
  by (simp add: get_job_def jobs.lookup_def)

lemma find_job_lookup: "find_job pr sha js = job_target.lookup js (pr, sha)"
  by (simp add: find_job_def job_target.lookup_def)

text \<open>A job is locked exactly while it runs; a running job has been counted as an attempt.\<close>

definition job_ok :: "job \<Rightarrow> bool" where
  "job_ok j \<longleftrightarrow> (j_status j = Running \<longleftrightarrow> j_locked_by j \<noteq> None) \<and>
     (j_status j = Running \<longrightarrow> j_locked_at j \<noteq> None \<and> 0 < j_attempts j)"

definition jobs_wf :: "job_table \<Rightarrow> bool" where
  "jobs_wf js \<longleftrightarrow> jobs.unique_keys (rows js) \<and> job_target.unique_keys (rows js) \<and>
     list_all (\<lambda>j. j_id j < next_id js \<and> job_ok j) (rows js)"

lemma rows_update_jobs [simp]: "rows (update_jobs P f js) = sql_update P f (rows js)"
  "next_id (update_jobs P f js) = next_id js"
  by (simp_all add: update_jobs_def)

text \<open>An update that leaves the identity of a row alone.\<close>

definition same_job :: "(job \<Rightarrow> job) \<Rightarrow> bool" where
  "same_job f \<longleftrightarrow> (\<forall>j. j_id (f j) = j_id j \<and> j_pr (f j) = j_pr j \<and> j_sha (f j) = j_sha j)"

lemma get_update:
  "same_job f \<Longrightarrow>
   get_job k (sql_update P f rs) = map_option (\<lambda>j. if P j then f j else j) (get_job k rs)"
  unfolding get_job_lookup by (rule jobs.lookup_update) (simp add: same_job_def)

lemma find_update:
  "same_job f \<Longrightarrow>
   find_job pr sha (sql_update P f rs) = map_option (\<lambda>j. if P j then f j else j) (find_job pr sha rs)"
  unfolding find_job_lookup by (rule job_target.lookup_update) (simp add: same_job_def)

lemma wf_update_jobs:
  assumes "jobs_wf js" "same_job f" "\<And>j. P j \<Longrightarrow> job_ok j \<Longrightarrow> job_ok (f j)"
  shows "jobs_wf (update_jobs P f js)"
proof -
  have "jobs.unique_keys (sql_update P f (rows js)) = jobs.unique_keys (rows js)"
    using assms(2) by (intro jobs.unique_update) (simp add: same_job_def)
  moreover have "job_target.unique_keys (sql_update P f (rows js)) = job_target.unique_keys (rows js)"
    using assms(2) by (intro job_target.unique_update) (simp add: same_job_def)
  ultimately show ?thesis
    using assms by (auto simp: jobs_wf_def list_all_iff set_sql_update same_job_def)
qed

lemma wf_insert_job: "jobs_wf js \<Longrightarrow> jobs_wf (snd (insert_job pr sha trig prio rr now js))"
  by (auto simp: jobs_wf_def insert_job_def new_job_def jobs.unique_keys_def job_target.unique_keys_def
      list_all_iff job_ok_def find_job_lookup job_target.lookup_None)

text \<open>What the operations write into a row keeps its identity and, where it changes the status, the lock.\<close>

named_theorems job_fields

lemma job_fields_simps [job_fields]:
  "same_job (\<lambda>j. j\<lparr>j_status := s, j_trigger := t, j_locked_by := l, j_locked_at := la,
       j_next_run_at := n, j_attempts := a, j_error := e\<rparr>)"
  "same_job (\<lambda>j. j\<lparr>j_status := s, j_trigger := t, j_retry_run_id := rr, j_locked_by := l,
       j_locked_at := la, j_next_run_at := n, j_attempts := a, j_error := e\<rparr>)"
  "same_job (\<lambda>j. j\<lparr>j_trigger := t\<rparr>)"
  "same_job (take_job now w p)"
  "same_job (\<lambda>j. j\<lparr>j_status := s, j_locked_by := l, j_error := e\<rparr>)"
  "same_job (\<lambda>j. j\<lparr>j_status := s, j_error := e, j_locked_by := l\<rparr>)"
  "same_job (\<lambda>j. j\<lparr>j_status := s, j_run_id := r, j_locked_by := l, j_locked_at := la, j_owner := p\<rparr>)"
  "same_job (\<lambda>j. j\<lparr>j_status := s, j_error := e, j_locked_by := l, j_locked_at := la, j_owner := p\<rparr>)"
  "same_job (\<lambda>j. j\<lparr>j_status := s, j_locked_by := l, j_error := e, j_run_id := coalesce r (j_run_id j),
       j_owner := p, j_locked_at := la, j_next_run_at := f j\<rparr>)"
  "same_job (\<lambda>j. j\<lparr>j_status := s, j_error := e, j_run_id := coalesce r (j_run_id j), j_locked_by := l,
       j_locked_at := la, j_owner := p\<rparr>)"
  by (simp_all add: same_job_def take_job_def)

lemma job_ok_unlocked: "j_status j \<noteq> Running \<Longrightarrow> j_locked_by j = None \<Longrightarrow> job_ok j"
  by (simp add: job_ok_def)

lemma find_job_Some:
  "find_job pr sha rs = Some j \<Longrightarrow> j \<in> set rs \<and> j_pr j = pr \<and> j_sha j = sha"
  using job_target.lookup_Some_set[of rs "(pr, sha)" j] by (simp add: find_job_lookup)

lemma get_job_Some: "get_job k rs = Some j \<Longrightarrow> j \<in> set rs \<and> j_id j = k"
  using jobs.lookup_Some_set[of rs k j] by (simp add: get_job_lookup)

lemma get_job_row: "jobs_wf js \<Longrightarrow> j \<in> set (rows js) \<Longrightarrow> get_job (j_id j) (rows js) = Some j"
  unfolding get_job_lookup by (rule jobs.lookup_unique) (auto simp: jobs_wf_def)

lemma find_job_row: "jobs_wf js \<Longrightarrow> j \<in> set (rows js) \<Longrightarrow> find_job (j_pr j) (j_sha j) (rows js) = Some j"
  unfolding find_job_lookup
  using job_target.lookup_unique[of "rows js" j] by (simp add: jobs_wf_def)

lemma find_job_insert [simp]: "find_job pr sha (rows (snd (insert_job pr sha trig prio rr now js))) \<noteq> None"
  by (auto simp: insert_job_def new_job_def find_job_lookup job_target.lookup_insert split: option.splits)

lemma rowcount_job_id:
  "jobs_wf js \<Longrightarrow> j \<in> set (rows js) \<Longrightarrow> Q j \<Longrightarrow> rowcount (\<lambda>r. j_id r = j_id j \<and> Q r) (rows js) = 1"
  using jobs.rowcount_key_1[of "rows js" "j_id j" Q] get_job_row[of js j]
  by (auto simp: jobs_wf_def get_job_lookup)

section \<open>Every operation keeps the invariant\<close>

lemma wf_enqueue_with_result:
  assumes "jobs_wf js"
  shows "jobs_wf (snd (enqueue_with_result now pr sha trig prio js))"
proof -
  have "jobs_wf (snd (insert_job pr sha trig prio None now js))" using assms by (rule wf_insert_job)
  then show ?thesis
    by (auto simp: enqueue_with_result_def Let_def split: prod.splits option.splits
        intro!: wf_update_jobs job_fields job_ok_unlocked)
qed

lemma wf_enqueue: "jobs_wf js \<Longrightarrow> jobs_wf (snd (enqueue now pr sha trig prio js))"
  using wf_enqueue_with_result[of js now pr sha trig prio] by (auto simp: enqueue_def split: prod.split)

lemma insert_job_found:
  "find_job pr sha (rows js) = None \<Longrightarrow>
   find_job pr sha (rows (snd (insert_job pr sha trig prio rr now js))) =
     Some (new_job pr sha trig prio rr now (next_id js))"
  by (simp add: insert_job_def find_job_lookup job_target.lookup_insert new_job_def)

lemma insert_job_get:
  "jobs_wf js \<Longrightarrow> find_job pr sha (rows js) = None \<Longrightarrow>
   get_job (next_id js) (rows (snd (insert_job pr sha trig prio rr now js))) =
     Some (new_job pr sha trig prio rr now (next_id js))"
proof -
  assume wf: "jobs_wf js" and none: "find_job pr sha (rows js) = None"
  have "jobs.lookup (rows js) (next_id js) = None"
    using wf by (auto simp: jobs.lookup_None jobs_wf_def list_all_iff)
  with none show ?thesis by (simp add: insert_job_def get_job_lookup jobs.lookup_insert new_job_def)
qed

lemma insert_job_keeps:
  "get_job k (rows js) = Some j \<Longrightarrow>
   get_job k (rows (snd (insert_job pr sha trig prio rr now js))) = Some j"
  by (auto simp: insert_job_def get_job_lookup jobs.lookup_insert)

text \<open>The five ways through \<open>enqueue_or_revive\<close>.\<close>

lemma enqueue_or_revive_cases:
  assumes "jobs_wf js"
  obtains (New) "find_job pr sha (rows js) = None"
      "enqueue_or_revive now pr sha trig prio rr js =
         (Inr (next_id js), snd (insert_job pr sha trig prio rr now js))"
  | (Revived) row where "find_job pr sha (rows js) = Some row" "finished (j_status row)"
      "enqueue_or_revive now pr sha trig prio rr js =
         (Inr (j_id row), update_jobs (\<lambda>j. j_id j = j_id row \<and> finished (j_status j)) (revive_job trig rr) js)"
  | (Promoted) row where "find_job pr sha (rows js) = Some row" "trig = Manual" "j_status row = Queued"
      "j_trigger row = Auto"
      "enqueue_or_revive now pr sha trig prio rr js =
         (Inr (j_id row), update_jobs (\<lambda>j. j_id j = j_id row \<and> j_status j = Queued \<and> j_trigger j = Auto)
            (\<lambda>j. j\<lparr>j_trigger := Manual\<rparr>) js)"
  | (Kept) row where "find_job pr sha (rows js) = Some row" "active (j_status row)"
      "enqueue_or_revive now pr sha trig prio rr js = (Inr (j_id row), js)"
      "trig = Retry \<longrightarrow> j_trigger row = Retry \<and> j_retry_run_id row = rr"
      "trig = Manual \<longrightarrow> j_trigger row = Manual"
  | (Refused) row where "find_job pr sha (rows js) = Some row" "active (j_status row)"
      "enqueue_or_revive now pr sha trig prio rr js = (Inl other_active_error, js)"
      "trig = Retry \<and> (j_trigger row \<noteq> Retry \<or> j_retry_run_id row \<noteq> rr) \<or>
       trig = Manual \<and> j_trigger row \<noteq> Manual"
proof (cases "find_job pr sha (rows js)")
  case None
  then show thesis
    using insert_job_found[OF None] insert_job_get[OF assms None]
    by (intro New) (auto simp: enqueue_or_revive_def Let_def finished_def active_def new_job_def)
next
  case (Some row)
  have row: "row \<in> set (rows js)" using find_job_Some[OF Some] by blast
  note get = get_job_row[OF assms row]
  show thesis
  proof (cases "finished (j_status row)")
    case True
    let ?f = "revive_job trig rr"
    let ?js2 = "update_jobs (\<lambda>j. j_id j = j_id row \<and> finished (j_status j)) ?f js"
    have "get_job (j_id row) (rows ?js2) = Some (?f row)"
      using get True by (subst rows_update_jobs, subst get_update) (auto simp: revive_job_def same_job_def)
    moreover have "j_status (?f row) = Queued" "j_trigger (?f row) = trig" "j_retry_run_id (?f row) = rr"
      by (simp_all add: revive_job_def)
    ultimately show thesis using Some True
      by (intro Revived[OF Some True]) (auto simp: enqueue_or_revive_def Let_def active_def)
  next
    case False
    then have act: "active (j_status row)" by (cases "j_status row") (auto simp: finished_def active_def)
    show thesis
    proof (cases "trig = Manual \<and> j_status row = Queued \<and> j_trigger row = Auto")
      case True
      let ?js3 = "update_jobs (\<lambda>j. j_id j = j_id row \<and> j_status j = Queued \<and> j_trigger j = Auto)
            (\<lambda>j. j\<lparr>j_trigger := Manual\<rparr>) js"
      have "get_job (j_id row) (rows ?js3) = Some (row\<lparr>j_trigger := Manual\<rparr>)"
        using get True by (subst rows_update_jobs, subst get_update) (auto simp: same_job_def)
      then show thesis using Some True False get
        by (intro Promoted[OF Some]) (auto simp: enqueue_or_revive_def Let_def)
    next
      case keep: False
      show thesis
      proof (cases "trig = Retry \<and> (j_trigger row \<noteq> Retry \<or> j_retry_run_id row \<noteq> rr) \<or>
          trig = Manual \<and> j_trigger row \<noteq> Manual")
        case True
        then show thesis using Some False keep get act
          by (intro Refused[OF Some]) (auto simp: enqueue_or_revive_def Let_def)
      next
        case ok: False
        then show thesis using Some False keep get act
          by (intro Kept[OF Some]) (auto simp: enqueue_or_revive_def Let_def)
      qed
    qed
  qed
qed

lemma wf_enqueue_or_revive:
  assumes "jobs_wf js"
  shows "jobs_wf (snd (enqueue_or_revive now pr sha trig prio rr js))"
  using assms
proof (cases rule: enqueue_or_revive_cases[of js pr sha now trig prio rr])
  case (Revived row)
  then show ?thesis using assms
    by (auto intro!: wf_update_jobs job_ok_unlocked simp: revive_job_def same_job_def)
next
  case (Promoted row)
  then show ?thesis using assms
    by (auto intro!: wf_update_jobs job_fields simp: job_ok_def)
qed (use assms wf_insert_job in auto)

text \<open>The row a claim takes, and what it leaves alone.\<close>

lemma claim_next_Some:
  assumes wf: "jobs_wf js" and claim: "claim_next (busy, now, w, p) js = (Some j, js')"
  obtains row where "\<not> busy" "get_job (j_id j) (rows js) = Some row" "claimable now row"
    "j = take_job now w p row"
    "\<forall>r\<in>set (rows js). claimable now r \<longrightarrow>
       j_priority r < j_priority row \<or> j_priority r = j_priority row \<and> j_id row \<le> j_id r"
    "js' = update_jobs (\<lambda>r. j_id r = j_id j) (take_job now w p) js"
proof -
  obtain row where sel: "select_first (\<lambda>j. (- j_priority j, j_id j)) (claimable now) (rows js) = Some row"
    and "\<not> busy" and js': "js' = update_jobs (\<lambda>r. j_id r = j_id row) (take_job now w p) js"
    and got: "Some j = get_job (j_id row) (rows js')"
    using claim by (auto simp: claim_next_def Let_def split: if_splits option.splits)
  note first = select_first_Some[OF sel]
  have get: "get_job (j_id row) (rows js) = Some row" using first by (intro get_job_row[OF wf]) simp
  have j: "j = take_job now w p row"
    using got get by (simp add: js' get_update job_fields)
  then have "j_id j = j_id row" by (simp add: take_job_def)
  moreover have "j_priority r < j_priority row \<or> j_priority r = j_priority row \<and> j_id row \<le> j_id r"
    if "r \<in> set (rows js)" "claimable now r" for r
    using first that by (fastforce simp: less_eq_prod_def)
  ultimately show thesis using that[of row] first get j js' \<open>\<not> busy\<close> by simp
qed

lemma claim_next_None: "claim_next c js = (None, js') \<Longrightarrow> jobs_wf js \<Longrightarrow>
  js' = js \<and> (fst c \<or> (\<forall>r\<in>set (rows js). \<not> claimable (fst (snd c)) r))"
proof -
  assume claim: "claim_next c js = (None, js')" and wf: "jobs_wf js"
  obtain busy now w p where c: "c = (busy, now, w, p)" by (metis prod.exhaust)
  show ?thesis
  proof (cases "busy \<or> select_first (\<lambda>j. (- j_priority j, j_id j)) (claimable now) (rows js) = None")
    case True
    then have "js' = js" using claim by (auto simp: c claim_next_def split: if_splits)
    with True show ?thesis by (auto simp: c select_first_None)
  next
    case False
    then obtain row where sel: "select_first (\<lambda>j. (- j_priority j, j_id j)) (claimable now) (rows js) = Some row"
      by auto
    have "get_job (j_id row) (rows js) = Some row"
      using select_first_Some[OF sel] by (intro get_job_row[OF wf]) simp
    then show ?thesis using claim False sel
      by (simp add: c claim_next_def Let_def get_update job_fields)
  qed
qed

lemma wf_claim_next: "jobs_wf js \<Longrightarrow> jobs_wf (snd (claim_next c js))"
proof (cases "claim_next c js")
  case (Pair o1 js')
  assume wf: "jobs_wf js"
  obtain busy now w p where c: "c = (busy, now, w, p)" by (metis prod.exhaust)
  show ?thesis
  proof (cases o1)
    case None
    with Pair have "js' = js" using claim_next_None wf by blast
    with Pair wf show ?thesis by simp
  next
    case (Some j)
    with Pair have "claim_next (busy, now, w, p) js = (Some j, js')" by (simp add: c)
    then have "js' = update_jobs (\<lambda>r. j_id r = j_id j) (take_job now w p) js"
      by (rule claim_next_Some[OF wf])
    then show ?thesis
      using Pair wf by (auto simp: job_ok_def take_job_def intro!: wf_update_jobs job_fields)
  qed
qed

lemma wf_recover_stale: "jobs_wf js \<Longrightarrow> jobs_wf (snd (recover_stale now m js))"
  by (auto simp: recover_stale_def Let_def intro!: wf_update_jobs job_fields job_ok_unlocked)

lemma wf_mark_done: "jobs_wf js \<Longrightarrow> jobs_wf (snd (mark_done k r p js))"
  by (auto simp: mark_done_def finish_job_def Let_def intro!: wf_update_jobs job_fields job_ok_unlocked)

lemma wf_mark_canceled: "jobs_wf js \<Longrightarrow> jobs_wf (snd (mark_canceled k e p js))"
  by (auto simp: mark_canceled_def finish_job_def Let_def intro!: wf_update_jobs job_fields job_ok_unlocked)

lemma wf_mark_failed: "jobs_wf js \<Longrightarrow> jobs_wf (snd (mark_failed now k e retry r p js))"
  by (auto simp: mark_failed_def split: option.splits intro!: wf_update_jobs job_fields job_ok_unlocked)

lemma wf_cancel_queued: "jobs_wf js \<Longrightarrow> jobs_wf (snd (cancel_queued pr e js))"
  by (auto simp: cancel_queued_def Let_def intro!: wf_update_jobs job_fields job_ok_unlocked)

text \<open>The three outcomes of \<open>cancel_stale_and_enqueue_latest\<close> for an existing job.\<close>

definition cancel_stale :: "nat \<Rightarrow> pystr option \<Rightarrow> job_table \<Rightarrow> job_table" where
  "cancel_stale jid p js =
     update_jobs (\<lambda>j. j_id j = jid \<and> active (j_status j) \<and> owner_ok p j)
       (\<lambda>j. j\<lparr>j_status := Canceled, j_error := Some STALE_HEAD_CANCEL_ERROR,
            j_locked_by := None, j_locked_at := None, j_owner := None\<rparr>) js"

lemma wf_cancel_stale: "jobs_wf js \<Longrightarrow> jobs_wf (cancel_stale jid p js)"
  unfolding cancel_stale_def by (auto intro!: wf_update_jobs job_fields job_ok_unlocked)

lemma cancel_stale_latest_cases:
  assumes wf: "jobs_wf js" and job: "get_job jid (rows js) = Some row"
    and head: "pr_head (j_pr row) = Some head" "head \<noteq> []" "head \<noteq> j_sha row"
  obtains latest where
    "find_job (j_pr row) head (rows (snd (insert_job (j_pr row) head
        (if j_trigger row = Auto then Auto else Manual) (j_priority row) None now
        (cancel_stale jid p js)))) = Some latest"
    "cancel_stale_and_enqueue_latest pr_head now jid p js =
       (Inr (Some (j_id latest)),
        (if j_status latest = Canceled \<and> is_system_cancel_error (j_error latest)
         then update_jobs (\<lambda>j. j_id j = j_id latest \<and> j_status j = Canceled \<and> j_error j = j_error latest)
                (revive_job (if j_trigger row = Auto then Auto else Manual) None)
                (snd (insert_job (j_pr row) head (if j_trigger row = Auto then Auto else Manual)
                   (j_priority row) None now (cancel_stale jid p js)))
         else snd (insert_job (j_pr row) head (if j_trigger row = Auto then Auto else Manual)
                   (j_priority row) None now (cancel_stale jid p js))))"
proof -
  let ?js2 = "snd (insert_job (j_pr row) head (if j_trigger row = Auto then Auto else Manual)
      (j_priority row) None now (cancel_stale jid p js))"
  obtain latest where latest: "find_job (j_pr row) head (rows ?js2) = Some latest"
    using find_job_insert by fastforce
  show thesis
    using job head latest
    by (intro that[OF latest])
      (simp add: cancel_stale_and_enqueue_latest_def cancel_stale_def revive_job_def[abs_def] Let_def)
qed

lemma wf_cancel_stale_latest:
  assumes "jobs_wf js"
  shows "jobs_wf (snd (cancel_stale_and_enqueue_latest pr_head now jid p js))"
proof (cases "\<exists>row head. get_job jid (rows js) = Some row \<and> pr_head (j_pr row) = Some head \<and>
    head \<noteq> [] \<and> head \<noteq> j_sha row")
  case True
  then obtain row head where job: "get_job jid (rows js) = Some row"
    and head: "pr_head (j_pr row) = Some head" "head \<noteq> []" "head \<noteq> j_sha row" by blast
  show ?thesis
    by (rule cancel_stale_latest_cases[where pr_head = pr_head and now = now and p = p, OF assms job head])
      (auto simp: wf_insert_job wf_cancel_stale[OF assms] same_job_def revive_job_def
        intro!: wf_update_jobs job_ok_unlocked)
next
  case no_latest: False
  show ?thesis
  proof (cases "get_job jid (rows js)")
    case None
    then show ?thesis using assms by (simp add: cancel_stale_and_enqueue_latest_def)
  next
    case (Some row)
    then have "snd (cancel_stale_and_enqueue_latest pr_head now jid p js) = cancel_stale jid p js"
      using no_latest by (cases "pr_head (j_pr row)")
        (auto simp: cancel_stale_and_enqueue_latest_def cancel_stale_def Let_def)
    then show ?thesis using wf_cancel_stale[OF assms] by simp
  qed
qed

section \<open>The queue as a work queue\<close>

lemma claim_next_law:
  assumes wf: "jobs_wf js" and claim: "claim_next c js = (Some j, js')"
  shows "jobs_wf js' \<and> jobs.lookup (rows js') (j_id j) = Some j \<and> j_status j = Running \<and>
    (\<exists>r0. jobs.lookup (rows js) (j_id j) = Some r0 \<and> j_status r0 \<noteq> Running) \<and>
    (\<forall>k. k \<noteq> j_id j \<longrightarrow> jobs.lookup (rows js') k = jobs.lookup (rows js) k)"
proof -
  obtain busy now w p where c: "c = (busy, now, w, p)" by (metis prod.exhaust)
  obtain row where row: "get_job (j_id j) (rows js) = Some row" "claimable now row"
    "j = take_job now w p row" "js' = update_jobs (\<lambda>r. j_id r = j_id j) (take_job now w p) js"
    using claim_next_Some[OF wf claim[unfolded c]] by metis
  have "jobs_wf js'" using wf_claim_next[OF wf, of c] claim by simp
  moreover have id: "j_id row = j_id j" using get_job_Some[OF row(1)] by simp
  have "get_job (j_id j) (rows js') = Some j"
    unfolding row(4) using row(1) id by (simp add: get_update job_fields row(3)[symmetric])
  moreover have "get_job k (rows js') = get_job k (rows js)" if "k \<noteq> j_id j" for k
  proof (cases "get_job k (rows js)")
    case (Some r)
    then have "j_id r = k" using get_job_Some by blast
    with Some that show ?thesis by (simp add: row(4) get_update job_fields)
  qed (simp add: row(4) get_update job_fields)
  moreover have "j_status j = Running" by (simp add: row(3) take_job_def)
  ultimately show ?thesis using row(1,2) unfolding get_job_lookup claimable_def by auto
qed

lemma claim_next_unchanged:
  assumes "claim_next c js = (None, js')"
  shows "js' = js"
proof -
  obtain busy now w p where c: "c = (busy, now, w, p)" by (metis prod.exhaust)
  have False if "select_first (\<lambda>j. (- j_priority j, j_id j)) (claimable now) (rows js) = Some row"
    and "get_job (j_id row) (rows js) = None" for row
    using select_first_Some[OF that(1)] that(2) by (auto simp: get_job_lookup jobs.lookup_None)
  then show ?thesis
    using assms by (auto simp: c claim_next_def Let_def get_update job_fields split: if_splits option.splits)
qed

interpretation jobq: work_queue j_id rows jobs_wf "\<lambda>j. j_status j = Running" claim_next
proof unfold_locales
  show "js' = js" if "claim_next c js = (None, js')" for c js js'
    by (rule claim_next_unchanged[OF that])
qed (use claim_next_law in blast)

section \<open>Runs of the queue\<close>

text \<open>Every call any part of the server makes on the queue.\<close>

datatype job_event =
    EnqueueAuto int nat pystr int
  | EnqueueManual int nat pystr int
  | EnqueueRetry int nat pystr nat
  | ClaimJob "bool \<times> int \<times> pystr \<times> pystr option"
  | RecoverStale int int
  | MarkDone nat "nat option" "pystr option"
  | MarkCanceled nat pystr "pystr option"
  | MarkFailed int nat pystr bool "nat option" "pystr option"
  | CancelQueued nat pystr
  | CancelStale "nat \<Rightarrow> pystr option" int nat "pystr option"

fun apply_job_event :: "job_event \<Rightarrow> job_table \<Rightarrow> job_table" where
  "apply_job_event (EnqueueAuto now pr sha prio) js = snd (enqueue now pr sha Auto prio js)"
| "apply_job_event (EnqueueManual now pr sha prio) js = snd (enqueue_manual now pr sha prio js)"
| "apply_job_event (EnqueueRetry now pr sha run) js = snd (enqueue_retry now pr sha run js)"
| "apply_job_event (ClaimJob c) js = snd (claim_next c js)"
| "apply_job_event (RecoverStale now minutes) js = snd (recover_stale now minutes js)"
| "apply_job_event (MarkDone jid run p) js = snd (mark_done jid run p js)"
| "apply_job_event (MarkCanceled jid err p) js = snd (mark_canceled jid err p js)"
| "apply_job_event (MarkFailed now jid err retry run p) js = snd (mark_failed now jid err retry run p js)"
| "apply_job_event (CancelQueued pr err) js = snd (cancel_queued pr err js)"
| "apply_job_event (CancelStale heads now jid p) js = snd (cancel_stale_and_enqueue_latest heads now jid p js)"

inductive job_reachable :: "job_table \<Rightarrow> bool" where
  empty: "job_reachable \<lparr>rows = [], next_id = 1\<rparr>"
| event: "job_reachable js \<Longrightarrow> job_reachable (apply_job_event e js)"

lemma wf_job_event: "jobs_wf js \<Longrightarrow> jobs_wf (apply_job_event e js)"
  by (cases e)
    (simp_all add: wf_enqueue wf_enqueue_or_revive enqueue_manual_def enqueue_retry_def wf_claim_next
      wf_recover_stale wf_mark_done wf_mark_canceled wf_mark_failed wf_cancel_queued wf_cancel_stale_latest)

lemma reachable_wf: "job_reachable js \<Longrightarrow> jobs_wf js"
proof (induction rule: job_reachable.induct)
  case empty
  then show ?case by (simp add: jobs_wf_def jobs.unique_keys_def job_target.unique_keys_def)
next
  case (event js e)
  from event.IH show ?case by (rule wf_job_event)
qed

text \<open>The events that may take a running job away from the worker that claimed it.\<close>

fun ends_run :: "nat \<Rightarrow> job_event \<Rightarrow> bool" where
  "ends_run k (RecoverStale now minutes) = True"
| "ends_run k (MarkDone jid run p) = (jid = k)"
| "ends_run k (MarkCanceled jid err p) = (jid = k)"
| "ends_run k (MarkFailed now jid err retry run p) = (jid = k)"
| "ends_run k (CancelStale heads now jid p) = (jid = k)"
| "ends_run k e = False"

text \<open>An update that does not stop job \<open>k\<close>, and inserts, keep its holder.\<close>

definition keeps_running :: "nat \<Rightarrow> job_table \<Rightarrow> job_table \<Rightarrow> bool" where
  "keeps_running k js js' \<longleftrightarrow>
     (\<forall>j. get_job k (rows js) = Some j \<longrightarrow> j_status j = Running \<longrightarrow>
        (\<exists>j'. get_job k (rows js') = Some j' \<and> j_status j' = Running))"

lemma keeps_running_refl [simp]: "keeps_running k js js"
  by (simp add: keeps_running_def)

lemma keeps_running_trans:
  "keeps_running k a b \<Longrightarrow> keeps_running k b c \<Longrightarrow> keeps_running k a c"
  unfolding keeps_running_def by blast

lemma keeps_running_update:
  assumes "same_job f" "\<And>j. j_id j = k \<Longrightarrow> j_status j = Running \<Longrightarrow> P j \<Longrightarrow> j_status (f j) = Running"
  shows "keeps_running k js (update_jobs P f js)"
  using assms get_job_Some[of k "rows js"] by (auto simp: keeps_running_def get_update)

lemma keeps_running_insert: "keeps_running k js (snd (insert_job pr sha trig prio rr now js))"
  by (auto simp: keeps_running_def insert_job_def get_job_lookup jobs.lookup_insert)

lemma keeps_running_enqueue: "keeps_running k js (snd (enqueue_with_result now pr sha trig prio js))"
proof -
  let ?js1 = "snd (insert_job pr sha trig prio None now js)"
  have "keeps_running k ?js1 (snd (enqueue_with_result now pr sha trig prio js))"
    by (auto simp: enqueue_with_result_def Let_def split: prod.splits option.splits
        intro!: keeps_running_update job_fields)
  with keeps_running_insert show ?thesis by (rule keeps_running_trans)
qed

lemma keeps_running_revive:
  assumes "jobs_wf js"
  shows "keeps_running k js (snd (enqueue_or_revive now pr sha trig prio rr js))"
  using assms
proof (cases rule: enqueue_or_revive_cases[of js pr sha now trig prio rr])
  case New
  then show ?thesis by (simp add: keeps_running_insert)
next
  case (Revived row)
  then show ?thesis
    by (auto simp: finished_def same_job_def revive_job_def intro!: keeps_running_update)
next
  case (Promoted row)
  then show ?thesis by (auto intro!: keeps_running_update job_fields)
qed simp_all

lemma keeps_running_stale_latest:
  assumes wf: "jobs_wf js" and "jid \<noteq> k"
  shows "keeps_running k js (snd (cancel_stale_and_enqueue_latest pr_head now jid p js))"
proof -
  have stale: "keeps_running k js (cancel_stale jid p js)"
    unfolding cancel_stale_def using assms(2) by (auto intro!: keeps_running_update job_fields)
  show ?thesis
  proof (cases "\<exists>row head. get_job jid (rows js) = Some row \<and> pr_head (j_pr row) = Some head \<and>
      head \<noteq> [] \<and> head \<noteq> j_sha row")
    case True
    then obtain row head where job: "get_job jid (rows js) = Some row"
      and head: "pr_head (j_pr row) = Some head" "head \<noteq> []" "head \<noteq> j_sha row" by blast
    show ?thesis
      by (rule cancel_stale_latest_cases[where pr_head = pr_head and now = now and p = p, OF wf job head])
        (auto simp: same_job_def revive_job_def
          intro: keeps_running_trans[OF stale keeps_running_insert] keeps_running_update
            keeps_running_trans[OF keeps_running_trans[OF stale keeps_running_insert] keeps_running_update])
  next
    case False
    then have "snd (cancel_stale_and_enqueue_latest pr_head now jid p js) \<in> {js, cancel_stale jid p js}"
      by (auto simp: cancel_stale_and_enqueue_latest_def cancel_stale_def Let_def split: option.splits)
    with stale show ?thesis by auto
  qed
qed

lemma event_keeps_running:
  assumes wf: "jobs_wf js" and "\<not> ends_run k e"
  shows "keeps_running k js (apply_job_event e js)"
proof (cases e)
  case (EnqueueAuto now pr sha prio)
  then show ?thesis
    using keeps_running_enqueue[of k js now pr sha Auto prio] by (auto simp: enqueue_def split: prod.split)
next
  case (ClaimJob c)
  show ?thesis
  proof (cases "claim_next c js")
    case (Pair o1 js')
    show ?thesis
    proof (cases o1)
      case None
      with Pair have "js' = js" using claim_next_unchanged by blast
      then show ?thesis using Pair ClaimJob by simp
    next
      case (Some j)
      have "jobq.held_key js' k \<longleftrightarrow> jobq.held_key js k \<or> k = j_id j"
        using jobq.claim_held_key(3) wf Pair Some by blast
      then show ?thesis using Pair ClaimJob
        by (auto simp: keeps_running_def jobq.held_key_def get_job_lookup)
    qed
  qed
qed (use assms keeps_running_revive keeps_running_stale_latest in
     \<open>auto simp: enqueue_manual_def enqueue_retry_def mark_done_def mark_canceled_def finish_job_def
        mark_failed_def cancel_queued_def Let_def split: option.split intro!: keeps_running_update job_fields\<close>)

lemma event_quiet: "\<not> ends_run k e \<Longrightarrow> jobq.quiet k (apply_job_event e)"
  using event_keeps_running wf_job_event
  unfolding jobq.quiet_def jobq.held_key_def keeps_running_def get_job_lookup by blast

text \<open>The jobs that the claims of a run of events hand out, and the final table.\<close>

fun claimed_in :: "job_event list \<Rightarrow> job_table \<Rightarrow> job list \<times> job_table" where
  "claimed_in [] js = ([], js)"
| "claimed_in (e # es) js =
     (case e of
        ClaimJob c \<Rightarrow>
          (case claim_next c js of (got, js1) \<Rightarrow>
             (case claimed_in es js1 of (later, js2) \<Rightarrow>
                ((case got of None \<Rightarrow> later | Some j \<Rightarrow> j # later), js2)))
      | _ \<Rightarrow> claimed_in es (apply_job_event e js))"

fun to_work :: "job_event \<Rightarrow> (bool \<times> int \<times> pystr \<times> pystr option, job_table) work_event" where
  "to_work (ClaimJob c) = Claim c"
| "to_work e = Other (apply_job_event e)"

lemma to_work_Other: "to_work e = Other g \<Longrightarrow> g = apply_job_event e"
  by (cases e) auto

lemma claimed_in_run: "claimed_in es js = jobq.run (map to_work es) js"
proof (induction es arbitrary: js)
  case (Cons e es)
  then show ?case by (cases e) (auto split: prod.splits option.splits)
qed simp

section \<open>Properties\<close>


text \<open>Two jobs; the second has the higher priority and runs.\<close>

definition sample_events :: "job_event list" where
  "sample_events =
     [EnqueueAuto 100 1 [97] 0, EnqueueManual 101 2 [98] 5, EnqueueAuto 102 1 [97] 0,
      ClaimJob (False, 103, [119], Some [112])]"

definition sample_jobs :: job_table where
  "sample_jobs = fold apply_job_event sample_events \<lparr>rows = [], next_id = 1\<rparr>"

lemma reachable_fold: "job_reachable js \<Longrightarrow> job_reachable (fold apply_job_event es js)"
  by (induction es arbitrary: js) (auto intro: job_reachable.event)

lemma sample_jobs_reachable: "job_reachable sample_jobs"
  unfolding sample_jobs_def by (intro reachable_fold job_reachable.empty)

lemma sample_jobs_wf: "jobs_wf sample_jobs"
  by (rule reachable_wf[OF sample_jobs_reachable])




text \<open>
  The order of the queue.  A claim takes a due queued job of the highest priority, the oldest one
  among equals, locks it and counts the attempt; it comes back empty only when the database is busy
  or no queued job is due, and then changes nothing.
\<close>

lemma claim_next_order:
  assumes "job_reachable js"
  shows "case claim_next (busy, now, worker, owner) js of
      (None, js') \<Rightarrow> js' = js \<and> (busy \<or> (\<forall>r\<in>set (rows js). \<not> claimable now r))
    | (Some j, js') \<Rightarrow>
        (\<exists>row. get_job (j_id j) (rows js) = Some row \<and> claimable now row \<and>
           (\<forall>r\<in>set (rows js). claimable now r \<longrightarrow>
              j_priority r < j_priority row \<or> j_priority r = j_priority row \<and> j_id row \<le> j_id r) \<and>
           j = row\<lparr>j_status := Running, j_locked_by := Some worker, j_locked_at := Some now,
                   j_owner := owner, j_attempts := j_attempts row + 1\<rparr>) \<and>
        get_job (j_id j) (rows js') = Some j \<and>
        (\<forall>k. k \<noteq> j_id j \<longrightarrow> get_job k (rows js') = get_job k (rows js))"
proof (cases "claim_next (busy, now, worker, owner) js")
  case (Pair got js')
  note wf = reachable_wf[OF assms]
  show ?thesis
  proof (cases got)
    case None
    with Pair show ?thesis using claim_next_None[OF _ wf] by fastforce
  next
    case (Some j)
    note claim = Pair[unfolded Some]
    obtain row where row: "get_job (j_id j) (rows js) = Some row" "claimable now row"
      "j = take_job now worker owner row"
      "\<forall>r\<in>set (rows js). claimable now r \<longrightarrow>
         j_priority r < j_priority row \<or> j_priority r = j_priority row \<and> j_id row \<le> j_id r"
      by (rule claim_next_Some[OF wf claim])
    have "get_job (j_id j) (rows js') = Some j \<and>
        (\<forall>k. k \<noteq> j_id j \<longrightarrow> get_job k (rows js') = get_job k (rows js))"
      using claim_next_law[OF wf claim] by (simp add: get_job_lookup)
    with row show ?thesis unfolding claim prod.case option.case take_job_def by blast
  qed
qed

text \<open>
  C18: a process that lost the lease of a job changes nothing.  If the job is gone or belongs to
  another process, finishing, cancelling and failing it raise \<open>LeaseLostError\<close> and leave the table
  as it was.
\<close>

theorem lease_lost_changes_nothing:
  assumes "\<forall>j. get_job jid (rows js) = Some j \<longrightarrow> j_owner j \<noteq> Some p" and "job_reachable js"
  shows "mark_done jid run (Some p) js = (Inl (LeaseLostError jid), js) \<and>
    mark_canceled jid err (Some p) js = (Inl (LeaseLostError jid), js) \<and>
    mark_failed now jid err retry run (Some p) js = (Inl (LeaseLostError jid), js)"
proof -
  have none: "rowcount (\<lambda>j. j_id j = jid \<and> owner_ok (Some p) j) (rows js) = 0"
    using assms(1) get_job_row[OF reachable_wf[OF assms(2)]]
    by (auto simp: rowcount_0_iff owner_ok_def)
  have "update_jobs (\<lambda>j. j_id j = jid \<and> owner_ok (Some p) j) f js = js" for f
    using sql_update_nochange[OF none] by (simp add: update_jobs_def)
  then show ?thesis
    using assms(1) none
    by (auto simp: mark_done_def mark_canceled_def mark_failed_def finish_job_def split: option.split)
qed

lemma lease_lost_changes_nothing_witness:
  "mark_done 2 None (Some [113]) sample_jobs = (Inl (LeaseLostError 2), sample_jobs)"
proof -
  have "map_option j_owner (get_job 2 (rows sample_jobs)) = Some (Some [112])" by code_simp
  then have "\<forall>j. get_job 2 (rows sample_jobs) = Some j \<longrightarrow> j_owner j \<noteq> Some [113]" by auto
  from lease_lost_changes_nothing[OF this sample_jobs_reachable] show ?thesis by blast
qed

text \<open>
  The retry policy.  The holder of a job that fails for a retryable reason gets it back to the
  queue, unlocked and due after \<open>2 ^ attempts\<close> minutes, exactly while attempts remain; otherwise the
  job is failed for good.  The run of the last attempt is kept when this attempt has none.
\<close>

lemma mark_failed_policy:
  assumes "get_job jid (rows js) = Some row" and "p = None \<or> j_owner row = p"
  shows "\<exists>js'. mark_failed now jid err retry run p js = (Inr (), js') \<and>
    get_job jid (rows js') = Some
      (let ended = row\<lparr>j_error := Some err, j_locked_by := None, j_locked_at := None, j_owner := None,
                       j_run_id := (case run of None \<Rightarrow> j_run_id row | Some r \<Rightarrow> Some r)\<rparr>
       in if retry \<and> j_attempts row < j_max_attempts row
          then ended\<lparr>j_status := Queued, j_next_run_at := Some (now + 60 * 2 ^ j_attempts row)\<rparr>
          else ended\<lparr>j_status := Failed\<rparr>)"
proof -
  have "j_id row = jid" using get_job_Some[OF assms(1)] by simp
  with assms show ?thesis
    by (auto simp: mark_failed_def get_update same_job_def owner_ok_def coalesce_def Let_def split: option.splits)
qed

text \<open>
  Automatic enqueueing is idempotent and never overrides a user.  It always returns the one job
  of the pull-request head; the flag is true exactly when that job was created or had been cancelled by the system, and
  in both cases it is now queued; in every other case the table is untouched.
\<close>

lemma enqueue_auto_result:
  assumes wf: "jobs_wf js"
  shows "\<exists>jid fresh js'. enqueue_with_result now pr sha Auto prio js = (Inr (jid, fresh), js') \<and>
    (\<exists>j. get_job jid (rows js') = Some j \<and> j_pr j = pr \<and> j_sha j = sha \<and> (fresh \<longrightarrow> j_status j = Queued)) \<and>
    (fresh \<longleftrightarrow> (case find_job pr sha (rows js) of None \<Rightarrow> True
       | Some old \<Rightarrow> j_status old = Canceled \<and> is_system_cancel_error (j_error old))) \<and>
    (\<not> fresh \<longrightarrow> js' = js)"
proof (cases "find_job pr sha (rows js)")
  case None
  let ?new = "new_job pr sha Auto prio None now (next_id js)"
  have "insert_job pr sha Auto prio None now js = (True, snd (insert_job pr sha Auto prio None now js))"
    using None by (simp add: insert_job_def)
  then have "enqueue_with_result now pr sha Auto prio js =
      (Inr (next_id js, True), snd (insert_job pr sha Auto prio None now js))"
    using insert_job_found[OF None, of Auto prio None now]
    by (auto simp: enqueue_with_result_def new_job_def split: prod.splits)
  moreover note insert_job_get[OF wf None, of Auto prio None now]
  ultimately show ?thesis using None by (auto simp: new_job_def)
next
  case (Some old)
  have old: "old \<in> set (rows js)" "j_pr old = pr" "j_sha old = sha" using find_job_Some[OF Some] by blast+
  note get = get_job_row[OF wf old(1)]
  have ins: "insert_job pr sha Auto prio None now js = (False, js)" using Some by (simp add: insert_job_def)
  show ?thesis
  proof (cases "j_status old = Canceled \<and> is_system_cancel_error (j_error old)")
    case True
    have "rowcount (\<lambda>j. j_id j = j_id old \<and> j_status j = Canceled \<and> j_error j = j_error old) (rows js) = 1"
      using rowcount_job_id[OF wf old(1), of "\<lambda>j. j_status j = Canceled \<and> j_error j = j_error old"] True
      by simp
    with True Some ins get old show ?thesis
      by (auto simp: enqueue_with_result_def get_update job_fields Let_def)
  next
    case False
    then show ?thesis using Some ins get old by (auto simp: enqueue_with_result_def)
  qed
qed

lemma enqueue_auto_total:
  assumes "jobs_wf js"
  obtains jid js' where "enqueue now pr sha Auto prio js = (Inr jid, js')" "jobs_wf js'"
proof -
  from enqueue_auto_result[OF assms, of now pr sha prio] obtain jid fresh js' where
    "enqueue_with_result now pr sha Auto prio js = (Inr (jid, fresh), js')" by blast
  then have "enqueue now pr sha Auto prio js = (Inr jid, js')" by (simp add: enqueue_def)
  with wf_enqueue[OF assms, of now pr sha Auto prio] that show thesis by auto
qed

text \<open>
  An explicit review or retry request either gets a job or changes nothing.  On success the
  returned job reviews that head, waits or runs, and is a manual job or the retry of exactly that run;
  a retry is refused exactly when the read-only check \<open>retry_enqueue_conflict\<close> says so, and a refused
  request leaves the table as it was.
\<close>

lemma explicit_enqueue_effect:
  assumes "job_reachable js"
  shows "(case enqueue_manual now pr sha prio js of
      (Inl e, js') \<Rightarrow> js' = js
    | (Inr jid, js') \<Rightarrow> \<exists>j. get_job jid (rows js') = Some j \<and> j_pr j = pr \<and> j_sha j = sha \<and>
        active (j_status j) \<and> j_trigger j = Manual) \<and>
    (case enqueue_retry now pr sha run js of
      (Inl e, js') \<Rightarrow> retry_enqueue_conflict pr sha run js \<and> js' = js
    | (Inr jid, js') \<Rightarrow> \<not> retry_enqueue_conflict pr sha run js \<and>
        (\<exists>j. get_job jid (rows js') = Some j \<and> j_pr j = pr \<and> j_sha j = sha \<and>
           active (j_status j) \<and> j_trigger j = Retry \<and> j_retry_run_id j = Some run))"
proof
  note wf = reachable_wf[OF assms]
  have row: "get_job (j_id r) (rows js) = Some r \<and> j_pr r = pr \<and> j_sha r = sha"
    if "find_job pr sha (rows js) = Some r" for r
    using find_job_Some[OF that] get_job_row[OF wf] by blast
  show "case enqueue_manual now pr sha prio js of
      (Inl e, js') \<Rightarrow> js' = js
    | (Inr jid, js') \<Rightarrow> \<exists>j. get_job jid (rows js') = Some j \<and> j_pr j = pr \<and> j_sha j = sha \<and>
        active (j_status j) \<and> j_trigger j = Manual"
    using wf
  proof (cases rule: enqueue_or_revive_cases[of js pr sha now Manual prio None])
    case New
    then show ?thesis using insert_job_get[OF wf New(1), of Manual prio None now]
      by (simp add: enqueue_manual_def new_job_def active_def)
  next
    case (Revived r)
    then show ?thesis using row[OF Revived(1)] by (auto simp: enqueue_manual_def get_update same_job_def revive_job_def active_def)
  next
    case (Promoted r)
    then show ?thesis using row[OF Promoted(1)] by (auto simp: enqueue_manual_def get_update same_job_def active_def)
  qed (use row in \<open>auto simp: enqueue_manual_def\<close>)
  show "case enqueue_retry now pr sha run js of
      (Inl e, js') \<Rightarrow> retry_enqueue_conflict pr sha run js \<and> js' = js
    | (Inr jid, js') \<Rightarrow> \<not> retry_enqueue_conflict pr sha run js \<and>
        (\<exists>j. get_job jid (rows js') = Some j \<and> j_pr j = pr \<and> j_sha j = sha \<and>
           active (j_status j) \<and> j_trigger j = Retry \<and> j_retry_run_id j = Some run)"
    using wf
  proof (cases rule: enqueue_or_revive_cases[of js pr sha now Retry 0 "Some run"])
    case New
    then show ?thesis using insert_job_get[OF wf New(1), of Retry 0 "Some run" now]
      by (simp add: enqueue_retry_def new_job_def active_def retry_enqueue_conflict_def)
  next
    case (Revived r)
    then show ?thesis using row[OF Revived(1)]
      by (auto simp: enqueue_retry_def get_update same_job_def revive_job_def active_def retry_enqueue_conflict_def finished_def)
  qed (use row in \<open>auto simp: enqueue_retry_def retry_enqueue_conflict_def\<close>)
qed

text \<open>
  When the head of a job's pull request has changed, the call cancels the job (unless another process holds it) and
  returns the one job of the new head, which is queued if it was created now or had been cancelled by the system; a job
  of the new head that a user cancelled, or that ended, stays as it is.
\<close>

lemma stale_latest_effect:
  assumes "jobs_wf js" and "get_job jid (rows js) = Some row"
    and "pr_head (j_pr row) = Some head" "head \<noteq> []" "head \<noteq> j_sha row"
    and "p = None \<or> j_owner row = p"
  shows "\<exists>latest js'. cancel_stale_and_enqueue_latest pr_head now jid p js = (Inr (Some latest), js') \<and>
    (\<exists>old. get_job jid (rows js') = Some old \<and> \<not> active (j_status old) \<and> (active (j_status row) \<longrightarrow> j_status old = Canceled)) \<and>
    (\<exists>j. get_job latest (rows js') = Some j \<and> j_pr j = j_pr row \<and> j_sha j = head \<and>
       (case find_job (j_pr row) head (rows js) of
          None \<Rightarrow> j_status j = Queued
        | Some was \<Rightarrow> if j_status was = Canceled \<and> is_system_cancel_error (j_error was)
                      then j_status j = Queued else j = was))"
proof -
  note wf = assms(1)
  let ?trig = "if j_trigger row = Auto then Auto else Manual"
  let ?js1 = "cancel_stale jid p js"
  let ?js2 = "snd (insert_job (j_pr row) head ?trig (j_priority row) None now ?js1)"
  have id: "j_id row = jid" using get_job_Some[OF assms(2)] by simp
  note wf1 = wf_cancel_stale[OF wf, of jid p]
  note wf2 = wf_insert_job[OF wf1, of "j_pr row" head ?trig "j_priority row" None now]
  have job1: "\<exists>old. get_job jid (rows ?js1) = Some old \<and> \<not> active (j_status old) \<and> (active (j_status row) \<longrightarrow> j_status old = Canceled) \<and> j_sha old = j_sha row"
    using assms(2,6) id by (auto simp: cancel_stale_def get_update same_job_def owner_ok_def active_def)
  have find1: "find_job (j_pr row) head (rows ?js1) = find_job (j_pr row) head (rows js)"
  proof (cases "find_job (j_pr row) head (rows js)")
    case (Some was)
    then have "j_id was \<noteq> jid"
      using assms(2,5) get_job_row[OF wf] find_job_Some[OF Some] by (metis option.inject)
    with Some show ?thesis by (simp add: cancel_stale_def find_update same_job_def)
  qed (simp add: cancel_stale_def find_update same_job_def)
  obtain latest where latest: "find_job (j_pr row) head (rows ?js2) = Some latest"
    and result: "cancel_stale_and_enqueue_latest pr_head now jid p js = (Inr (Some (j_id latest)),
        (if j_status latest = Canceled \<and> is_system_cancel_error (j_error latest)
         then update_jobs (\<lambda>j. j_id j = j_id latest \<and> j_status j = Canceled \<and> j_error j = j_error latest)
                (revive_job ?trig None) ?js2
         else ?js2))"
    by (rule cancel_stale_latest_cases[where pr_head = pr_head and now = now and p = p, OF wf assms(2-5)])
  obtain old where old: "get_job jid (rows ?js2) = Some old" "\<not> active (j_status old)" "active (j_status row) \<longrightarrow> j_status old = Canceled" "j_sha old = j_sha row"
    using job1 insert_job_keeps[of jid ?js1] by blast
  have "latest \<in> set (rows ?js2)" and tgt: "j_pr latest = j_pr row" "j_sha latest = head"
    using find_job_Some[OF latest] by auto
  then have get: "get_job (j_id latest) (rows ?js2) = Some latest" using get_job_row[OF wf2] by blast
  then have "j_id latest \<noteq> jid" using old assms(5) tgt by auto
  moreover have "case find_job (j_pr row) head (rows js) of None \<Rightarrow> j_status latest = Queued | Some was \<Rightarrow> latest = was"
    using latest find1 insert_job_found[of "j_pr row" head ?js1]
    by (auto simp: new_job_def insert_job_def split: option.splits if_splits)
  ultimately show ?thesis
    using old get tgt get_job_Some[OF old(1)] unfolding result
    by (auto simp: get_update same_job_def revive_job_def split: option.splits)
qed

text \<open>
  Crashes are not counted against \<open>max_attempts\<close>: a job whose worker dies is recovered and claimed
  again without limit.  Here four claims run a job whose limit is three attempts.
\<close>

lemma crash_loop_exceeds_max_attempts:
  "map (\<lambda>j. (j_status j, j_attempts j, j_max_attempts j))
     (rows (fold apply_job_event
        [EnqueueAuto 0 1 [97] 0,
         ClaimJob (False, 0, [119], None), RecoverStale 0 0, ClaimJob (False, 1, [119], None), RecoverStale 1 0,
         ClaimJob (False, 2, [119], None), RecoverStale 2 0, ClaimJob (False, 3, [119], None)]
        \<lparr>rows = [], next_id = 1\<rparr>)) = [(Running, 4, 3)]"
  by code_simp

end
