(* ===== verification/Wiki_Queue.thy ===== *)
theory Wiki_Queue
  imports Work_Queue
begin

text \<open>
  The queue of wiki generations (\<open>src/server/repos/wiki_repo.py\<close>, table \<open>wiki_page\<close>): one row
  per repository, claimed and released like a job.  JSON encoding and decoding are parameters.
\<close>

section \<open>The table\<close>

datatype wiki_status = Wiki_Empty | Generating | Wiki_Ready | Wiki_Failed

record wiki_page =
  wk_repo :: nat
  wk_status :: wiki_status
  wk_content :: "pystr option"
  wk_sources :: "pystr option"
  wk_source_sha :: "pystr option"
  wk_generated_at :: "int option"
  wk_error :: "pystr option"
  wk_attempts :: nat
  wk_max_attempts :: nat
  wk_next_run_at :: "int option"
  wk_locked_by :: "pystr option"
  wk_locked_at :: "int option"
  wk_owner :: "pystr option"
  wk_updated_at :: int

definition GENERATION_STALE_MINUTES :: int where
  "GENERATION_STALE_MINUTES = 30"

definition DEFAULT_MAX_ATTEMPTS :: nat where
  "DEFAULT_MAX_ATTEMPTS = 3"

definition RETRY_BASE_SECONDS :: int where
  "RETRY_BASE_SECONDS = 120"

definition STALE_ERROR :: pystr where
  "STALE_ERROR =
     [51060, 51204, 32, 87, 105, 107, 105, 32, 49373, 49457, 32, 51089, 50629, 51060, 32, 51228, 54620,
      32, 49884, 44036, 51012, 32, 52488, 44284, 54644, 32, 51333, 47308, 46108, 32, 44163, 51004, 47196,
      32, 52376, 47532, 46104, 50632, 49845, 45768, 45796]"

definition stale_before :: "int \<Rightarrow> int" where
  "stale_before now = now - 60 * GENERATION_STALE_MINUTES"

definition get_wiki :: "nat \<Rightarrow> wiki_page list \<Rightarrow> wiki_page option" where
  "get_wiki repo ws = List.find (\<lambda>w. wk_repo w = repo) ws"

section \<open>Reading\<close>

record 'j wiki_view =
  wv_repo_id :: nat
  wv_repo :: pystr
  wv_status :: wiki_status
  wv_page :: "'j option"
  wv_sources :: "'j option"
  wv_source_sha :: "pystr option"
  wv_generated_at :: "int option"
  wv_error :: "pystr option"
  wv_attempts :: nat
  wv_max_attempts :: nat
  wv_next_run_at :: "int option"

text \<open>\<open>_json\<close>: \<open>loads\<close> returns \<open>None\<close> for a text that is not JSON.\<close>

definition wiki_json :: "(pystr \<Rightarrow> 'j option) \<Rightarrow> pystr option \<Rightarrow> 'j option \<Rightarrow> 'j option" where
  "wiki_json loads raw fallback =
     (case raw of None \<Rightarrow> fallback
      | Some t \<Rightarrow> if t = [] then fallback
                  else (case loads t of None \<Rightarrow> fallback | Some j \<Rightarrow> Some j))"

text \<open>One row of the \<open>LEFT JOIN\<close>; \<open>no_sources\<close> is the empty JSON list.\<close>

definition wiki_row :: "(pystr \<Rightarrow> 'j option) \<Rightarrow> 'j \<Rightarrow> nat \<Rightarrow> pystr \<Rightarrow> wiki_page option \<Rightarrow> 'j wiki_view" where
  "wiki_row loads no_sources repo name w =
     (case w of
        None \<Rightarrow> \<lparr>wv_repo_id = repo, wv_repo = name, wv_status = Wiki_Empty, wv_page = None,
                 wv_sources = Some no_sources, wv_source_sha = None, wv_generated_at = None,
                 wv_error = None, wv_attempts = 0, wv_max_attempts = DEFAULT_MAX_ATTEMPTS,
                 wv_next_run_at = None\<rparr>
      | Some r \<Rightarrow> \<lparr>wv_repo_id = repo, wv_repo = name, wv_status = wk_status r,
                 wv_page = wiki_json loads (wk_content r) None,
                 wv_sources = wiki_json loads (wk_sources r) (Some no_sources),
                 wv_source_sha = wk_source_sha r, wv_generated_at = wk_generated_at r,
                 wv_error = wk_error r, wv_attempts = wk_attempts r,
                 wv_max_attempts = (if wk_max_attempts r = 0 then DEFAULT_MAX_ATTEMPTS
                                    else wk_max_attempts r),
                 wv_next_run_at = wk_next_run_at r\<rparr>)"

definition recover_stale_generations :: "int \<Rightarrow> wiki_page list \<Rightarrow> nat \<times> wiki_page list" where
  "recover_stale_generations now ws =
     (let hit = (\<lambda>w. wk_status w = Generating \<and> wk_locked_at w = None \<and>
                     wk_updated_at w \<le> stale_before now)
      in (rowcount hit ws,
          sql_update hit (\<lambda>w. w\<lparr>wk_status := Wiki_Failed, wk_error := Some STALE_ERROR,
            wk_next_run_at := None, wk_updated_at := now\<rparr>) ws))"

text \<open>\<open>COLLATE NOCASE\<close> folds the ASCII letters.\<close>

definition nocase :: "pystr \<Rightarrow> pystr" where
  "nocase s = map (\<lambda>c. if 65 \<le> c \<and> c \<le> 90 then c + 32 else c) s"

definition list_pages ::
  "(pystr \<Rightarrow> 'j option) \<Rightarrow> 'j \<Rightarrow> int \<Rightarrow> (nat \<times> pystr) list \<Rightarrow> wiki_page list
   \<Rightarrow> 'j wiki_view list \<times> wiki_page list" where
  "list_pages loads no_sources now repos ws =
     (let ws' = snd (recover_stale_generations now ws)
      in (map (\<lambda>(repo, name). wiki_row loads no_sources repo name (get_wiki repo ws'))
            (sort_key (\<lambda>(_, name). nocase name) repos), ws'))"

definition get_page ::
  "(pystr \<Rightarrow> 'j option) \<Rightarrow> 'j \<Rightarrow> (nat \<times> pystr) list \<Rightarrow> wiki_page list \<Rightarrow> nat \<Rightarrow> 'j wiki_view option" where
  "get_page loads no_sources repos ws repo =
     map_option (\<lambda>(r, name). wiki_row loads no_sources r name (get_wiki r ws))
       (List.find (\<lambda>(r, _). r = repo) repos)"

section \<open>Requests, claims and outcomes\<close>

definition recover_running :: "int \<Rightarrow> wiki_page list \<Rightarrow> nat \<times> wiki_page list" where
  "recover_running now ws =
     (let hit = (\<lambda>w. wk_status w = Generating \<and> wk_locked_at w \<noteq> None)
      in (rowcount hit ws,
          sql_update hit (\<lambda>w. w\<lparr>wk_locked_by := None, wk_locked_at := None, wk_error := None,
            wk_updated_at := now\<rparr>) ws))"

text \<open>A row as \<open>INSERT\<close> makes it, with the column defaults.\<close>

definition new_wiki :: "nat \<Rightarrow> wiki_status \<Rightarrow> int \<Rightarrow> wiki_page" where
  "new_wiki repo st now =
     \<lparr>wk_repo = repo, wk_status = st, wk_content = None, wk_sources = None, wk_source_sha = None,
      wk_generated_at = None, wk_error = None, wk_attempts = 0,
      wk_max_attempts = DEFAULT_MAX_ATTEMPTS, wk_next_run_at = None, wk_locked_by = None,
      wk_locked_at = None, wk_owner = None, wk_updated_at = now\<rparr>"

text \<open>
  \<open>INSERT .. ON CONFLICT(repo_id) DO UPDATE SET .. WHERE ..\<close>: the number of rows written, and
  the table.
\<close>

definition wiki_upsert ::
  "wiki_page \<Rightarrow> (wiki_page \<Rightarrow> bool) \<Rightarrow> (wiki_page \<Rightarrow> wiki_page) \<Rightarrow> wiki_page list \<Rightarrow> nat \<times> wiki_page list" where
  "wiki_upsert new P f ws =
     (if get_wiki (wk_repo new) ws = None then (1, ws @ [new])
      else let hit = (\<lambda>w. wk_repo w = wk_repo new \<and> P w) in (rowcount hit ws, sql_update hit f ws))"

definition mark_generating :: "int \<Rightarrow> nat \<Rightarrow> wiki_page list \<Rightarrow> bool \<times> wiki_page list" where
  "mark_generating now repo ws =
     (case wiki_upsert (new_wiki repo Generating now)
        (\<lambda>w. wk_status w \<noteq> Generating \<or> wk_locked_at w = None \<and> wk_updated_at w \<le> stale_before now)
        (\<lambda>w. w\<lparr>wk_status := Generating, wk_attempts := 0, wk_max_attempts := DEFAULT_MAX_ATTEMPTS,
             wk_next_run_at := None, wk_locked_by := None, wk_locked_at := None, wk_error := None,
             wk_updated_at := now\<rparr>) ws of
        (n, ws') \<Rightarrow> (n = 1, ws'))"

definition wiki_claimable :: "int \<Rightarrow> wiki_page \<Rightarrow> bool" where
  "wiki_claimable now w \<longleftrightarrow> wk_status w = Generating \<and> wk_locked_at w = None \<and>
     (case wk_next_run_at w of None \<Rightarrow> True | Some t \<Rightarrow> t \<le> now)"

definition take_wiki :: "int \<Rightarrow> pystr \<Rightarrow> pystr option \<Rightarrow> wiki_page \<Rightarrow> wiki_page" where
  "take_wiki now worker owner w =
     w\<lparr>wk_locked_by := Some worker, wk_locked_at := Some now, wk_owner := owner,
       wk_attempts := wk_attempts w + 1, wk_next_run_at := None\<rparr>"

definition wiki_claim_next ::
  "bool \<times> int \<times> pystr \<times> pystr option \<Rightarrow> wiki_page list \<Rightarrow> nat option \<times> wiki_page list" where
  "wiki_claim_next = (\<lambda>(busy, now, worker, owner) ws.
     if busy then (None, ws)
     else (case select_first
              (\<lambda>w. (case wk_next_run_at w of None \<Rightarrow> wk_updated_at w | Some t \<Rightarrow> t, wk_repo w))
              (wiki_claimable now) ws of
             None \<Rightarrow> (None, ws)
           | Some row \<Rightarrow>
               (Some (wk_repo row),
                sql_update (\<lambda>w. wk_repo w = wk_repo row \<and> wk_status w = Generating \<and> wk_locked_at w = None)
                  (take_wiki now worker owner) ws)))"

definition wiki_owner_ok :: "pystr option \<Rightarrow> wiki_page \<Rightarrow> bool" where
  "wiki_owner_ok p w \<longleftrightarrow> p = None \<or> wk_owner w = p"

definition wiki_lease_lost :: "nat \<Rightarrow> exn" where
  "wiki_lease_lost repo = RuntimeError (U ''wiki '' @ nat_text repo @ U '' process lease lost'')"

definition wiki_save ::
  "('j \<Rightarrow> pystr) \<Rightarrow> int \<Rightarrow> nat \<Rightarrow> 'j \<Rightarrow> 'j \<Rightarrow> pystr \<Rightarrow> pystr option \<Rightarrow> wiki_page list
   \<Rightarrow> (exn + unit) \<times> wiki_page list" where
  "wiki_save dumps now repo page sources sha p ws =
     (case wiki_upsert
        ((new_wiki repo Wiki_Ready now)\<lparr>wk_content := Some (dumps page), wk_sources := Some (dumps sources),
            wk_source_sha := Some sha, wk_generated_at := Some now\<rparr>)
        (wiki_owner_ok p)
        (\<lambda>w. w\<lparr>wk_status := Wiki_Ready, wk_content := Some (dumps page), wk_sources := Some (dumps sources),
             wk_source_sha := Some sha, wk_generated_at := Some now, wk_error := None,
             wk_next_run_at := None, wk_locked_by := None, wk_locked_at := None, wk_owner := None,
             wk_updated_at := now\<rparr>) ws of
        (n, ws') \<Rightarrow> if n \<noteq> 1 then (Inl (wiki_lease_lost repo), ws') else (Inr (), ws'))"

definition schedule_retry ::
  "int \<Rightarrow> nat \<Rightarrow> pystr \<Rightarrow> int \<Rightarrow> pystr option \<Rightarrow> wiki_page list \<Rightarrow> bool \<times> wiki_page list" where
  "schedule_retry now repo err base p ws =
     (case get_wiki repo ws of
        None \<Rightarrow> (False, ws)
      | Some row \<Rightarrow>
          if wk_attempts row \<ge> wk_max_attempts row then (False, ws)
          else
            let delay = base * 2 ^ (wk_attempts row - 1);
                hit = (\<lambda>w. wk_repo w = repo \<and> wk_status w = Generating \<and> wiki_owner_ok p w)
            in (rowcount hit ws = 1,
                sql_update hit (\<lambda>w. w\<lparr>wk_status := Generating, wk_error := Some (take 1000 err),
                  wk_next_run_at := Some (now + delay), wk_locked_by := None, wk_locked_at := None,
                  wk_owner := None, wk_updated_at := now\<rparr>) ws))"

definition wiki_mark_failed ::
  "int \<Rightarrow> nat \<Rightarrow> pystr \<Rightarrow> pystr option \<Rightarrow> wiki_page list \<Rightarrow> wiki_page list" where
  "wiki_mark_failed now repo err p ws =
     snd (wiki_upsert ((new_wiki repo Wiki_Failed now)\<lparr>wk_error := Some (take 1000 err)\<rparr>)
       (wiki_owner_ok p)
       (\<lambda>w. w\<lparr>wk_status := Wiki_Failed, wk_error := Some (take 1000 err), wk_next_run_at := None,
            wk_locked_by := None, wk_locked_at := None, wk_owner := None, wk_updated_at := now\<rparr>) ws)"

section \<open>The table as a work queue\<close>

interpretation wiki: primary_key "wk_repo :: wiki_page \<Rightarrow> nat" .

lemma get_wiki_lookup: "get_wiki k ws = wiki.lookup ws k"
  by (simp add: get_wiki_def wiki.lookup_def)

definition same_repo :: "(wiki_page \<Rightarrow> wiki_page) \<Rightarrow> bool" where
  "same_repo f \<longleftrightarrow> (\<forall>w. wk_repo (f w) = wk_repo w)"

lemma get_wiki_update:
  "same_repo f \<Longrightarrow> get_wiki k (sql_update P f ws) = map_option (\<lambda>w. if P w then f w else w) (get_wiki k ws)"
  unfolding get_wiki_lookup by (rule wiki.lookup_update) (simp add: same_repo_def)

lemma unique_wiki_update: "same_repo f \<Longrightarrow> wiki.unique_keys (sql_update P f ws) = wiki.unique_keys ws"
  by (rule wiki.unique_update) (simp add: same_repo_def)

lemma unique_wiki_upsert:
  "same_repo f \<Longrightarrow> wiki.unique_keys ws \<Longrightarrow> wiki.unique_keys (snd (wiki_upsert new P f ws))"
  using wiki.unique_insert[of ws new]
  by (auto simp: wiki_upsert_def Let_def unique_wiki_update get_wiki_lookup wiki.lookup_None)

lemma get_wiki_row: "wiki.unique_keys ws \<Longrightarrow> w \<in> set ws \<Longrightarrow> get_wiki (wk_repo w) ws = Some w"
  unfolding get_wiki_lookup by (rule wiki.lookup_unique)

lemma get_wiki_Some: "get_wiki k ws = Some w \<Longrightarrow> w \<in> set ws \<and> wk_repo w = k"
  using wiki.lookup_Some_set by (simp add: get_wiki_lookup)

text \<open>A row is held while its generation is claimed.\<close>

definition wiki_held :: "wiki_page \<Rightarrow> bool" where
  "wiki_held w \<longleftrightarrow> wk_status w = Generating \<and> wk_locked_at w \<noteq> None"

text \<open>The claim with the row it took.\<close>

definition wiki_claim_row ::
  "bool \<times> int \<times> pystr \<times> pystr option \<Rightarrow> wiki_page list \<Rightarrow> wiki_page option \<times> wiki_page list" where
  "wiki_claim_row c ws =
     (case wiki_claim_next c ws of
        (None, ws') \<Rightarrow> (None, ws')
      | (Some repo, ws') \<Rightarrow> (get_wiki repo ws', ws'))"

lemma wiki_claim_Some:
  assumes u: "wiki.unique_keys ws" and claim: "wiki_claim_next (busy, now, worker, owner) ws = (Some repo, ws')"
  obtains row where "\<not> busy" "get_wiki repo ws = Some row" "wiki_claimable now row"
    "get_wiki repo ws' = Some (take_wiki now worker owner row)"
    "\<forall>k. k \<noteq> repo \<longrightarrow> get_wiki k ws' = get_wiki k ws" "wiki.unique_keys ws'"
    "\<forall>w\<in>set ws. wiki_claimable now w \<longrightarrow>
       (case wk_next_run_at row of None \<Rightarrow> wk_updated_at row | Some t \<Rightarrow> t)
       \<le> (case wk_next_run_at w of None \<Rightarrow> wk_updated_at w | Some t \<Rightarrow> t)"
proof -
  let ?key = "\<lambda>w. (case wk_next_run_at w of None \<Rightarrow> wk_updated_at w | Some t \<Rightarrow> t, wk_repo w)"
  let ?hit = "\<lambda>row w. wk_repo w = wk_repo row \<and> wk_status w = Generating \<and> wk_locked_at w = None"
  obtain row where sel: "select_first ?key (wiki_claimable now) ws = Some row" and "\<not> busy"
    and repo: "repo = wk_repo row" and ws': "ws' = sql_update (?hit row) (take_wiki now worker owner) ws"
    using claim by (auto simp: wiki_claim_next_def split: if_splits option.splits)
  have same: "same_repo (take_wiki now worker owner)" by (simp add: same_repo_def take_wiki_def)
  note first = select_first_Some[OF sel]
  have get: "get_wiki repo ws = Some row" using get_wiki_row[OF u] first repo by blast
  show thesis
  proof (rule that[OF \<open>\<not> busy\<close> get])
    show "wiki_claimable now row" using first by blast
    then show "get_wiki repo ws' = Some (take_wiki now worker owner row)"
      using get by (simp add: ws' get_wiki_update[OF same] wiki_claimable_def)
    show "\<forall>k. k \<noteq> repo \<longrightarrow> get_wiki k ws' = get_wiki k ws"
    proof (intro allI impI)
      show "get_wiki k ws' = get_wiki k ws" if "k \<noteq> repo" for k
        using that get_wiki_Some[of k ws]
        by (cases "get_wiki k ws") (auto simp: ws' get_wiki_update[OF same] repo)
    qed
    show "wiki.unique_keys ws'" using u by (simp add: ws' unique_wiki_update[OF same])
    show "\<forall>w\<in>set ws. wiki_claimable now w \<longrightarrow>
       (case wk_next_run_at row of None \<Rightarrow> wk_updated_at row | Some t \<Rightarrow> t)
       \<le> (case wk_next_run_at w of None \<Rightarrow> wk_updated_at w | Some t \<Rightarrow> t)"
      using first by (auto simp: less_eq_prod_def intro: less_imp_le)
  qed
qed

lemma wiki_claim_None: "wiki_claim_next c ws = (None, ws') \<Longrightarrow> ws' = ws"
  by (cases c) (auto simp: wiki_claim_next_def split: if_splits option.splits)

lemma wiki_claim_found: "wiki_claim_next c ws = (Some repo, ws') \<Longrightarrow> get_wiki repo ws' \<noteq> None"
proof -
  assume claim: "wiki_claim_next c ws = (Some repo, ws')"
  obtain busy now w p where c: "c = (busy, now, w, p)" by (metis prod.exhaust)
  have keys: "wk_repo ` set (sql_update P (take_wiki now w p) ws) = wk_repo ` set ws" for P
    by (rule wiki.keys_update) (simp add: take_wiki_def)
  obtain row where sel: "select_first (\<lambda>w. (case wk_next_run_at w of None \<Rightarrow> wk_updated_at w | Some t \<Rightarrow> t, wk_repo w))
      (wiki_claimable now) ws = Some row"
    and repo: "repo = wk_repo row" "wk_repo ` set ws' = wk_repo ` set ws"
    using claim by (auto simp: c wiki_claim_next_def keys split: if_splits option.splits)
  from select_first_Some[OF sel] repo show ?thesis by (auto simp: get_wiki_lookup wiki.lookup_None)
qed

interpretation wikiq: work_queue wk_repo "\<lambda>ws. ws" wiki.unique_keys wiki_held wiki_claim_row
proof unfold_locales
  fix c ws ws' r
  show "ws' = ws" if "wiki_claim_row c ws = (None, ws')"
  proof (cases "wiki_claim_next c ws")
    case (Pair got ws1)
    show ?thesis
    proof (cases got)
      case None
      with Pair that wiki_claim_None show ?thesis by (auto simp: wiki_claim_row_def)
    next
      case (Some repo)
      have "get_wiki repo ws1 \<noteq> None" using wiki_claim_found Pair Some by blast
      with Pair that Some show ?thesis by (auto simp: wiki_claim_row_def)
    qed
  qed
  show "wiki.unique_keys ws' \<and> wiki.lookup ws' (wk_repo r) = Some r \<and> wiki_held r \<and>
      (\<exists>r0. wiki.lookup ws (wk_repo r) = Some r0 \<and> \<not> wiki_held r0) \<and>
      (\<forall>k. k \<noteq> wk_repo r \<longrightarrow> wiki.lookup ws' k = wiki.lookup ws k)"
    if u: "wiki.unique_keys ws" and claim: "wiki_claim_row c ws = (Some r, ws')"
  proof -
    obtain busy now worker owner where c: "c = (busy, now, worker, owner)" by (metis prod.exhaust)
    obtain repo where repo: "wiki_claim_next c ws = (Some repo, ws')" "get_wiki repo ws' = Some r"
      using claim by (auto simp: wiki_claim_row_def split: prod.splits option.splits)
    then have "wk_repo r = repo" using get_wiki_Some by blast
    with repo show ?thesis
      by (rule_tac wiki_claim_Some[OF u repo(1)[unfolded c]])
        (auto simp: get_wiki_lookup wiki_claimable_def take_wiki_def wiki_held_def)
  qed
qed

section \<open>Properties\<close>

text \<open>What may happen to the table while a generation runs.\<close>

datatype 'j wiki_event =
    WikiRequest int nat
  | WikiClaim "bool \<times> int \<times> pystr \<times> pystr option"
  | WikiStale int
  | WikiSave int nat 'j 'j pystr "pystr option"
  | WikiRetry int nat pystr int "pystr option"
  | WikiFail int nat pystr "pystr option"

fun apply_wiki_event :: "('j \<Rightarrow> pystr) \<Rightarrow> 'j wiki_event \<Rightarrow> wiki_page list \<Rightarrow> wiki_page list" where
  "apply_wiki_event dumps (WikiRequest now repo) ws = snd (mark_generating now repo ws)"
| "apply_wiki_event dumps (WikiClaim c) ws = snd (wiki_claim_next c ws)"
| "apply_wiki_event dumps (WikiStale now) ws = snd (recover_stale_generations now ws)"
| "apply_wiki_event dumps (WikiSave now repo pg srcs sha p) ws = snd (wiki_save dumps now repo pg srcs sha p ws)"
| "apply_wiki_event dumps (WikiRetry now repo err base p) ws = snd (schedule_retry now repo err base p ws)"
| "apply_wiki_event dumps (WikiFail now repo err p) ws = wiki_mark_failed now repo err p ws"

fun ends_generation :: "nat \<Rightarrow> 'j wiki_event \<Rightarrow> bool" where
  "ends_generation k (WikiSave now repo pg srcs sha p) = (repo = k)"
| "ends_generation k (WikiRetry now repo err base p) = (repo = k)"
| "ends_generation k (WikiFail now repo err p) = (repo = k)"
| "ends_generation k e = False"

fun wiki_claimed_in :: "('j \<Rightarrow> pystr) \<Rightarrow> 'j wiki_event list \<Rightarrow> wiki_page list \<Rightarrow> nat list" where
  "wiki_claimed_in dumps [] ws = []"
| "wiki_claimed_in dumps (e # es) ws =
     (case e of
        WikiClaim c \<Rightarrow>
          (case fst (wiki_claim_next c ws) of None \<Rightarrow> [] | Some repo \<Rightarrow> [repo]) @
          wiki_claimed_in dumps es (snd (wiki_claim_next c ws))
      | _ \<Rightarrow> wiki_claimed_in dumps es (apply_wiki_event dumps e ws))"

fun wiki_work :: "('j \<Rightarrow> pystr) \<Rightarrow> 'j wiki_event \<Rightarrow> (bool \<times> int \<times> pystr \<times> pystr option, wiki_page list) work_event" where
  "wiki_work dumps (WikiClaim c) = Claim c"
| "wiki_work dumps e = Other (apply_wiki_event dumps e)"

lemma wiki_claim_row_cases:
  "wiki_claim_next c ws = (None, ws') \<Longrightarrow> wiki_claim_row c ws = (None, ws')"
  "wiki_claim_next c ws = (Some repo, ws') \<Longrightarrow> wiki_claim_row c ws = (get_wiki repo ws', ws')"
  by (simp_all add: wiki_claim_row_def)

lemma wiki_claimed_run:
  "wiki_claimed_in dumps es ws = map wk_repo (fst (wikiq.run (map (wiki_work dumps) es) ws))"
proof (induction es arbitrary: ws)
  case (Cons e es)
  show ?case
  proof (cases e)
    case (WikiClaim c)
    show ?thesis
    proof (cases "wiki_claim_next c ws")
      case (Pair got ws')
      show ?thesis
      proof (cases got)
        case (Some repo)
        then obtain w where w: "get_wiki repo ws' = Some w" using wiki_claim_found Pair by blast
        then have "wk_repo w = repo" using get_wiki_Some by blast
        with w have "wiki_claim_row c ws = (Some w, ws')"
          using wiki_claim_row_cases(2) Pair Some by simp
        with \<open>wk_repo w = repo\<close> Some Pair Cons WikiClaim show ?thesis by (simp split: prod.split)
      next
        case None
        with Pair have "wiki_claim_row c ws = (None, ws')" using wiki_claim_row_cases(1) by simp
        with None Pair Cons WikiClaim show ?thesis by simp
      qed
    qed
  qed (use Cons in auto)
qed simp

lemma wiki_quiet_update:
  assumes "same_repo f" "\<And>w. wk_repo w = k \<Longrightarrow> wiki_held w \<Longrightarrow> P w \<Longrightarrow> wiki_held (f w)"
  shows "wikiq.quiet k (sql_update P f)"
  unfolding wikiq.quiet_def wikiq.held_key_def
proof (intro allI impI conjI)
  fix ws assume "wiki.unique_keys ws"
  then show "wiki.unique_keys (sql_update P f ws)" using assms(1) by (simp add: unique_wiki_update)
  assume "\<exists>w. wiki.lookup ws k = Some w \<and> wiki_held w"
  then obtain w where "wiki.lookup ws k = Some w" "wiki_held w" by blast
  then show "\<exists>w. wiki.lookup (sql_update P f ws) k = Some w \<and> wiki_held w"
    using assms wiki.lookup_Some_set[of ws k w] get_wiki_update[OF assms(1), of k P ws]
    by (auto simp: get_wiki_lookup)
qed

lemma wiki_quiet_upsert:
  assumes "same_repo f" "\<And>w. wk_repo w = k \<Longrightarrow> wk_repo new = k \<Longrightarrow> wiki_held w \<Longrightarrow> P w \<Longrightarrow> wiki_held (f w)"
  shows "wikiq.quiet k (\<lambda>ws. snd (wiki_upsert new P f ws))"
  unfolding wikiq.quiet_def
proof (intro allI impI conjI)
  fix ws assume u: "wiki.unique_keys ws"
  then show "wiki.unique_keys (snd (wiki_upsert new P f ws))" using unique_wiki_upsert[OF assms(1)] by blast
  assume held: "wikiq.held_key ws k"
  have "wikiq.quiet k (sql_update (\<lambda>w. wk_repo w = wk_repo new \<and> P w) f)"
    using assms by (intro wiki_quiet_update) auto
  with u held show "wikiq.held_key (snd (wiki_upsert new P f ws)) k"
    by (auto simp: wiki_upsert_def Let_def wikiq.quiet_def wikiq.held_key_def wiki.lookup_insert split: option.splits)
qed

lemma wiki_event_quiet:
  assumes "\<not> ends_generation k e" "\<And>c. e \<noteq> WikiClaim c"
  shows "wikiq.quiet k (apply_wiki_event dumps e)"
proof (cases e)
  case (WikiRequest now repo)
  show ?thesis
    unfolding WikiRequest apply_wiki_event.simps(1)[abs_def] mark_generating_def case_prod_beta snd_conv
    by (rule wiki_quiet_upsert) (auto simp: same_repo_def wiki_held_def)
next
  case (WikiStale now)
  show ?thesis
    unfolding WikiStale apply_wiki_event.simps(3)[abs_def] recover_stale_generations_def Let_def snd_conv
    by (rule wiki_quiet_update) (auto simp: same_repo_def wiki_held_def)
next
  case (WikiSave now repo pg srcs sha p)
  have "snd (case X of (n :: nat, ws') \<Rightarrow> if n \<noteq> 1 then (Inl e1, ws') else (Inr (), ws')) = snd X"
    for X :: "nat \<times> wiki_page list" and e1 :: exn by (cases X) simp
  then show ?thesis
    unfolding WikiSave apply_wiki_event.simps(4)[abs_def] wiki_save_def
    using assms(1) WikiSave by (auto intro!: wiki_quiet_upsert simp: same_repo_def new_wiki_def)
next
  case (WikiRetry now repo err base p)
  show ?thesis
    unfolding wikiq.quiet_def
  proof (intro allI impI conjI)
    fix ws assume u: "wiki.unique_keys ws"
    have quiet: "wikiq.quiet k (sql_update (\<lambda>w. wk_repo w = repo \<and> wk_status w = Generating \<and> wiki_owner_ok p w)
        (\<lambda>w. w\<lparr>wk_status := Generating, wk_error := Some (take 1000 err), wk_next_run_at := Some d,
             wk_locked_by := None, wk_locked_at := None, wk_owner := None, wk_updated_at := now\<rparr>))" for d
      using assms(1) WikiRetry by (intro wiki_quiet_update) (auto simp: same_repo_def)
    show "wiki.unique_keys (apply_wiki_event dumps e ws)"
      using quiet u by (auto simp: WikiRetry schedule_retry_def Let_def wikiq.quiet_def split: option.splits)
    show "wikiq.held_key (apply_wiki_event dumps e ws) k" if "wikiq.held_key ws k"
      using quiet u that by (auto simp: WikiRetry schedule_retry_def Let_def wikiq.quiet_def split: option.splits)
  qed
next
  case (WikiFail now repo err p)
  show ?thesis
    unfolding WikiFail apply_wiki_event.simps(6)[abs_def] wiki_mark_failed_def
    using assms(1) WikiFail by (auto intro!: wiki_quiet_upsert simp: same_repo_def new_wiki_def)
qed (use assms in auto)

lemma wiki_work_Other: "wiki_work dumps e = Other g \<Longrightarrow> g = apply_wiki_event dumps e \<and> (\<forall>c. e \<noteq> WikiClaim c)"
  by (cases e) auto

text \<open>
  One generation per repository at a time.  While a worker holds the wiki of a repository, no
  claim hands the same repository out again, however many requests, stale sweeps and outcomes of
  other repositories happen in between.
\<close>

lemma wiki_not_claimed_twice:
  assumes "distinct (map wk_repo ws)" and "wiki_claim_next c ws = (Some repo, ws1)"
    and "list_all (\<lambda>e. \<not> ends_generation repo e) es"
  shows "repo \<notin> set (wiki_claimed_in dumps es ws1)"
proof -
  have u: "wiki.unique_keys ws" using assms(1) by (simp add: wiki.unique_keys_def)
  obtain w where w: "get_wiki repo ws1 = Some w" using wiki_claim_found[OF assms(2)] by blast
  then have repo: "wk_repo w = repo" using get_wiki_Some by blast
  have "wiki_claim_row c ws = (Some w, ws1)" using wiki_claim_row_cases(2)[OF assms(2)] w by simp
  note held = wikiq.claim_held_key[OF u this]
  have "wikiq.quiet repo g" if "Other g \<in> set (map (wiki_work dumps) es)" for g
  proof -
    from that obtain e where e: "e \<in> set es" "wiki_work dumps e = Other g" by auto
    have "\<not> ends_generation repo e" using assms(3) e(1) by (simp add: list_all_iff)
    then show ?thesis using wiki_work_Other[OF e(2)] wiki_event_quiet by blast
  qed
  moreover obtain got ws2 where "wikiq.run (map (wiki_work dumps) es) ws1 = (got, ws2)" by (metis prod.exhaust)
  ultimately show ?thesis
    using wikiq.held_not_claimed[OF held(1), of repo "map (wiki_work dumps) es" got ws2] held(3) repo
    by (simp add: wiki_claimed_run)
qed

definition sample_wiki :: "wiki_page list" where
  "sample_wiki = snd (mark_generating 20 8 (snd (mark_generating 10 7 [])))"

text \<open>
  A generation that fails is put back exactly while attempts remain and the caller still holds
  it, due after the base delay doubled for every attempt made; otherwise the table is untouched.  A
  result of a caller that lost the lease is refused and changes nothing.
\<close>

lemma wiki_retry_and_save:
  assumes "distinct (map wk_repo ws)" and "get_wiki repo ws = Some w" and "wk_status w = Generating"
  shows "(case schedule_retry now repo err base p ws of (ok, ws') \<Rightarrow>
      (ok \<longleftrightarrow> wk_attempts w < wk_max_attempts w \<and> (p = None \<or> wk_owner w = p)) \<and>
      (if ok then \<exists>w'. get_wiki repo ws' = Some w' \<and> wk_status w' = Generating \<and> wk_locked_at w' = None \<and>
              wk_next_run_at w' = Some (now + base * 2 ^ (wk_attempts w - 1))
       else ws' = ws)) \<and>
    (case wiki_save dumps now repo pg srcs sha p ws of
       (Inl e, ws') \<Rightarrow> \<not> (p = None \<or> wk_owner w = p) \<and> ws' = ws
     | (Inr u, ws') \<Rightarrow> (p = None \<or> wk_owner w = p) \<and>
        (\<exists>w'. get_wiki repo ws' = Some w' \<and> wk_status w' = Wiki_Ready \<and>
           wk_content w' = Some (dumps pg) \<and> wk_locked_at w' = None))"
proof -
  have u: "wiki.unique_keys ws" using assms(1) by (simp add: wiki.unique_keys_def)
  have lookup: "wiki.lookup ws repo = Some w" using assms(2) by (simp add: get_wiki_lookup)
  have count: "rowcount (\<lambda>r. wk_repo r = repo \<and> Q r) ws = (if Q w then 1 else 0)" for Q
    using wiki.rowcount_key_1[OF u, of repo Q] wiki.rowcount_key_le_1[OF u, of repo Q] lookup
    by (auto simp: le_Suc_eq)
  have none: "sql_update (\<lambda>r. wk_repo r = repo \<and> Q r) f ws = ws" if "\<not> Q w" for Q f
    using sql_update_nochange[of "\<lambda>r. wk_repo r = repo \<and> Q r"] count[of Q] that by simp
  have id: "wk_repo w = repo" using get_wiki_Some[OF assms(2)] by simp
  have some: "get_wiki repo (sql_update (\<lambda>r. wk_repo r = repo \<and> Q r) f ws) = Some (f w)"
    if "same_repo f" "Q w" for Q f
    using assms(2) id that by (simp add: get_wiki_update)
  show ?thesis
    using assms(2,3)
    by (auto simp: schedule_retry_def wiki_save_def wiki_upsert_def new_wiki_def Let_def count none some
        same_repo_def wiki_owner_ok_def split: if_splits)
qed

end
