(* ===== verification/Worker.thy ===== *)
theory Worker
  imports Run_Properties Job_Queue Wiki_Queue
begin

text \<open>
  The worker (\<open>src/server/worker.py\<close>) and the recovery of what dead processes leave behind
  (\<open>src/server/repos/process_repo.py\<close>): it claims one job of the queue, runs the review or the retry, and gives the job
  the end that the result calls for.  The database of the worker joins the tables of the queue, of the runs and of the wiki.
\<close>

section \<open>Errors that are worth another attempt\<close>

definition RETRYABLE :: "pystr list" where
  "RETRYABLE = map U
     [''rate limit'', ''rate_limit'', ''429'', ''overloaded'', ''timeout'', ''timed out'', ''temporarily unavailable'',
      ''service unavailable'', ''connection reset'', ''connection refused'', ''502'', ''503'', ''504'']"

definition is_retryable :: "pystr \<Rightarrow> bool" where
  "is_retryable msg \<longleftrightarrow> list_ex (contains (lower msg)) RETRYABLE"

section \<open>The database of the worker, and what answers from outside\<close>

record worker_repo =
  wr_row :: repo_row
  wr_enabled :: bool

record notice =
  nt_repo :: pystr
  nt_number :: int
  nt_done :: bool
  nt_findings :: nat

record worker_db =
  x_pipe :: pipe_db
  x_jobs :: job_table
  x_wiki :: "wiki_page list"
  x_repos :: "worker_repo list"
  x_settings :: settings
  x_notices :: "notice list"

text \<open>
  \<open>we_deps\<close> builds the dependencies of a run.  \<open>we_timeout\<close> holds what a run that is cut off has done so far; it is
  \<open>None\<close> when the run comes to its end in time.  \<open>we_others\<close> is what other processes do to the queue meanwhile.
\<close>

record worker_env =
  we_busy :: bool
  we_now :: int
  we_later :: int
  we_deps :: "worker_repo \<Rightarrow> settings \<Rightarrow> exn + world"
  we_timeout :: "(pipe_db \<Rightarrow> pipe_db) option"
  we_timeout_sec :: int
  we_others :: "job_table \<Rightarrow> job_table"
  we_show :: "exn \<Rightarrow> pystr"
  we_notify :: bool

definition find_repo :: "nat \<Rightarrow> worker_db \<Rightarrow> worker_repo option" where
  "find_repo rid s = List.find (\<lambda>r. rr_id (wr_row r) = rid) (x_repos s)"

datatype job_stop = Timed_Out | Stopped pipe_error

type_synonym 'a work = "worker_db \<Rightarrow> (job_stop + 'a) \<times> worker_db"

definition on_jobs :: "(job_table \<Rightarrow> (exn + 'a) \<times> job_table) \<Rightarrow> 'a work" where
  "on_jobs f s =
     (case f (x_jobs s) of
        (Inl e, js) \<Rightarrow> (Inl (Stopped (Raised_Exn e)), s\<lparr>x_jobs := js\<rparr>)
      | (Inr x, js) \<Rightarrow> (Inr x, s\<lparr>x_jobs := js\<rparr>))"

definition work_ret :: "'a \<Rightarrow> 'a work" where
  "work_ret x s = (Inr x, s)"

definition work_fail :: "job_stop \<Rightarrow> 'a work" where
  "work_fail e s = (Inl e, s)"

definition work_then :: "'a work \<Rightarrow> ('a \<Rightarrow> 'b work) \<Rightarrow> 'b work" where
  "work_then m f s = (case m s of (Inl e, s') \<Rightarrow> (Inl e, s') | (Inr x, s') \<Rightarrow> f x s')"

section \<open>One job\<close>

definition run_trigger_of :: "trigger \<Rightarrow> run_trigger" where
  "run_trigger_of t = (if t = Auto then Trigger_Auto else Trigger_Manual)"

text \<open>The review or the retry, under \<open>asyncio.wait_for\<close>.\<close>

definition pipeline_task :: "worker_env \<Rightarrow> pystr option \<Rightarrow> job \<Rightarrow> worker_repo \<Rightarrow> world \<Rightarrow> nat work" where
  "pipeline_task env owner j repo w s =
     (case we_timeout env of
        Some reached \<Rightarrow> (Inl Timed_Out, s\<lparr>x_pipe := reached (x_pipe s), x_jobs := we_others env (x_jobs s)\<rparr>)
      | None \<Rightarrow>
          (case (if j_trigger j = Retry
                 then retry_pr w (j_pr j) (case j_retry_run_id j of None \<Rightarrow> 0 | Some r \<Rightarrow> r) (Some (j_sha j)) owner (wr_row repo)
                        (x_settings s) (x_pipe s)
                 else review_pr w (j_pr j) (run_trigger_of (j_trigger j)) (Some (j_sha j)) owner
                        (if owner = None then None else Some (j_id j)) (wr_row repo) (x_settings s) (x_pipe s)) of
             (Inl e, p) \<Rightarrow> (Inl (Stopped e), s\<lparr>x_pipe := p, x_jobs := we_others env (x_jobs s)\<rparr>)
           | (Inr rid, p) \<Rightarrow> (Inr rid, s\<lparr>x_pipe := p, x_jobs := we_others env (x_jobs s)\<rparr>)))"

definition notify :: "worker_env \<Rightarrow> notice \<Rightarrow> worker_db \<Rightarrow> worker_db" where
  "notify env x s = (if we_notify env then s\<lparr>x_notices := x_notices s @ [x]\<rparr> else s)"

definition count_findings :: "nat \<Rightarrow> worker_db \<Rightarrow> nat" where
  "count_findings rid s = length (run_findings rid (q_store (x_pipe s)))"

text \<open>The body of the \<open>try\<close> of \<open>run_one_job\<close>: gates first, then the run, then the end of the job.\<close>

definition attempt_job :: "worker_env \<Rightarrow> pystr option \<Rightarrow> job \<Rightarrow> unit work" where
  "attempt_job env owner j s =
     (case get_pr (j_pr j) (db_prs (q_db (x_pipe s))) of
        None \<Rightarrow> work_fail (Stopped (Raised_Exn (TypeError (U ''NoneType object is not subscriptable'')))) s
      | Some pr \<Rightarrow>
          if pr_state pr \<noteq> U ''open'' then on_jobs (mark_canceled (j_id j) CLOSED_PR_CANCEL_ERROR owner) s
          else if pr_head_sha pr \<noteq> j_sha j then
            work_then (on_jobs (cancel_stale_and_enqueue_latest
                (\<lambda>p. map_option pr_head_sha (get_pr p (db_prs (q_db (x_pipe s))))) (we_now env) (j_id j) owner))
              (\<lambda>_. work_ret ()) s
          else
            (case find_repo (pr_repo pr) s of
               None \<Rightarrow> work_fail (Stopped (Raised_Exn (RuntimeError (U ''repo not found'')))) s
             | Some repo \<Rightarrow>
                 if \<not> wr_enabled repo then on_jobs (mark_canceled (j_id j) DISABLED_REPO_CANCEL_ERROR owner) s
                 else if \<not> (rr_claude_on (wr_row repo) \<or> rr_codex_on (wr_row repo))
                 then on_jobs (mark_canceled (j_id j) NO_VENDOR_CANCEL_ERROR owner) s
                 else
                   (case we_deps env repo (x_settings s) of
                      Inl e \<Rightarrow> work_fail (Stopped (Raised_Exn e)) s
                    | Inr w \<Rightarrow>
                        work_then (pipeline_task env owner j repo w) (\<lambda>rid.
                        work_then (on_jobs (mark_done (j_id j) (Some rid) owner)) (\<lambda>_ t.
                          (Inr (), notify env \<lparr>nt_repo = rr_full_name (wr_row repo), nt_number = pr_number pr, nt_done = True,
                                     nt_findings = count_findings rid t\<rparr> t))) s)))"

text \<open>Before a job that ran out of time is put back: its runs are closed, and the results that still run.\<close>

definition timeout_error :: "worker_env \<Rightarrow> pystr" where
  "timeout_error env = U ''job timed out after '' @ int_text (we_timeout_sec env) @ U ''s''"

definition close_timed_out :: "int \<Rightarrow> nat \<Rightarrow> pystr \<Rightarrow> run_db \<Rightarrow> run_db" where
  "close_timed_out now jid err db =
     (let mine = (\<lambda>r. run_owner_job r = Some jid \<and> run_status r = Run_Running);
          db1 = update_results (\<lambda>v. vt_status v = Some (U ''running'') \<and>
                    list_ex (\<lambda>r. mine r \<and> run_id r = vt_run v) (rows (db_runs db)))
                  (\<lambda>v. v\<lparr>vt_status := Some (U ''failed''), vt_error := Some err\<rparr>) db
      in update_runs mine (\<lambda>r. r\<lparr>run_status := Run_Failed, run_error := Some err, run_finished_at := Some now\<rparr>) db1)"

definition job_target_of :: "job \<Rightarrow> worker_db \<Rightarrow> (pull_request \<times> worker_repo) option" where
  "job_target_of j s =
     (case get_pr (j_pr j) (db_prs (q_db (x_pipe s))) of
        None \<Rightarrow> None
      | Some pr \<Rightarrow> map_option (\<lambda>repo. (pr, repo)) (find_repo (pr_repo pr) s))"

definition notify_if_failed :: "worker_env \<Rightarrow> job \<Rightarrow> worker_db \<Rightarrow> worker_db" where
  "notify_if_failed env j s =
     (case get_job (j_id j) (rows (x_jobs s)) of
        None \<Rightarrow> s
      | Some row \<Rightarrow>
          (case job_target_of row s of
             None \<Rightarrow> s
           | Some (pr, repo) \<Rightarrow>
               if j_status row = Failed
               then notify env \<lparr>nt_repo = rr_full_name (wr_row repo), nt_number = pr_number pr, nt_done = False, nt_findings = 0\<rparr> s
               else s))"

definition fail_job ::
  "worker_env \<Rightarrow> pystr option \<Rightarrow> job \<Rightarrow> pystr \<Rightarrow> bool \<Rightarrow> nat option \<Rightarrow> worker_db \<Rightarrow> (exn + bool) \<times> worker_db" where
  "fail_job env owner j err again rid s =
     (case mark_failed (we_later env) (j_id j) err again rid owner (x_jobs s) of
        (Inl e, js) \<Rightarrow> (Inl e, s\<lparr>x_jobs := js\<rparr>)
      | (Inr u, js) \<Rightarrow> (Inr True, s\<lparr>x_jobs := js\<rparr>))"

definition fail_and_notify ::
  "worker_env \<Rightarrow> pystr option \<Rightarrow> job \<Rightarrow> pystr \<Rightarrow> nat option \<Rightarrow> worker_db \<Rightarrow> (exn + bool) \<times> worker_db" where
  "fail_and_notify env owner j err rid s =
     (case fail_job env owner j err (is_retryable err) rid s of
        (Inl e, s') \<Rightarrow> (Inl e, s')
      | (Inr b, s') \<Rightarrow> (Inr b, notify_if_failed env j s'))"

text \<open>The \<open>except\<close> clauses, in their order.\<close>

definition handle_stop ::
  "worker_env \<Rightarrow> pystr option \<Rightarrow> job \<Rightarrow> job_stop \<Rightarrow> worker_db \<Rightarrow> (exn + bool) \<times> worker_db" where
  "handle_stop env owner j stop s =
     (case stop of
        Timed_Out \<Rightarrow>
          fail_job env owner j (timeout_error env) True None
            (s\<lparr>x_pipe := (x_pipe s)\<lparr>q_db := close_timed_out (we_later env) (j_id j) (timeout_error env) (q_db (x_pipe s))\<rparr>\<rparr>)
      | Stopped (Lease_Lost rid) \<Rightarrow> (Inr True, s)
      | Stopped (Stale_Head rid expected actual) \<Rightarrow>
          (case cancel_stale_and_enqueue_latest (\<lambda>p. map_option pr_head_sha (get_pr p (db_prs (q_db (x_pipe s)))))
                  (we_later env) (j_id j) owner (x_jobs s) of
             (Inl e, js) \<Rightarrow> (Inl e, s\<lparr>x_jobs := js\<rparr>)
           | (Inr x, js) \<Rightarrow> (Inr True, s\<lparr>x_jobs := js\<rparr>))
      | Stopped (Pipeline_Error rid msg) \<Rightarrow>
          fail_and_notify env owner j msg (if rid = 0 then None else Some rid) s
      | Stopped (Raised_Exn e) \<Rightarrow>
          if e = LeaseLostError (j_id j) then (Inr True, s)
          else fail_and_notify env owner j (we_show env e) None s)"

definition run_one_job :: "worker_env \<Rightarrow> pystr \<Rightarrow> pystr option \<Rightarrow> worker_db \<Rightarrow> (exn + bool) \<times> worker_db" where
  "run_one_job env worker owner s =
     (case claim_next (we_busy env, we_now env, worker, owner) (x_jobs s) of
        (None, js) \<Rightarrow> (Inr False, s\<lparr>x_jobs := js\<rparr>)
      | (Some j, js) \<Rightarrow>
          (case attempt_job env owner j (s\<lparr>x_jobs := js\<rparr>) of
             (Inr u, s') \<Rightarrow> (Inr True, s')
           | (Inl stop, s') \<Rightarrow> handle_stop env owner j stop s'))"

section \<open>One wiki page\<close>

record 'j wiki_env =
  wn_busy :: bool
  wn_now :: int
  wn_later :: int
  wn_generate :: "worker_repo \<Rightarrow> settings \<Rightarrow> exn + 'j \<times> 'j \<times> pystr"
  wn_dumps :: "'j \<Rightarrow> pystr"
  wn_message :: "exn \<Rightarrow> pystr"
  wn_secrets :: "pystr list"

definition wiki_failure ::
  "'j wiki_env \<Rightarrow> pystr option \<Rightarrow> nat \<Rightarrow> exn \<Rightarrow> worker_db \<Rightarrow> worker_db" where
  "wiki_failure env owner repo e s =
     (let msg = redact_secrets (wn_secrets env) (wn_message env e);
          (retrying, ws) = (if is_retryable msg then schedule_retry (wn_later env) repo msg RETRY_BASE_SECONDS owner (x_wiki s)
                            else (False, x_wiki s))
      in if retrying then s\<lparr>x_wiki := ws\<rparr> else s\<lparr>x_wiki := wiki_mark_failed (wn_later env) repo msg owner ws\<rparr>)"

definition run_one_wiki_job :: "'j wiki_env \<Rightarrow> pystr \<Rightarrow> pystr option \<Rightarrow> worker_db \<Rightarrow> bool \<times> worker_db" where
  "run_one_wiki_job env worker owner s =
     (case wiki_claim_next (wn_busy env, wn_now env, worker, owner) (x_wiki s) of
        (None, ws) \<Rightarrow> (False, s\<lparr>x_wiki := ws\<rparr>)
      | (Some rid, ws) \<Rightarrow>
          let s1 = s\<lparr>x_wiki := ws\<rparr>
          in (case find_repo rid s1 of
                None \<Rightarrow> (True, s1)
              | Some repo \<Rightarrow>
                  (case wn_generate env repo (x_settings s1) of
                     Inl e \<Rightarrow> (True, wiki_failure env owner rid e s1)
                   | Inr (page, sources, sha) \<Rightarrow>
                       (case wiki_save (wn_dumps env) (wn_later env) rid page sources sha owner (x_wiki s1) of
                          (Inl e, ws') \<Rightarrow> (True, wiki_failure env owner rid e (s1\<lparr>x_wiki := ws'\<rparr>))
                        | (Inr u, ws') \<Rightarrow> (True, s1\<lparr>x_wiki := ws'\<rparr>)))))"

section \<open>The loop\<close>

text \<open>One round: what it did, and the pause after it, if any, with the pause of the next idle round.\<close>

definition worker_tick ::
  "worker_env \<Rightarrow> 'j wiki_env option \<Rightarrow> pystr \<Rightarrow> pystr option \<Rightarrow> worker_db \<Rightarrow> bool \<times> worker_db" where
  "worker_tick env wiki worker owner s =
     (case run_one_job env worker owner s of
        (Inl e, s') \<Rightarrow> (False, s')
      | (Inr worked, s') \<Rightarrow>
          (case wiki of
             None \<Rightarrow> (worked, s')
           | Some wenv \<Rightarrow> (case run_one_wiki_job wenv worker owner s' of (wiki_worked, s2) \<Rightarrow> (worked \<or> wiki_worked, s2))))"

definition next_pause :: "rat \<Rightarrow> rat \<Rightarrow> bool \<Rightarrow> rat \<Rightarrow> rat option \<times> rat" where
  "next_pause idle_max idle_sleep worked delay =
     (if worked then (None, idle_sleep) else (Some delay, min idle_max (delay * 2)))"

text \<open>The pauses of a run of the loop, from what its rounds did.\<close>

fun pauses :: "rat \<Rightarrow> rat \<Rightarrow> rat \<Rightarrow> bool list \<Rightarrow> rat list" where
  "pauses idle_max idle_sleep delay [] = []"
| "pauses idle_max idle_sleep delay (worked # ws) =
     (case next_pause idle_max idle_sleep worked delay of
        (None, d) \<Rightarrow> pauses idle_max idle_sleep d ws
      | (Some p, d) \<Rightarrow> p # pauses idle_max idle_sleep d ws)"

section \<open>What dead processes leave behind\<close>

definition owner_dead :: "int \<Rightarrow> process_lease list \<Rightarrow> pystr option \<Rightarrow> bool" where
  "owner_dead now ls owner \<longleftrightarrow> (case owner of None \<Rightarrow> False | Some p \<Rightarrow> \<not> alive now ls p)"

definition legacy_stale :: "int \<Rightarrow> int \<Rightarrow> pystr option \<Rightarrow> int option \<Rightarrow> bool" where
  "legacy_stale now minutes owner at_time \<longleftrightarrow>
     owner = None \<and> (case at_time of None \<Rightarrow> False | Some t \<Rightarrow> t \<le> now - 60 * minutes)"

definition LEASE_EXPIRED :: pystr where
  "LEASE_EXPIRED = U ''recovered from expired process lease''"

definition lost_job :: "int \<Rightarrow> int \<Rightarrow> process_lease list \<Rightarrow> job \<Rightarrow> bool" where
  "lost_job now minutes ls j \<longleftrightarrow>
     j_status j = Running \<and> (owner_dead now ls (j_owner j) \<or> legacy_stale now minutes (j_owner j) (j_locked_at j))"

definition lost_run :: "int \<Rightarrow> int \<Rightarrow> process_lease list \<Rightarrow> review_run \<Rightarrow> bool" where
  "lost_run now minutes ls r \<longleftrightarrow>
     run_status r = Run_Running \<and> (owner_dead now ls (run_owner r) \<or> legacy_stale now minutes (run_owner r) (Some (run_started_at r)))"

definition lost_wiki :: "int \<Rightarrow> int \<Rightarrow> process_lease list \<Rightarrow> wiki_page \<Rightarrow> bool" where
  "lost_wiki now minutes ls p \<longleftrightarrow>
     wk_status p = Generating \<and> (owner_dead now ls (wk_owner p) \<or> legacy_stale now minutes (wk_owner p) (wk_locked_at p))"

definition fail_lost_runs :: "int \<Rightarrow> (review_run \<Rightarrow> bool) \<Rightarrow> run_db \<Rightarrow> nat \<times> run_db" where
  "fail_lost_runs now lost db =
     (let ids = map run_id (filter lost (rows (db_runs db)));
          err = U ''worker process lease expired'';
          db1 = update_results (\<lambda>v. vt_status v = Some (U ''running'') \<and> vt_run v \<in> set ids)
                  (\<lambda>v. v\<lparr>vt_status := Some (U ''failed''), vt_error := Some err\<rparr>) db
      in if ids = [] then (0, db)
         else (rowcount (\<lambda>r. run_id r \<in> set ids) (rows (db_runs db)),
               update_runs (\<lambda>r. run_id r \<in> set ids)
                 (\<lambda>r. r\<lparr>run_status := Run_Failed, run_error := Some err, run_finished_at := Some now\<rparr>) db1))"

definition recover_expired :: "int \<Rightarrow> int \<Rightarrow> worker_db \<Rightarrow> (nat \<times> nat \<times> nat) \<times> worker_db" where
  "recover_expired now minutes s =
     (let ls = q_leases (x_pipe s);
          js = x_jobs s;
          (runs, db) = fail_lost_runs now (lost_run now minutes ls) (q_db (x_pipe s))
      in ((rowcount (lost_job now minutes ls) (rows js), runs, rowcount (lost_wiki now minutes ls) (x_wiki s)),
          s\<lparr>x_jobs := update_jobs (lost_job now minutes ls)
               (\<lambda>j. j\<lparr>j_status := Queued, j_locked_by := None, j_locked_at := None, j_owner := None, j_error := Some LEASE_EXPIRED\<rparr>) js,
            x_wiki := sql_update (lost_wiki now minutes ls)
               (\<lambda>p. p\<lparr>wk_locked_by := None, wk_locked_at := None, wk_owner := None, wk_status := Generating,
                    wk_error := Some LEASE_EXPIRED\<rparr>) (x_wiki s),
            x_pipe := (x_pipe s)\<lparr>q_db := db, q_leases := sql_delete (\<lambda>l. pl_expires_at l \<le> now) ls\<rparr>\<rparr>))"


section \<open>The end of a job, as its row shows it\<close>

text \<open>The row that this worker holds, in a table that is in order.\<close>

definition holds_job :: "nat \<Rightarrow> pystr option \<Rightarrow> job_table \<Rightarrow> bool" where
  "holds_job k owner js \<longleftrightarrow> jobs_wf js \<and> (\<exists>j. get_job k (rows js) = Some j \<and> j_status j = Running \<and> j_owner j = owner)"

definition job_is :: "nat \<Rightarrow> job_status set \<Rightarrow> job_table \<Rightarrow> bool" where
  "job_is k sts js \<longleftrightarrow> (\<exists>j. get_job k (rows js) = Some j \<and> j_status j \<in> sts)"

lemma owner_ok_held: "j_owner j = owner \<Longrightarrow> owner_ok owner j"
  by (simp add: owner_ok_def)

lemma finish_job_held:
  assumes "holds_job k owner js" "same_job f" "\<And>j. j_status (f j) = st"
  shows "\<exists>js'. finish_job k owner f js = (Inr (), js') \<and> job_is k {st} js'"
proof -
  obtain j where j: "jobs_wf js" "get_job k (rows js) = Some j" "j_owner j = owner"
    using assms(1) by (auto simp: holds_job_def)
  have "rowcount (\<lambda>r. j_id r = k \<and> owner_ok owner r) (rows js) = 1"
    using rowcount_job_id[of js j "owner_ok owner"] get_job_Some[OF j(2)] j owner_ok_held by auto
  moreover have "get_job k (rows (update_jobs (\<lambda>r. j_id r = k \<and> owner_ok owner r) f js)) = Some (f j)"
    using j get_job_Some[OF j(2)] owner_ok_held[OF j(3)] by (simp add: get_update[OF assms(2)])
  ultimately show ?thesis using assms(3) by (auto simp: finish_job_def job_is_def Let_def)
qed

lemma mark_done_held: "holds_job k owner js \<Longrightarrow> \<exists>js'. mark_done k run owner js = (Inr (), js') \<and> job_is k {Done} js'"
  unfolding mark_done_def by (rule finish_job_held) (simp_all add: same_job_def)

lemma mark_canceled_held: "holds_job k owner js \<Longrightarrow> \<exists>js'. mark_canceled k e owner js = (Inr (), js') \<and> job_is k {Canceled} js'"
  unfolding mark_canceled_def by (rule finish_job_held) (simp_all add: same_job_def)

lemma mark_failed_held:
  assumes "holds_job k owner js"
  shows "\<exists>js'. mark_failed now k e again run owner js = (Inr (), js') \<and> job_is k {Queued, Failed} js' \<and>
    (\<not> again \<longrightarrow> job_is k {Failed} js')"
proof -
  obtain j where j: "get_job k (rows js) = Some j" "j_owner j = owner"
    using assms by (auto simp: holds_job_def)
  show ?thesis
    using j get_job_Some[OF j(1)] owner_ok_held[OF j(2)]
    by (auto simp: mark_failed_def job_is_def get_update same_job_def)
qed

lemma cancel_stale_held:
  assumes "holds_job k owner js"
  shows "\<exists>n js'. cancel_stale_and_enqueue_latest heads now k owner js = (Inr n, js') \<and> job_is k {Canceled} js'"
proof -
  obtain j where j: "jobs_wf js" "get_job k (rows js) = Some j" "j_status j = Running" "j_owner j = owner"
    using assms by (auto simp: holds_job_def)
  show ?thesis
  proof (cases "\<exists>head. heads (j_pr j) = Some head \<and> head \<noteq> [] \<and> head \<noteq> j_sha j")
    case True
    then obtain head where "heads (j_pr j) = Some head" "head \<noteq> []" "head \<noteq> j_sha j" by blast
    from stale_latest_effect[of js k j heads head owner now, OF j(1,2) this]
    show ?thesis using j(3,4) by (auto simp: job_is_def active_def)
  next
    case False
    let ?js1 = "cancel_stale k owner js"
    have "job_is k {Canceled} ?js1"
      using j get_job_Some[OF j(2)] by (simp add: job_is_def cancel_stale_def get_update same_job_def active_def owner_ok_def)
    moreover have "cancel_stale_and_enqueue_latest heads now k owner js = (Inr None, ?js1)"
      using False j(2) by (auto simp: cancel_stale_and_enqueue_latest_def cancel_stale_def Let_def split: option.splits)
    ultimately show ?thesis by (auto simp: job_is_def)
  qed
qed

section \<open>Every claimed job comes to an end\<close>

text \<open>Other processes leave the jobs that run alone.\<close>

definition leaves_running :: "(job_table \<Rightarrow> job_table) \<Rightarrow> bool" where
  "leaves_running f \<longleftrightarrow> (\<forall>js. (jobs_wf js \<longrightarrow> jobs_wf (f js)) \<and>
     (\<forall>k j. get_job k (rows js) = Some j \<and> j_status j = Running \<longrightarrow> get_job k (rows (f js)) = Some j))"

lemma holds_others: "leaves_running f \<Longrightarrow> holds_job k owner js \<Longrightarrow> holds_job k owner (f js)"
  unfolding leaves_running_def holds_job_def by blast

lemma claim_held:
  assumes "jobs_wf js" "claim_next (busy, now, w, owner) js = (Some j, js')"
  shows "holds_job (j_id j) owner js' \<and> jobs_wf js'"
proof -
  obtain row where row: "get_job (j_id j) (rows js) = Some row" "j = take_job now w owner row"
    "js' = update_jobs (\<lambda>r. j_id r = j_id j) (take_job now w owner) js"
    by (rule claim_next_Some[OF assms])
  have "jobs_wf js'" using wf_claim_next[OF assms(1), of "(busy, now, w, owner)"] assms(2) by simp
  moreover have "get_job (j_id j) (rows js') = Some (take_job now w owner row)"
    using row(1) get_job_Some[OF row(1)] unfolding row(3) rows_update_jobs by (subst get_update) (simp_all add: job_fields)
  ultimately show ?thesis by (auto simp: holds_job_def take_job_def)
qed

text \<open>The stops after which the worker leaves the job to whoever has its lease.\<close>

definition gives_up :: "nat \<Rightarrow> job_stop \<Rightarrow> bool" where
  "gives_up k stop \<longleftrightarrow> (\<exists>rid. stop = Stopped (Lease_Lost rid)) \<or> stop = Stopped (Raised_Exn (LeaseLostError k))"

lemma on_jobs_result:
  "f (x_jobs s) = (Inr v, js) \<Longrightarrow> on_jobs f s = (Inr v, s\<lparr>x_jobs := js\<rparr>)"
  by (simp add: on_jobs_def)

lemma notify_jobs [simp]: "x_jobs (notify env x s) = x_jobs s"
  by (simp add: notify_def)

lemma notify_if_failed_jobs [simp]: "x_jobs (notify_if_failed env j s) = x_jobs s"
  by (simp add: notify_if_failed_def split: option.splits prod.splits)

lemma pipeline_task_jobs: "x_jobs (snd (pipeline_task env owner j repo w s)) = we_others env (x_jobs s)"
  by (simp add: pipeline_task_def split: option.splits prod.splits sum.splits)

text \<open>What the body of the \<open>try\<close> leaves behind: the job has its end, or it is still held.\<close>

lemma attempt_job_held:
  assumes held: "holds_job (j_id j) owner (x_jobs s)" and others: "leaves_running (we_others env)"
  shows "case attempt_job env owner j s of
      (Inr u, s') \<Rightarrow> job_is (j_id j) {Done, Canceled, Failed} (x_jobs s')
    | (Inl stop, s') \<Rightarrow> holds_job (j_id j) owner (x_jobs s')"
proof -
  have canceled: "case on_jobs (mark_canceled (j_id j) e owner) s of
      (Inr u, s') \<Rightarrow> job_is (j_id j) {Done, Canceled, Failed} (x_jobs s')
    | (Inl stop, s') \<Rightarrow> holds_job (j_id j) owner (x_jobs s')" for e
    using mark_canceled_held[OF held, of e] by (auto simp: on_jobs_def job_is_def)
  have stale: "case work_then (on_jobs (cancel_stale_and_enqueue_latest heads (we_now env) (j_id j) owner)) (\<lambda>_. work_ret ()) s of
      (Inr u, s') \<Rightarrow> job_is (j_id j) {Done, Canceled, Failed} (x_jobs s')
    | (Inl stop, s') \<Rightarrow> holds_job (j_id j) owner (x_jobs s')" for heads
    using cancel_stale_held[OF held, of heads "we_now env"] by (auto simp: on_jobs_def work_then_def work_ret_def job_is_def)
  have run: "case work_then (pipeline_task env owner j repo w) (\<lambda>rid. work_then (on_jobs (mark_done (j_id j) (Some rid) owner))
          (\<lambda>_ t. (Inr (), notify env (x rid t) t))) s of
      (Inr u, s') \<Rightarrow> job_is (j_id j) {Done, Canceled, Failed} (x_jobs s')
    | (Inl stop, s') \<Rightarrow> holds_job (j_id j) owner (x_jobs s')" for repo w x
  proof -
    obtain res t where task: "pipeline_task env owner j repo w s = (res, t)" by (cases "pipeline_task env owner j repo w s")
    have t: "holds_job (j_id j) owner (x_jobs t)"
      using pipeline_task_jobs[of env owner j repo w s] holds_others[OF others held] task by simp
    show ?thesis
    proof (cases res)
      case (Inr rid)
      obtain js where "mark_done (j_id j) (Some rid) owner (x_jobs t) = (Inr (), js)" "job_is (j_id j) {Done} js"
        using mark_done_held[OF t] by blast
      then show ?thesis using task Inr by (auto simp: work_then_def on_jobs_def job_is_def)
    qed (use task t in \<open>simp add: work_then_def\<close>)
  qed
  show ?thesis
    unfolding attempt_job_def
    using canceled stale run held
    by (simp add: work_fail_def split: option.splits sum.splits)
qed


lemma fail_job_held:
  assumes "holds_job (j_id j) owner (x_jobs s)"
  shows "\<exists>s'. fail_job env owner j err again rid s = (Inr True, s') \<and> job_is (j_id j) {Queued, Failed} (x_jobs s')"
  using mark_failed_held[OF assms, of "we_later env" err again rid] by (auto simp: fail_job_def)

lemma fail_and_notify_held:
  assumes "holds_job (j_id j) owner (x_jobs s)"
  shows "\<exists>s'. fail_and_notify env owner j err rid s = (Inr True, s') \<and> job_is (j_id j) {Queued, Failed} (x_jobs s')"
  using fail_job_held[OF assms, of env err "is_retryable err" rid] by (auto simp: fail_and_notify_def)

lemma handle_stop_held:
  assumes "holds_job (j_id j) owner (x_jobs s)" "handle_stop env owner j stop s = (r, s')"
  shows "r = Inr True \<and> (gives_up (j_id j) stop \<and> s' = s \<or> job_is (j_id j) {Queued, Failed, Canceled} (x_jobs s'))"
proof (cases stop)
  case Timed_Out
  let ?s = "s\<lparr>x_pipe := (x_pipe s)\<lparr>q_db := close_timed_out (we_later env) (j_id j) (timeout_error env) (q_db (x_pipe s))\<rparr>\<rparr>"
  obtain t where "fail_job env owner j (timeout_error env) True None ?s = (Inr True, t)" "job_is (j_id j) {Queued, Failed} (x_jobs t)"
    using fail_job_held[of j owner ?s env "timeout_error env" True None] assms(1) by auto
  then show ?thesis using assms(2) Timed_Out by (auto simp: handle_stop_def job_is_def)
next
  case (Stopped e)
  show ?thesis
  proof (cases e)
    case (Stale_Head rid expected actual)
    then show ?thesis
      using assms(2) Stopped cancel_stale_held[OF assms(1), of "\<lambda>p. map_option pr_head_sha (get_pr p (db_prs (q_db (x_pipe s))))" "we_later env"]
      by (auto simp: handle_stop_def job_is_def)
  next
    case (Lease_Lost rid)
    then show ?thesis using assms(2) Stopped by (simp add: handle_stop_def gives_up_def)
  next
    case (Pipeline_Error rid msg)
    then show ?thesis
      using assms(2) Stopped fail_and_notify_held[OF assms(1), of env msg "if rid = 0 then None else Some rid"]
      by (auto simp: handle_stop_def job_is_def)
  next
    case (Raised_Exn x)
    then show ?thesis
      using assms(2) Stopped fail_and_notify_held[OF assms(1), of env "we_show env x" None]
      by (auto simp: handle_stop_def gives_up_def job_is_def split: if_splits)
  qed
qed


section \<open>Recovery\<close>

lemma alive_recovered: "alive now (sql_delete (\<lambda>l. pl_expires_at l \<le> now) ls) p = alive now ls p"
  by (auto simp: alive_def sql_delete_def list_ex_iff)

lemma lost_recovered:
  "owner_dead now (sql_delete (\<lambda>l. pl_expires_at l \<le> now) ls) owner = owner_dead now ls owner"
  by (simp add: owner_dead_def alive_recovered split: option.splits)



section \<open>The end of the run of a job\<close>

text \<open>Whatever a run that was cut off has done: its job leaves no run and no result of it open.\<close>

lemma timeout_closes_runs:
  assumes "handle_stop env owner j Timed_Out s = (res, s')"
  shows "\<forall>r \<in> set (rows (db_runs (q_db (x_pipe s')))). run_owner_job r = Some (j_id j) \<longrightarrow> run_status r \<noteq> Run_Running"
proof -
  have "q_db (x_pipe s') = close_timed_out (we_later env) (j_id j) (timeout_error env) (q_db (x_pipe s))"
    using assms by (auto simp: handle_stop_def fail_job_def split: prod.splits sum.splits)
  then show ?thesis by (auto simp: close_timed_out_def Let_def update_runs_def update_results_def sql_update_def)
qed

lemma job_is_disjoint: "job_is k A js \<Longrightarrow> job_is k B js \<Longrightarrow> A \<inter> B \<noteq> {}"
  by (auto simp: job_is_def)

text \<open>A job is only done through a run that came to its end.\<close>

lemma attempt_job_done:
  assumes "holds_job (j_id j) owner (x_jobs s)" "leaves_running (we_others env)"
    "attempt_job env owner j s = (Inr u, s')" "job_is (j_id j) {Done} (x_jobs s')"
  shows "\<exists>repo w rid t. we_deps env repo (x_settings s) = Inr w \<and> pipeline_task env owner j repo w s = (Inr rid, t) \<and>
    x_pipe s' = x_pipe t \<and> (\<exists>j'. get_job (j_id j) (rows (x_jobs s')) = Some j' \<and> j_run_id j' = Some rid)"
proof -
  have no_cancel: False if "on_jobs (mark_canceled (j_id j) e owner) s = (Inr u, s')" for e
    using that mark_canceled_held[OF assms(1), of e] assms(4) by (auto simp: on_jobs_def job_is_def)
  have no_stale: False
    if "work_then (on_jobs (cancel_stale_and_enqueue_latest heads (we_now env) (j_id j) owner)) (\<lambda>_. work_ret ()) s = (Inr u, s')" for heads
    using that cancel_stale_held[OF assms(1), of heads "we_now env"] assms(4)
    by (auto simp: on_jobs_def work_then_def work_ret_def job_is_def)
  obtain repo w x where deps: "we_deps env repo (x_settings s) = Inr w"
    and run: "work_then (pipeline_task env owner j repo w) (\<lambda>rid. work_then (on_jobs (mark_done (j_id j) (Some rid) owner))
          (\<lambda>_ t. (Inr (), notify env (x rid t) t))) s = (Inr u, s')"
    using assms(3) no_cancel no_stale unfolding attempt_job_def
    by (auto simp: work_fail_def split: option.splits sum.splits if_splits)
  obtain rid t where task: "pipeline_task env owner j repo w s = (Inr rid, t)"
    and rest: "work_then (on_jobs (mark_done (j_id j) (Some rid) owner)) (\<lambda>_ t. (Inr (), notify env (x rid t) t)) t = (Inr u, s')"
    using run by (auto simp: work_then_def split: prod.splits sum.splits)
  have t: "holds_job (j_id j) owner (x_jobs t)"
    using pipeline_task_jobs[of env owner j repo w s] holds_others[OF assms(2,1)] task by simp
  then obtain row where row: "get_job (j_id j) (rows (x_jobs t)) = Some row" "j_owner row = owner"
    by (auto simp: holds_job_def)
  obtain js where js: "mark_done (j_id j) (Some rid) owner (x_jobs t) = (Inr (), js)" using mark_done_held[OF t] by blast
  then have "get_job (j_id j) (rows js) = Some (row\<lparr>j_status := Done, j_run_id := Some rid, j_locked_by := None, j_locked_at := None, j_owner := None\<rparr>)"
    using row get_job_Some[OF row(1)]
    by (auto simp: mark_done_def finish_job_def Let_def get_update same_job_def owner_ok_def split: if_splits)
  moreover have "x_jobs s' = js" "x_pipe s' = x_pipe t"
    using rest js by (auto simp: work_then_def on_jobs_def notify_def)
  ultimately show ?thesis using deps task by auto
qed


lemma review_of_task:
  assumes "pipeline_task env owner j repo w s = (Inr n, p)" "j_trigger j \<noteq> Retry"
  shows "\<exists>trig job. review_pr w (j_pr j) trig (Some (j_sha j)) owner job (wr_row repo) (x_settings s) (x_pipe s) = (Inr n, x_pipe p)"
proof -
  let ?job = "if owner = None then None else Some (j_id j)"
  obtain res q where q: "review_pr w (j_pr j) (run_trigger_of (j_trigger j)) (Some (j_sha j)) owner ?job (wr_row repo)
      (x_settings s) (x_pipe s) = (res, q)"
    by (metis prod.exhaust)
  have "res = Inr n \<and> q = x_pipe p"
    using assms unfolding pipeline_task_def
    by (cases "we_timeout env"; cases res) (simp_all only: q option.case sum.case prod.case if_False prod.inject, auto)
  then show ?thesis using q by blast
qed


section \<open>Pauses of an idle worker\<close>

text \<open>An idle worker never waits less than its first pause or more than the limit, and work resets the pause.\<close>

lemma pauses_bounded:
  assumes "0 < idle_sleep" "idle_sleep \<le> idle_max" "idle_sleep \<le> delay" "delay \<le> idle_max"
  shows "\<forall>p \<in> set (pauses idle_max idle_sleep delay ws). idle_sleep \<le> p \<and> p \<le> idle_max"
  using assms
proof (induction ws arbitrary: delay)
  case (Cons worked ws)
  define d where "d = min idle_max (delay * 2)"
  have "idle_sleep \<le> delay * 2" using Cons.prems by linarith
  then have d: "idle_sleep \<le> d" "d \<le> idle_max" using Cons.prems(2) by (simp_all add: d_def)
  note rest = Cons.IH[OF Cons.prems(1,2)]
  show ?case
  proof (cases worked)
    case True
    then have "pauses idle_max idle_sleep delay (worked # ws) = pauses idle_max idle_sleep idle_sleep ws"
      by (simp add: next_pause_def)
    then show ?thesis using rest[of idle_sleep] Cons.prems(2) by simp
  next
    case False
    then have "pauses idle_max idle_sleep delay (worked # ws) = delay # pauses idle_max idle_sleep d ws"
      by (simp add: next_pause_def d_def)
    then show ?thesis using rest[OF d] Cons.prems(3,4) by simp
  qed
qed simp


section \<open>Examples\<close>

definition sample_queue :: job_table where
  "sample_queue = snd (enqueue 5 1 (U ''h1'') Auto 0 \<lparr>rows = [], next_id = 1\<rparr>)"

text \<open>A head whose base is known and a comparison that answers: the job may be reviewed at its fixed head.\<close>

definition fixed_db :: pipe_db where
  "fixed_db = sample_db\<lparr>q_db := (q_db sample_db)\<lparr>db_prs := \<lparr>rows = [sample_pr\<lparr>pr_base_sha := Some (U ''b1'')\<rparr>], next_id = 2\<rparr>\<rparr>\<rparr>"

definition fixed_world :: world where
  "fixed_world = easy_world\<lparr>w_compare := Some (\<lambda>b h. Inr small_diff)\<rparr>"

definition sample_env :: worker_env where
  "sample_env =
     \<lparr>we_busy = False, we_now = 10, we_later = 20, we_deps = (\<lambda>repo st. Inr fixed_world), we_timeout = None,
      we_timeout_sec = 1800, we_others = (\<lambda>js. js), we_show = (\<lambda>e. []), we_notify = True\<rparr>"

definition sample_worker_db :: worker_db where
  "sample_worker_db =
     \<lparr>x_pipe = fixed_db, x_jobs = sample_queue, x_wiki = [], x_repos = [\<lparr>wr_row = sample_row, wr_enabled = True\<rparr>],
      x_settings = sample_settings, x_notices = []\<rparr>"

definition sample_work :: "(exn + bool) \<times> worker_db" where
  "sample_work = run_one_job sample_env (U ''w1'') None sample_worker_db"

lemma sample_queue_wf: "jobs_wf (x_jobs sample_worker_db)"
proof -
  have "jobs_wf \<lparr>rows = [], next_id = 1\<rparr>" by (simp add: jobs_wf_def jobs.unique_keys_def job_target.unique_keys_def)
  from wf_enqueue[OF this, of 5 1 "U ''h1''" Auto 0] show ?thesis by (simp add: sample_worker_db_def sample_queue_def)
qed

lemma sample_others: "leaves_running (we_others sample_env)"
  by (simp add: sample_env_def leaves_running_def)

lemma sample_work_done: "map_option j_status (get_job 1 (rows (x_jobs (snd sample_work)))) = Some Done"
  by code_simp

lemma sample_job_done:
  assumes "sample_work = (r, s')"
  shows "job_is 1 {Done} (x_jobs s')"
proof -
  have "map_option j_status (get_job 1 (rows (x_jobs s'))) = Some Done" using sample_work_done[unfolded assms snd_conv] .
  then show ?thesis by (auto simp: job_is_def)
qed

lemma sample_work_claim:
  obtains j js where
    "claim_next (we_busy sample_env, we_now sample_env, U ''w1'', None) (x_jobs sample_worker_db) = (Some j, js)"
    "j_id j = 1" "j_trigger j = Auto"
proof -
  let ?c = "claim_next (we_busy sample_env, we_now sample_env, U ''w1'', None) (x_jobs sample_worker_db)"
  have "map_option (\<lambda>j. (j_id j, j_trigger j)) (fst ?c) = Some (1, Auto)" by code_simp
  then obtain j where "fst ?c = Some j" "j_id j = 1" "j_trigger j = Auto" by auto
  then show thesis using that[of j "snd ?c"] by (metis prod.collapse)
qed



definition orphaned_db :: worker_db where
  "orphaned_db = sample_worker_db\<lparr>x_jobs := snd (claim_next (False, 10, U ''w1'', Some (U ''p'')) sample_queue)\<rparr>"


end
