(* ===== verification/Posting.thy ===== *)
theory Posting
  imports Finding_Store Json
begin

text \<open>
  The posting of a review to GitHub: the operation table of
  \<open>src/server/repos/post_operation_repo.py\<close>, which reserves findings and makes a retried post
  adopt the review an earlier attempt left behind, the table of posted comments
  (\<open>posted_repo.py\<close>), and one vendor's turn of \<open>_post_run_locked\<close> in \<open>src/server/api.py\<close>.
  The hash and GitHub are parameters.
\<close>

section \<open>The tables\<close>

datatype op_status = Op_Pending | Applying | Remote_Applied | Succeeded

record post_op =
  op_id :: nat
  op_key :: pystr
  op_run :: nat
  op_vendor :: pystr
  op_marker :: pystr
  op_body :: pystr
  op_body_hash :: "pystr option"
  op_identity :: "pystr option"
  op_finding_ids :: "nat list"
  op_new_ids :: "nat list"
  op_status :: op_status
  op_owner :: "pystr option"
  op_locked_at :: "int option"
  op_remote_id :: "pystr option"
  op_remote_url :: "pystr option"
  op_error :: "pystr option"
  op_created_at :: int
  op_updated_at :: int
  op_completed_at :: "int option"

record posted_comment =
  pc_id :: nat
  pc_run :: nat
  pc_vendor :: pystr
  pc_github_id :: "pystr option"
  pc_url :: pystr
  pc_marker :: pystr
  pc_body :: pystr
  pc_head_sha :: pystr
  pc_finding_ids :: "nat list"
  pc_kind :: pystr
  pc_posted_at :: int
  pc_superseded_at :: "int option"

record post_db =
  p_store :: finding_store
  p_ops :: "post_op list"
  p_next_op :: nat
  p_comments :: "posted_comment list"
  p_next_comment :: nat

definition get_op :: "nat \<Rightarrow> post_db \<Rightarrow> post_op option" where
  "get_op oid db = List.find (\<lambda>x. op_id x = oid) (p_ops db)"

definition update_ops :: "(post_op \<Rightarrow> bool) \<Rightarrow> (post_op \<Rightarrow> post_op) \<Rightarrow> post_db \<Rightarrow> post_db" where
  "update_ops P f db = db\<lparr>p_ops := sql_update P f (p_ops db)\<rparr>"

definition posting_conflict :: "pystr \<Rightarrow> exn" where
  "posting_conflict m = OtherError (U ''PostingConflict'') m"

section \<open>The identity of an operation\<close>

record post_target =
  t_repo :: pystr
  t_number :: int
  t_head :: pystr
  t_run :: nat
  t_vendor :: pystr
  t_policy :: pystr

definition policy_identity :: "post_target \<Rightarrow> pystr" where
  "policy_identity t = (if t_policy t = [] then U ''unknown'' else t_policy t)"

text \<open>The members of \<open>core\<close>, listed in the order in which the canonical form sorts them.\<close>

definition op_core :: "post_target \<Rightarrow> pystr \<Rightarrow> (pystr \<times> flat) list" where
  "op_core t seed =
     [(U ''canonical_repo'', FStr (lower (strip (t_repo t)))),
      (U ''head_sha'', FStr (t_head t)),
      (U ''marker_seed'', FStr seed),
      (U ''policy_review_identity'', FStr (policy_identity t)),
      (U ''pr_number'', FInt (t_number t)),
      (U ''run_id'', FInt (int (t_run t))),
      (U ''vendor'', FStr (t_vendor t))]"

definition op_marker_of :: "(pystr \<Rightarrow> pystr) \<Rightarrow> post_target \<Rightarrow> pystr \<Rightarrow> pystr" where
  "op_marker_of sha t seed =
     U ''<!-- almighty-post-operation:'' @ take 32 (sha (canonical_json (op_core t seed))) @ U '' -->''"

definition full_body :: "pystr \<Rightarrow> pystr \<Rightarrow> pystr" where
  "full_body body marker = body @ [10, 10] @ marker"

text \<open>\<open>{**core, "marker": .., "full_body_hash": ..}\<close>, again in sorted order.\<close>

definition op_identity_members :: "post_target \<Rightarrow> pystr \<Rightarrow> pystr \<Rightarrow> pystr \<Rightarrow> (pystr \<times> flat) list" where
  "op_identity_members t seed marker hash =
     [(U ''canonical_repo'', FStr (lower (strip (t_repo t)))),
      (U ''full_body_hash'', FStr hash),
      (U ''head_sha'', FStr (t_head t)),
      (U ''marker'', FStr marker),
      (U ''marker_seed'', FStr seed),
      (U ''policy_review_identity'', FStr (policy_identity t)),
      (U ''pr_number'', FInt (t_number t)),
      (U ''run_id'', FInt (int (t_run t))),
      (U ''vendor'', FStr (t_vendor t))]"

definition operation_identity :: "(pystr \<Rightarrow> pystr) \<Rightarrow> post_target \<Rightarrow> pystr \<Rightarrow> pystr \<times> pystr \<times> pystr \<times> pystr" where
  "operation_identity sha t body =
     (let seed = sha body;
          marker = op_marker_of sha t seed;
          body_hash = sha (full_body body marker);
          identity = canonical_json (op_identity_members t seed marker body_hash)
      in (sha identity, marker, body_hash, identity))"

section \<open>The operations\<close>

text \<open>The loop that reserves the new findings; \<open>Inl\<close> is the conflict that rolls everything back.\<close>

fun reserve_all :: "nat \<Rightarrow> nat \<Rightarrow> nat list \<Rightarrow> finding_store \<Rightarrow> exn + finding_store" where
  "reserve_all oid run [] st = Inr st"
| "reserve_all oid run (fid # fids) st =
     (case reserve_finding oid run fid st of
        (n, st') \<Rightarrow>
          if n \<noteq> 1 then Inl (posting_conflict (U ''finding '' @ nat_text fid @ U '' changed while preparing post''))
          else reserve_all oid run fids st')"

definition prepare ::
  "(pystr \<Rightarrow> pystr) \<Rightarrow> int \<Rightarrow> post_target \<Rightarrow> pystr \<Rightarrow> nat list \<Rightarrow> nat list \<Rightarrow> post_db
   \<Rightarrow> (exn + post_op) \<times> post_db" where
  "prepare sha now t body all_ids new_ids db =
     (case operation_identity sha t body of
        (key, marker, body_hash, identity) \<Rightarrow>
          (case List.find (\<lambda>x. op_key x = key) (p_ops db) of
             Some existing \<Rightarrow> (Inr existing, db)
           | None \<Rightarrow>
               if list_ex (\<lambda>x. op_marker x = marker) (p_ops db)
               then (Inl (OtherError (U ''IntegrityError'') (U ''UNIQUE constraint failed'')), db)
               else
                 let oid = p_next_op db;
                     new = \<lparr>op_id = oid, op_key = key, op_run = t_run t, op_vendor = t_vendor t,
                            op_marker = marker, op_body = body, op_body_hash = Some body_hash,
                            op_identity = Some identity, op_finding_ids = all_ids, op_new_ids = new_ids,
                            op_status = Op_Pending, op_owner = None, op_locked_at = None,
                            op_remote_id = None, op_remote_url = None, op_error = None,
                            op_created_at = now, op_updated_at = now, op_completed_at = None\<rparr>
                 in case reserve_all oid (t_run t) new_ids (p_store db) of
                      Inl e \<Rightarrow> (Inl e, db)
                    | Inr st \<Rightarrow> (Inr new, db\<lparr>p_store := st, p_ops := p_ops db @ [new], p_next_op := Suc oid\<rparr>)))"

definition succeeded_for_run :: "nat \<Rightarrow> post_db \<Rightarrow> post_op list" where
  "succeeded_for_run run db =
     sort_key op_id (filter (\<lambda>x. op_run x = run \<and> op_status x = Succeeded \<and> op_body_hash x \<noteq> None \<and>
       op_identity x \<noteq> None) (p_ops db))"

definition has_legacy_identity :: "nat \<Rightarrow> post_db \<Rightarrow> bool" where
  "has_legacy_identity run db \<longleftrightarrow>
     list_ex (\<lambda>x. op_run x = run \<and> (op_body_hash x = None \<or> op_identity x = None)) (p_ops db)"

definition claim_op :: "int \<Rightarrow> nat \<Rightarrow> pystr \<Rightarrow> post_db \<Rightarrow> bool \<times> post_db" where
  "claim_op now oid owner db =
     (let hit = (\<lambda>x. op_id x = oid \<and>
                (op_status x = Op_Pending \<or>
                 op_status x = Applying \<and>
                 (case op_locked_at x of None \<Rightarrow> False | Some t \<Rightarrow> t \<le> now - 60 * 20)))
      in (rowcount hit (p_ops db) = 1,
          update_ops hit (\<lambda>x. x\<lparr>op_status := Applying, op_owner := Some owner, op_locked_at := Some now,
            op_updated_at := now\<rparr>) db))"

definition abort_unapplied :: "nat \<Rightarrow> pystr \<Rightarrow> post_db \<Rightarrow> (exn + unit) \<times> post_db" where
  "abort_unapplied oid owner db =
     (case get_op oid db of
        None \<Rightarrow> (Inl (posting_conflict (U ''posting operation cannot be safely aborted'')), db)
      | Some x \<Rightarrow>
          if op_status x \<noteq> Applying \<or> op_owner x \<noteq> Some owner \<or> op_remote_id x \<notin> {None, Some []}
          then (Inl (posting_conflict (U ''posting operation cannot be safely aborted'')), db)
          else (Inr (), db\<lparr>p_store := release_findings oid (p_store db),
                           p_ops := sql_delete (\<lambda>y. op_id y = oid) (p_ops db)\<rparr>))"

definition mark_remote :: "int \<Rightarrow> nat \<Rightarrow> pystr \<Rightarrow> pystr \<Rightarrow> pystr \<Rightarrow> post_db \<Rightarrow> (exn + unit) \<times> post_db" where
  "mark_remote now oid review_id url owner db =
     (let hit = (\<lambda>x. op_id x = oid \<and> op_status x = Applying \<and> op_owner x = Some owner)
      in if rowcount hit (p_ops db) \<noteq> 1
         then (Inl (posting_conflict (U ''post operation ownership lost'')), db)
         else (Inr (), update_ops hit (\<lambda>x. x\<lparr>op_status := Remote_Applied, op_remote_id := Some review_id,
                op_remote_url := Some url, op_error := None, op_owner := None, op_locked_at := None,
                op_updated_at := now\<rparr>) db))"

definition mark_error :: "int \<Rightarrow> nat \<Rightarrow> pystr \<Rightarrow> pystr \<Rightarrow> post_db \<Rightarrow> post_db" where
  "mark_error now oid err owner db =
     update_ops (\<lambda>x. op_id x = oid \<and> op_status x = Applying \<and> op_owner x = Some owner)
       (\<lambda>x. x\<lparr>op_error := Some (take 1000 err), op_updated_at := now\<rparr>) db"

fun post_all :: "nat \<Rightarrow> nat list \<Rightarrow> finding_store \<Rightarrow> exn + finding_store" where
  "post_all oid [] st = Inr st"
| "post_all oid (fid # fids) st =
     (case post_finding oid fid st of
        (n, st') \<Rightarrow>
          if n \<noteq> 1 then Inl (posting_conflict (U ''finding '' @ nat_text fid @ U '' posting reservation lost''))
          else post_all oid fids st')"

text \<open>\<open>finalize\<close> runs in the transaction of its caller: an \<open>Inl\<close> is rolled back there.\<close>

definition finalize :: "int \<Rightarrow> nat \<Rightarrow> post_db \<Rightarrow> exn + post_db" where
  "finalize now oid db =
     (case get_op oid db of
        None \<Rightarrow> Inl (TypeError (U ''NoneType''))
      | Some x \<Rightarrow>
          ebind (post_all oid (op_new_ids x) (p_store db)) (\<lambda>st.
            Inr (update_ops (\<lambda>y. op_id y = oid)
                  (\<lambda>y. y\<lparr>op_status := Succeeded, op_error := None, op_owner := None, op_locked_at := None,
                       op_completed_at := Some now, op_updated_at := now\<rparr>) (db\<lparr>p_store := st\<rparr>))))"

text \<open>A review as GitHub lists it: its id, its url and its body.\<close>

record remote_review =
  rv_id :: pystr
  rv_url :: pystr
  rv_body :: pystr

definition find_remote_review :: "pystr \<Rightarrow> remote_review list \<Rightarrow> remote_review option" where
  "find_remote_review marker reviews = List.find (\<lambda>r. contains (rv_body r) marker) (rev reviews)"

section \<open>Posted comments\<close>

definition latest_for_pr_vendor :: "(nat \<Rightarrow> nat) \<Rightarrow> nat \<Rightarrow> pystr \<Rightarrow> post_db \<Rightarrow> posted_comment option" where
  "latest_for_pr_vendor pr_of_run pr vendor db =
     select_first (\<lambda>c. - int (pc_id c))
       (\<lambda>c. pr_of_run (pc_run c) = pr \<and> pc_vendor c = vendor \<and> pc_superseded_at c = None) (p_comments db)"

definition supersede :: "int \<Rightarrow> nat \<Rightarrow> post_db \<Rightarrow> post_db" where
  "supersede now cid db =
     db\<lparr>p_comments := sql_update (\<lambda>c. pc_id c = cid) (\<lambda>c. c\<lparr>pc_superseded_at := Some now\<rparr>) (p_comments db)\<rparr>"

definition add_comment ::
  "int \<Rightarrow> nat \<Rightarrow> pystr \<Rightarrow> pystr \<Rightarrow> pystr \<Rightarrow> pystr \<Rightarrow> pystr \<Rightarrow> pystr \<Rightarrow> nat list \<Rightarrow> pystr \<Rightarrow> post_db \<Rightarrow> post_db" where
  "add_comment now run vendor gid url marker body head ids kind db =
     db\<lparr>p_comments := p_comments db @
          [\<lparr>pc_id = p_next_comment db, pc_run = run, pc_vendor = vendor, pc_github_id = Some gid,
            pc_url = url, pc_marker = marker, pc_body = body, pc_head_sha = head, pc_finding_ids = ids,
            pc_kind = kind, pc_posted_at = now, pc_superseded_at = None\<rparr>],
        p_next_comment := Suc (p_next_comment db)\<rparr>"

section \<open>One vendor's turn of a post\<close>

text \<open>
  GitHub as the code uses it: the reviews of the pull request, a call that edits a review and one that
  creates a review with inline comments.  A call may fail, with or without an HTTP status.
\<close>

datatype gh_error = Gh_Error "nat option" pystr

record ('w, 'c) github =
  gh_list :: "'w \<Rightarrow> gh_error + remote_review list"
  gh_update :: "pystr \<Rightarrow> pystr \<Rightarrow> 'w \<Rightarrow> (gh_error + remote_review) \<times> 'w"
  gh_create :: "pystr \<Rightarrow> 'c \<Rightarrow> 'w \<Rightarrow> (gh_error + remote_review) \<times> 'w"

record rehearsal_policy =
  r_active :: bool
  r_allow_create :: bool
  r_allow_update :: bool
  r_allow_update_fallback :: bool
  r_allow_inline :: bool
  r_allow_slack :: bool

definition DEFAULT_REHEARSAL :: rehearsal_policy where
  "DEFAULT_REHEARSAL = \<lparr>r_active = False, r_allow_create = False, r_allow_update = False,
     r_allow_update_fallback = False, r_allow_inline = False, r_allow_slack = False\<rparr>"

text \<open>The GitHub comment a new post may edit.\<close>

definition reuse_id :: "posted_comment option \<Rightarrow> pystr option" where
  "reuse_id prev =
     (case prev of None \<Rightarrow> None
      | Some c \<Rightarrow> if pc_kind c = U ''review'' \<and> pc_github_id c \<notin> {None, Some []} then pc_github_id c else None)"

datatype remote_result = Remote_Done remote_review | Remote_Error gh_error | Remote_Refused pystr

text \<open>
  The remote half: adopt the review that carries the marker, else edit the previous review (and fall
  back to a new one when GitHub has lost it), else create one.
\<close>

definition remote_step ::
  "('w, 'c) github \<Rightarrow> rehearsal_policy \<Rightarrow> pystr \<Rightarrow> pystr option \<Rightarrow> pystr \<Rightarrow> 'c \<Rightarrow> 'w \<Rightarrow> remote_result \<times> 'w" where
  "remote_step gh policy marker reuse body inline w =
     (let create = (\<lambda>w. case gh_create gh body inline w of
                          (Inl e, w') \<Rightarrow> (Remote_Error e, w')
                        | (Inr r, w') \<Rightarrow> (Remote_Done r, w'))
      in case gh_list gh w of
           Inl e \<Rightarrow> (Remote_Error e, w)
         | Inr reviews \<Rightarrow>
         (case find_remote_review marker reviews of
           Some r \<Rightarrow> (Remote_Done r, w)
         | None \<Rightarrow>
             (case reuse of
                None \<Rightarrow> create w
              | Some rid \<Rightarrow>
                  (case gh_update gh rid body w of
                     (Inr r, w') \<Rightarrow> (Remote_Done r, w')
                   | (Inl (Gh_Error st m), w') \<Rightarrow>
                       if st \<noteq> Some 404 then (Remote_Error (Gh_Error st m), w')
                       else if r_active policy \<and> \<not> r_allow_update_fallback policy
                       then (Remote_Refused (U ''rehearsal policy rejects update fallback''), w')
                       else if r_active policy \<and> \<not> r_allow_create policy
                       then (Remote_Refused (U ''rehearsal policy rejects review create''), w')
                       else create w'))))"

text \<open>What the caller of a turn sees: the url, an HTTP status with a reason, or nothing after a crash.\<close>

datatype turn_result = Turn_Posted pystr | Turn_Http nat pystr | Turn_Crashed

text \<open>Where the process dies, if it does.\<close>

datatype crash = No_Crash | After_Prepare | After_Claim | After_Remote | After_Mark

record 'c turn =
  tu_now :: int
  tu_owner :: pystr
  tu_target :: post_target
  tu_body :: pystr
  tu_all :: "nat list"
  tu_new :: "nat list"
  tu_prev :: "posted_comment option"
  tu_inline :: 'c
  tu_crash :: crash

definition record_posted :: "'c turn \<Rightarrow> post_op \<Rightarrow> pystr \<Rightarrow> pystr \<Rightarrow> post_db \<Rightarrow> turn_result \<times> post_db" where
  "record_posted tu x gid url db =
     (let db1 = (case tu_prev tu of None \<Rightarrow> db | Some c \<Rightarrow> supersede (tu_now tu) (pc_id c) db);
          db2 = add_comment (tu_now tu) (t_run (tu_target tu)) (t_vendor (tu_target tu)) gid url (op_marker x)
                  (full_body (op_body x) (op_marker x)) (t_head (tu_target tu)) (tu_all tu) (U ''review'') db1
      in case finalize (tu_now tu) (op_id x) db2 of
           Inl e \<Rightarrow> (Turn_Http 500 (U ''finalize''), db)
         | Inr db3 \<Rightarrow> (Turn_Posted url, db3))"

text \<open>After the claim: the remote half and its record.\<close>

definition claimed_turn ::
  "('w, 'c) github \<Rightarrow> rehearsal_policy \<Rightarrow> 'c turn \<Rightarrow> post_op \<Rightarrow> post_db \<Rightarrow> 'w \<Rightarrow> turn_result \<times> post_db \<times> 'w" where
  "claimed_turn gh policy tu x db w =
     (case remote_step gh policy (op_marker x) (reuse_id (tu_prev tu)) (full_body (op_body x) (op_marker x))
             (tu_inline tu) w of
        (step, w') \<Rightarrow>
          (case step of
             Remote_Refused m \<Rightarrow> (Turn_Http 409 m, snd (abort_unapplied (op_id x) (tu_owner tu) db), w')
           | Remote_Error e \<Rightarrow>
               if tu_crash tu = After_Remote then (Turn_Crashed, db, w')
               else (case e of Gh_Error st m \<Rightarrow>
                       (Turn_Http 502 m, mark_error (tu_now tu) (op_id x) m (tu_owner tu) db, w'))
           | Remote_Done rv \<Rightarrow>
               if tu_crash tu = After_Remote then (Turn_Crashed, db, w')
               else (case mark_remote (tu_now tu) (op_id x) (rv_id rv) (rv_url rv) (tu_owner tu) db of
                       (Inl e, db') \<Rightarrow> (Turn_Http 500 (U ''ownership lost''), db', w')
                     | (Inr u, db') \<Rightarrow>
                         if tu_crash tu = After_Mark then (Turn_Crashed, db', w')
                         else (case record_posted tu x (rv_id rv) (rv_url rv) db' of
                                 (r, db'') \<Rightarrow> (r, db'', w')))))"

text \<open>After \<open>prepare\<close>: a review already applied is recorded, else the operation is claimed.\<close>

definition prepared_turn ::
  "('w, 'c) github \<Rightarrow> rehearsal_policy \<Rightarrow> 'c turn \<Rightarrow> post_op \<Rightarrow> post_db \<Rightarrow> 'w \<Rightarrow> turn_result \<times> post_db \<times> 'w" where
  "prepared_turn gh policy tu x db w =
     (if tu_crash tu = After_Prepare then (Turn_Crashed, db, w)
      else if op_status x = Remote_Applied
      then (case record_posted tu x (case op_remote_id x of None \<Rightarrow> [] | Some r \<Rightarrow> r)
                (case op_remote_url x of None \<Rightarrow> [] | Some u \<Rightarrow> u) db of
              (r, db') \<Rightarrow> (r, db', w))
      else (case claim_op (tu_now tu) (op_id x) (tu_owner tu) db of
              (ok, db') \<Rightarrow>
                if \<not> ok then (Turn_Http 409 (U ''in progress''), db', w)
                else if tu_crash tu = After_Claim then (Turn_Crashed, db', w)
                else claimed_turn gh policy tu x db' w))"

definition post_turn ::
  "(pystr \<Rightarrow> pystr) \<Rightarrow> ('w, 'c) github \<Rightarrow> rehearsal_policy \<Rightarrow> 'c turn \<Rightarrow> post_db \<Rightarrow> 'w
   \<Rightarrow> turn_result \<times> post_db \<times> 'w" where
  "post_turn sha gh policy tu db w =
     (let reuse = reuse_id (tu_prev tu)
      in if r_active policy \<and> reuse \<noteq> None \<and> \<not> r_allow_update policy
         then (Turn_Http 409 (U ''rehearsal policy rejects review update''), db, w)
         else if r_active policy \<and> reuse = None \<and> \<not> r_allow_create policy
         then (Turn_Http 409 (U ''rehearsal policy rejects review create''), db, w)
         else (case prepare sha (tu_now tu) (tu_target tu) (tu_body tu) (tu_all tu) (tu_new tu) db of
                 (Inl e, db') \<Rightarrow> (Turn_Http 409 (U ''conflict''), db', w)
               | (Inr x, db') \<Rightarrow> prepared_turn gh policy tu x db' w))"

section \<open>At most one review per operation\<close>

text \<open>
  What is assumed of GitHub, for a reading \<open>reviews\<close> of its state: listing tells the truth; editing
  a review either changes the body of that one review or nothing, and changes nothing when it answers
  404; creating adds one review with the given body or nothing, whatever it answers.
\<close>

definition replace_body :: "pystr \<Rightarrow> pystr \<Rightarrow> remote_review list \<Rightarrow> remote_review list" where
  "replace_body rid body rs = map (\<lambda>r. if rv_id r = rid then r\<lparr>rv_body := body\<rparr> else r) rs"

definition github_laws :: "('w, 'c) github \<Rightarrow> ('w \<Rightarrow> remote_review list) \<Rightarrow> bool" where
  "github_laws gh reviews \<longleftrightarrow>
     (\<forall>w. distinct (map rv_id (reviews w))) \<and>
     (\<forall>w l. gh_list gh w = Inr l \<longrightarrow> l = reviews w) \<and>
     (\<forall>w rid body. reviews (snd (gh_update gh rid body w)) \<in> {reviews w, replace_body rid body (reviews w)}) \<and>
     (\<forall>w rid body m w'. gh_update gh rid body w = (Inl (Gh_Error (Some 404) m), w') \<longrightarrow> reviews w' = reviews w) \<and>
     (\<forall>w body inline. reviews (snd (gh_create gh body inline w)) = reviews w \<or>
        (\<exists>rid url. reviews (snd (gh_create gh body inline w)) =
           reviews w @ [\<lparr>rv_id = rid, rv_url = url, rv_body = body\<rparr>]))"

definition marked :: "pystr \<Rightarrow> remote_review list \<Rightarrow> nat" where
  "marked marker rs = length (filter (\<lambda>r. contains (rv_body r) marker) rs)"

lemma find_remote_None: "find_remote_review marker rs = None \<longleftrightarrow> marked marker rs = 0"
  by (auto simp: find_remote_review_def find_None_iff marked_def filter_empty_conv)

lemma marked_replace:
  "distinct (map rv_id rs) \<Longrightarrow> marked marker rs = 0 \<Longrightarrow> marked marker (replace_body rid body rs) \<le> 1"
proof (induction rs)
  case (Cons r rs)
  have rest: "replace_body rid body rs = rs" if "rv_id r = rid"
    unfolding replace_body_def
  proof (rule map_idI)
    fix x assume "x \<in> set rs"
    then have "rv_id x \<noteq> rid" using Cons.prems(1) that by (auto simp: image_iff)
    then show "(if rv_id x = rid then x\<lparr>rv_body := body\<rparr> else x) = x" by simp
  qed
  show ?case
    using Cons rest by (cases "rv_id r = rid") (auto simp: marked_def replace_body_def split: if_splits)
qed (simp add: marked_def replace_body_def)

text \<open>The number of marked reviews after a write of a body that may, or does not, carry the marker.\<close>

definition marked_bound :: "pystr \<Rightarrow> pystr \<Rightarrow> pystr \<Rightarrow> remote_review list \<Rightarrow> bool" where
  "marked_bound marker own body rs \<longleftrightarrow>
     marked marker rs \<le> 1 \<and> (own = marker \<longrightarrow> marked marker rs = 0) \<and> (own \<noteq> marker \<longrightarrow> \<not> contains body marker)"

lemma marked_snoc: "marked_bound marker own body rs \<Longrightarrow> marked marker (rs @ [\<lparr>rv_id = i, rv_url = u, rv_body = body\<rparr>]) \<le> 1"
  by (auto simp: marked_def marked_bound_def)

lemma marked_replace_other:
  "\<not> contains body marker \<Longrightarrow> marked marker (replace_body rid body rs) \<le> marked marker rs"
  by (induction rs) (auto simp: marked_def replace_body_def)

lemma create_marked:
  assumes "github_laws gh reviews" "marked_bound marker own body (reviews w)"
  shows "marked marker (reviews (snd (gh_create gh body inline w))) \<le> 1"
proof -
  have "reviews (snd (gh_create gh body inline w)) = reviews w \<or>
      (\<exists>rid url. reviews (snd (gh_create gh body inline w)) =
         reviews w @ [\<lparr>rv_id = rid, rv_url = url, rv_body = body\<rparr>])"
    using assms(1) unfolding github_laws_def by blast
  moreover have "marked marker (reviews w) \<le> 1" using assms(2) by (simp add: marked_bound_def)
  ultimately show ?thesis using marked_snoc[OF assms(2)] by auto
qed

lemma update_marked:
  assumes "github_laws gh reviews" "marked_bound marker own body (reviews w)"
  shows "marked marker (reviews (snd (gh_update gh rid body w))) \<le> 1"
proof -
  have "reviews (snd (gh_update gh rid body w)) \<in> {reviews w, replace_body rid body (reviews w)}"
    "distinct (map rv_id (reviews w))"
    using assms(1) unfolding github_laws_def by blast+
  then show ?thesis
    using marked_replace[of "reviews w" marker rid body] marked_replace_other[of body marker rid "reviews w"] assms(2)
    by (cases "own = marker") (auto simp: marked_bound_def)
qed

lemma remote_step_marked:
  assumes laws: "github_laws gh reviews" and one: "marked marker (reviews w) \<le> 1"
    and other: "own = marker \<or> \<not> contains body marker"
  shows "marked marker (reviews (snd (remote_step gh policy own reuse body inline w))) \<le> 1"
proof -
  let ?create = "\<lambda>w. case gh_create gh body inline w of
      (Inl e, w') \<Rightarrow> (Remote_Error e, w') | (Inr r, w') \<Rightarrow> (Remote_Done r, w')"
  have create: "marked marker (reviews (snd (?create w1))) \<le> 1" if "marked_bound marker own body (reviews w1)" for w1
    using create_marked[OF laws that, of inline] by (auto split: prod.splits sum.splits)
  show ?thesis
  proof (cases "gh_list gh w")
    case (Inl e)
    then show ?thesis using one by (simp add: remote_step_def)
  next
    case (Inr l)
    then have l: "l = reviews w" using laws unfolding github_laws_def by blast
    show ?thesis
    proof (cases "find_remote_review own l")
      case (Some r)
      then show ?thesis using one Inr by (simp add: remote_step_def)
    next
      case None
      then have bound: "marked_bound marker own body (reviews w)"
        using one other by (auto simp: find_remote_None l marked_bound_def)
      show ?thesis
      proof (cases reuse)
        case None
        then show ?thesis using create[OF bound] Inr \<open>find_remote_review own l = None\<close>
          by (simp add: remote_step_def)
      next
        case (Some rid)
        note upd = update_marked[OF laws bound, of rid]
        obtain res w' where res: "gh_update gh rid body w = (res, w')" by (metis prod.exhaust)
        show ?thesis
        proof (cases res)
          case (Inr r)
          then show ?thesis using res upd Some \<open>gh_list gh w = Inr l\<close> None by (simp add: remote_step_def)
        next
          case (Inl e)
          obtain st m where e: "e = Gh_Error st m" by (cases e)
          show ?thesis
          proof (cases "st = Some 404")
            case True
            then have "reviews w' = reviews w" using laws res Inl e unfolding github_laws_def by blast
            then show ?thesis
              using create[of w'] bound one res Inl e Some True \<open>gh_list gh w = Inr l\<close> None
              by (simp add: remote_step_def)
          next
            case False
            then show ?thesis using upd res Inl e Some \<open>gh_list gh w = Inr l\<close> None
              by (simp add: remote_step_def)
          qed
        qed
      qed
    qed
  qed
qed

text \<open>An operation that is the one of the marker, or does not mention it.\<close>

definition op_apart :: "pystr \<Rightarrow> post_op \<Rightarrow> bool" where
  "op_apart marker x \<longleftrightarrow> op_marker x = marker \<or> \<not> contains (full_body (op_body x) (op_marker x)) marker"

definition ops_apart :: "pystr \<Rightarrow> post_db \<Rightarrow> bool" where
  "ops_apart marker db \<longleftrightarrow> list_all (op_apart marker) (p_ops db)"

definition turn_apart :: "(pystr \<Rightarrow> pystr) \<Rightarrow> pystr \<Rightarrow> 'c turn \<Rightarrow> bool" where
  "turn_apart sha marker tu \<longleftrightarrow>
     (let own = op_marker_of sha (tu_target tu) (sha (tu_body tu))
      in own = marker \<or> \<not> contains (full_body (tu_body tu) own) marker)"

lemma apart_update_ops:
  "ops_apart marker db \<Longrightarrow> (\<And>x. op_marker (f x) = op_marker x \<and> op_body (f x) = op_body x) \<Longrightarrow>
   ops_apart marker (update_ops P f db)"
  by (auto simp: ops_apart_def update_ops_def op_apart_def list_all_iff set_sql_update)

lemma prepare_apart:
  assumes "ops_apart marker db" "turn_apart sha marker tu"
    and "prepare sha now (tu_target tu) (tu_body tu) all_ids new_ids db = (res, db')"
  shows "ops_apart marker db' \<and> (\<forall>x. res = Inr x \<longrightarrow> op_apart marker x)"
proof -
  obtain key own h i where id: "operation_identity sha (tu_target tu) (tu_body tu) = (key, own, h, i)"
    by (metis prod.exhaust)
  then have own: "own = op_marker_of sha (tu_target tu) (sha (tu_body tu))"
    by (auto simp: operation_identity_def Let_def)
  show ?thesis
  proof (cases "List.find (\<lambda>x. op_key x = key) (p_ops db)")
    case (Some x)
    then have "x \<in> set (p_ops db)" by (auto simp: find_Some_iff)
    then show ?thesis using assms Some id by (auto simp: prepare_def ops_apart_def list_all_iff)
  next
    case None
    then show ?thesis
      using assms id own
      by (auto simp: prepare_def ops_apart_def op_apart_def turn_apart_def list_all_iff Let_def
          split: if_splits sum.splits)
  qed
qed

lemma apart_store [simp]:
  "ops_apart marker (db\<lparr>p_store := st\<rparr>) = ops_apart marker db"
  "ops_apart marker (supersede now c db) = ops_apart marker db"
  "ops_apart marker (add_comment now run v g u mk b h ids k db) = ops_apart marker db"
  by (simp_all add: ops_apart_def supersede_def add_comment_def)

lemma finalize_apart: "ops_apart marker db \<Longrightarrow> finalize now oid db = Inr db' \<Longrightarrow> ops_apart marker db'"
  by (auto simp: finalize_def ebind_Inr_iff intro!: apart_update_ops split: option.splits)

lemma record_posted_apart: "ops_apart marker db \<Longrightarrow> ops_apart marker (snd (record_posted tu x g u db))"
  by (cases "tu_prev tu")
    (auto simp: record_posted_def Let_def split: sum.split elim: finalize_apart[rotated])

lemma abort_apart: "ops_apart marker db \<Longrightarrow> ops_apart marker (snd (abort_unapplied oid owner db))"
  by (auto simp: abort_unapplied_def ops_apart_def list_all_iff split: option.splits)

lemma claimed_turn_marked:
  assumes laws: "github_laws gh reviews" and one: "marked marker (reviews w) \<le> 1"
    and db: "ops_apart marker db" and x: "op_apart marker x"
    and turn: "claimed_turn gh policy tu x db w = (res, db', w')"
  shows "marked marker (reviews w') \<le> 1 \<and> ops_apart marker db'"
proof -
  obtain step w1 where step: "remote_step gh policy (op_marker x) (reuse_id (tu_prev tu))
      (full_body (op_body x) (op_marker x)) (tu_inline tu) w = (step, w1)" by (metis prod.exhaust)
  have w1: "marked marker (reviews w1) \<le> 1"
    using remote_step_marked[OF laws one, of "op_marker x" "full_body (op_body x) (op_marker x)" policy
        "reuse_id (tu_prev tu)" "tu_inline tu"] x step
    by (auto simp: op_apart_def)
  have errs: "ops_apart marker (mark_error n oid m ow db)" for n oid m ow
    unfolding mark_error_def using db by (intro apart_update_ops) simp_all
  have remote: "ops_apart marker (snd (mark_remote n oid r u ow db))" for n oid r u ow
    unfolding mark_remote_def Let_def using db by (auto intro!: apart_update_ops)
  show ?thesis
  proof (cases step)
    case (Remote_Done rv)
    obtain y db3 where m: "mark_remote (tu_now tu) (op_id x) (rv_id rv) (rv_url rv) (tu_owner tu) db = (y, db3)"
      by (metis prod.exhaust)
    then have db3: "ops_apart marker db3" using remote by (metis snd_conv)
    obtain r db4 where "record_posted tu x (rv_id rv) (rv_url rv) db3 = (r, db4)" by (metis prod.exhaust)
    moreover from this have "ops_apart marker db4" using record_posted_apart[OF db3] by (metis snd_conv)
    ultimately show ?thesis
      using turn step Remote_Done m db3 db w1 by (auto simp: claimed_turn_def split: if_splits sum.splits)
  next
    case (Remote_Error e)
    then show ?thesis using turn step db errs w1 by (cases e) (auto simp: claimed_turn_def split: if_splits)
  next
    case (Remote_Refused m)
    then show ?thesis using turn step abort_apart[OF db] w1 by (auto simp: claimed_turn_def)
  qed
qed

lemma prepared_turn_marked:
  assumes laws: "github_laws gh reviews" and one: "marked marker (reviews w) \<le> 1"
    and db: "ops_apart marker db" and x: "op_apart marker x"
    and turn: "prepared_turn gh policy tu x db w = (res, db', w')"
  shows "marked marker (reviews w') \<le> 1 \<and> ops_apart marker db'"
proof (cases "tu_crash tu = After_Prepare \<or> op_status x = Remote_Applied")
  case True
  then show ?thesis
    using turn one db record_posted_apart[OF db, of tu x]
    by (auto simp: prepared_turn_def split: prod.splits if_splits) (metis snd_conv)+
next
  case False
  obtain ok db2 where claim: "claim_op (tu_now tu) (op_id x) (tu_owner tu) db = (ok, db2)" by (metis prod.exhaust)
  have db2: "ops_apart marker db2"
    using claim db by (auto simp: claim_op_def Let_def intro!: apart_update_ops)
  show ?thesis
    using turn False claim one db2 claimed_turn_marked[OF laws one db2 x]
    by (auto simp: prepared_turn_def split: if_splits)
qed

lemma post_turn_marked:
  assumes laws: "github_laws gh reviews" and one: "marked marker (reviews w) \<le> 1"
    and apart: "ops_apart marker db" "turn_apart sha marker tu"
    and turn: "post_turn sha gh policy tu db w = (res, db', w')"
  shows "marked marker (reviews w') \<le> 1 \<and> ops_apart marker db'"
proof -
  obtain pres db1 where prep: "prepare sha (tu_now tu) (tu_target tu) (tu_body tu) (tu_all tu) (tu_new tu) db = (pres, db1)"
    by (metis prod.exhaust)
  note prepared = prepare_apart[OF apart prep]
  show ?thesis
  proof (cases pres)
    case (Inl e)
    then show ?thesis using turn prep prepared one apart by (auto simp: post_turn_def Let_def split: if_splits)
  next
    case (Inr x)
    with prepared have "ops_apart marker db1" "op_apart marker x" by blast+
    from prepared_turn_marked[OF laws one this] turn prep Inr one apart show ?thesis
      by (auto simp: post_turn_def Let_def split: if_splits)
  qed
qed

text \<open>A sequence of turns, one after the other.\<close>

fun post_turns ::
  "(pystr \<Rightarrow> pystr) \<Rightarrow> ('w, 'c) github \<Rightarrow> rehearsal_policy \<Rightarrow> 'c turn list \<Rightarrow> post_db \<Rightarrow> 'w \<Rightarrow> post_db \<times> 'w" where
  "post_turns sha gh policy [] db w = (db, w)"
| "post_turns sha gh policy (tu # tus) db w =
     (case post_turn sha gh policy tu db w of (r, db', w') \<Rightarrow> post_turns sha gh policy tus db' w')"

text \<open>
  C4: exactly-once posting.  However often the posting of one operation is attempted, and wherever the
  process dies in between, GitHub never carries two reviews with the operation's marker, provided
  that no other operation's text quotes the marker and GitHub behaves as assumed, failing calls whose
  effect did happen included.
\<close>

theorem post_at_most_once:
  assumes "github_laws gh reviews" and "marked marker (reviews w) \<le> 1"
    and "ops_apart marker db" and "list_all (turn_apart sha marker) tus"
    and "post_turns sha gh policy tus db w = (db', w')"
  shows "marked marker (reviews w') \<le> 1"
  using assms
proof (induction tus arbitrary: db w)
  case (Cons tu tus)
  obtain r db1 w1 where turn: "post_turn sha gh policy tu db w = (r, db1, w1)" by (metis prod.exhaust)
  with post_turn_marked[OF Cons.prems(1,2,3) _ turn] Cons.prems Cons.IH[of w1 db1] show ?case by simp
qed simp

text \<open>A GitHub whose state is the list of bodies; the id of a review is its position.\<close>

definition list_reviews :: "pystr list \<Rightarrow> remote_review list" where
  "list_reviews w = map (\<lambda>i. \<lparr>rv_id = nat_text i, rv_url = nat_text i, rv_body = w ! i\<rparr>) [0..<length w]"

definition list_github :: "(pystr list, unit) github" where
  "list_github =
     \<lparr>gh_list = (\<lambda>w. Inr (list_reviews w)),
      gh_update = (\<lambda>rid body w.
        case List.find (\<lambda>i. nat_text i = rid) [0..<length w] of
          None \<Rightarrow> (Inl (Gh_Error (Some 404) []), w)
        | Some i \<Rightarrow> (Inr \<lparr>rv_id = rid, rv_url = rid, rv_body = body\<rparr>, w[i := body])),
      gh_create = (\<lambda>body u w.
        (Inr \<lparr>rv_id = nat_text (length w), rv_url = nat_text (length w), rv_body = body\<rparr>, w @ [body]))\<rparr>"

lemma nat_text_inj: "nat_text i = nat_text j \<longleftrightarrow> i = j"
  by (metis nat_text_value of_nat_eq_iff)

lemma list_github_laws: "github_laws list_github list_reviews"
proof -
  have "distinct (map rv_id (list_reviews w))" for w
    by (simp add: list_reviews_def comp_def distinct_map inj_on_def nat_text_inj)
  moreover have "list_reviews (w[i := body]) = replace_body (nat_text i) body (list_reviews w)" if "i < length w" for w i body
    using that by (auto simp: list_reviews_def replace_body_def nat_text_inj nth_list_update)
  moreover have "list_reviews (w @ [body]) = list_reviews w @ [\<lparr>rv_id = nat_text (length w), rv_url = nat_text (length w), rv_body = body\<rparr>]"
    for w body
    by (auto simp: list_reviews_def nth_append)
  ultimately show ?thesis
    by (auto simp: github_laws_def list_github_def find_Some_iff find_None_iff split: option.splits)
qed

definition toy_hash :: "pystr \<Rightarrow> pystr" where
  "toy_hash s = take 3 s"

text \<open>An approved finding of run 7, and two turns that post it: the first dies once GitHub has the review.\<close>

definition sample_post_db :: post_db where
  "sample_post_db =
     \<lparr>p_store = set_status 2 1 Approved None
         (snd (add_finding 1 (sample_finding 7) \<lparr>findings = [], next_finding = 1, decisions = [], summaries = []\<rparr>)),
      p_ops = [], p_next_op = 1, p_comments = [], p_next_comment = 1\<rparr>"

definition sample_turn :: "int \<Rightarrow> crash \<Rightarrow> unit turn" where
  "sample_turn now crash_at =
     \<lparr>tu_now = now, tu_owner = U ''w'',
      tu_target = \<lparr>t_repo = U ''O/r'', t_number = 5, t_head = U ''abc'', t_run = 7, t_vendor = U ''claude'', t_policy = []\<rparr>,
      tu_body = U ''body'', tu_all = [1], tu_new = [1], tu_prev = None, tu_inline = (), tu_crash = crash_at\<rparr>"

definition sample_turns :: "unit turn list" where
  "sample_turns = [sample_turn 10 After_Remote, sample_turn 4000 No_Crash]"

definition sample_marker :: pystr where
  "sample_marker = op_marker_of toy_hash (tu_target (sample_turn 0 No_Crash)) (toy_hash (U ''body''))"

lemma post_at_most_once_witness:
  "\<exists>db' w'. post_turns toy_hash list_github DEFAULT_REHEARSAL sample_turns sample_post_db [] = (db', w') \<and>
     map op_status (p_ops db') = [Succeeded] \<and> map f_status (findings (p_store db')) = [Posted] \<and>
     length w' = 1 \<and> marked sample_marker (list_reviews w') \<le> 1"
proof -
  let ?run = "post_turns toy_hash list_github DEFAULT_REHEARSAL sample_turns sample_post_db []"
  have "case ?run of (db', w') \<Rightarrow> map op_status (p_ops db') = [Succeeded] \<and>
    map f_status (findings (p_store db')) = [Posted] \<and> length w' = 1"
    by code_simp
  then obtain db' w' where run: "?run = (db', w')" "map op_status (p_ops db') = [Succeeded]"
    "map f_status (findings (p_store db')) = [Posted]" "length w' = 1"
    by (cases ?run) auto
  have apart: "ops_apart sample_marker sample_post_db" "list_all (turn_apart toy_hash sample_marker) sample_turns"
    by code_simp+
  have "marked sample_marker (list_reviews []) \<le> 1" by (simp add: marked_def list_reviews_def)
  from post_at_most_once[OF list_github_laws this apart run(1)]
  have m: "marked sample_marker (list_reviews w') \<le> 1" .
  with run show ?thesis by (intro exI[of _ db'] exI[of _ w'] conjI)
qed

section \<open>The key names the post\<close>

lemma scalar_lower: "valid_text s \<Longrightarrow> valid_text (lower s)"
  by (induction s) (auto simp: lower_def lower_char_def scalar_def)

lemma scalar_strip: "valid_text s \<Longrightarrow> valid_text (strip s)"
  by (simp add: strip_def lstrip_def rstrip_by_def list_all_iff) (metis set_dropWhileD set_rev)

definition target_valid :: "post_target \<Rightarrow> bool" where
  "target_valid t \<longleftrightarrow> valid_text (t_repo t) \<and> valid_text (t_head t) \<and> valid_text (t_vendor t) \<and> valid_text (t_policy t)"

lemma policy_identity_valid: "valid_text (t_policy t) \<Longrightarrow> valid_text (policy_identity t)"
  by (simp add: policy_identity_def U_def scalar_def)

lemma list_all_take: "list_all P xs \<Longrightarrow> list_all P (take n xs)"
  by (auto simp: list_all_iff dest: in_set_takeD)

text \<open>
  An operation key stands for one post.  If the hash has no collisions, two requests with the same
  key agree in the repository (case and outer space aside), the pull request, the head, the run, the vendor, the
  policy identity and the whole body, so a retry that finds the key adopts its own operation only.
\<close>

lemma operation_key_determines:
  assumes "inj sha" and "\<And>s. valid_text s \<Longrightarrow> valid_text (sha s)"
    and "target_valid t" "target_valid t'" "valid_text body" "valid_text body'"
    and "fst (operation_identity sha t body) = fst (operation_identity sha t' body')"
  shows "body = body' \<and> lower (strip (t_repo t)) = lower (strip (t_repo t')) \<and> t_number t = t_number t' \<and>
    t_head t = t_head t' \<and> t_run t = t_run t' \<and> t_vendor t = t_vendor t' \<and> policy_identity t = policy_identity t'"
proof -
  define mk where "mk u b = op_marker_of sha u (sha b)" for u b
  define ms where "ms u b = op_identity_members u (sha b) (mk u b) (sha (full_body b (mk u b)))" for u b
  have marker: "valid_text (mk u b)" for u b
    using assms(2)[OF canonical_json_scalar] by (simp add: mk_def op_marker_of_def U_scalar of_char_def list_all_take)
  then have whole: "valid_text (full_body b (mk u b))" if "valid_text b" for u b
    using that by (simp add: full_body_def scalar_def)
  have "canonical_json (ms t body) = canonical_json (ms t' body')"
    using assms(1,7) by (simp add: operation_identity_def Let_def ms_def mk_def inj_eq)
  moreover have "sorted (map fst (ms u b))" for u b
    by (simp add: ms_def op_identity_members_def U_def)
  moreover have "list_all2 (\<lambda>a b. fst a = fst b \<and> same_kind (snd a) (snd b)) (ms t body) (ms t' body')"
    using assms(3-6) marker whole[OF assms(5)] whole[OF assms(6)] assms(2)
    by (simp add: ms_def op_identity_members_def target_valid_def scalar_lower scalar_strip policy_identity_valid)
  ultimately have "ms t body = ms t' body'" by (intro canonical_json_inj)
  then show ?thesis using assms(1) by (simp add: ms_def op_identity_members_def inj_eq)
qed

end
