(* ===== verification/SQL_Guard.thy ===== *)
theory SQL_Guard
  imports Json
begin

text \<open>
  The read-only gateway to the database of a customer (\<open>src/server/safe_db/sql_gateway.py\<close>): the local guard of a query, the
  check of the response against the contract, and the client that sends nothing the guard has refused.  \<open>w\<close> is the
  class \<open>\w\<close> of \<open>re\<close>; the transport, the lock, the clock and the request id are arguments.
\<close>

section \<open>What the guard sees: comments, literals and quoted names blanked out\<close>

text \<open>The length of what closes a block comment, and a literal or a quoted name, counted from behind the opener.\<close>

fun comment_end :: "pystr \<Rightarrow> nat option" where
  "comment_end [] = None"
| "comment_end (c # s) =
     (if c = 42 \<and> s \<noteq> [] \<and> hd s = 47 then Some 2 else map_option Suc (comment_end s))"

function quote_end :: "int \<Rightarrow> pystr \<Rightarrow> nat option" where
  "quote_end q [] = None"
| "quote_end q (c # s) =
     (if c \<noteq> q then map_option Suc (quote_end q s)
      else if q \<noteq> 93 \<and> s \<noteq> [] \<and> hd s = q then map_option (\<lambda>n. n + 2) (quote_end q (tl s))
      else Some 1)"
  by pat_completeness auto
termination
  by (relation "measure (\<lambda>(q, s). length s)") auto

definition blank :: "nat \<Rightarrow> pystr" where
  "blank n = replicate n 32"

definition closer_of :: "int \<Rightarrow> int" where
  "closer_of c = (if c = 91 then 93 else c)"

function mask_sql :: "pystr \<Rightarrow> exn + pystr" where
  "mask_sql s =
     (if s = [] then Inr []
      else if startswith s (U ''--'') then
        (let n = length (takeWhile (\<lambda>c. c \<noteq> 10) s)
         in ebind (mask_sql (drop (max 1 n) s)) (\<lambda>r. Inr (blank n @ r)))
      else if startswith s (U ''/*'') then
        (case comment_end (drop 2 s) of
           None \<Rightarrow> Inl (ValueError (U ''unterminated block comment''))
         | Some n \<Rightarrow> ebind (mask_sql (drop (2 + n) s)) (\<lambda>r. Inr (blank (2 + n) @ r)))
      else if hd s \<in> {39, 34, 91} then
        (case quote_end (closer_of (hd s)) (tl s) of
           None \<Rightarrow> Inl (ValueError (U ''unterminated_literal_or_identifier''))
         | Some n \<Rightarrow> ebind (mask_sql (drop (Suc n) s)) (\<lambda>r. Inr (blank (Suc n) @ r)))
      else ebind (mask_sql (tl s)) (\<lambda>r. Inr (hd s # r)))"
  by pat_completeness auto
termination
  by (relation "measure length") auto

declare mask_sql.simps [simp del]

section \<open>Matching as \<open>re\<close> does\<close>

text \<open>\<open>re.IGNORECASE\<close>: besides the two cases of a letter, the dotted and the dotless i, the Kelvin sign, the long s.\<close>

definition same_letter :: "int \<Rightarrow> int \<Rightarrow> bool" where
  "same_letter p c \<longleftrightarrow>
     c = p \<or> 97 \<le> p \<and> p \<le> 122 \<and> c = p - 32 \<or> p = 105 \<and> c \<in> {304,
       305} \<or> p = 107 \<and> c = 8490 \<or> p = 115 \<and> c = 383"

fun match_ci :: "pystr \<Rightarrow> pystr \<Rightarrow> pystr option" where
  "match_ci [] s = Some s"
| "match_ci (p # ps) [] = None"
| "match_ci (p # ps) (c # s) = (if same_letter p c then match_ci ps s else None)"

definition next_char :: "pystr \<Rightarrow> int option" where
  "next_char s = (case s of [] \<Rightarrow> None | c # r \<Rightarrow> Some c)"

definition boundary :: "(int \<Rightarrow> bool) \<Rightarrow> int option \<Rightarrow> int option \<Rightarrow> bool" where
  "boundary w a b \<longleftrightarrow> (case a of None \<Rightarrow> False | Some c \<Rightarrow> w c) \<noteq> (case b of None \<Rightarrow> False | Some c \<Rightarrow> w c)"

text \<open>\<open>\bword\b\<close> at a position, given the character before it.\<close>

definition keyword_here :: "(int \<Rightarrow> bool) \<Rightarrow> string \<Rightarrow> int option \<Rightarrow> pystr \<Rightarrow> pystr option" where
  "keyword_here w k prev s =
     (case match_ci (U k) s of
        None \<Rightarrow> None
      | Some r \<Rightarrow> if boundary w prev (next_char s) \<and> boundary w (Some (s ! (length k - 1))) (next_char r) then Some r else None)"

fun search :: "(int option \<Rightarrow> pystr \<Rightarrow> bool) \<Rightarrow> int option \<Rightarrow> pystr \<Rightarrow> bool" where
  "search P prev [] = P prev []"
| "search P prev (c # s) = (P prev (c # s) \<or> search P (Some c) s)"

definition has_keyword :: "(int \<Rightarrow> bool) \<Rightarrow> string \<Rightarrow> pystr \<Rightarrow> bool" where
  "has_keyword w k s = search (\<lambda>prev r. keyword_here w k prev r \<noteq> None) None s"

definition skip_space :: "pystr \<Rightarrow> pystr" where
  "skip_space s = dropWhile is_space s"

definition some_space :: "pystr \<Rightarrow> pystr option" where
  "some_space s = (if s \<noteq> [] \<and> is_space (hd s) then Some (skip_space s) else None)"

definition ident_start :: "int \<Rightarrow> bool" where
  "ident_start c \<longleftrightarrow> 65 \<le> c \<and> c \<le> 90 \<or> 97 \<le> c \<and> c \<le> 122 \<or> c = 95"

definition ident_char :: "int \<Rightarrow> bool" where
  "ident_char c \<longleftrightarrow> ident_start c \<or> 48 \<le> c \<and> c \<le> 57"

text \<open>The same classes under \<open>re.IGNORECASE\<close>.\<close>

definition ident_start_ci :: "int \<Rightarrow> bool" where
  "ident_start_ci c \<longleftrightarrow> ident_start c \<or> c \<in> {304, 305, 383, 8490}"

definition ident_char_ci :: "int \<Rightarrow> bool" where
  "ident_char_ci c \<longleftrightarrow> ident_start_ci c \<or> 48 \<le> c \<and> c \<le> 57"

function idents :: "pystr \<Rightarrow> pystr list" where
  "idents [] = []"
| "idents (c # s) = (if ident_start c then (c # takeWhile ident_char s) # idents (dropWhile ident_char s) else idents s)"
  by pat_completeness auto
termination
  by (relation "measure length") (auto simp: le_imp_less_Suc length_dropWhile_le)

function drop_params :: "pystr \<Rightarrow> pystr" where
  "drop_params [] = []"
| "drop_params (c # s) =
     (if c = 64 \<and> s \<noteq> [] \<and> ident_start (hd s) then 32 # drop_params (dropWhile ident_char s) else c # drop_params s)"
  by pat_completeness auto
termination
  by (relation "measure length") (auto simp: le_imp_less_Suc length_dropWhile_le)

section \<open>The outer select and its TOP\<close>

fun outer_select :: "(int \<Rightarrow> bool) \<Rightarrow> nat \<Rightarrow> int \<Rightarrow> int option \<Rightarrow> pystr \<Rightarrow> nat option" where
  "outer_select w pos depth prev [] = None"
| "outer_select w pos depth prev (c # s) =
     (if c = 40 then outer_select w (Suc pos) (depth + 1) (Some c) s
      else if c = 41 then (if depth - 1 < 0 then None else outer_select w (Suc pos) (depth - 1) (Some c) s)
      else if keyword_here w ''select'' prev (c # s) \<noteq> None \<and> depth = 0 then Some pos
      else outer_select w (Suc pos) depth (Some c) s)"

definition outer_select_offset :: "(int \<Rightarrow> bool) \<Rightarrow> pystr \<Rightarrow> nat option" where
  "outer_select_offset w plain = outer_select w 0 0 None plain"

text \<open>What may follow \<open>^\s*select\s+(?:(?:all|distinct)\s+)?\<close>: with the quantifier skipped, then without.\<close>

definition skip_quantifier :: "pystr \<Rightarrow> string \<Rightarrow> pystr option" where
  "skip_quantifier s q = (case match_ci (U q) s of None \<Rightarrow> None | Some r \<Rightarrow> some_space r)"

definition after_select :: "pystr \<Rightarrow> pystr list" where
  "after_select s =
     (case match_ci (U ''select'') (skip_space s) of
        None \<Rightarrow> []
      | Some r \<Rightarrow>
          (case some_space r of
             None \<Rightarrow> []
           | Some r1 \<Rightarrow> List.map_filter (skip_quantifier r1) [''all'', ''distinct''] @ [r1]))"

definition AGGREGATES :: "string list" where
  "AGGREGATES = [''count_big'', ''count'', ''sum'', ''avg'', ''min'', ''max'']"

definition open_paren :: "pystr \<Rightarrow> pystr option" where
  "open_paren s = (case skip_space s of [] \<Rightarrow> None | c # r \<Rightarrow> if c = 40 then Some r else None)"

definition aggregate_head :: "pystr \<Rightarrow> bool" where
  "aggregate_head s \<longleftrightarrow>
     list_ex (\<lambda>r. list_ex (\<lambda>f. case match_ci (U f) r of None \<Rightarrow> False | Some r1 \<Rightarrow> open_paren r1 \<noteq> None) AGGREGATES)
       (after_select s)"

definition group_by_here :: "(int \<Rightarrow> bool) \<Rightarrow> int option \<Rightarrow> pystr \<Rightarrow> bool" where
  "group_by_here w prev s \<longleftrightarrow>
     (case match_ci (U ''group'') s of
        None \<Rightarrow> False
      | Some r \<Rightarrow> boundary w prev (next_char s) \<and>
          (case some_space r of
             None \<Rightarrow> False
           | Some r1 \<Rightarrow> (case match_ci (U ''by'') r1 of
                           None \<Rightarrow> False | Some r2 \<Rightarrow> boundary w (Some (r1 ! 1)) (next_char r2))))"

definition over_here :: "(int \<Rightarrow> bool) \<Rightarrow> int option \<Rightarrow> pystr \<Rightarrow> bool" where
  "over_here w prev s \<longleftrightarrow>
     (case match_ci (U ''over'') s of
        None \<Rightarrow> False | Some r \<Rightarrow> boundary w prev (next_char s) \<and> open_paren r \<noteq> None)"

definition scalar_query :: "(int \<Rightarrow> bool) \<Rightarrow> pystr \<Rightarrow> bool" where
  "scalar_query w s \<longleftrightarrow>
     aggregate_head s \<and> \<not> search (group_by_here w) None s \<and> \<not> search (over_here w) None s \<and>
     \<not> list_ex (\<lambda>k. has_keyword w k s) [''union'', ''intersect'', ''except'']"

definition top_raw :: "pystr \<Rightarrow> pystr" where
  "top_raw s =
     (if s \<noteq> [] \<and> hd s = 64 \<and> tl s \<noteq> [] \<and> ident_start_ci (hd (tl s)) then 64 # takeWhile ident_char_ci (tl s)
      else takeWhile (\<lambda>c. 48 \<le> c \<and> c \<le> 57) s)"

definition top_argument :: "pystr \<Rightarrow> pystr option" where
  "top_argument r =
     (case match_ci (U ''top'') r of
        None \<Rightarrow> None
      | Some r1 \<Rightarrow>
          (case open_paren r1 of
             None \<Rightarrow> None
           | Some r2 \<Rightarrow>
               let s = skip_space r2; raw = top_raw s; rest = skip_space (drop (length raw) s)
               in if raw \<noteq> [] \<and> rest \<noteq> [] \<and> hd rest = 41 then Some raw else None))"

definition find_top :: "pystr \<Rightarrow> pystr option" where
  "find_top s = (case List.map_filter top_argument (after_select s) of [] \<Rightarrow> None | raw # more_tops \<Rightarrow> Some raw)"

definition percent_here :: "(int \<Rightarrow> bool) \<Rightarrow> pystr \<Rightarrow> bool" where
  "percent_here w r \<longleftrightarrow>
     (case match_ci (U ''top'') r of
        None \<Rightarrow> False
      | Some r1 \<Rightarrow>
          (case open_paren r1 of
             None \<Rightarrow> False
           | Some r2 \<Rightarrow>
               let r3 = dropWhile (\<lambda>c. c \<noteq> 41) r2
               in r3 \<noteq> [] \<and>
                  (let s = skip_space (tl r3)
                   in case match_ci (U ''percent'') s of
                        None \<Rightarrow> False | Some r4 \<Rightarrow> boundary w (Some (s ! 6)) (next_char r4))))"

section \<open>The guard\<close>

definition FORBIDDEN :: "pystr list" where
  "FORBIDDEN = map U
     [''alter'', ''backup'', ''begin'', ''bulk'', ''commit'', ''create'', ''dbcc'', ''declare'', ''delete'', ''deny'', ''drop'',
      ''exec'', ''execute'', ''grant'', ''insert'', ''kill'', ''merge'', ''offset'', ''opendatasource'', ''openquery'',
      ''openrowset'', ''reconfigure'', ''restore'', ''revoke'', ''rollback'', ''save'', ''set'', ''shutdown'', ''transaction'',
      ''truncate'', ''update'', ''use'', ''waitfor'']"

type_synonym params = "(pystr \<times> json) list"

definition param_name :: "pystr \<Rightarrow> bool" where
  "param_name k \<longleftrightarrow> k \<noteq> [] \<and> ident_start (hd k) \<and> list_all ident_char (tl k)"

fun plain_value :: "json \<Rightarrow> bool" where
  "plain_value (JList vs) = False"
| "plain_value (JObj o1) = False"
| "plain_value v = True"

fun check_params :: "params \<Rightarrow> exn option" where
  "check_params [] = None"
| "check_params ((k, v) # ps) =
     (if \<not> param_name k then Some (ValueError (U ''invalid_param_name''))
      else if \<not> plain_value v then Some (ValueError (U ''invalid_param_value''))
      else check_params ps)"

fun check_words :: "pystr list \<Rightarrow> exn option" where
  "check_words [] = None"
| "check_words (x # xs) =
     (if x = U ''into'' then Some (ValueError (U ''select_into''))
      else if startswith x (U ''xp_'') then Some (ValueError (U ''extended_procedure''))
      else if x \<in> set FORBIDDEN then Some (ValueError (U ''forbidden_'' @ x))
      else check_words xs)"

definition statement_parts :: "pystr \<Rightarrow> pystr list" where
  "statement_parts s = filter (\<lambda>p. p \<noteq> []) (map strip (split_on 59 s))"

definition first_word :: "pystr \<Rightarrow> pystr" where
  "first_word s =
     (case skip_space s of [] \<Rightarrow> [] | c # r \<Rightarrow> if ident_start c then lower (c # takeWhile ident_char r) else [])"

definition invalid :: "string \<Rightarrow> exn option" where
  "invalid k = Some (ValueError (U k))"

text \<open>The first half: one statement that only reads.\<close>

definition check_statement :: "(int \<Rightarrow> bool) \<Rightarrow> pystr \<Rightarrow> exn option" where
  "check_statement w code =
     (if length (statement_parts code) \<noteq> 1 then invalid ''multi_statement''
      else if first_word code \<notin> {U ''select'', U ''with''} then invalid ''select_only''
      else if first_word code = U ''with'' \<and> \<not> has_keyword w ''select'' code then invalid ''with_without_select''
      else if has_keyword w ''limit'' code then invalid ''limit_not_allowed''
      else (case check_words (idents (lower code)) of
              Some e \<Rightarrow> Some e
            | None \<Rightarrow> if 35 \<in> set code then invalid ''temporary_table'' else None))"

definition MAX_STR_DIGITS :: int where
  "MAX_STR_DIGITS = 4300"

definition top_value :: "params \<Rightarrow> pystr \<Rightarrow> exn + int" where
  "top_value ps raw =
     (if hd raw = 64 then
        (case jget ps (tl raw) of Some (JInt v) \<Rightarrow> Inr v | _ \<Rightarrow> Inl (ValueError (U ''invalid_top_parameter'')))
      else if int (length raw) > MAX_STR_DIGITS then Inl (ValueError (U ''Exceeds the limit for integer string conversion''))
      else Inr (fst (read_digits 0 raw)))"

text \<open>The second half: the outer select is limited.  \<open>sql\<close> is the text as it was handed over.\<close>

definition check_top :: "(int \<Rightarrow> bool) \<Rightarrow> pystr \<Rightarrow> pystr \<Rightarrow> params \<Rightarrow> int \<Rightarrow> exn option" where
  "check_top w sql plain ps max_rows =
     (case outer_select_offset w plain of
        None \<Rightarrow> invalid ''missing_outer_select''
      | Some i \<Rightarrow>
          (case find_top (drop i sql) of
             None \<Rightarrow> if scalar_query w (drop i plain) then None else invalid ''missing_top''
           | Some raw \<Rightarrow>
               if list_ex (percent_here w) (after_select (drop i sql)) then invalid ''top_percent''
               else (case top_value ps raw of
                       Inl e \<Rightarrow> Some e
                     | Inr v \<Rightarrow>
                         if v \<le> 0 then invalid ''invalid_top_limit''
                         else if v > max_rows then invalid ''max_rows_exceeded'' else None)))"

definition guard_read_sql :: "(int \<Rightarrow> bool) \<Rightarrow> pystr \<Rightarrow> params \<Rightarrow> int \<Rightarrow> exn option" where
  "guard_read_sql w sql ps max_rows =
     (if strip sql = [] then invalid ''empty_sql''
      else (case check_params ps of
              Some e \<Rightarrow> Some e
            | None \<Rightarrow>
                (case mask_sql (strip sql) of
                   Inl e \<Rightarrow> Some e
                 | Inr plain \<Rightarrow>
                     (case check_statement w (drop_params plain) of
                        Some e \<Rightarrow> Some e
                      | None \<Rightarrow> check_top w sql plain ps max_rows))))"

end
