(* ===== verification/SQL_Safe.thy ===== *)
theory SQL_Safe
  imports SQL_Guard
begin

section \<open>The reading of the server: T-SQL\<close>

text \<open>
  The lexical rules of T-SQL, as documented: block comments nest, and a doubled closer stands for itself in a literal, in
  a quoted name and in a bracketed name.  \<open>mask_tsql\<close> blanks out what is not code under these rules.
\<close>

function nested_end :: "nat \<Rightarrow> pystr \<Rightarrow> nat option" where
  "nested_end d [] = None"
| "nested_end d (c # s) =
     (if c = 42 \<and> s \<noteq> [] \<and> hd s = 47 then
        (if d \<le> 1 then Some 2 else map_option (\<lambda>n. n + 2) (nested_end (d - 1) (tl s)))
      else if c = 47 \<and> s \<noteq> [] \<and> hd s = 42 then map_option (\<lambda>n. n + 2) (nested_end (Suc d) (tl s))
      else map_option Suc (nested_end d s))"
  by pat_completeness auto
termination
  by (relation "measure (\<lambda>(d, s). length s)") auto

function tsql_quote_end :: "int \<Rightarrow> pystr \<Rightarrow> nat option" where
  "tsql_quote_end q [] = None"
| "tsql_quote_end q (c # s) =
     (if c \<noteq> q then map_option Suc (tsql_quote_end q s)
      else if s \<noteq> [] \<and> hd s = q then map_option (\<lambda>n. n + 2) (tsql_quote_end q (tl s))
      else Some 1)"
  by pat_completeness auto
termination
  by (relation "measure (\<lambda>(q, s). length s)") auto

function mask_tsql :: "pystr \<Rightarrow> exn + pystr" where
  "mask_tsql s =
     (if s = [] then Inr []
      else if startswith s (U ''--'') then
        (let n = length (takeWhile (\<lambda>c. c \<noteq> 10) s)
         in ebind (mask_tsql (drop (max 1 n) s)) (\<lambda>r. Inr (blank n @ r)))
      else if startswith s (U ''/*'') then
        (case nested_end 1 (drop 2 s) of
           None \<Rightarrow> Inl (ValueError (U ''unterminated block comment''))
         | Some n \<Rightarrow> ebind (mask_tsql (drop (2 + n) s)) (\<lambda>r. Inr (blank (2 + n) @ r)))
      else if hd s \<in> {39, 34, 91} then
        (case tsql_quote_end (closer_of (hd s)) (tl s) of
           None \<Rightarrow> Inl (ValueError (U ''unterminated_literal_or_identifier''))
         | Some n \<Rightarrow> ebind (mask_tsql (drop (Suc n) s)) (\<lambda>r. Inr (blank (Suc n) @ r)))
      else ebind (mask_tsql (tl s)) (\<lambda>r. Inr (hd s # r)))"
  by pat_completeness auto
termination
  by (relation "measure length") auto

declare mask_tsql.simps [simp del]

section \<open>Where both readings agree\<close>

text \<open>No doubled closing bracket, and at most one opener of a block comment.\<close>

definition plain_brackets :: "pystr \<Rightarrow> bool" where
  "plain_brackets s \<longleftrightarrow> \<not> contains s (U '']]'')"

fun one_comment :: "pystr \<Rightarrow> bool" where
  "one_comment [] = True"
| "one_comment (c # s) =
     (if startswith (c # s) (U ''/*'') then \<not> contains (drop 1 s) (U ''/*'') else one_comment s)"

lemma contains_drop: "contains (drop n s) p \<Longrightarrow> contains s p"
  unfolding contains_iff by (metis append_assoc append_take_drop_id)

lemma plain_brackets_drop [intro]: "plain_brackets s \<Longrightarrow> plain_brackets (drop n s)"
  unfolding plain_brackets_def using contains_drop by blast

lemma one_comment_free: "\<not> contains s (U ''/*'') \<Longrightarrow> one_comment s"
  by (induction s) auto

lemma one_comment_tl: "one_comment s \<Longrightarrow> one_comment (tl s)"
proof (cases s)
  case (Cons c r)
  assume one: "one_comment s"
  show ?thesis
  proof (cases "startswith s (U ''/*'')")
    case True
    then obtain v where "s = U ''/*'' @ v" by (auto simp: startswith_iff)
    then have r: "r = 42 # v" "c = 47" using Cons by (simp_all add: U_def)
    have "\<not> contains v (U ''/*'')" using one True unfolding Cons by (simp add: r)
    then have "one_comment v" by (rule one_comment_free)
    then show ?thesis unfolding Cons r by (simp add: startswith_def U_def)
  qed (use one Cons in simp)
qed simp

lemma one_comment_drop [intro]: "one_comment s \<Longrightarrow> one_comment (drop n s)"
  by (induction n arbitrary: s) (auto simp: drop_Suc one_comment_tl)

lemma nested_end_once: "\<not> contains s (U ''/*'') \<Longrightarrow> nested_end 1 s = comment_end s"
proof (induction s)
  case (Cons c s)
  have "\<not> (c = 47 \<and> s \<noteq> [] \<and> hd s = 42)"
  proof
    assume "c = 47 \<and> s \<noteq> [] \<and> hd s = 42"
    then have "startswith (c # s) (U ''/*'')" by (cases s) (auto simp: startswith_def U_def)
    then show False using Cons.prems by simp
  qed
  then show ?case using Cons by auto
qed simp

lemma quote_end_single: "plain_brackets s \<Longrightarrow> tsql_quote_end q s = quote_end q s"
proof (induction q s rule: quote_end.induct)
  case (2 q c s)
  have "\<not> (c = 93 \<and> s \<noteq> [] \<and> hd s = 93)"
  proof
    assume "c = 93 \<and> s \<noteq> [] \<and> hd s = 93"
    then have "startswith (c # s) (U '']]'')" by (cases s) (auto simp: startswith_def U_def)
    then show False using 2(3) by (simp add: plain_brackets_def)
  qed
  moreover have "plain_brackets s" using plain_brackets_drop[OF 2(3), of 1] by simp
  moreover have "plain_brackets (tl s)" using plain_brackets_drop[OF 2(3), of 2] by (simp add: drop_Suc)
  ultimately show ?case using 2(1,2) by auto
qed simp

lemma one_comment_inside: "one_comment s \<Longrightarrow> startswith s (U ''/*'') \<Longrightarrow> \<not> contains (drop 2 s) (U ''/*'')"
  by (cases s) (auto simp: numeral_2_eq_2 startswith_def U_def)

lemma mask_tsql_eq: "plain_brackets s \<Longrightarrow> one_comment s \<Longrightarrow> mask_tsql s = mask_sql s"
proof (induction s rule: mask_sql.induct)
  case (1 s)
  let ?n = "length (takeWhile (\<lambda>c. c \<noteq> 10) s)"
  note keep = plain_brackets_drop[OF 1(5)] one_comment_drop[OF 1(6)]
  show ?case
  proof (cases "s = [] \<or> startswith s (U ''--'')")
    case True
    then show ?thesis
      using 1(1)[OF _ _ refl keep(1,2)] by (subst mask_tsql.simps, subst mask_sql.simps) (auto simp: Let_def)
  next
    case False
    then have f: "s \<noteq> []" "\<not> startswith s (U ''--'')" by simp_all
    show ?thesis
    proof (cases "startswith s (U ''/*'')")
      case True
      have "nested_end 1 (drop 2 s) = comment_end (drop 2 s)"
        by (rule nested_end_once) (rule one_comment_inside[OF 1(6) True])
      then show ?thesis
        using 1(2)[OF f True _ keep(1,2)] f True
        by (subst mask_tsql.simps, subst mask_sql.simps) (simp split: option.splits)
    next
      case plain: False
      have "tsql_quote_end q (tl s) = quote_end q (tl s)" for q
        using quote_end_single[OF keep(1)[of 1]] by (simp add: drop_Suc)
      then show ?thesis
        using 1(3)[OF f plain _ _ keep(1,2)] 1(4)[OF f plain _ ] keep[of 1] f plain
        by (subst mask_tsql.simps, subst mask_sql.simps) (simp add: drop_Suc split: option.splits)
    qed
  qed
qed


section \<open>An accepted query only reads\<close>

lemma guard_accepts:
  assumes "guard_read_sql w sql ps m = None"
  obtains plain where "mask_sql (strip sql) = Inr plain" "check_statement w (drop_params plain) = None"
    "check_top w sql plain ps m = None"
  using assms unfolding guard_read_sql_def invalid_def
  by (auto split: if_splits option.splits sum.splits)

lemma check_words_None: "check_words xs = None \<Longrightarrow> x \<in> set xs \<Longrightarrow> x \<noteq> U ''into'' \<and> \<not> startswith x (U ''xp_'') \<and> x \<notin> set FORBIDDEN"
  by (induction xs) (auto split: if_splits)

lemma check_statement_None:
  assumes "check_statement w code = None"
  shows "length (statement_parts code) = 1" "first_word code \<in> {U ''select'', U ''with''}" "check_words (idents (lower code)) = None"
    "35 \<notin> set code"
  using assms unfolding check_statement_def invalid_def
  by (simp_all split: if_splits option.splits)


section \<open>The TOP that was checked is the one that is executed\<close>

definition code_char :: "int \<Rightarrow> bool" where
  "code_char c \<longleftrightarrow> c \<notin> {45, 47, 39, 34, 91}"

lemma mask_code: "list_all code_char u \<Longrightarrow> mask_sql (u @ r) = ebind (mask_sql r) (\<lambda>p. Inr (u @ p))"
proof (induction u)
  case Nil
  then show ?case by (cases "mask_sql r") simp_all
next
  case (Cons c u)
  then have c: "c \<noteq> 45" "c \<noteq> 47" "c \<notin> {39, 34, 91}" by (simp_all add: code_char_def)
  then have "\<not> startswith ((c # u) @ r) (U ''--'')" "\<not> startswith ((c # u) @ r) (U ''/*'')"
    by (simp_all add: startswith_def U_def)
  then have "mask_sql ((c # u) @ r) = ebind (mask_sql (u @ r)) (\<lambda>p. Inr (c # p))"
    using c(3) by (subst mask_sql.simps) simp
  then show ?case using Cons by (cases "mask_sql r") simp_all
qed

lemma blank_nth: "i < n \<Longrightarrow> (blank n @ r) ! i = 32"
  by (simp add: blank_def nth_append)

lemma drop_blank: "n \<le> i \<Longrightarrow> drop i (blank n @ r) = drop (i - n) r"
  by (simp add: blank_def)

text \<open>From a place that is code, the rest is masked as a text of its own.\<close>

lemma mask_at: "mask_sql s = Inr p \<Longrightarrow> i < length p \<Longrightarrow> p ! i \<noteq> 32 \<Longrightarrow> mask_sql (drop i s) = Inr (drop i p)"
proof (induction s arbitrary: p i rule: mask_sql.induct)
  case (1 s)
  note hyps = 1
  have blanked: "mask_sql (drop i s) = Inr (drop i p)"
    if "p = blank n @ r" "mask_sql (drop n s) = Inr r"
      "\<And>p i. mask_sql (drop n s) = Inr p \<Longrightarrow> i < length p \<Longrightarrow> p ! i \<noteq> 32 \<Longrightarrow> mask_sql (drop i (drop n s)) = Inr (drop i p)"
    for n r
  proof -
    have "n \<le> i" using hyps(7) that(1) blank_nth[of i n r] by (metis not_le)
    then have "i - n < length r" "r ! (i - n) \<noteq> 32"
      using hyps(6,7) that(1) by (simp_all add: blank_def nth_append)
    then show ?thesis using that(3)[OF that(2), of "i - n"] that(1) \<open>n \<le> i\<close> by (simp add: drop_blank del: drop_append)
  qed
  consider "s = []" | "s \<noteq> []" "startswith s (U ''--'')"
    | "s \<noteq> []" "\<not> startswith s (U ''--'')" "startswith s (U ''/*'')"
    | "s \<noteq> []" "\<not> startswith s (U ''--'')" "\<not> startswith s (U ''/*'')" "hd s \<in> {39, 34, 91}"
    | "s \<noteq> []" "\<not> startswith s (U ''--'')" "\<not> startswith s (U ''/*'')" "hd s \<notin> {39, 34, 91}"
    by blast
  then show ?case
  proof cases
    case 1
    then show ?thesis using hyps(5,6) by (simp add: mask_sql.simps)
  next
    case 2
    let ?n = "length (takeWhile (\<lambda>c. c \<noteq> 10) s)"
    have n: "max 1 ?n = ?n" using 2 by (cases s) (auto simp: startswith_def U_def)
    obtain r where "mask_sql (drop ?n s) = Inr r" "p = blank ?n @ r"
      using hyps(5) 2 n by (subst (asm) mask_sql.simps) (auto simp: Let_def ebind_Inr_iff)
    then show ?thesis using blanked hyps(1)[OF 2 refl, unfolded n] by blast
  next
    case 3
    obtain n r where n: "comment_end (drop 2 s) = Some n" and r: "mask_sql (drop (2 + n) s) = Inr r" "p = blank (2 + n) @ r"
      using hyps(5) 3 by (subst (asm) mask_sql.simps) (auto simp: ebind_Inr_iff split: option.splits)
    show ?thesis by (rule blanked[OF r(2,1) hyps(2)[OF 3 n]])
  next
    case 4
    obtain n r where n: "quote_end (closer_of (hd s)) (tl s) = Some n"
      and r: "mask_sql (drop (Suc n) s) = Inr r" "p = blank (Suc n) @ r"
      using hyps(5) 4 by (subst (asm) mask_sql.simps) (auto simp: ebind_Inr_iff split: option.splits)
    show ?thesis by (rule blanked[OF r(2,1) hyps(3)[OF 4 n]])
  next
    case 5
    obtain r where r: "mask_sql (tl s) = Inr r" "p = hd s # r"
      using hyps(5) 5 by (subst (asm) mask_sql.simps) (auto simp: ebind_Inr_iff)
    show ?thesis
    proof (cases i)
      case 0
      then show ?thesis using hyps(5) by simp
    next
      case (Suc j)
      then show ?thesis using hyps(4)[OF 5 r(1), of j] hyps(6,7) r(2) by (simp add: drop_Suc)
    qed
  qed
qed


lemma same_letter_code: "97 \<le> p \<Longrightarrow> p \<le> 122 \<Longrightarrow> same_letter p c \<Longrightarrow> code_char c \<and> \<not> is_space c \<and> c \<notin> {40, 41, 64} \<and> \<not> (48 \<le> c \<and> c \<le> 57)"
  unfolding same_letter_def code_char_def is_space_def spaces_def by auto

text \<open>What a word has matched, and that it matches whatever follows.\<close>

lemma match_ci_parts:
  assumes "match_ci p s = Some r" "list_all (\<lambda>c. 97 \<le> c \<and> c \<le> 122) p"
  shows "\<exists>u. s = u @ r \<and> length u = length p \<and> list_all code_char u \<and> list_all (\<lambda>c. \<not> is_space c) u \<and>
           (\<forall>r'. match_ci p (u @ r') = Some r')"
  using assms
proof (induction p s rule: match_ci.induct)
  case (3 p ps c s)
  then have head: "same_letter p c" "match_ci ps s = Some r" by (simp_all split: if_splits)
  then obtain u where "s = u @ r" "length u = length ps" "list_all code_char u" "list_all (\<lambda>c. \<not> is_space c) u"
    "\<forall>r'. match_ci ps (u @ r') = Some r'"
    using 3 by auto
  then show ?case using head same_letter_code[of p c] 3(3) by (intro exI[of _ "c # u"]) auto
qed simp_all

lemma space_code: "is_space c \<Longrightarrow> code_char c"
  unfolding is_space_def spaces_def code_char_def by auto

lemma skip_space_parts: "\<exists>u. s = u @ skip_space s \<and> list_all is_space u"
  unfolding skip_space_def by (metis takeWhile_dropWhile_id list_all_iff set_takeWhileD)

lemma skip_space_append: "list_all is_space u \<Longrightarrow> s = [] \<or> \<not> is_space (hd s) \<Longrightarrow> skip_space (u @ s) = s"
  unfolding skip_space_def by (cases s) (simp_all add: dropWhile_append list_all_iff dropWhile_eq_Nil_conv)

lemma skip_space_hd: "skip_space s = c # r \<Longrightarrow> \<not> is_space c"
  unfolding skip_space_def by (metis dropWhile_eq_Cons_conv)

lemma spaces_code: "list_all is_space u \<Longrightarrow> list_all code_char u"
  by (auto simp: list_all_iff space_code)

text \<open>\<open>parses P u x\<close>: on any text that begins with \<open>u\<close> the parser consumes exactly \<open>u\<close>.\<close>

definition parses :: "(pystr \<Rightarrow> pystr option) \<Rightarrow> pystr \<Rightarrow> bool" where
  "parses P u \<longleftrightarrow> list_all code_char u \<and> (\<forall>r. P (u @ r) = Some r)"

lemma open_paren_parses:
  assumes "open_paren s = Some r"
  shows "\<exists>u. s = u @ r \<and> parses open_paren u"
proof -
  from assms have skip: "skip_space s = 40 # r"
    by (auto simp: open_paren_def split: list.splits if_splits)
  obtain u where u: "s = u @ 40 # r" "list_all is_space u" using skip_space_parts[of s] skip by auto
  have "open_paren ((u @ [40]) @ r') = Some r'" for r'
    using skip_space_append[OF u(2), of "40 # r'"] skip_space_hd[OF skip] by (simp add: open_paren_def)
  then show ?thesis
    using u spaces_code[OF u(2)] by (intro exI[of _ "u @ [40]"]) (auto simp: parses_def code_char_def)
qed

definition letters :: "pystr \<Rightarrow> bool" where
  "letters p \<longleftrightarrow> list_all (\<lambda>c. 97 \<le> c \<and> c \<le> 122) p"

lemma match_ci_parses: "match_ci p s = Some r \<Longrightarrow> letters p \<Longrightarrow> \<exists>u. s = u @ r \<and> length u = length p \<and> parses (match_ci p) u"
  unfolding letters_def parses_def using match_ci_parts by metis

lemma words_letters [simp]:
  "letters (U ''top'')" "letters (U ''select'')" "letters (U ''all'')" "letters (U ''distinct'')"
  by (simp_all add: letters_def U_def)


lemma takeWhile_drop: "s = takeWhile P s @ drop (length (takeWhile P s)) s"
  by (metis dropWhile_eq_drop takeWhile_dropWhile_id)

lemma top_raw_prefix: "s = top_raw s @ drop (length (top_raw s)) s"
proof (cases "s \<noteq> [] \<and> hd s = 64 \<and> tl s \<noteq> [] \<and> ident_start_ci (hd (tl s))")
  case True
  then have "top_raw s = 64 # takeWhile ident_char_ci (tl s)" "s = 64 # tl s" by (simp_all add: top_raw_def) (metis list.collapse)
  then show ?thesis using takeWhile_drop[of "tl s" ident_char_ci] by (metis append_Cons drop_Suc length_Cons list.sel(3))
next
  case False
  then have "top_raw s = takeWhile (\<lambda>c. 48 \<le> c \<and> c \<le> 57) s" unfolding top_raw_def by presburger
  then show ?thesis using takeWhile_drop[of s] by presburger
qed

lemma ident_char_ci_code: "ident_char_ci c \<Longrightarrow> code_char c"
  unfolding ident_char_ci_def ident_start_ci_def ident_start_def code_char_def by auto

lemma top_raw_chars: "c \<in> set (top_raw s) \<Longrightarrow> c = 64 \<or> ident_char_ci c"
  unfolding top_raw_def ident_char_ci_def by (auto dest: set_takeWhileD split: if_splits)

lemma top_raw_code: "list_all code_char (top_raw s)"
proof -
  have "code_char 64" by (simp add: code_char_def)
  then show ?thesis using top_raw_chars ident_char_ci_code by (metis list_all_iff)
qed

lemma takeWhile_again: "y = [] \<or> \<not> P (hd y) \<Longrightarrow> takeWhile P (takeWhile P s @ y) = takeWhile P s"
  by (cases y) (auto simp: takeWhile_append dest: set_takeWhileD)

lemma top_raw_again:
  assumes "top_raw s \<noteq> []" "y \<noteq> []" "\<not> ident_char_ci (hd y)"
  shows "top_raw (top_raw s @ y) = top_raw s"
proof (cases "s \<noteq> [] \<and> hd s = 64 \<and> tl s \<noteq> [] \<and> ident_start_ci (hd (tl s))")
  case True
  then have raw: "top_raw s = 64 # takeWhile ident_char_ci (tl s)" by (simp add: top_raw_def)
  have "takeWhile ident_char_ci (tl s) \<noteq> []" "hd (takeWhile ident_char_ci (tl s)) = hd (tl s)"
    using True by (cases "tl s"; simp add: ident_char_ci_def)+
  then show ?thesis
    using True takeWhile_again[of y ident_char_ci "tl s"] assms(3) unfolding raw by (simp add: top_raw_def)
next
  case False
  then have raw: "top_raw s = takeWhile (\<lambda>c. 48 \<le> c \<and> c \<le> 57) s" by (auto simp: top_raw_def)
  then have "48 \<le> hd (top_raw s) \<and> hd (top_raw s) \<le> 57"
    using hd_in_set[OF assms(1)] set_takeWhileD[of "hd (top_raw s)" "\<lambda>c. 48 \<le> c \<and> c \<le> 57" s] by simp
  then have "hd (top_raw s) \<noteq> 64" by linarith
  moreover have "\<not> (48 \<le> hd y \<and> hd y \<le> 57)" using assms(3) by (auto simp: ident_char_ci_def)
  ultimately show ?thesis
    using takeWhile_again[of y "\<lambda>c. 48 \<le> c \<and> c \<le> 57" s] assms(1) unfolding raw by (simp add: top_raw_def)
qed

lemma space_not_ident: "is_space c \<Longrightarrow> \<not> ident_char_ci c"
  unfolding is_space_def spaces_def ident_char_ci_def ident_start_ci_def ident_start_def by auto

lemma top_raw_hd: "top_raw s \<noteq> [] \<Longrightarrow> \<not> is_space (hd (top_raw s))"
proof -
  assume "top_raw s \<noteq> []"
  then have "hd (top_raw s) = 64 \<or> ident_char_ci (hd (top_raw s))" using top_raw_chars by (metis hd_in_set)
  moreover have "\<not> is_space 64" by (simp add: is_space_def spaces_def)
  ultimately show ?thesis using space_not_ident by metis
qed

text \<open>A prefix of code that alone determines what a parser returns.\<close>

definition fixes_result :: "(pystr \<Rightarrow> 'a option) \<Rightarrow> pystr \<Rightarrow> 'a \<Rightarrow> bool" where
  "fixes_result P u x \<longleftrightarrow> list_all code_char u \<and> (\<forall>v. P (u @ v) = Some x)"

lemma top_argument_fixed:
  assumes "top_argument r = Some raw"
  shows "\<exists>u v. r = u @ v \<and> u \<noteq> [] \<and> fixes_result top_argument u raw \<and> same_letter 116 (hd u) \<and> \<not> is_space (last u)"
proof -
  obtain r1 r2 where r1: "match_ci (U ''top'') r = Some r1" and r2: "open_paren r1 = Some r2"
    and raw: "raw = top_raw (skip_space r2)" "raw \<noteq> []"
    and close: "skip_space (drop (length raw) (skip_space r2)) \<noteq> []" "hd (skip_space (drop (length raw) (skip_space r2))) = 41"
    using assms unfolding top_argument_def Let_def by (auto split: option.splits if_splits)
  obtain u1 where u1: "r = u1 @ r1" "length u1 = 3" "parses (match_ci (U ''top'')) u1"
    using match_ci_parses[OF r1 words_letters(1)] by auto
  obtain u2 where u2: "r1 = u2 @ r2" "parses open_paren u2" using open_paren_parses[OF r2] by blast
  obtain u3 where u3: "r2 = u3 @ skip_space r2" "list_all is_space u3" using skip_space_parts by blast
  obtain u4 where u4: "drop (length raw) (skip_space r2) = u4 @ skip_space (drop (length raw) (skip_space r2))" "list_all is_space u4"
    using skip_space_parts by blast
  obtain v where v: "skip_space (drop (length raw) (skip_space r2)) = 41 # v" using close by (cases "skip_space (drop (length raw) (skip_space r2))") auto
  have s: "skip_space r2 = raw @ u4 @ 41 # v" using top_raw_prefix[of "skip_space r2"] u4(1) v raw(1) by simp
  let ?u = "u1 @ u2 @ u3 @ raw @ u4 @ [41]"
  have tail: "top_raw (raw @ u4 @ 41 # v') = raw" for v'
    using top_raw_again[of "skip_space r2" "u4 @ 41 # v'"] raw u4(2) space_not_ident
    by (cases u4) (auto simp: ident_char_ci_def ident_start_ci_def ident_start_def)
  have "skip_space (u3 @ raw @ u4 @ 41 # v') = raw @ u4 @ 41 # v'" for v'
    using skip_space_append[OF u3(2), of "raw @ u4 @ 41 # v'"] raw top_raw_hd[of "skip_space r2"] by simp
  moreover have "skip_space (u4 @ 41 # v') = 41 # v'" for v'
    by (rule skip_space_append[OF u4(2)]) (simp add: is_space_def spaces_def)
  ultimately have "top_argument (?u @ v') = Some raw" for v'
    using u1(3) u2(2) raw(2) tail unfolding top_argument_def parses_def by (simp add: Let_def)
  moreover have "list_all code_char ?u"
    using u1(3) u2(2) spaces_code[OF u3(2)] spaces_code[OF u4(2)] top_raw_code raw(1)
    unfolding parses_def by (simp add: code_char_def)
  moreover have "r = ?u @ v" using u1(1) u2(1) u3(1) s by simp
  moreover have "same_letter 116 (hd ?u)"
    using r1 u1(1,2) by (cases u1) (auto simp: U_def split: if_splits)
  ultimately show ?thesis unfolding fixes_result_def
    by (intro exI[of _ ?u] exI[of _ v]) (simp add: is_space_def spaces_def)
qed


lemma some_space_eq: "some_space s = Some r \<Longrightarrow> \<exists>u. s = u @ r \<and> u \<noteq> [] \<and> list_all is_space u \<and> (r = [] \<or> \<not> is_space (hd r))"
proof -
  assume "some_space s = Some r"
  then have s: "s \<noteq> []" "is_space (hd s)" "r = skip_space s" by (auto simp: some_space_def split: if_splits)
  obtain u where u: "s = u @ skip_space s" "list_all is_space u" using skip_space_parts by blast
  have r: "r = [] \<or> \<not> is_space (hd r)" using s(3) skip_space_hd[of s "hd (skip_space s)" "tl (skip_space s)"] by (cases "skip_space s") simp_all
  have "u \<noteq> []"
  proof
    assume "u = []"
    then have "r = s" using u(1) s(3) by simp
    then show False using r s(1,2) by blast
  qed
  then show ?thesis using u s(3) r by blast
qed

lemma some_space_append: "u \<noteq> [] \<Longrightarrow> list_all is_space u \<Longrightarrow> x \<noteq> [] \<Longrightarrow> \<not> is_space (hd x) \<Longrightarrow> some_space (u @ x) = Some x"
  using skip_space_append[of u x] by (cases u) (simp_all add: some_space_def)

lemma match_ci_first: "match_ci (p # ps) s = Some r \<Longrightarrow> s \<noteq> [] \<and> same_letter p (hd s)"
  by (cases s) (auto split: if_splits)

lemma same_letter_only: "same_letter p c \<Longrightarrow> p \<noteq> 105 \<Longrightarrow> p \<noteq> 107 \<Longrightarrow> p \<noteq> 115 \<Longrightarrow> c = p \<or> c = p - 32"
  unfolding same_letter_def by blast

lemma same_letter_less:
  assumes "same_letter p c" "same_letter q c" "p \<in> {97, 100, 116}" "q \<in> {97, 100, 116}"
  shows "p = q"
proof -
  have "p \<noteq> 105 \<and> p \<noteq> 107 \<and> p \<noteq> 115" "q \<noteq> 105 \<and> q \<noteq> 107 \<and> q \<noteq> 115" using assms(3,4) by force+
  then have "c = p \<or> c = p - 32" "c = q \<or> c = q - 32" using assms(1,2) same_letter_only by blast+
  then show ?thesis using assms(3,4) by (elim insertE emptyE disjE; linarith)
qed

lemma skip_quantifier_first: "skip_quantifier x ''all'' = Some r \<Longrightarrow> x \<noteq> [] \<and> same_letter 97 (hd x)"
  "skip_quantifier x ''distinct'' = Some r \<Longrightarrow> x \<noteq> [] \<and> same_letter 100 (hd x)"
  unfolding skip_quantifier_def U_def by (auto split: option.splits dest: match_ci_first)

lemma top_argument_first: "top_argument x = Some r \<Longrightarrow> x \<noteq> [] \<and> same_letter 116 (hd x)"
  unfolding top_argument_def U_def by (auto split: option.splits dest: match_ci_first)

text \<open>At most one of the ways on matches.\<close>

definition top_after :: "pystr \<Rightarrow> pystr option" where
  "top_after x = (case List.map_filter top_argument (List.map_filter (skip_quantifier x) [''all'', ''distinct''] @ [x]) of
     [] \<Rightarrow> None | raw # rs \<Rightarrow> Some raw)"

lemma top_after_plain: "top_argument x = Some raw \<Longrightarrow> top_after x = Some raw"
proof -
  assume top_arg: "top_argument x = Some raw"
  then have "skip_quantifier x ''all'' = None" "skip_quantifier x ''distinct'' = None"
    using top_argument_first[OF top_arg] skip_quantifier_first[of x] same_letter_less[of 116 "hd x"] by fastforce+
  then show ?thesis using top_arg by (simp add: top_after_def List.map_filter_simps)
qed

lemma top_after_quantified:
  assumes "q \<in> {''all'', ''distinct''}" "skip_quantifier x q = Some r" "top_argument r = Some raw"
  shows "top_after x = Some raw"
proof -
  obtain c where c: "same_letter c (hd x)" "q = ''all'' \<and> c = 97 \<or> q = ''distinct'' \<and> c = 100"
    using assms(1,2) skip_quantifier_first by blast
  have none: "skip_quantifier x ''distinct'' = None" if "q = ''all''"
    using c that skip_quantifier_first(2)[of x] same_letter_less[of 97 "hd x" 100] by fastforce
  have none2: "skip_quantifier x ''all'' = None" if "q = ''distinct''"
    using c that skip_quantifier_first(1)[of x] same_letter_less[of 100 "hd x" 97] by fastforce
  show ?thesis using assms none none2 by (auto simp: top_after_def List.map_filter_simps)
qed

lemma top_after_cases:
  assumes "top_after x = Some raw"
  shows "top_argument x = Some raw \<or> (\<exists>q r. q \<in> {''all'', ''distinct''} \<and> skip_quantifier x q = Some r \<and> top_argument r = Some raw)"
  using assms unfolding top_after_def
  by (auto simp: List.map_filter_simps split: option.splits list.splits)

lemma quantifier_letters: "q \<in> {''all'', ''distinct''} \<Longrightarrow> letters (U q)"
  by auto

lemma top_after_fixed:
  assumes "top_after x = Some raw"
  shows "\<exists>u v. x = u @ v \<and> u \<noteq> [] \<and> \<not> is_space (hd u) \<and> \<not> is_space (last u) \<and> fixes_result top_after u raw"
  using top_after_cases[OF assms]
proof (elim disjE exE conjE)
  assume "top_argument x = Some raw"
  then obtain u v where u: "x = u @ v" "u \<noteq> []" "fixes_result top_argument u raw" "same_letter 116 (hd u)" "\<not> is_space (last u)"
    using top_argument_fixed by blast
  then have "fixes_result top_after u raw" unfolding fixes_result_def using top_after_plain by blast
  then show ?thesis using u same_letter_code[of 116 "hd u"] by auto
next
  fix q r
  assume q: "q \<in> {''all'', ''distinct''}" and r: "skip_quantifier x q = Some r" and raw: "top_argument r = Some raw"
  obtain u v where u: "r = u @ v" "u \<noteq> []" "fixes_result top_argument u raw" "same_letter 116 (hd u)" "\<not> is_space (last u)"
    using top_argument_fixed[OF raw] by blast
  obtain y where y: "match_ci (U q) x = Some y" "some_space y = Some r"
    using r by (auto simp: skip_quantifier_def split: option.splits)
  obtain k where k: "x = k @ y" "length k = length q" "parses (match_ci (U q)) k"
    using match_ci_parses[OF y(1) quantifier_letters[OF q]] by auto
  obtain k2 where k2: "list_all (\<lambda>c. \<not> is_space c) k2" "x = k2 @ y"
    using match_ci_parts[OF y(1)] quantifier_letters[OF q] unfolding letters_def by blast
  then have "list_all (\<lambda>c. \<not> is_space c) k" using k(1) by simp
  moreover have "k \<noteq> []" using k(2) q by auto
  ultimately have hd_k: "\<not> is_space (hd k)" by (cases k) auto
  obtain sp where sp: "y = sp @ r" "sp \<noteq> []" "list_all is_space sp" using some_space_eq[OF y(2)] by blast
  have not_space: "\<not> is_space (hd u)" using same_letter_code[of 116 "hd u"] u(4) by simp
  have "top_after ((k @ sp @ u) @ v') = Some raw" for v'
  proof (rule top_after_quantified[OF q])
    have "match_ci (U q) ((k @ sp @ u) @ v') = Some (sp @ u @ v')" using k(3) unfolding parses_def by simp
    moreover have "some_space (sp @ u @ v') = Some (u @ v')"
      using some_space_append[OF sp(2,3), of "u @ v'"] u(2) not_space by simp
    ultimately show "skip_quantifier ((k @ sp @ u) @ v') q = Some (u @ v')" by (simp add: skip_quantifier_def)
    show "top_argument (u @ v') = Some raw" using u(3) by (simp add: fixes_result_def)
  qed
  then have "fixes_result top_after (k @ sp @ u) raw"
    using k(3) u(3) spaces_code[OF sp(3)] by (simp add: fixes_result_def parses_def)
  then show ?thesis
    using k(1) sp(1) u(1,2,5) \<open>k \<noteq> []\<close> hd_k by (intro exI[of _ "k @ sp @ u"] exI[of _ v]) simp
qed

lemma find_top_eq:
  "find_top s =
     (case match_ci (U ''select'') (skip_space s) of
        None \<Rightarrow> None | Some r \<Rightarrow> (case some_space r of None \<Rightarrow> None | Some x \<Rightarrow> top_after x))"
  unfolding find_top_def after_select_def top_after_def
  by (simp add: List.map_filter_simps split: option.splits)

lemma find_top_fixed:
  assumes "find_top s = Some raw"
  shows "\<exists>u v. s = u @ v \<and> u \<noteq> [] \<and> \<not> is_space (last u) \<and> fixes_result find_top u raw"
proof -
  obtain r x where r: "match_ci (U ''select'') (skip_space s) = Some r" and x: "some_space r = Some x" and top_x: "top_after x = Some raw"
    using assms unfolding find_top_eq by (auto split: option.splits)
  obtain sp where sp: "s = sp @ skip_space s" "list_all is_space sp" using skip_space_parts by blast
  obtain k where k: "skip_space s = k @ r" "list_all code_char k" "list_all (\<lambda>c. \<not> is_space c) k" "length k = 6"
    "\<forall>r'. match_ci (U ''select'') (k @ r') = Some r'"
    using match_ci_parts[OF r] words_letters(2) unfolding letters_def by auto
  obtain sp2 where sp2: "r = sp2 @ x" "sp2 \<noteq> []" "list_all is_space sp2" using some_space_eq[OF x] by blast
  obtain u v where u: "x = u @ v" "u \<noteq> []" "\<not> is_space (hd u)" "\<not> is_space (last u)" "fixes_result top_after u raw"
    using top_after_fixed[OF top_x] by blast
  have "find_top ((sp @ k @ sp2 @ u) @ v') = Some raw" for v'
  proof -
    have "skip_space ((sp @ k @ sp2 @ u) @ v') = k @ sp2 @ u @ v'"
      using skip_space_append[OF sp(2), of "k @ sp2 @ u @ v'"] k(3,4) by (cases k) simp_all
    moreover have "some_space (sp2 @ u @ v') = Some (u @ v')"
      using some_space_append[OF sp2(2,3), of "u @ v'"] u(2,3) by simp
    ultimately show ?thesis using k(5) u(5) unfolding find_top_eq fixes_result_def by simp
  qed
  then have "fixes_result find_top (sp @ k @ sp2 @ u) raw"
    using spaces_code[OF sp(2)] spaces_code[OF sp2(3)] k(2) u(5) by (simp add: fixes_result_def)
  moreover have "s = (sp @ k @ sp2 @ u) @ v" using sp(1) k(1) sp2(1) u(1) by simp
  ultimately show ?thesis using u(2,4) by (intro exI[of _ "sp @ k @ sp2 @ u"] exI[of _ v]) simp
qed


lemma outer_select_at: "outer_select w pos d prev s = Some i \<Longrightarrow> \<exists>j. i = pos + j \<and> j < length s \<and> s ! j \<noteq> 32"
proof (induction w pos d prev s rule: outer_select.induct)
  case (2 w pos d prev c s)
  show ?case
  proof (cases "c \<noteq> 40 \<and> c \<noteq> 41 \<and> keyword_here w ''select'' prev (c # s) \<noteq> None \<and> d = 0")
    case True
    then obtain r where "match_ci (U ''select'') (c # s) = Some r" by (auto simp: keyword_here_def split: option.splits)
    then have "same_letter 115 c" by (simp add: U_def split: if_splits)
    then have "c \<noteq> 32" by (auto simp: same_letter_def)
    then show ?thesis using 2 True by (intro exI[of _ 0]) simp
  next
    case False
    then obtain d' where "outer_select w (Suc pos) d' (Some c) s = Some i"
      "\<And>j. \<exists>j. i = Suc pos + j \<and> j < length s \<and> s ! j \<noteq> 32"
      using 2 by (auto split: if_splits)
    then obtain j where "i = Suc pos + j" "j < length s" "s ! j \<noteq> 32" by blast
    then show ?thesis by (intro exI[of _ "Suc j"]) simp
  qed
qed simp

lemma strip_prefix: "sql \<noteq> [] \<Longrightarrow> \<not> is_space (hd sql) \<Longrightarrow> \<exists>ws. sql = strip sql @ ws \<and> list_all is_space ws"
proof -
  assume sql: "sql \<noteq> []" "\<not> is_space (hd sql)"
  then have "lstrip sql = sql" unfolding lstrip_def by (cases sql) simp_all
  then have "strip sql = rev (dropWhile is_space (rev sql))" by (simp add: strip_def rstrip_by_def)
  then have "sql = strip sql @ rev (takeWhile is_space (rev sql))"
    by (metis rev_append rev_rev_ident takeWhile_dropWhile_id)
  moreover have "list_all is_space (rev (takeWhile is_space (rev sql)))"
    by (auto simp: list_all_iff dest: set_takeWhileD)
  ultimately show ?thesis by blast
qed

lemma nonspace_inside:
  assumes "u @ v = x @ ws" "list_all is_space ws" "u \<noteq> []" "\<not> is_space (last u)"
  shows "\<exists>r. x = u @ r"
proof -
  have "\<not> (\<exists>y. u = x @ y \<and> y \<noteq> [] \<and> ws = y @ v)" using assms(2-4) by (auto simp: list_all_iff)
  then show ?thesis using assms(1) by (metis append_Nil2 append_eq_append_conv2)
qed



section \<open>Samples\<close>

definition sample_sql :: pystr where
  "sample_sql = U ''with c as (select 1 as x) select top (@n) [a b], 'x; drop' from c /* go; */ where y = 2 -- end''"



definition second_statement :: "pystr \<Rightarrow> bool" where
  "second_statement sql \<longleftrightarrow>
     (case mask_tsql sql of
        Inl e \<Rightarrow> False
      | Inr code \<Rightarrow> length (statement_parts code) = 2 \<and> U ''drop'' \<in> set (idents (lower code)))"

definition unlimited :: "pystr \<Rightarrow> bool" where
  "unlimited sql \<longleftrightarrow>
     (case mask_sql (strip sql) of
        Inl e \<Rightarrow> False
      | Inr code \<Rightarrow>
          (case outer_select_offset ident_char code of
             None \<Rightarrow> False | Some i \<Rightarrow> \<not> scalar_query ident_char (drop i code) \<and> find_top (drop i code) = None))"


end
