(* ===== verification/SQL_Gateway.thy ===== *)
theory SQL_Gateway
  imports SQL_Guard Telemetry
begin

text \<open>
  The client of the gateway (\<open>src/server/safe_db/sql_gateway.py\<close>) and the reader of table definitions that uses it
  (\<open>src/server/context/live_mssql_source.py\<close>).  What the client has sent and what its audit file holds is a state; the
  answer of the gateway, the lock, the clock, the request id and \<open>sha256\<close> come from a record.
\<close>

section \<open>The limits and the contract of a response\<close>

text \<open>\<open>max_cost\<close> is declared \<open>float\<close> and is the whole number 2 by default: it keeps the type it is given.\<close>

record gateway_policy =
  gp_max_rows :: int
  gp_max_plan_rows :: int
  gp_max_cost :: json
  gp_max_execution_ms :: int
  gp_max_response_bytes :: int

definition default_policy :: gateway_policy where
  "default_policy =
     \<lparr>gp_max_rows = 1000, gp_max_plan_rows = 100000, gp_max_cost = JInt 2, gp_max_execution_ms = 5000,
      gp_max_response_bytes = 5242880\<rparr>"

definition request_limits :: "gateway_policy \<Rightarrow> (pystr \<times> json) list" where
  "request_limits p =
     [(U ''maxRows'', JInt (gp_max_rows p)), (U ''maxPlanRows'', JInt (gp_max_plan_rows p)), (U ''maxCost'', gp_max_cost p),
      (U ''maxExecutionMs'', JInt (gp_max_execution_ms p)), (U ''maxResponseBytes'', JInt (gp_max_response_bytes p))]"

definition target_start :: "int \<Rightarrow> bool" where
  "target_start c \<longleftrightarrow> 65 \<le> c \<and> c \<le> 90 \<or> 97 \<le> c \<and> c \<le> 122 \<or> 48 \<le> c \<and> c \<le> 57"

definition valid_target_id :: "pystr \<Rightarrow> bool" where
  "valid_target_id s \<longleftrightarrow>
     s \<noteq> [] \<and> length s \<le> 200 \<and> target_start (hd s) \<and>
     list_all (\<lambda>c. target_start c \<or> c \<in> {46, 95, 58, 45}) (tl s)"

definition request_id_ok :: "pystr \<Rightarrow> bool" where
  "request_id_ok s \<longleftrightarrow> length s = 32 \<and> list_all (\<lambda>c. 48 \<le> c \<and> c \<le> 57 \<or> 97 \<le> c \<and> c \<le> 102) s"

text \<open>\<open>int()\<close> of a number; a float is read as the rational it stands for.\<close>

definition truncate_rat :: "rat \<Rightarrow> int" where
  "truncate_rat q = (if q < 0 then - \<lfloor>- q\<rfloor> else \<lfloor>q\<rfloor>)"

fun int_of_number :: "json \<Rightarrow> exn + int" where
  "int_of_number (JInt i) = Inr i"
| "int_of_number (JNum q) = Inr (truncate_rat q)"
| "int_of_number (JInf b) = Inl (OtherError (U ''OverflowError'') (U ''cannot convert float infinity to integer''))"
| "int_of_number v = Inl (ValueError (U ''cannot convert float NaN to integer''))"

text \<open>\<open>abs(float(actual) - expected) > 1e-9\<close> for the float \<open>expected\<close>.\<close>

fun far_apart :: "json \<Rightarrow> json \<Rightarrow> bool" where
  "far_apart JNaN e = False"
| "far_apart a JNaN = False"
| "far_apart (JInf b) (JInf c) = (b \<noteq> c)"
| "far_apart (JInf b) e = True"
| "far_apart a (JInf c) = True"
| "far_apart a e =
     (case (py_number a, py_number e) of (Some x, Some y) \<Rightarrow> \<bar>x - y\<bar> > 1 / 1000000000 | _ \<Rightarrow> False)"

fun is_number :: "json \<Rightarrow> bool" where
  "is_number (JInt i) = True"
| "is_number (JNum q) = True"
| "is_number (JInf b) = True"
| "is_number JNaN = True"
| "is_number _ = False"

fun limit_kept :: "json \<Rightarrow> json \<Rightarrow> exn + bool" where
  "limit_kept (JInt i) actual = ebind (int_of_number actual) (\<lambda>n. Inr (n = i))"
| "limit_kept e actual = Inr (\<not> far_apart actual e)"

fun limits_kept :: "(pystr \<times> json) list \<Rightarrow> (pystr \<times> json) list \<Rightarrow> exn + bool" where
  "limits_kept applied [] = Inr True"
| "limits_kept applied ((k, e) # es) =
     (case jget applied k of
        None \<Rightarrow> Inr False
      | Some actual \<Rightarrow>
          if \<not> is_number actual then Inr False
          else ebind (limit_kept e actual) (\<lambda>ok. if ok then limits_kept applied es else Inr False))"

definition rows_kept :: "(pystr \<times> json) list \<Rightarrow> gateway_policy \<Rightarrow> bool" where
  "rows_kept o1 p \<longleftrightarrow>
     (case fld o1 ''rows'' of
        JList rs \<Rightarrow> int (length rs) \<le> gp_max_rows p \<and> py_eq (fld o1 ''rowCount'') (JInt (int (length rs)))
      | _ \<Rightarrow> False)"

definition verify_response_contract :: "(pystr \<times> json) list \<Rightarrow> pystr \<Rightarrow> gateway_policy \<Rightarrow> exn + bool" where
  "verify_response_contract o1 rid p =
     (if fld o1 ''requestId'' \<noteq> JStr rid then Inr False
      else if \<not> request_id_ok rid then Inr False
      else (case fld o1 ''limitsApplied'' of
              JObj applied \<Rightarrow>
                ebind (limits_kept applied (request_limits p)) (\<lambda>ok. Inr (ok \<and> rows_kept o1 p))
            | _ \<Rightarrow> Inr False))"

section \<open>Reading the response\<close>

text \<open>
  A response as the reader sees it: whether the request itself, the status or the stream fails (\<open>httpx\<close>), the header
  \<open>content-length\<close>, and the pieces of the body in the order they arrive.  \<open>None\<close> for the whole response: it did not end
  before the deadline.
\<close>

datatype net_fault = Http_Fault | Other_Fault pystr

record gateway_response =
  rs_status :: "net_fault option"
  rs_length :: "pystr option"
  rs_pieces :: "int list list"
  rs_broken :: "net_fault option"

definition content_length_error :: "(pystr \<Rightarrow> int option) \<Rightarrow> int \<Rightarrow> pystr option \<Rightarrow> exn option" where
  "content_length_error to_int limit h =
     (case h of
        None \<Rightarrow> None
      | Some raw \<Rightarrow>
          (case to_int raw of
             None \<Rightarrow> invalid ''invalid_content_length''
           | Some n \<Rightarrow>
               if n < 0 then invalid ''invalid_content_length''
               else if n > limit then invalid ''response_too_large'' else None))"

fun read_pieces :: "int \<Rightarrow> int list \<Rightarrow> int list list \<Rightarrow> exn + int list" where
  "read_pieces limit payload [] = Inr payload"
| "read_pieces limit payload (b # bs) =
     (if int (length payload + length b) > limit then Inl (ValueError (U ''response_too_large''))
      else read_pieces limit (payload @ b) bs)"

text \<open>What the reader raises: the client keeps the errors of \<open>httpx\<close> and \<open>ValueError\<close> and renames the others.\<close>

definition fault_error :: "net_fault \<Rightarrow> exn" where
  "fault_error f =
     (case f of Http_Fault \<Rightarrow> OtherError (U ''HTTPError'') [] | Other_Fault t \<Rightarrow> ValueError (U ''gateway_stream_failed''))"

definition stream_gateway_json ::
  "(pystr \<Rightarrow> int option) \<Rightarrow> (int list \<Rightarrow> json option) \<Rightarrow> gateway_policy \<Rightarrow> gateway_response option \<Rightarrow> exn + (pystr \<times> json) list" where
  "stream_gateway_json to_int parse p r =
     (case r of
        None \<Rightarrow> Inl (ValueError (U ''response_deadline_exceeded''))
      | Some rs \<Rightarrow>
          (case rs_status rs of
             Some f \<Rightarrow> Inl (fault_error f)
           | None \<Rightarrow>
               (case content_length_error to_int (gp_max_response_bytes p) (rs_length rs) of
                  Some e \<Rightarrow> Inl e
                | None \<Rightarrow>
                    ebind (read_pieces (gp_max_response_bytes p) [] (rs_pieces rs)) (\<lambda>payload.
                      case rs_broken rs of
                        Some f \<Rightarrow> Inl (fault_error f)
                      | None \<Rightarrow>
                          (case parse payload of
                             None \<Rightarrow> Inl (ValueError (U ''JSONDecodeError''))
                           | Some (JObj o1) \<Rightarrow> Inr o1
                           | Some v \<Rightarrow> Inl (ValueError (U ''invalid_response'')))))))"

section \<open>The client\<close>

record gateway_client =
  gc_base_url :: pystr
  gc_token :: pystr
  gc_target_field :: pystr
  gc_policy :: gateway_policy

text \<open>\<open>rstrip("/")\<close> of the constructor.\<close>

definition gateway_client_of :: "pystr \<Rightarrow> pystr \<Rightarrow> pystr \<Rightarrow> gateway_policy option \<Rightarrow> gateway_client" where
  "gateway_client_of url token field p =
     \<lparr>gc_base_url = rstrip_by (\<lambda>c. c = 47) url, gc_token = token, gc_target_field = field,
      gc_policy = (case p of None \<Rightarrow> default_policy | Some q \<Rightarrow> q)\<rparr>"

record parsed_url =
  url_scheme :: pystr
  url_host :: "pystr option"
  url_username :: "pystr option"
  url_password :: "pystr option"
  url_query :: pystr
  url_fragment :: pystr

definition given :: "pystr option \<Rightarrow> bool" where
  "given t \<longleftrightarrow> (case t of None \<Rightarrow> False | Some s \<Rightarrow> s \<noteq> [])"

text \<open>\<open>urlparse\<close> is the argument; \<open>None\<close> where it, or reading a part of its result, raises \<open>ValueError\<close>.\<close>

definition valid_origin :: "(pystr \<Rightarrow> parsed_url option) \<Rightarrow> pystr \<Rightarrow> bool" where
  "valid_origin urlparse url \<longleftrightarrow>
     (case urlparse url of
        None \<Rightarrow> False
      | Some u \<Rightarrow>
          if given (url_username u) \<or> given (url_password u) \<or> url_query u \<noteq> [] \<or> url_fragment u \<noteq> [] then False
          else if url_scheme u = U ''https'' \<and> given (url_host u) then True
          else url_scheme u = U ''http'' \<and> url_host u \<in> Some ` {U ''localhost'', U ''127.0.0.1'', U ''::1''})"

definition configured :: "(pystr \<Rightarrow> parsed_url option) \<Rightarrow> gateway_client \<Rightarrow> bool" where
  "configured urlparse c \<longleftrightarrow>
     valid_origin urlparse (gc_base_url c) \<and> length (gc_token c) \<ge> 32 \<and>
     gc_target_field c \<in> {U ''targetId'', U ''hospitalId''}"

record audit_row =
  au_ts :: int
  au_sql_hash :: pystr
  au_status :: pystr
  au_detail :: pystr
  au_extra :: "(pystr \<times> json) list"

record gateway_state =
  gs_audit :: "audit_row list"
  gs_sent :: "(pystr \<times> json) list"
  gs_cancelled :: "pystr list"

record gateway_world =
  gw_word :: "int \<Rightarrow> bool"
  gw_urlparse :: "pystr \<Rightarrow> parsed_url option"
  gw_sha :: "pystr \<Rightarrow> pystr"
  gw_now :: int
  gw_writable :: bool
  gw_request_id :: pystr
  gw_acquired :: bool
  gw_to_int :: "pystr \<Rightarrow> int option"
  gw_parse :: "int list \<Rightarrow> json option"
  gw_respond :: "pystr \<Rightarrow> json \<Rightarrow> gateway_response option"

text \<open>
  One line of the audit file; a file that cannot be written is ignored, a text that has no UTF-8 form is an error before
  anything is written.
\<close>

definition audit ::
  "gateway_world \<Rightarrow> pystr \<Rightarrow> string \<Rightarrow> pystr \<Rightarrow> (pystr \<times> json) list \<Rightarrow> gateway_state \<Rightarrow> (exn + unit) \<times> gateway_state" where
  "audit w sql status detail extra s =
     (if \<not> valid_text sql then (Inl (ValueError (U ''surrogates not allowed'')), s)
      else if \<not> gw_writable w then (Inr (), s)
      else (Inr (), s\<lparr>gs_audit := gs_audit s @
              [\<lparr>au_ts = gw_now w, au_sql_hash = gw_sha w sql, au_status = U status, au_detail = detail,
                au_extra = filter (\<lambda>(k, v). v \<noteq> JNull \<and> v \<noteq> JStr []) extra\<rparr>]\<rparr>))"

definition audited :: "(exn + unit) \<times> gateway_state \<Rightarrow> exn + 'a \<Rightarrow> (exn + 'a) \<times> gateway_state" where
  "audited m r = (case fst m of Inl e \<Rightarrow> (Inl e, snd m) | Inr u \<Rightarrow> (r, snd m))"

definition query_body :: "gateway_client \<Rightarrow> pystr \<Rightarrow> pystr \<Rightarrow> params \<Rightarrow> json" where
  "query_body c target sql ps =
     JObj ([(gc_target_field c, JStr target), (U ''sql'', JStr sql), (U ''params'', JObj ps)] @ request_limits (gc_policy c))"

definition exn_text :: "exn \<Rightarrow> pystr" where
  "exn_text e = (case e of ValueError t \<Rightarrow> t | KeyError t \<Rightarrow> t | TypeError t \<Rightarrow> t | RuntimeError t \<Rightarrow> t | OtherError k t \<Rightarrow> t)"

text \<open>\<open>(data.get("plan") or {}).get("cost")\<close>.\<close>

definition plan_cost :: "(pystr \<times> json) list \<Rightarrow> exn + json" where
  "plan_cost o1 =
     (case fld o1 ''plan'' of
        JObj plan \<Rightarrow> Inr (fld plan ''cost'')
      | v \<Rightarrow> if truthy v then Inl (OtherError (U ''AttributeError'') (U ''get'')) else Inr JNull)"

definition audit_extra :: "pystr \<Rightarrow> pystr \<Rightarrow> (pystr \<times> json) list \<Rightarrow> json \<Rightarrow> (pystr \<times> json) list" where
  "audit_extra target rid o1 cost =
     [(U ''target_id'', JStr target), (U ''request_id'', JStr rid), (U ''gateway_query_hash'', fld o1 ''queryHash''),
      (U ''row_count'', fld o1 ''rowCount''), (U ''plan_cost'', cost), (U ''duration_ms'', fld o1 ''durationMs'')]"

text \<open>After the lock is released: the contract, and the audit of what was executed.\<close>

definition accept_data ::
  "gateway_world \<Rightarrow> gateway_client \<Rightarrow> pystr \<Rightarrow> pystr \<Rightarrow> (pystr \<times> json) list \<Rightarrow> gateway_state
     \<Rightarrow> (exn + (pystr \<times> json) list option) \<times> gateway_state" where
  "accept_data w c target sql o1 s =
     (case verify_response_contract o1 (gw_request_id w) (gc_policy c) of
        Inl e \<Rightarrow> (Inl e, s)
      | Inr False \<Rightarrow> audited (audit w sql ''blocked'' (U ''contract_violation'') [] s) (Inr None)
      | Inr True \<Rightarrow>
          (case plan_cost o1 of
             Inl e \<Rightarrow> (Inl e, s)
           | Inr cost \<Rightarrow>
               audited (audit w sql ''executed'' (U ''ok'') (audit_extra target (gw_request_id w) o1 cost) s) (Inr (Some o1))))"

definition query ::
  "gateway_world \<Rightarrow> gateway_client \<Rightarrow> pystr \<Rightarrow> pystr \<Rightarrow> params \<Rightarrow> gateway_state
     \<Rightarrow> (exn + (pystr \<times> json) list option) \<times> gateway_state" where
  "query w c target sql ps s =
     (if \<not> configured (gw_urlparse w) c \<or> \<not> valid_target_id target then (Inr None, s)
      else (case guard_read_sql (gw_word w) sql ps (gp_max_rows (gc_policy c)) of
              Some e \<Rightarrow> audited (audit w sql ''blocked'' (exn_text e) [] s) (Inr None)
            | None \<Rightarrow>
                if \<not> gw_acquired w then audited (audit w sql ''blocked'' (U ''concurrent_read'') [] s) (Inr None)
                else
                  (let body = query_body c target sql ps;
                       s1 = s\<lparr>gs_sent := gs_sent s @ [(gc_base_url c @ U ''/query'', body)]\<rparr>
                   in case stream_gateway_json (gw_to_int w) (gw_parse w) (gc_policy c)
                             (gw_respond w (gc_base_url c @ U ''/query'') body) of
                        Inl e \<Rightarrow>
                          audited (audit w sql ''blocked'' (U ''gateway_failed'') []
                            (s1\<lparr>gs_cancelled := gs_cancelled s1 @ [gw_request_id w]\<rparr>)) (Inr None)
                      | Inr o1 \<Rightarrow> accept_data w c target sql o1 s1)))"


section \<open>What the client guarantees\<close>

lemma read_pieces_bound: "read_pieces limit payload bs = Inr out \<Longrightarrow> int (length payload) \<le> limit \<Longrightarrow> int (length out) \<le> limit"
  by (induction limit payload bs rule: read_pieces.induct) (auto split: if_splits)

lemma read_pieces_all: "read_pieces limit payload bs = Inr out \<Longrightarrow> out = payload @ concat bs"
  by (induction limit payload bs rule: read_pieces.induct) (auto split: if_splits)

lemma audited_state [simp]: "snd (audited m r) = snd m"
  by (simp add: audited_def split: sum.splits)

lemma audited_value: "fst (audited m r) = Inr v \<Longrightarrow> r = Inr v"
  by (simp add: audited_def split: sum.splits)

lemma audit_keeps [simp]:
  "gs_sent (snd (audit w sql st d x s)) = gs_sent s" "gs_cancelled (snd (audit w sql st d x s)) = gs_cancelled s"
  by (simp_all add: audit_def)

definition one_more :: "gateway_state \<Rightarrow> gateway_state \<Rightarrow> bool" where
  "one_more s s' \<longleftrightarrow> (\<exists>rows. gs_audit s' = gs_audit s @ rows \<and> length rows \<le> 1)"

lemma one_more_simps [simp]:
  "one_more s s" "one_more (s\<lparr>gs_sent := a\<rparr>) s' = one_more s s'" "one_more (s\<lparr>gs_cancelled := b\<rparr>) s' = one_more s s'"
  by (simp_all add: one_more_def)

lemma audit_adds [simp]: "one_more s (snd (audit w sql st d x s))"
  by (auto simp: audit_def one_more_def)

lemma accept_data_sent: "gs_sent (snd (accept_data w c target sql o1 s)) = gs_sent s"
  by (simp add: accept_data_def split: sum.splits bool.splits)

lemma accept_data_audit [simp]: "one_more s (snd (accept_data w c target sql o1 s))"
  by (simp add: accept_data_def split: sum.splits bool.splits)

lemma accept_data_value:
  "fst (accept_data w c target sql o1 s) = Inr (Some o2) \<Longrightarrow>
     o2 = o1 \<and> verify_response_contract o1 (gw_request_id w) (gc_policy c) = Inr True"
  by (auto simp: accept_data_def dest!: audited_value split: sum.splits bool.splits)

lemma contract_rows:
  "verify_response_contract o1 rid p = Inr True \<Longrightarrow>
     \<exists>rs. fld o1 ''rows'' = JList rs \<and> int (length rs) \<le> gp_max_rows p \<and> fld o1 ''requestId'' = JStr rid"
  unfolding verify_response_contract_def rows_kept_def
  by (auto simp: ebind_Inr_iff split: if_splits json.splits)

text \<open>The requests of one call: none, or the one whose text the guard has accepted, sent while the lock is held.\<close>

definition may_send :: "gateway_world \<Rightarrow> gateway_client \<Rightarrow> pystr \<Rightarrow> pystr \<Rightarrow> params \<Rightarrow> bool" where
  "may_send w c target sql ps \<longleftrightarrow>
     configured (gw_urlparse w) c \<and> valid_target_id target \<and> gw_acquired w \<and>
     guard_read_sql (gw_word w) sql ps (gp_max_rows (gc_policy c)) = None"

lemma query_sent:
  "gs_sent (snd (query w c target sql ps s)) =
     gs_sent s @ (if may_send w c target sql ps then [(gc_base_url c @ U ''/query'', query_body c target sql ps)] else [])"
  unfolding query_def may_send_def Let_def
  by (simp add: accept_data_sent split: option.splits sum.splits)

lemma query_audit: "one_more s (snd (query w c target sql ps s))"
proof -
  have "one_more s (snd (audit w sql st d x (s\<lparr>gs_sent := a, gs_cancelled := b\<rparr>)))" for st d x a b
    using audit_adds[of "s\<lparr>gs_sent := a, gs_cancelled := b\<rparr>"] by (simp only: one_more_simps)
  moreover have "one_more s (snd (accept_data w c target sql o1 (s\<lparr>gs_sent := a\<rparr>)))" for o1 a
    using accept_data_audit[of "s\<lparr>gs_sent := a\<rparr>"] by (simp only: one_more_simps)
  ultimately show ?thesis unfolding query_def Let_def by (simp split: option.splits sum.splits)
qed

lemma query_value:
  assumes "fst (query w c target sql ps s) = Inr (Some o1)"
  shows "may_send w c target sql ps \<and>
    stream_gateway_json (gw_to_int w) (gw_parse w) (gc_policy c)
      (gw_respond w (gc_base_url c @ U ''/query'') (query_body c target sql ps)) = Inr o1 \<and>
    verify_response_contract o1 (gw_request_id w) (gc_policy c) = Inr True"
  using assms unfolding query_def may_send_def Let_def
  by (auto dest!: audited_value accept_data_value split: if_splits option.splits sum.splits)

text \<open>
  C32: A call sends one request or none, and one only for a text the guard has accepted, to a configured gateway, for a
  well-formed target and while the lock is held; it adds at most one line to the audit file; and what it returns is the
  answer to this very request, with no more rows than the policy allows.
\<close>

theorem query_sends_only_guarded:
  assumes "query w c target sql ps s = (r, s')"
  shows "gs_sent s' = gs_sent s @ (if may_send w c target sql ps then [(gc_base_url c @ U ''/query'', query_body c target sql ps)] else []) \<and>
    (\<exists>rows. gs_audit s' = gs_audit s @ rows \<and> length rows \<le> 1) \<and>
    (\<forall>o1. r = Inr (Some o1) \<longrightarrow>
       may_send w c target sql ps \<and> fld o1 ''requestId'' = JStr (gw_request_id w) \<and>
       (\<exists>rs. fld o1 ''rows'' = JList rs \<and> int (length rs) \<le> gp_max_rows (gc_policy c)))"
proof (intro conjI allI impI)
  have parts: "r = fst (query w c target sql ps s)" "s' = snd (query w c target sql ps s)" using assms by simp_all
  show "gs_sent s' = gs_sent s @ (if may_send w c target sql ps then [(gc_base_url c @ U ''/query'', query_body c target sql ps)] else [])"
    unfolding parts by (rule query_sent)
  show "\<exists>rows. gs_audit s' = gs_audit s @ rows \<and> length rows \<le> 1" using query_audit unfolding parts one_more_def by blast
  fix o1 assume "r = Inr (Some o1)"
  then have res: "fst (query w c target sql ps s) = Inr (Some o1)" using parts by simp
  show "may_send w c target sql ps" using query_value[OF res] by blast
  have "verify_response_contract o1 (gw_request_id w) (gc_policy c) = Inr True" using query_value[OF res] by blast
  then show "fld o1 ''requestId'' = JStr (gw_request_id w)"
    "\<exists>rs. fld o1 ''rows'' = JList rs \<and> int (length rs) \<le> gp_max_rows (gc_policy c)"
    using contract_rows by blast+
qed

definition sample_gateway :: gateway_client where
  "sample_gateway = gateway_client_of (U ''https://gw/'') (replicate 32 97) (U ''targetId'') None"

definition sample_answer :: "(pystr \<times> json) list" where
  "sample_answer =
     [(U ''requestId'', JStr (replicate 32 48)), (U ''limitsApplied'', JObj (request_limits default_policy)),
      (U ''rows'', JList [JList [JInt 1]]), (U ''rowCount'', JInt 1)]"

definition sample_gateway_world :: gateway_world where
  "sample_gateway_world =
     \<lparr>gw_word = ident_char,
      gw_urlparse = (\<lambda>u. Some \<lparr>url_scheme = U ''https'', url_host = Some (U ''gw''), url_username = None, url_password = None,
        url_query = [], url_fragment = []\<rparr>),
      gw_sha = (\<lambda>t. t), gw_now = 7, gw_writable = True, gw_request_id = replicate 32 48, gw_acquired = True,
      gw_to_int = (\<lambda>t. None), gw_parse = (\<lambda>bs. Some (JObj sample_answer)),
      gw_respond = (\<lambda>url body. Some \<lparr>rs_status = None, rs_length = None, rs_pieces = [[123], [125]], rs_broken = None\<rparr>)\<rparr>"

definition sample_gateway_state :: gateway_state where
  "sample_gateway_state = \<lparr>gs_audit = [], gs_sent = [], gs_cancelled = []\<rparr>"

theorem query_sends_only_guarded_witness:
  "case query sample_gateway_world sample_gateway (U ''t1'') (U ''select top (5) a from t'') [] sample_gateway_state of
     (r, s') \<Rightarrow>
       length (gs_sent s') = 1 \<and> r = Inr (Some sample_answer) \<and> fld sample_answer ''requestId'' = JStr (replicate 32 48)"
proof -
  let ?q = "query sample_gateway_world sample_gateway (U ''t1'') (U ''select top (5) a from t'') [] sample_gateway_state"
  obtain r s' where q: "?q = (r, s')" by (cases ?q)
  have "fst ?q = Inr (Some sample_answer)" by code_simp
  then have r: "r = Inr (Some sample_answer)" using q by simp
  have "may_send sample_gateway_world sample_gateway (U ''t1'') (U ''select top (5) a from t'') []" by code_simp
  then show ?thesis
    using query_sends_only_guarded[OF q] r unfolding q by (simp add: sample_gateway_state_def sample_gateway_world_def)
qed

end
