(* ===== verification/Schema_Sources.thy ===== *)
theory Schema_Sources
  imports SQL_Gateway SQL_Safe Context_Blocks
begin

text \<open>
  The tables that a change concerns (\<open>src/server/context/db_schema_source.py\<close>), their definitions as rendered from the
  catalogue of a live database (\<open>src/server/context/live_mssql_source.py\<close>), and the provider that wraps a source
  (\<open>src/server/context/source_provider.py\<close>).  \<open>w\<close> is the class \<open>\w\<close> of \<open>re\<close>; files and the gateway answer from outside.
\<close>

section \<open>Reading a dump line by line\<close>

definition MAX_TABLES :: nat where
  "MAX_TABLES = 20"

text \<open>\<open>re.sub(r"--.*", "", line)\<close>: the dot stops at a line feed only.\<close>

function drop_comment :: "pystr \<Rightarrow> pystr" where
  "drop_comment [] = []"
| "drop_comment (c # s) =
     (if startswith (c # s) (U ''--'') then drop_comment (dropWhile (\<lambda>x. x \<noteq> 10) s) else c # drop_comment s)"
  by pat_completeness auto
termination
  by (relation "measure length") (auto simp: le_imp_less_Suc length_dropWhile_le)

definition terminates :: "pystr \<Rightarrow> bool" where
  "terminates line \<longleftrightarrow>
     startswith (lstrip line) (U '')'') \<or> endswith (rstrip_by is_space (drop_comment line)) (U '';'')"

text \<open>A word with an optional quote on either side, and the rest.\<close>

definition quoted_word :: "(int \<Rightarrow> bool) \<Rightarrow> pystr \<Rightarrow> (pystr \<times> pystr) option" where
  "quoted_word w s =
     (let q = (if s \<noteq> [] \<and> hd s \<in> {96, 34, 91} then [hd s] else []);
          r = drop (length q) s;
          v = takeWhile w r;
          r1 = drop (length v) r;
          q2 = (if r1 \<noteq> [] \<and> hd r1 \<in> {96, 34, 93} then [hd r1] else [])
      in if v = [] then None else Some (q @ v @ q2, drop (length q2) r1))"

definition qualified_word :: "(int \<Rightarrow> bool) \<Rightarrow> pystr \<Rightarrow> pystr option" where
  "qualified_word w s =
     (case quoted_word w s of
        None \<Rightarrow> None
      | Some (a, r) \<Rightarrow>
          (if r \<noteq> [] \<and> hd r = 46
           then (case quoted_word w (tl r) of None \<Rightarrow> Some a | Some (b, r2) \<Rightarrow> Some (a @ [46] @ b))
           else Some a))"

fun match_words :: "string list \<Rightarrow> pystr \<Rightarrow> pystr option" where
  "match_words [] s = Some s"
| "match_words (k # ks) s =
     (case match_ci (U k) s of
        None \<Rightarrow> None
      | Some r \<Rightarrow> (case some_space r of None \<Rightarrow> None | Some r1 \<Rightarrow> match_words ks r1))"

definition header_group :: "(int \<Rightarrow> bool) \<Rightarrow> pystr \<Rightarrow> pystr option" where
  "header_group w line =
     (case match_words [''create'', ''table''] (skip_space line) of
        None \<Rightarrow> None
      | Some r \<Rightarrow>
          (case (case match_words [''if'', ''not'', ''exists''] r of None \<Rightarrow> None | Some r1 \<Rightarrow> qualified_word w r1) of
             Some g \<Rightarrow> Some g
           | None \<Rightarrow> qualified_word w r))"

definition strip_chars :: "int set \<Rightarrow> pystr \<Rightarrow> pystr" where
  "strip_chars cs s = rstrip_by (\<lambda>c. c \<in> cs) (dropWhile (\<lambda>c. c \<in> cs) s)"

definition header_name :: "(int \<Rightarrow> bool) \<Rightarrow> pystr \<Rightarrow> pystr option" where
  "header_name w line = map_option (\<lambda>g. strip_chars {96, 34, 91, 93,
    32} (last (split_on 46 g))) (header_group w line)"

text \<open>The lines of one statement: up to the first that terminates it, or to the end.\<close>

definition take_statement :: "pystr list \<Rightarrow> pystr list \<times> pystr list" where
  "take_statement ls =
     (let n = length (takeWhile (\<lambda>l. \<not> terminates l) ls) in (take (Suc n) ls, drop (Suc n) ls))"

lemma take_statement_shorter: "take_statement (l # ls) = (stmt, rest) \<Longrightarrow> length rest < Suc (length ls)"
  by (auto simp: take_statement_def Let_def)

function parse_lines :: "(int \<Rightarrow> bool) \<Rightarrow> pystr list \<Rightarrow> (pystr \<times> pystr) list" where
  "parse_lines w [] = []"
| "parse_lines w (l # ls) =
     (case header_name w l of
        None \<Rightarrow> parse_lines w ls
      | Some name \<Rightarrow>
          (let (stmt, rest) = take_statement (l # ls)
           in (if name = [] then [] else [(name, concat stmt)]) @ parse_lines w rest))"
  by pat_completeness auto
termination
  by (relation "measure (\<lambda>(w, ls). length ls)") (auto simp: take_statement_def Let_def)

definition parse_tables :: "(int \<Rightarrow> bool) \<Rightarrow> pystr \<Rightarrow> (pystr \<times> pystr) list" where
  "parse_tables w ddl = parse_lines w (splitlines_keep ddl)"

section \<open>Which tables a change concerns\<close>

definition token_char :: "int \<Rightarrow> bool" where
  "token_char c \<longleftrightarrow> 97 \<le> c \<and> c \<le> 122 \<or> 48 \<le> c \<and> c \<le> 57"

fun camel_split :: "pystr \<Rightarrow> pystr" where
  "camel_split (c # d # s) =
     (if token_char c \<and> 65 \<le> d \<and> d \<le> 90 then c # 32 # camel_split (d # s) else c # camel_split (d # s))"
| "camel_split s = s"

definition singular :: "pystr \<Rightarrow> pystr" where
  "singular t = (if length t > 3 \<and> endswith t (U ''s'') then butlast t else t)"

function token_runs :: "pystr \<Rightarrow> pystr list" where
  "token_runs [] = []"
| "token_runs (c # s) =
     (if token_char c then (c # takeWhile token_char s) # token_runs (dropWhile token_char s) else token_runs s)"
  by pat_completeness auto
termination
  by (relation "measure length") (auto simp: le_imp_less_Suc length_dropWhile_le)

definition tokens :: "pystr \<Rightarrow> pystr set" where
  "tokens t = set (map singular (token_runs (lower (camel_split t))))"

definition concerns :: "pystr list \<Rightarrow> pystr \<Rightarrow> bool" where
  "concerns files name \<longleftrightarrow> tokens name \<noteq> {} \<and> list_ex (\<lambda>f. tokens name \<subseteq> tokens f) files"

definition picked_statements :: "(int \<Rightarrow> bool) \<Rightarrow> pystr \<Rightarrow> pystr list \<Rightarrow> pystr list" where
  "picked_statements w ddl files = map snd (filter (\<lambda>(name, stmt). concerns files name) (parse_tables w ddl))"

definition related_schema :: "(int \<Rightarrow> bool) \<Rightarrow> pystr \<Rightarrow> pystr list \<Rightarrow> pystr" where
  "related_schema w ddl files =
     (if ddl = [] \<or> files = [] then [] else join_text [10, 10] (take MAX_TABLES (picked_statements w ddl files)))"

text \<open>The source over a checked-in dump; reading the confined file is an argument.\<close>

definition file_schema :: "(int \<Rightarrow> bool) \<Rightarrow> pystr option \<Rightarrow> pystr list \<Rightarrow> pystr" where
  "file_schema w dump files = related_schema w (case dump of None \<Rightarrow> [] | Some t \<Rightarrow> t) files"

section \<open>Definitions rendered from the catalogue\<close>

definition MAX_LIVE_ROWS :: int where
  "MAX_LIVE_ROWS = 1000"

definition EXPECTED_COLUMNS :: "pystr list" where
  "EXPECTED_COLUMNS = map U
     [''table_schema'', ''table_name'', ''column_name'', ''data_type'', ''max_length'', ''numeric_precision'',
      ''numeric_scale'', ''is_nullable'', ''ordinal_position'']"

definition catalog_ident :: "pystr \<Rightarrow> bool" where
  "catalog_ident s \<longleftrightarrow> s \<noteq> [] \<and> length s \<le> 128 \<and> ident_start (hd s) \<and> list_all (\<lambda>c. ident_char c \<or> c = 36) (tl s)"

definition ascii_letter :: "int \<Rightarrow> bool" where
  "ascii_letter c \<longleftrightarrow> 65 \<le> c \<and> c \<le> 90 \<or> 97 \<le> c \<and> c \<le> 122"

definition catalog_type :: "pystr \<Rightarrow> bool" where
  "catalog_type s \<longleftrightarrow> s \<noteq> [] \<and> length s \<le> 64 \<and> ascii_letter (hd s) \<and> list_all ident_char (tl s)"

definition CHAR_TYPES :: "pystr list" where
  "CHAR_TYPES = map U [''char'', ''nchar'', ''varchar'', ''nvarchar'', ''binary'', ''varbinary'']"

definition DECIMAL_TYPES :: "pystr list" where
  "DECIMAL_TYPES = map U [''decimal'', ''numeric'']"

text \<open>\<open>int()\<close> of a value of the response, inside the bounds; \<open>to_int\<close> reads a text.  Infinity raises.\<close>

definition bounded_int :: "(pystr \<Rightarrow> int option) \<Rightarrow> json \<Rightarrow> int \<Rightarrow> int \<Rightarrow> exn + int option" where
  "bounded_int to_int v lo hi =
     (let inside = (\<lambda>n. Inr (if lo \<le> n \<and> n \<le> hi then Some n else None))
      in case v of
           JInt n \<Rightarrow> inside n
         | JNum q \<Rightarrow> inside (truncate_rat q)
         | JStr t \<Rightarrow> (case to_int t of None \<Rightarrow> Inr None | Some n \<Rightarrow> inside n)
         | JInf b \<Rightarrow> Inl (OtherError (U ''OverflowError'') (U ''cannot convert float infinity to integer''))
         | _ \<Rightarrow> Inr None)"

definition type_sql :: "(pystr \<Rightarrow> int option) \<Rightarrow> pystr \<Rightarrow> json \<Rightarrow> json \<Rightarrow> json \<Rightarrow> exn + pystr" where
  "type_sql to_int ty max_length precision scale =
     ebind (if lower ty \<in> set CHAR_TYPES then bounded_int to_int max_length (-1) 1000000 else Inr None) (\<lambda>len.
       case len of
         Some n \<Rightarrow> if n = -1 then Inr (ty @ U ''(MAX)'')
                   else if n > 0 then Inr (ty @ U ''('' @ int_text n @ U '')'') else Inr ty
       | None \<Rightarrow>
           if lower ty \<in> set DECIMAL_TYPES then
             ebind (bounded_int to_int precision 1 38) (\<lambda>p.
             ebind (bounded_int to_int scale 0 38) (\<lambda>sc.
               case (p, sc) of
                 (Some a, Some b) \<Rightarrow>
                   if b \<le> a then Inr (ty @ U ''('' @ int_text a @ U '','' @ int_text b @ U '')'') else Inr ty
               | _ \<Rightarrow> Inr ty))
           else Inr ty)"

text \<open>\<open>str(v).upper() == "YES"\<close>: only a text can read so; U+017F has the upper case S.\<close>

fun says_yes :: "json \<Rightarrow> bool" where
  "says_yes (JStr [a, b, c]) = (a \<in> {89, 121} \<and> b \<in> {69, 101} \<and> c \<in> {83, 115, 383})"
| "says_yes _ = False"

fun text_of_json :: "json \<Rightarrow> pystr option" where
  "text_of_json (JStr s) = Some s"
| "text_of_json _ = None"

definition column_line :: "pystr \<Rightarrow> pystr \<Rightarrow> bool \<Rightarrow> pystr" where
  "column_line column ty nullable =
     U ''  ['' @ column @ U ''] '' @ ty @ U '' '' @ (if nullable then U ''NULL'' else U ''NOT NULL'')"

text \<open>The line of a row, with the table it belongs to; \<open>None\<close> for a row that is skipped.\<close>

definition catalog_row :: "(pystr \<Rightarrow> int option) \<Rightarrow> (pystr \<times> json) list \<Rightarrow> exn + ((pystr \<times> pystr) \<times> pystr) option" where
  "catalog_row to_int o1 =
     (case (text_of_json (fld o1 ''table_schema''), text_of_json (fld o1 ''table_name''), text_of_json (fld o1 ''column_name''),
            text_of_json (fld o1 ''data_type'')) of
        (Some schema, Some tbl, Some column, Some ty) \<Rightarrow>
          if catalog_ident schema \<and> catalog_ident tbl \<and> catalog_ident column \<and> catalog_type ty then
            ebind (type_sql to_int ty (fld o1 ''max_length'') (fld o1 ''numeric_precision'') (fld o1 ''numeric_scale'')) (\<lambda>t.
              Inr (Some ((schema, tbl), column_line column t (says_yes (fld o1 ''is_nullable'')))))
          else Inr None
      | _ \<Rightarrow> Inr None)"

definition table_statement :: "(pystr \<times> pystr) \<times> pystr list \<Rightarrow> pystr" where
  "table_statement = (\<lambda>((schema, tbl), columns).
     U ''CREATE TABLE ['' @ schema @ U ''].['' @ tbl @ U ''] ('' @ [10] @ join_text (U '','' @ [10]) columns @ [10] @ U '');'')"

definition catalog_tables :: "((pystr \<times> pystr) \<times> pystr) option list \<Rightarrow> ((pystr \<times> pystr) \<times> pystr list) list" where
  "catalog_tables rs = map (\<lambda>(k, vs). (k, map snd vs)) (group_by fst (List.map_filter (\<lambda>r. r) rs))"

definition render_schema :: "(pystr \<Rightarrow> int option) \<Rightarrow> (pystr \<times> json) list list \<Rightarrow> exn + pystr" where
  "render_schema to_int rws =
     ebind (emap (catalog_row to_int) rws) (\<lambda>rs. Inr (join_text [10,
       10] (map table_statement (catalog_tables rs))))"

text \<open>The query of the catalogue, and what is taken from its answer.\<close>

definition SCHEMA_QUERY :: pystr where
  "SCHEMA_QUERY = join_text [10] (map U
     [''SELECT TOP (@limit)'', ''  c.TABLE_SCHEMA AS table_schema,'', ''  c.TABLE_NAME AS table_name,'',
      ''  c.COLUMN_NAME AS column_name,'', ''  c.DATA_TYPE AS data_type,'', ''  c.CHARACTER_MAXIMUM_LENGTH AS max_length,'',
      ''  c.NUMERIC_PRECISION AS numeric_precision,'', ''  c.NUMERIC_SCALE AS numeric_scale,'', ''  c.IS_NULLABLE AS is_nullable,'',
      ''  c.ORDINAL_POSITION AS ordinal_position'', ''FROM INFORMATION_SCHEMA.COLUMNS AS c'',
      ''JOIN INFORMATION_SCHEMA.TABLES AS t'', ''  ON t.TABLE_SCHEMA = c.TABLE_SCHEMA AND t.TABLE_NAME = c.TABLE_NAME'',
      ''WHERE t.TABLE_TYPE = '' @ [CHR 39] @ ''BASE TABLE'' @ [CHR 39],
      ''  AND c.TABLE_SCHEMA NOT IN ('' @ [CHR 39] @ ''sys'' @ [CHR 39] @ '', '' @ [CHR 39] @ ''INFORMATION_SCHEMA'' @ [CHR 39] @ '')'',
      ''ORDER BY c.TABLE_SCHEMA, c.TABLE_NAME, c.ORDINAL_POSITION''])"

fun column_names :: "json list \<Rightarrow> json list" where
  "column_names [] = []"
| "column_names (JObj o1 # vs) = fld o1 ''name'' # column_names vs"
| "column_names (v # vs) = column_names vs"

fun row_values :: "nat \<Rightarrow> json list \<Rightarrow> json list list option" where
  "row_values n [] = Some []"
| "row_values n (JList vs # rs) = (if length vs = n then map_option ((#) vs) (row_values n rs) else None)"
| "row_values n (v # rs) = None"

definition schema_of_answer :: "(pystr \<Rightarrow> int option) \<Rightarrow> (pystr \<times> json) list \<Rightarrow> exn + pystr" where
  "schema_of_answer to_int o1 =
     (case (fld o1 ''columns'', fld o1 ''rows'') of
        (JList cols, JList rws) \<Rightarrow>
          if column_names cols \<noteq> map JStr EXPECTED_COLUMNS then Inr []
          else (case row_values (length EXPECTED_COLUMNS) rws of
                  None \<Rightarrow> Inr []
                | Some vss \<Rightarrow> render_schema to_int (map (zip EXPECTED_COLUMNS) vss))
      | _ \<Rightarrow> Inr [])"

definition fetch_schema ::
  "gateway_world \<Rightarrow> gateway_client \<Rightarrow> pystr \<Rightarrow> gateway_state \<Rightarrow> (exn + pystr) \<times> gateway_state" where
  "fetch_schema g c target s =
     (if \<not> valid_target_id target then (Inr [], s)
      else (case query g c target SCHEMA_QUERY [(U ''limit'', JInt MAX_LIVE_ROWS)] s of
              (Inl e, s') \<Rightarrow> (Inl e, s')
            | (Inr None, s') \<Rightarrow> (Inr [], s')
            | (Inr (Some o1), s') \<Rightarrow> (if o1 = [] then Inr [] else schema_of_answer (gw_to_int g) o1, s')))"

definition live_schema ::
  "(int \<Rightarrow> bool) \<Rightarrow> gateway_world \<Rightarrow> gateway_client \<Rightarrow> pystr \<Rightarrow> pystr list \<Rightarrow> gateway_state \<Rightarrow> (exn + pystr) \<times> gateway_state" where
  "live_schema w g c target files s =
     (case fetch_schema g c target s of
        (Inl e, s') \<Rightarrow> (Inl e, s')
      | (Inr ddl, s') \<Rightarrow> (Inr (if ddl = [] then [] else related_schema w ddl files), s'))"

section \<open>The provider around a source\<close>

text \<open>Several sources as one: the outputs that are not blank, whatever the others raise.\<close>

definition source_output :: "exn + pystr \<Rightarrow> pystr" where
  "source_output r = (case r of Inl e \<Rightarrow> [] | Inr t \<Rightarrow> t)"

definition compose_sources :: "(exn + pystr) option list \<Rightarrow> pystr option" where
  "compose_sources srcs =
     (let live = List.map_filter (\<lambda>s. s) srcs
      in if live = [] then None
         else Some (join_text [10, 10] (filter (\<lambda>t. strip t \<noteq> []) (map source_output live))))"

definition SOURCE_BLOCK_POLICY :: "(pystr \<times> int \<times> bool \<times> pystr \<times> pystr \<times> pystr) list" where
  "SOURCE_BLOCK_POLICY =
     [(U ''review_rules'', 10, False, U ''authorized_human'', U ''internal'', U ''review_history''),
      (U ''team_feedback'', 20, False, U ''internal'', U ''internal'', U ''review_history''),
      (U ''db_schema'', 30, False, U ''internal'', U ''sensitive'', U ''manifest_only''),
      (U ''graphify'', 60, True, U ''trusted_repo'', U ''internal'', U ''manifest_only'')]"


definition source_block :: "pystr \<Rightarrow> pystr \<Rightarrow> pystr list \<Rightarrow> context_block" where
  "source_block name t files =
     (case (case map_of SOURCE_BLOCK_POLICY name of
              Some p \<Rightarrow> p | None \<Rightarrow> (99, False, U ''untrusted_external'', U ''sensitive'', U ''short'')) of
        (priority, recoverable, trust, sensitivity, retention) \<Rightarrow>
          \<lparr>cb_source = name, cb_id = name @ U '':0'', cb_text = t, cb_priority = priority, cb_recoverable = recoverable,
           cb_trust = trust, cb_sensitivity = sensitivity, cb_retention = retention, cb_files = files\<rparr>)"

text \<open>\<open>None\<close>: no source was configured.\<close>

definition source_result :: "pystr \<Rightarrow> (exn + pystr) option \<Rightarrow> pystr list \<Rightarrow> context_result" where
  "source_result name src files =
     (let base = \<lparr>cx_provider = name, cx_status = U ''empty'', cx_text = [], cx_meta = [], cx_error = None, cx_blocks = []\<rparr>
      in case src of
           None \<Rightarrow> base\<lparr>cx_status := U ''skipped''\<rparr>
         | Some (Inl e) \<Rightarrow> base
         | Some (Inr t) \<Rightarrow>
             if strip t = [] then base\<lparr>cx_text := t\<rparr>
             else base\<lparr>cx_status := U ''ok'', cx_text := t, cx_blocks := [source_block name t files]\<rparr>)"

section \<open>Statements are cut out of the dump whole\<close>

lemma take_statement_append: "take_statement ls = (a, b) \<Longrightarrow> ls = a @ b"
  by (auto simp: take_statement_def Let_def)

text \<open>The statements of the tables stand in the dump one behind the other, without overlap.\<close>

inductive in_order :: "pystr list \<Rightarrow> pystr \<Rightarrow> bool" where
  No_more: "in_order [] s"
| Next: "in_order parts s \<Longrightarrow> in_order (p # parts) (u @ p @ s)"

lemma in_order_prepend: "in_order parts s \<Longrightarrow> in_order parts (u @ s)"
proof (induction arbitrary: u rule: in_order.induct)
  case (Next parts s p v)
  then show ?case using in_order.Next[OF Next.hyps, of p "u @ v"] by simp
qed (rule in_order.intros)

lemma in_order_filter: "in_order (map f xs) s \<Longrightarrow> in_order (map f (filter P xs)) s"
proof (induction xs arbitrary: s)
  case (Cons x xs)
  from Cons.prems obtain t u where s: "s = u @ f x @ t" "in_order (map f xs) t" by (auto elim: in_order.cases)
  then have rest: "in_order (map f (filter P xs)) t" using Cons.IH by blast
  show ?case
  proof (cases "P x")
    case True
    then show ?thesis using in_order.Next[OF rest, of "f x" u] s(1) by simp
  next
    case False
    then show ?thesis using in_order_prepend[OF rest, of "u @ f x"] s(1) by simp
  qed
qed simp

lemma in_order_take: "in_order parts s \<Longrightarrow> in_order (take n parts) s"
proof (induction arbitrary: n rule: in_order.induct)
  case (Next parts s p u)
  then show ?case by (cases n) (auto intro: in_order.intros)
qed (simp add: in_order.intros)

lemma parse_lines_in_order: "in_order (map snd (parse_lines w ls)) (concat ls)"
proof (induction w ls rule: parse_lines.induct)
  case (2 w l ls)
  show ?case
  proof (cases "header_name w l")
    case None
    then show ?thesis using 2(1) in_order_prepend[of _ "concat ls" l] by simp
  next
    case (Some name)
    obtain stmt rest where cut_here: "take_statement (l # ls) = (stmt, rest)" by (cases "take_statement (l # ls)")
    have "in_order (map snd (parse_lines w rest)) (concat rest)" using 2(2)[OF Some cut_here[symmetric]] by blast
    moreover have "concat (l # ls) = concat stmt @ concat rest"
      using take_statement_append[OF cut_here] by (metis concat_append)
    ultimately show ?thesis
      using in_order.Next[of "map snd (parse_lines w rest)" "concat rest" "concat stmt" "[]"]
        in_order_prepend[of "map snd (parse_lines w rest)" "concat rest" "concat stmt"] Some cut_here
      by simp
  qed
qed (simp add: in_order.intros)

lemma related_in_order: "in_order (take MAX_TABLES (picked_statements w ddl files)) ddl"
proof -
  have "in_order (map snd (parse_tables w ddl)) ddl"
    using parse_lines_in_order[of w "splitlines_keep ddl"] by (simp add: parse_tables_def)
  then show ?thesis unfolding picked_statements_def by (intro in_order_take in_order_filter)
qed


section \<open>What is rendered is found again\<close>

definition no_line_end :: "pystr \<Rightarrow> bool" where
  "no_line_end l \<longleftrightarrow> list_all (\<lambda>c. c \<notin> set line_ends) l"

lemma splitlines_go_line:
  "no_line_end l \<Longrightarrow> splitlines_go acc (l @ 10 # r) = (rev acc @ l @ [10]) # splitlines_go [] r"
proof (induction l arbitrary: acc)
  case Nil
  then show ?case by (simp add: line_ends_def)
next
  case (Cons c l)
  then have c: "c \<notin> set line_ends" "no_line_end l" by (simp_all add: no_line_end_def)
  then have "c \<noteq> 13" by (auto simp: line_ends_def)
  then show ?case using c Cons.IH[of "c # acc"] by simp
qed

lemma splitlines_keep_line: "no_line_end l \<Longrightarrow> splitlines_keep (l @ 10 # r) = (l @ [10]) # splitlines_keep r"
  using splitlines_go_line[of l "[]" r] by (simp add: splitlines_keep_def)

lemma splitlines_go_last: "no_line_end l \<Longrightarrow> splitlines_go acc l = (if rev acc @ l = [] then [] else [rev acc @ l])"
proof (induction l arbitrary: acc)
  case (Cons c l)
  then have c: "c \<notin> set line_ends" "no_line_end l" by (simp_all add: no_line_end_def)
  then have "c \<noteq> 13" by (auto simp: line_ends_def)
  then show ?case using c Cons.IH[of "c # acc"] by simp
qed simp

lemma splitlines_keep_last: "no_line_end l \<Longrightarrow> l \<noteq> [] \<Longrightarrow> splitlines_keep l = [l]"
  using splitlines_go_last[of l "[]"] by (simp add: splitlines_keep_def)

text \<open>A line of a column: two blanks and a bracket first, no semicolon at the end.\<close>

definition column_shape :: "pystr \<Rightarrow> bool" where
  "column_shape l \<longleftrightarrow> no_line_end l \<and> (\<exists>r. l = 32 # 32 # 91 # r) \<and> 59 \<notin> set l"

lemma drop_comment_subset: "set (drop_comment l) \<subseteq> set l"
proof (induction l rule: drop_comment.induct)
  case (2 c s)
  then show ?case using set_dropWhileD[of _ "\<lambda>x. x \<noteq> 10" s] by auto
qed simp

lemma rstrip_subset: "set (rstrip_by P s) \<subseteq> set s"
  using set_dropWhileD[of _ P "rev s"] by (auto simp: rstrip_by_def)

lemma endswith_set: "endswith s (U '';'') \<Longrightarrow> 59 \<in> set s"
  by (auto simp: endswith_def U_def) (metis in_set_dropD list.set_intros(1))

lemma not_terminating: "59 \<notin> set l \<Longrightarrow> l = u @ c # r \<Longrightarrow> list_all is_space u \<Longrightarrow> \<not> is_space c \<Longrightarrow> c \<noteq> 41 \<Longrightarrow> \<not> terminates l"
proof -
  assume l: "59 \<notin> set l" "l = u @ c # r" "list_all is_space u" "\<not> is_space c" "c \<noteq> 41"
  have "lstrip l = c # r" using skip_space_append[OF l(3), of "c # r"] l(2,4) by (simp add: lstrip_def skip_space_def)
  moreover have "59 \<notin> set (rstrip_by is_space (drop_comment l))" using l(1) drop_comment_subset rstrip_subset by blast
  ultimately show ?thesis using l(5) endswith_set by (auto simp: terminates_def startswith_def U_def)
qed

lemma column_not_terminating: "column_shape l \<Longrightarrow> e \<in> {[44, 10], [10]} \<Longrightarrow> \<not> terminates (l @ e)"
proof -
  assume l: "column_shape l" and e: "e \<in> {[44, 10], [10]}"
  then obtain r where r: "l = 32 # 32 # 91 # r" by (auto simp: column_shape_def)
  show ?thesis
    by (rule not_terminating[where u = "[32, 32]" and c = 91 and r = "r @ e"])
      (use l e r in \<open>auto simp: column_shape_def is_space_def spaces_def\<close>)
qed

definition plain_ident :: "pystr \<Rightarrow> bool" where
  "plain_ident s \<longleftrightarrow> s \<noteq> [] \<and> list_all ident_char s"

definition word_class :: "(int \<Rightarrow> bool) \<Rightarrow> bool" where
  "word_class w \<longleftrightarrow> (\<forall>c. ident_char c \<longrightarrow> w c) \<and> \<not> w 93"

lemma takeWhile_word: "word_class w \<Longrightarrow> list_all ident_char s \<Longrightarrow> takeWhile w (s @ 93 # r) = s"
  by (induction s) (auto simp: word_class_def)

lemma quoted_word_bracket:
  "word_class w \<Longrightarrow> plain_ident s \<Longrightarrow> quoted_word w (91 # s @ 93 # r) = Some (91 # s @ [93], r)"
  using takeWhile_word[of w s r] by (simp add: quoted_word_def plain_ident_def Let_def)

definition header_line :: "pystr \<Rightarrow> pystr \<Rightarrow> pystr" where
  "header_line schema tbl = U ''CREATE TABLE ['' @ schema @ U ''].['' @ tbl @ U ''] (''"

lemma ident_not: "ident_char c \<Longrightarrow> c \<notin> {46, 96, 34, 91, 93, 32, 10, 59, 40, 41,
  45} \<and> c \<notin> set line_ends"
  unfolding ident_char_def ident_start_def line_ends_def by auto

lemma split_on_free: "d \<notin> set s \<Longrightarrow> split_on d s = [s]"
  by (induction s) auto

lemma plain_ident_free: "plain_ident s \<Longrightarrow> x \<in> {46, 96, 34, 91, 93, 32, 10, 59, 40, 41,
  45} \<Longrightarrow> x \<notin> set s"
  using ident_not unfolding plain_ident_def list_all_iff by blast

lemma strip_brackets: "plain_ident t \<Longrightarrow> strip_chars {96, 34, 91, 93, 32} (91 # t @ [93]) = t"
proof -
  assume t: "plain_ident t"
  then obtain c u where c: "t = c # u" by (cases t) (auto simp: plain_ident_def)
  obtain b x where b: "t = b @ [x]" using c by (metis list.distinct(1) rev_exhaust)
  have "c \<in> set t" using c by simp
  moreover have "x \<in> set t" using b by simp
  ultimately have ident: "ident_char c" "ident_char x" using t by (auto simp: plain_ident_def list_all_iff)
  have "c \<notin> {96, 34, 91, 93, 32}" "x \<notin> {96, 34, 91, 93, 32}"
    using ident_not[of c] ident_not[of x] ident by simp_all
  then have "dropWhile (\<lambda>c. c \<in> {96, 34, 91, 93, 32}) (91 # t @ [93]) = t @ [93]"
    "dropWhile (\<lambda>c. c \<in> {96, 34, 91, 93, 32}) (93 # x # rev b) = x # rev b"
    using c by simp_all
  then show ?thesis using b by (simp add: strip_chars_def rstrip_by_def)
qed

lemma header_found:
  assumes "word_class w" "plain_ident schema" "plain_ident tbl"
  shows "header_name w (header_line schema tbl @ [10]) = Some tbl"
proof -
  let ?rest = "91 # schema @ 93 # 46 # 91 # tbl @ 93 # U '' ('' @ [10]"
  have line: "header_line schema tbl @ [10] = U ''CREATE TABLE '' @ ?rest" by (simp add: header_line_def U_def)
  have "match_words [''create'', ''table''] (skip_space (U ''CREATE TABLE '' @ ?rest)) = Some ?rest"
    by (simp add: U_def skip_space_def is_space_def spaces_def same_letter_def some_space_def)
  moreover have "match_words [''if'', ''not'', ''exists''] ?rest = None" by (simp add: U_def same_letter_def)
  moreover have "qualified_word w ?rest = Some (91 # schema @ 93 # 46 # 91 # tbl @ [93])"
    using quoted_word_bracket[OF assms(1,2), of "46 # 91 # tbl @ 93 # U '' ('' @ [10]"]
      quoted_word_bracket[OF assms(1,3), of "U '' ('' @ [10]"]
    by (simp add: qualified_word_def)
  moreover have "split_on 46 (91 # schema @ 93 # 46 # 91 # tbl @ [93]) = [91 # schema @ [93], 91 # tbl @ [93]]"
    using split_on_append[of 46 "91 # schema @ [93]" "91 # tbl @ [93]"] split_on_free[of 46 "91 # tbl @ [93]"]
      plain_ident_free[OF assms(2), of 46] plain_ident_free[OF assms(3), of 46]
    by simp
  ultimately show ?thesis
    using strip_brackets[OF assms(3)] unfolding line header_name_def header_group_def by simp
qed


fun column_lines :: "pystr list \<Rightarrow> pystr list" where
  "column_lines [] = []"
| "column_lines [c] = [c @ [10]]"
| "column_lines (c # d # cs) = (c @ [44, 10]) # column_lines (d # cs)"

lemma no_line_end_append: "no_line_end (a @ b) = (no_line_end a \<and> no_line_end b)"
  by (simp add: no_line_end_def)

lemma split_columns:
  "cols \<noteq> [] \<Longrightarrow> list_all column_shape cols \<Longrightarrow>
     splitlines_keep (join_text [44, 10] cols @ 10 # r) = column_lines cols @ splitlines_keep r"
proof (induction cols rule: column_lines.induct)
  case (2 c)
  then show ?case using splitlines_keep_line[of c r] by (simp add: column_shape_def)
next
  case (3 c d cs)
  have "no_line_end (c @ [44])" using 3(3) by (simp add: column_shape_def no_line_end_def line_ends_def)
  from splitlines_keep_line[OF this, of "join_text [44, 10] (d # cs) @ 10 # r"] show ?case using 3 by simp
qed simp

lemma column_lines_quiet: "list_all column_shape cols \<Longrightarrow> \<forall>l \<in> set (column_lines cols). \<not> terminates l"
  by (induction cols rule: column_lines.induct) (auto simp: column_not_terminating)

lemma ident_no_line_end: "plain_ident s \<Longrightarrow> no_line_end s"
  using ident_not by (auto simp: plain_ident_def no_line_end_def list_all_iff)

lemma header_no_line_end: "plain_ident schema \<Longrightarrow> plain_ident tbl \<Longrightarrow> no_line_end (header_line schema tbl)"
  using ident_no_line_end[of schema] ident_no_line_end[of tbl]
  by (simp add: header_line_def no_line_end_def U_def line_ends_def)

lemma header_not_terminating: "plain_ident schema \<Longrightarrow> plain_ident tbl \<Longrightarrow> \<not> terminates (header_line schema tbl @ [10])"
  using plain_ident_free[of schema 59] plain_ident_free[of tbl 59]
  by (intro not_terminating[where u = "[]" and c = 67 and r = "drop 1 (header_line schema tbl @ [10])"])
    (auto simp: header_line_def U_def is_space_def spaces_def)

definition close_line :: pystr where
  "close_line = U '');''"

lemma close_terminates: "terminates (close_line @ r)"
  by (simp add: close_line_def terminates_def lstrip_def is_space_def spaces_def startswith_def U_def)

definition statement_lines :: "pystr \<Rightarrow> pystr \<Rightarrow> pystr list \<Rightarrow> pystr \<Rightarrow> pystr list" where
  "statement_lines schema tbl cols close = (header_line schema tbl @ [10]) # column_lines cols @ [close]"

lemma parse_statement:
  assumes "word_class w" "plain_ident schema" "plain_ident tbl" "list_all column_shape cols"
  shows "parse_lines w (statement_lines schema tbl cols (close_line @ r) @ ls) =
    (tbl, concat (statement_lines schema tbl cols (close_line @ r))) # parse_lines w ls"
proof -
  let ?h = "header_line schema tbl @ [10]"
  have "takeWhile (\<lambda>l. \<not> terminates l) (?h # column_lines cols @ (close_line @ r) # ls) = ?h # column_lines cols"
    using header_not_terminating[OF assms(2,3)] column_lines_quiet[OF assms(4)] close_terminates[of r]
    by (simp add: takeWhile_append)
  then have "take_statement (?h # column_lines cols @ (close_line @ r) # ls) =
      (?h # column_lines cols @ [close_line @ r], ls)"
    by (simp add: take_statement_def Let_def)
  then show ?thesis
    using header_found[OF assms(1-3)] assms(3) by (simp add: statement_lines_def plain_ident_def)
qed

definition plain_table :: "(pystr \<times> pystr) \<times> pystr list \<Rightarrow> bool" where
  "plain_table = (\<lambda>((schema, tbl), cols). plain_ident schema \<and> plain_ident tbl \<and> cols \<noteq> [] \<and> list_all column_shape cols)"

lemma table_statement_eq:
  "table_statement ((schema, tbl), cols) = header_line schema tbl @ 10 # join_text [44, 10] cols @ 10 # close_line"
  by (simp add: table_statement_def header_line_def close_line_def U_def)

lemma close_no_line_end: "no_line_end close_line" "close_line \<noteq> []"
  by (simp_all add: close_line_def no_line_end_def U_def line_ends_def)

lemma split_statement:
  assumes "plain_table ((schema, tbl), cols)"
  shows "splitlines_keep (table_statement ((schema, tbl), cols)) = statement_lines schema tbl cols close_line"
    "splitlines_keep (table_statement ((schema, tbl), cols) @ 10 # r) =
       statement_lines schema tbl cols (close_line @ [10]) @ splitlines_keep r"
proof -
  have t: "plain_ident schema" "plain_ident tbl" "cols \<noteq> []" "list_all column_shape cols"
    using assms by (simp_all add: plain_table_def)
  note head = splitlines_keep_line[OF header_no_line_end[OF t(1,2)]]
  show "splitlines_keep (table_statement ((schema, tbl), cols)) = statement_lines schema tbl cols close_line"
    unfolding table_statement_eq statement_lines_def
    using head[of "join_text [44, 10] cols @ 10 # close_line"] split_columns[OF t(3,4), of close_line]
      splitlines_keep_last[OF close_no_line_end] by simp
  show "splitlines_keep (table_statement ((schema, tbl), cols) @ 10 # r) =
       statement_lines schema tbl cols (close_line @ [10]) @ splitlines_keep r"
    unfolding table_statement_eq statement_lines_def
    using head[of "join_text [44, 10] cols @ 10 # close_line @ 10 # r"] split_columns[OF t(3,4), of "close_line @ 10 # r"]
      splitlines_keep_line[OF close_no_line_end(1), of r] by simp
qed

lemma concat_statement:
  assumes "plain_table ((schema, tbl), cols)"
  shows "concat (statement_lines schema tbl cols close_line) = table_statement ((schema, tbl), cols)"
    "concat (statement_lines schema tbl cols (close_line @ [10])) = table_statement ((schema, tbl), cols) @ [10]"
proof -
  show "concat (statement_lines schema tbl cols close_line) = table_statement ((schema, tbl), cols)"
    using split_statement(1)[OF assms] splitlines_keep_concat by metis
  have "concat (statement_lines schema tbl cols (close_line @ [10]) @ splitlines_keep []) = table_statement ((schema, tbl), cols) @ 10 # []"
    using split_statement(2)[OF assms, of "[]"] splitlines_keep_concat by metis
  then show "concat (statement_lines schema tbl cols (close_line @ [10])) = table_statement ((schema, tbl), cols) @ [10]"
    by (simp add: splitlines_keep_def)
qed

text \<open>The end of a line does not belong to the statement that the selector cuts out.\<close>

definition statements_of :: "(pystr \<times> pystr) list \<Rightarrow> (pystr \<times> pystr) list" where
  "statements_of ts = map (\<lambda>(name, stmt). (name, chop_line_end stmt)) ts"

lemma endswith_parts: "endswith s [a, b] \<Longrightarrow> \<exists>u. s = (u @ [a]) @ [b]"
  unfolding endswith_def by (metis append_Cons append_Nil append_assoc append_take_drop_id)

lemma chop_statement:
  "chop_line_end (table_statement k) = table_statement k" "chop_line_end (table_statement k @ [10]) = table_statement k"
proof -
  obtain schema tbl cols where k: "k = ((schema, tbl), cols)" by (metis prod.exhaust)
  let ?u = "header_line schema tbl @ 10 # join_text [44, 10] cols @ 10 # [41]"
  have t: "table_statement k = ?u @ [59]" by (simp add: k table_statement_eq close_line_def U_def)
  have "\<not> endswith (?u @ [59]) [13, 10]" "\<not> endswith ((?u @ [59]) @ [10]) [13, 10]"
    using endswith_parts[of "?u @ [59]" 13 10] endswith_parts[of "(?u @ [59]) @ [10]" 13 10] by auto
  then show "chop_line_end (table_statement k) = table_statement k" "chop_line_end (table_statement k @ [10]) = table_statement k"
    unfolding t chop_line_end_def by (simp_all add: line_ends_def butlast_append)
qed

lemma blank_line: "header_name w [10] = None"
  by (simp add: header_name_def header_group_def U_def skip_space_def is_space_def spaces_def)

lemma rendered_tables_parse:
  assumes "word_class w" "list_all plain_table ts"
  shows "statements_of (parse_tables w (join_text [10, 10] (map table_statement ts))) =
    map (\<lambda>k. (snd (fst k), table_statement k)) ts"
  using assms(2)
proof (induction ts)
  case Nil
  then show ?case by (simp add: statements_of_def parse_tables_def splitlines_keep_def)
next
  case (Cons k ts)
  obtain schema tbl cols where k: "k = ((schema, tbl), cols)" by (metis prod.exhaust)
  have plain: "plain_table ((schema, tbl), cols)" using Cons.prems k by simp
  then have ids: "plain_ident schema" "plain_ident tbl" "list_all column_shape cols" by (simp_all add: plain_table_def)
  note found = parse_statement[OF assms(1) ids]
  show ?case
  proof (cases ts)
    case Nil
    have "parse_tables w (table_statement k) = [(tbl, table_statement k)]"
      using found[of "[]" "[]"] split_statement(1)[OF plain] concat_statement(1)[OF plain] k by (simp add: parse_tables_def)
    then show ?thesis using Nil k by (simp add: statements_of_def chop_statement)
  next
    case (Cons k2 ts2)
    let ?rest = "join_text [10, 10] (map table_statement ts)"
    have "join_text [10, 10] (map table_statement (k # ts)) = table_statement k @ 10 # 10 # ?rest" using Cons by simp
    moreover have "splitlines_keep (10 # ?rest) = [10] # splitlines_keep ?rest"
      using splitlines_keep_line[of "[]" ?rest] by (simp add: no_line_end_def)
    ultimately have "parse_tables w (join_text [10, 10] (map table_statement (k # ts))) =
        (tbl, table_statement k @ [10]) # parse_tables w ?rest"
      using found[of "[10]" "[10] # splitlines_keep ?rest"] split_statement(2)[OF plain, of "10 # ?rest"]
        concat_statement(2)[OF plain] k blank_line[of w]
      by (simp add: parse_tables_def)
    then show ?thesis using Cons.IH Cons.prems k by (simp add: statements_of_def chop_statement)
  qed
qed


section \<open>Properties of the schema sources\<close>

definition type_char :: "int \<Rightarrow> bool" where
  "type_char c \<longleftrightarrow> ident_char c \<or> c \<in> {40, 41, 44, 77, 65, 88}"

lemma int_text_type_chars: "0 \<le> i \<Longrightarrow> c \<in> set (int_text i) \<Longrightarrow> type_char c"
  using nat_text_digits[of c "nat i"] by (auto simp: int_text_def type_char_def ident_char_def)

lemma bounded_int_range: "bounded_int to_int v lo hi = Inr (Some n) \<Longrightarrow> lo \<le> n \<and> n \<le> hi"
  by (auto simp: bounded_int_def Let_def split: json.splits option.splits if_splits)

lemma type_sql_chars:
  assumes "type_sql to_int ty a b d = Inr t" "list_all ident_char ty" "c \<in> set t"
  shows "type_char c"
proof -
  have ty: "type_char x" if "x \<in> set ty" for x using that assms(2) by (auto simp: type_char_def list_all_iff)
  obtain len where len: "(if lower ty \<in> set CHAR_TYPES then bounded_int to_int a (-1) 1000000 else Inr None) = Inr len"
    using assms(1) by (auto simp: type_sql_def ebind_Inr_iff)
  show ?thesis
  proof (cases len)
    case (Some n)
    then show ?thesis using assms(1,3) len ty int_text_type_chars[of n c]
      by (auto simp: type_sql_def U_def split: if_splits) (auto simp: type_char_def)
  next
    case None
    show ?thesis
    proof (cases "\<exists>p q. bounded_int to_int b 1 38 = Inr (Some p) \<and> bounded_int to_int d 0 38 = Inr (Some q) \<and>
        t = ty @ U ''('' @ int_text p @ U '','' @ int_text q @ U '')''")
      case True
      then obtain p q where pq: "bounded_int to_int b 1 38 = Inr (Some p)" "bounded_int to_int d 0 38 = Inr (Some q)"
        and t: "t = ty @ U ''('' @ int_text p @ U '','' @ int_text q @ U '')''" by blast
      have "0 \<le> p" "0 \<le> q" using bounded_int_range[OF pq(1)] bounded_int_range[OF pq(2)] by simp_all
      then show ?thesis using assms(3) ty int_text_type_chars[of p c] int_text_type_chars[of q c] unfolding t
        by (auto simp: U_def) (auto simp: type_char_def)
    next
      case False
      then have "t = ty" using assms(1) len None
        by (auto simp: type_sql_def ebind_Inr_iff split: if_splits option.splits)
      then show ?thesis using ty assms(3) by simp
    qed
  qed
qed

definition quiet_char :: "int \<Rightarrow> bool" where
  "quiet_char c \<longleftrightarrow> c \<noteq> 59 \<and> c \<notin> set line_ends"

lemma ident_quiet: "ident_char c \<Longrightarrow> quiet_char c"
  using ident_not[of c] by (simp add: quiet_char_def)

lemma few_quiet: "list_all quiet_char [32, 91, 93, 36, 40, 41, 44, 77, 65, 88, 78, 85, 76, 79, 84]"
  by (simp add: quiet_char_def line_ends_def)

lemma type_char_plain: "type_char c \<Longrightarrow> quiet_char c"
  unfolding type_char_def using ident_quiet few_quiet by (auto simp: list_all_iff)

lemma catalog_ident_chars: "catalog_ident s \<Longrightarrow> c \<in> set s \<Longrightarrow> ident_char c \<or> c = 36"
  unfolding catalog_ident_def by (cases s) (auto simp: list_all_iff ident_char_def)

lemma catalog_ident_plain: "catalog_ident s \<Longrightarrow> 36 \<notin> set s \<Longrightarrow> plain_ident s"
  unfolding plain_ident_def list_all_iff by (metis catalog_ident_chars catalog_ident_def)

lemma catalog_type_chars: "catalog_type s \<Longrightarrow> list_all ident_char s"
  unfolding catalog_type_def ascii_letter_def by (cases s) (auto simp: ident_char_def ident_start_def)

lemma column_line_shape:
  assumes "catalog_ident column" "\<And>c. c \<in> set ty \<Longrightarrow> type_char c"
  shows "column_shape (column_line column ty nullable)"
proof -
  let ?null = "if nullable then U ''NULL'' else U ''NOT NULL''"
  have "list_all quiet_char column"
    using catalog_ident_chars[OF assms(1)] ident_quiet few_quiet unfolding list_all_iff by auto
  moreover have "list_all quiet_char ty" using type_char_plain assms(2) by (simp add: list_all_iff)
  moreover have "list_all quiet_char ?null" using few_quiet by (simp add: U_def)
  moreover have line: "column_line column ty nullable = [32, 32, 91] @ column @ [93, 32] @ ty @ [32] @ ?null"
    by (simp add: column_line_def U_def)
  ultimately have "list_all quiet_char (column_line column ty nullable)" using few_quiet unfolding line by simp
  then have "no_line_end (column_line column ty nullable)" "59 \<notin> set (column_line column ty nullable)"
    by (auto simp: no_line_end_def quiet_char_def list_all_iff)
  then show ?thesis using line unfolding column_shape_def by auto
qed

lemma catalog_row_shape:
  "catalog_row to_int o1 = Inr (Some ((schema, tbl), l)) \<Longrightarrow> catalog_ident schema \<and> catalog_ident tbl \<and> column_shape l"
  unfolding catalog_row_def
  by (auto simp: ebind_Inr_iff split: option.splits if_splits
      intro!: column_line_shape dest!: type_sql_chars catalog_type_chars)

lemma emap_set: "emap f xs = Inr ys \<Longrightarrow> y \<in> set ys \<Longrightarrow> \<exists>x \<in> set xs. f x = Inr y"
  by (induction xs arbitrary: ys) (auto simp: ebind_Inr_iff)

text \<open>No name holds a dollar sign, which the catalogue admits but the selector does not read.\<close>

definition no_dollar :: "((pystr \<times> pystr) \<times> pystr) option \<Rightarrow> bool" where
  "no_dollar r \<longleftrightarrow> (case r of None \<Rightarrow> True | Some ((schema, tbl), l) \<Rightarrow> 36 \<notin> set schema \<and> 36 \<notin> set tbl)"

lemma catalog_tables_plain:
  assumes "emap (catalog_row to_int) rws = Inr rs" "list_all no_dollar rs"
  shows "list_all plain_table (catalog_tables rs)"
proof -
  let ?xs = "List.map_filter (\<lambda>r. r) rs"
  have row: "plain_ident schema \<and> plain_ident tbl \<and> column_shape l" if "((schema, tbl), l) \<in> set ?xs" for schema tbl l
  proof -
    have "Some ((schema, tbl), l) \<in> set rs" using that by (auto simp: List.map_filter_def)
    then obtain o1 where "catalog_row to_int o1 = Inr (Some ((schema, tbl), l))" using emap_set[OF assms(1)] by blast
    moreover have "36 \<notin> set schema" "36 \<notin> set tbl"
      using assms(2) \<open>Some ((schema, tbl), l) \<in> set rs\<close> by (auto simp: list_all_iff no_dollar_def)
    ultimately show ?thesis using catalog_row_shape catalog_ident_plain by blast
  qed
  have "plain_table (k, map snd vs)" if "(k, vs) \<in> set (group_by fst ?xs)" for k vs
  proof -
    have "map_of (group_by fst ?xs) k = Some vs" using that group_by_distinct by (metis map_of_eq_Some_iff)
    then have vs: "k \<in> fst ` set ?xs" "vs = filter (\<lambda>x. fst x = k) ?xs"
      by (auto simp: group_by_lookup split: if_splits)
    obtain schema tbl where k: "k = (schema, tbl)" by (cases k)
    have "\<forall>x \<in> set vs. plain_ident schema \<and> plain_ident tbl \<and> column_shape (snd x)" using row vs(2) k by auto
    moreover have "vs \<noteq> []" using vs by (auto simp: filter_empty_conv)
    ultimately show ?thesis unfolding k by (cases vs) (auto simp: plain_table_def list_all_iff)
  qed
  then show ?thesis by (auto simp: catalog_tables_def list_all_iff)
qed

text \<open>
  C33: What the catalogue of a live database is rendered to is understood by the selector: if no schema or table name
  holds a dollar sign, parsing the rendered text finds exactly the rendered tables, in order, under their names and with
  their whole statements.
\<close>

theorem rendered_schema_parses:
  assumes "word_class w" "emap (catalog_row to_int) rws = Inr rs" "list_all no_dollar rs" "render_schema to_int rws = Inr ddl"
  shows "statements_of (parse_tables w ddl) = map (\<lambda>k. (snd (fst k), table_statement k)) (catalog_tables rs)"
proof -
  have "ddl = join_text [10, 10] (map table_statement (catalog_tables rs))"
    using assms(2,4) by (simp add: render_schema_def)
  then show ?thesis using rendered_tables_parse[OF assms(1) catalog_tables_plain[OF assms(2,3)]] by simp
qed

text \<open>
  The selector shows at most twenty statements; they stand in the dump one behind the other and without overlap, each
  whole, and each is the statement of a table all of whose words occur in the path of one changed file.
\<close>

lemma related_schema_cut_out:
  "\<exists>stmts. related_schema w ddl files = join_text [10,
    10] stmts \<and> length stmts \<le> 20 \<and> in_order stmts ddl \<and>
     set stmts \<subseteq> {stmt. \<exists>name f. (name, stmt) \<in> set (parse_tables w ddl) \<and> f \<in> set files \<and> tokens name \<noteq> {} \<and> tokens name \<subseteq> tokens f}"
proof (cases "ddl = [] \<or> files = []")
  case True
  then show ?thesis by (intro exI[of _ "[]"]) (auto simp: related_schema_def in_order.intros)
next
  case False
  let ?stmts = "take MAX_TABLES (picked_statements w ddl files)"
  have "\<exists>name f. (name, stmt) \<in> set (parse_tables w ddl) \<and> f \<in> set files \<and> tokens name \<noteq> {} \<and> tokens name \<subseteq> tokens f"
    if stmt: "stmt \<in> set ?stmts" for stmt
  proof -
    obtain name where name: "(name, stmt) \<in> set (parse_tables w ddl)" "concerns files name"
      using in_set_takeD[OF stmt] by (auto simp: picked_statements_def)
    then obtain f where "f \<in> set files" "tokens name \<subseteq> tokens f" unfolding concerns_def list_ex_iff by blast
    then show ?thesis using name unfolding concerns_def by blast
  qed
  then show ?thesis
    using False related_in_order by (intro exI[of _ ?stmts]) (auto simp: related_schema_def MAX_TABLES_def)
qed

definition sample_rows :: "(pystr \<times> json) list list" where
  "sample_rows = map (\<lambda>(t, c, ty, n). [(U ''table_schema'', JStr (U ''dbo'')), (U ''table_name'', JStr (U t)), (U ''column_name'', JStr (U c)),
     (U ''data_type'', JStr (U ty)), (U ''max_length'', n), (U ''is_nullable'', JStr (U ''yes''))])
   [(''orders'', ''id'', ''int'', JNull), (''users'', ''name'', ''varchar'', JInt 20), (''orders'', ''total'', ''decimal'', JNull)]"

lemma ident_word_class: "word_class ident_char"
  by (simp add: word_class_def ident_char_def ident_start_def)

lemma rendered_schema_parses_witness:
  "case render_schema (\<lambda>t. None) sample_rows of
     Inl e \<Rightarrow> False
   | Inr ddl \<Rightarrow> map fst (statements_of (parse_tables ident_char ddl)) = [U ''orders'', U ''users'']"
proof -
  have none: "(case emap (catalog_row (\<lambda>t. None)) sample_rows of
      Inl e \<Rightarrow> False | Inr rs \<Rightarrow> list_all no_dollar rs \<and> map (\<lambda>k. snd (fst k)) (catalog_tables rs) = [U ''orders'', U ''users''])"
    by code_simp
  then obtain rs where rs: "emap (catalog_row (\<lambda>t. None)) sample_rows = Inr rs" "list_all no_dollar rs"
    "map (\<lambda>k. snd (fst k)) (catalog_tables rs) = [U ''orders'', U ''users'']"
    by (auto split: sum.splits)
  then obtain ddl where ddl: "render_schema (\<lambda>t. None) sample_rows = Inr ddl" by (simp add: render_schema_def)
  from rendered_schema_parses[OF ident_word_class rs(1,2) ddl]
  have "map fst (statements_of (parse_tables ident_char ddl)) = map (\<lambda>k. snd (fst k)) (catalog_tables rs)" by simp
  then show ?thesis using ddl rs(3) by simp
qed

end
