(* ===== verification/Intake.thy ===== *)
theory Intake
  imports Worker
begin

text \<open>
  How a pull request comes in: the guard in front of the management API (\<open>src/server/http_security.py\<close>), the receiver of
  GitHub's webhooks (\<open>src/server/github/webhook.py\<close> and \<open>github_webhook\<close> of \<open>src/server/api.py\<close>) and the poller
  (\<open>src/server/poller.py\<close>).  HMAC, JSON parsing, the network of an address, the list of GitHub and the clock are arguments.
\<close>

section \<open>The guard in front of the management API\<close>

definition PUBLIC_API_PATHS :: "pystr list" where
  "PUBLIC_API_PATHS = map U [''/api/health'', ''/api/webhooks/github'', ''/api/webhooks/slack'']"

record http_config =
  hc_external :: bool
  hc_trusted :: "pystr \<Rightarrow> bool"
  hc_webhook_only :: bool
  hc_admin_token :: pystr
  hc_origins :: "pystr list"

record http_request =
  hr_path :: pystr
  hr_scheme :: pystr
  hr_method :: pystr
  hr_headers :: "(pystr \<times> pystr) list"
  hr_peer :: pystr

definition header :: "string \<Rightarrow> http_request \<Rightarrow> pystr option" where
  "header k r = map_of (hr_headers r) (U k)"

definition header_text :: "string \<Rightarrow> http_request \<Rightarrow> pystr" where
  "header_text k r = (case header k r of None \<Rightarrow> [] | Some v \<Rightarrow> v)"

datatype http_outcome = Reject int pystr | Preflight | Pass | Crash exn

definition normalized_path :: "pystr \<Rightarrow> pystr" where
  "normalized_path p = (let q = rstrip_by (\<lambda>c. c = 47) p in if q = [] then U ''/'' else q)"

definition trusted_https :: "http_config \<Rightarrow> http_request \<Rightarrow> bool" where
  "trusted_https c r \<longleftrightarrow>
     hr_scheme r = U ''https'' \<or>
     (lower (strip (hd (split_on 44 (header_text ''x-forwarded-proto'' r)))) = U ''https'' \<and> hr_peer r \<noteq> [] \<and> hc_trusted c (hr_peer r))"

definition is_management :: "pystr \<Rightarrow> bool" where
  "is_management path \<longleftrightarrow> startswith path (U ''/api/'') \<and> normalized_path path \<notin> set PUBLIC_API_PATHS"

definition is_ascii :: "pystr \<Rightarrow> bool" where
  "is_ascii s \<longleftrightarrow> list_all (\<lambda>c. 0 \<le> c \<and> c < 128) s"

text \<open>\<open>hmac.compare_digest\<close> of two texts: it raises unless both are ASCII.\<close>

definition compare_digest :: "pystr \<Rightarrow> pystr \<Rightarrow> exn + bool" where
  "compare_digest a b =
     (if is_ascii a \<and> is_ascii b then Inr (a = b)
      else Inl (TypeError (U ''comparing strings with non-ASCII characters is not supported'')))"

definition admin_check :: "http_config \<Rightarrow> http_request \<Rightarrow> http_outcome" where
  "admin_check c r =
     (let expected = (if hc_admin_token c = [] then [] else U ''Bearer '' @ hc_admin_token c);
          supplied = header_text ''authorization'' r
      in if expected = [] then Pass
         else (case compare_digest supplied expected of
                 Inl e \<Rightarrow> Crash e
               | Inr ok \<Rightarrow> if ok then Pass else Reject 401 (U ''admin authentication required'')))"

definition protect_management_api :: "http_config \<Rightarrow> http_request \<Rightarrow> http_outcome" where
  "protect_management_api c r =
     (if hc_external c \<and> \<not> trusted_https c r then Reject 400 (U ''external mode requires trusted HTTPS'')
      else if hc_webhook_only c then
        (if normalized_path (hr_path r) \<noteq> U ''/api/webhooks/github'' then Reject 404 (U ''webhook ingress only'') else Pass)
      else if \<not> is_management (hr_path r) then Pass
      else if (case header ''origin'' r of None \<Rightarrow> False | Some o1 \<Rightarrow> o1 \<notin> set (hc_origins c)) then Reject 403 (U ''origin not allowed'')
      else if hr_method r = U ''OPTIONS'' then Preflight
      else admin_check c r)"

text \<open>The origin the answer to a management request names.\<close>

definition allowed_origin :: "http_config \<Rightarrow> http_request \<Rightarrow> pystr option" where
  "allowed_origin c r = (case header ''origin'' r of Some o1 \<Rightarrow> if o1 \<in> set (hc_origins c) then Some o1 else None | None \<Rightarrow> None)"

section \<open>The body of a webhook and its signature\<close>

datatype hook_result = Hook_Error int pystr | Hook_Crash exn | Hook_Answer pystr

record webhook_request =
  wq_signature :: "pystr option"
  wq_timestamp :: "pystr option"
  wq_event :: "pystr option"
  wq_length :: "pystr option"
  wq_chunks :: "int list list"

definition body_length_error :: "(pystr \<Rightarrow> int option) \<Rightarrow> int \<Rightarrow> pystr option \<Rightarrow> hook_result option" where
  "body_length_error to_int limit h =
     (case h of
        None \<Rightarrow> None
      | Some raw \<Rightarrow>
          (case to_int raw of
             None \<Rightarrow> Some (Hook_Error 400 (U ''invalid content length''))
           | Some n \<Rightarrow>
               if n < 0 then Some (Hook_Error 400 (U ''invalid content length''))
               else if n > limit then Some (Hook_Error 413 (U ''webhook body too large'')) else None))"

fun collect_chunks :: "int \<Rightarrow> int list \<Rightarrow> int list list \<Rightarrow> int list option" where
  "collect_chunks limit body [] = Some body"
| "collect_chunks limit body (c # cs) =
     (if int (length body + length c) > limit then None else collect_chunks limit (body @ c) cs)"

definition bounded_webhook_body :: "(pystr \<Rightarrow> int option) \<Rightarrow> int \<Rightarrow> webhook_request \<Rightarrow> hook_result + int list" where
  "bounded_webhook_body to_int limit r =
     (case body_length_error to_int limit (wq_length r) of
        Some e \<Rightarrow> Inl e
      | None \<Rightarrow>
          (case collect_chunks limit [] (wq_chunks r) of
             None \<Rightarrow> Inl (Hook_Error 413 (U ''webhook body too large''))
           | Some body \<Rightarrow> Inr body))"

text \<open>\<open>hmac_hex secret body\<close> is the hexadecimal HMAC-SHA256; the encodings that are compared are injective.\<close>

definition github_signature_ok :: "(pystr \<Rightarrow> int list \<Rightarrow> pystr) \<Rightarrow> pystr \<Rightarrow> int list \<Rightarrow> pystr option \<Rightarrow> bool" where
  "github_signature_ok hmac_hex secret body h \<longleftrightarrow>
     (case h of None \<Rightarrow> False | Some sig \<Rightarrow> secret \<noteq> [] \<and> sig \<noteq> [] \<and> sig = U ''sha256='' @ hmac_hex secret body)"

section \<open>The event of a pull request\<close>

fun as_obj :: "json \<Rightarrow> (pystr \<times> json) list" where
  "as_obj (JObj o1) = o1"
| "as_obj _ = []"

text \<open>\<open>x or ""\<close>.\<close>

definition or_empty :: "json \<Rightarrow> json" where
  "or_empty v = (if truthy v then v else JStr [])"

definition REVIEW_ACTIONS :: "json list" where
  "REVIEW_ACTIONS = map (\<lambda>k. JStr (U k)) [''opened'', ''synchronize'', ''reopened'', ''ready_for_review'']"

record pr_event =
  pe_full_name :: json
  pe_number :: json
  pe_head_sha :: json
  pe_base_ref :: json
  pe_base_sha :: json
  pe_head_ref :: json
  pe_title :: json
  pe_author :: json
  pe_url :: json
  pe_state :: json
  pe_body :: json
  pe_draft :: bool

text \<open>The test of the action raises on a list or an object: these cannot be looked up in a set.\<close>

definition parse_pull_request_event :: "(int list \<Rightarrow> json option) \<Rightarrow> int list \<Rightarrow> exn + pr_event option" where
  "parse_pull_request_event parse body =
     (case parse body of
        Some (JObj p) \<Rightarrow>
          (if unhashable (fld p ''action'') then Inl (TypeError (U ''unhashable type''))
           else if fld p ''action'' \<notin> set REVIEW_ACTIONS then Inr None
           else
             let pr = as_obj (fld p ''pull_request''); repo = as_obj (fld p ''repository'');
                 head = as_obj (fld pr ''head''); base = as_obj (fld pr ''base'')
             in if \<not> truthy (fld repo ''full_name'') \<or> \<not> truthy (fld head ''sha'') \<or> fld pr ''number'' = JNull then Inr None
                else Inr (Some
                  \<lparr>pe_full_name = fld repo ''full_name'', pe_number = fld pr ''number'', pe_head_sha = fld head ''sha'',
                   pe_base_ref = or_empty (fld base ''ref''), pe_base_sha = or_empty (fld base ''sha''),
                   pe_head_ref = or_empty (fld head ''ref''), pe_title = or_empty (fld pr ''title''),
                   pe_author = or_empty (fld (as_obj (fld pr ''user'')) ''login''), pe_url = or_empty (fld pr ''html_url''),
                   pe_state = (if truthy (fld pr ''state'') then fld pr ''state'' else JStr (U ''open'')),
                   pe_body = or_empty (fld pr ''body''), pe_draft = truthy (fld pr ''draft'')\<rparr>))
      | _ \<Rightarrow> Inr None)"

section \<open>The tables of the intake\<close>

record repo_entry =
  en_id :: nat
  en_full_name :: pystr
  en_enabled :: bool
  en_auto :: bool
  en_claude_on :: bool
  en_codex_on :: bool
  en_skip_draft :: "int option"
  en_polled_at :: "int option"
  en_poll_error :: "pystr option"

record intake_db =
  n_prs :: "pull_request table"
  n_jobs :: job_table
  n_repos :: "repo_entry list"
  n_skip_draft :: int

text \<open>
  What answers from outside.  \<open>ie_meanwhile\<close> is what other connections write while the poller waits for the list of GitHub,
  \<open>ie_odd\<close> what SQLite makes of an event whose members are not texts and numbers, \<open>ie_show\<close> the redacted text of an exception.
\<close>

record intake_env =
  ie_now :: int
  ie_parse_time :: "pystr \<Rightarrow> int option"
  ie_secret :: pystr
  ie_hmac :: "pystr \<Rightarrow> int list \<Rightarrow> pystr"
  ie_to_int :: "pystr \<Rightarrow> int option"
  ie_max_body :: int
  ie_parse :: "int list \<Rightarrow> json option"
  ie_odd :: "pr_event \<Rightarrow> intake_db \<Rightarrow> hook_result \<times> intake_db"
  ie_list :: "pystr \<Rightarrow> exn + pull_request list"
  ie_meanwhile :: "intake_db \<Rightarrow> intake_db"
  ie_show :: "exn \<Rightarrow> pystr"
  ie_limit :: int

text \<open>\<open>COLLATE NOCASE\<close> compares without the case of ASCII letters.\<close>

definition get_by_full_name :: "pystr \<Rightarrow> intake_db \<Rightarrow> repo_entry option" where
  "get_by_full_name name s = List.find (\<lambda>e. nocase (en_full_name e) = nocase name) (n_repos s)"

definition has_vendor :: "repo_entry \<Rightarrow> bool" where
  "has_vendor e \<longleftrightarrow> en_claude_on e \<or> en_codex_on e"

definition skips_drafts :: "repo_entry \<Rightarrow> intake_db \<Rightarrow> bool" where
  "skips_drafts e s \<longleftrightarrow> effective (en_skip_draft e) (n_skip_draft s)"

definition upsert_into :: "intake_env \<Rightarrow> pull_request \<Rightarrow> intake_db \<Rightarrow> nat \<times> intake_db" where
  "upsert_into env new s =
     (case upsert_pr (ie_parse_time env) (ie_now env) new (n_prs s) of (pid, t) \<Rightarrow> (pid, s\<lparr>n_prs := t\<rparr>))"

definition enqueue_auto :: "intake_env \<Rightarrow> nat \<Rightarrow> pystr \<Rightarrow> intake_db \<Rightarrow> (exn + nat) \<times> intake_db" where
  "enqueue_auto env pid sha s =
     (case enqueue (ie_now env) pid sha Auto 0 (n_jobs s) of (r, js) \<Rightarrow> (r, s\<lparr>n_jobs := js\<rparr>))"

section \<open>GitHub's webhook\<close>

fun text_value :: "json \<Rightarrow> pystr option" where
  "text_value (JStr t) = Some t"
| "text_value _ = None"

definition new_pr :: "nat \<Rightarrow> int \<Rightarrow> pystr \<Rightarrow> pystr \<Rightarrow> pystr \<Rightarrow> pystr \<Rightarrow> pystr \<Rightarrow> pystr \<Rightarrow> pystr \<Rightarrow> pystr \<Rightarrow> pystr \<Rightarrow> pystr option \<Rightarrow> bool \<Rightarrow> pull_request" where
  "new_pr repo number title author head base_ref base_sha url state head_ref body created draft =
     \<lparr>pr_id = 0, pr_repo = repo, pr_number = number, pr_title = Some title, pr_author = Some author, pr_head_sha = head,
      pr_base_ref = Some base_ref, pr_base_sha = Some base_sha, pr_state = state, pr_url = Some url, pr_created_at = created,
      pr_head_ref = Some head_ref, pr_body = Some body, pr_draft = draft, pr_last_reviewed = None, pr_first_seen = 0,
      pr_sort_at = 0, pr_updated_at = 0\<rparr>"

text \<open>The row of an event whose members are texts and whose number is a whole number.\<close>

definition event_row :: "nat \<Rightarrow> pr_event \<Rightarrow> pull_request option" where
  "event_row repo e =
     (case (pe_number e, text_value (pe_head_sha e), text_value (pe_base_ref e), text_value (pe_base_sha e)) of
        (JInt n, Some head, Some base_ref, Some base_sha) \<Rightarrow>
          (case (text_value (pe_head_ref e), text_value (pe_title e), text_value (pe_author e), text_value (pe_url e),
                 text_value (pe_state e), text_value (pe_body e)) of
             (Some head_ref, Some title, Some author, Some url, Some state, Some body) \<Rightarrow>
               Some (new_pr repo n title author head base_ref base_sha url state head_ref body None (pe_draft e))
           | _ \<Rightarrow> None)
      | _ \<Rightarrow> None)"

definition webhook_pr :: "intake_env \<Rightarrow> repo_entry \<Rightarrow> pull_request \<Rightarrow> intake_db \<Rightarrow> hook_result \<times> intake_db" where
  "webhook_pr env e new s =
     (case upsert_into env new s of
        (pid, s1) \<Rightarrow>
          if has_vendor e \<and> \<not> (skips_drafts e s1 \<and> pr_draft new) \<and> needs_review pid (n_prs s1)
          then (case enqueue_auto env pid (pr_head_sha new) s1 of
                  (Inl x, s2) \<Rightarrow> (Hook_Crash x, s2)
                | (Inr jid, s2) \<Rightarrow> (Hook_Answer (U ''enqueued''), s2))
          else (Hook_Answer (U ''skipped''), s1))"

definition webhook_event :: "intake_env \<Rightarrow> pr_event \<Rightarrow> intake_db \<Rightarrow> hook_result \<times> intake_db" where
  "webhook_event env ev s =
     (case text_value (pe_full_name ev) of
        None \<Rightarrow> ie_odd env ev s
      | Some name \<Rightarrow>
          (case get_by_full_name name s of
             None \<Rightarrow> (Hook_Answer (U ''ignored''), s)
           | Some e \<Rightarrow>
               if \<not> en_enabled e \<or> \<not> en_auto e then (Hook_Answer (U ''ignored''), s)
               else (case event_row (en_id e) ev of
                       None \<Rightarrow> ie_odd env ev s
                     | Some new \<Rightarrow> webhook_pr env e new s)))"

definition github_webhook :: "intake_env \<Rightarrow> webhook_request \<Rightarrow> intake_db \<Rightarrow> hook_result \<times> intake_db" where
  "github_webhook env r s =
     (if ie_secret env = [] then (Hook_Error 503 (U ''webhook secret not configured''), s)
      else if wq_signature r = None \<or> wq_signature r = Some [] then (Hook_Error 401 (U ''invalid signature''), s)
      else (case bounded_webhook_body (ie_to_int env) (ie_max_body env) r of
              Inl e \<Rightarrow> (e, s)
            | Inr body \<Rightarrow>
                if \<not> github_signature_ok (ie_hmac env) (ie_secret env) body (wq_signature r)
                then (Hook_Error 401 (U ''invalid signature''), s)
                else if wq_event r \<noteq> Some (U ''pull_request'') then (Hook_Answer (U ''ignored''), s)
                else (case parse_pull_request_event (ie_parse env) body of
                        Inl e \<Rightarrow> (Hook_Crash e, s)
                      | Inr None \<Rightarrow> (Hook_Answer (U ''ignored''), s)
                      | Inr (Some ev) \<Rightarrow> webhook_event env ev s)))"

section \<open>The poller\<close>

definition polled_pr :: "intake_env \<Rightarrow> bool \<Rightarrow> repo_entry \<Rightarrow> pull_request \<Rightarrow> intake_db \<Rightarrow> (exn + nat) \<times> intake_db" where
  "polled_pr env skip e new s =
     (case upsert_into env new s of
        (pid, s1) \<Rightarrow>
          if en_auto e \<and> has_vendor e \<and> \<not> (skip \<and> pr_draft new) \<and> needs_review pid (n_prs s1)
          then (case get_pr pid (n_prs s1) of
                  None \<Rightarrow> (Inl (TypeError (U ''NoneType object is not subscriptable'')), s1)
                | Some pr \<Rightarrow>
                    (case enqueue_auto env pid (pr_head_sha pr) s1 of
                       (Inl x, s2) \<Rightarrow> (Inl x, s2) | (Inr jid, s2) \<Rightarrow> (Inr 1, s2)))
          else (Inr 0, s1))"

fun polled_prs :: "intake_env \<Rightarrow> bool \<Rightarrow> repo_entry \<Rightarrow> nat \<Rightarrow> pull_request list \<Rightarrow> intake_db \<Rightarrow> (exn + nat) \<times> intake_db" where
  "polled_prs env skip e n [] s = (Inr n, s)"
| "polled_prs env skip e n (p # ps) s =
     (case polled_pr env skip e (p\<lparr>pr_repo := en_id e\<rparr>) s of (Inl x, s1) \<Rightarrow> (Inl x, s1) | (Inr k, s1) \<Rightarrow> polled_prs env skip e (n + k) ps s1)"

definition open_numbers :: "nat \<Rightarrow> pull_request table \<Rightarrow> int list" where
  "open_numbers repo t = map pr_number (filter (\<lambda>p. pr_repo p = repo \<and> pr_state p = U ''open'') (rows t))"

definition set_polled :: "nat \<Rightarrow> (repo_entry \<Rightarrow> repo_entry) \<Rightarrow> intake_db \<Rightarrow> intake_db" where
  "set_polled rid f s = s\<lparr>n_repos := sql_update (\<lambda>e. en_id e = rid) f (n_repos s)\<rparr>"

record poll_result =
  po_repo :: pystr
  po_ok :: bool
  po_open :: nat
  po_enqueued :: nat
  po_error :: "pystr option"

text \<open>
  One repository: the numbers that were open are read before GitHub is asked.  \<open>Inl\<close> is the exception, after which
  \<open>sync_repo\<close> rolls the transaction back to what the other connections have left.
\<close>

definition poll_repo :: "intake_env \<Rightarrow> repo_entry \<Rightarrow> intake_db \<Rightarrow> (exn + poll_result) \<times> intake_db" where
  "poll_repo env e s =
     (let prev = open_numbers (en_id e) (n_prs s)
      in case ie_list env (en_full_name e) of
           Inl x \<Rightarrow> (Inl x, ie_meanwhile env s)
         | Inr prs \<Rightarrow>
             (case polled_prs env (skips_drafts e s) e 0 prs (ie_meanwhile env s) of
                (Inl x, s1) \<Rightarrow> (Inl x, s1)
              | (Inr n, s1) \<Rightarrow>
                  let gone = filter (\<lambda>k. k \<notin> set (map pr_number prs)) prev;
                      s2 = (if int (length prs) < ie_limit env
                            then s1\<lparr>n_prs := snd (mark_closed (en_id e) gone (n_prs s1))\<rparr> else s1)
                  in (Inr \<lparr>po_repo = en_full_name e, po_ok = True, po_open = length prs, po_enqueued = n, po_error = None\<rparr>,
                      set_polled (en_id e) (\<lambda>r. r\<lparr>en_polled_at := Some (ie_now env), en_poll_error := None\<rparr>) s2)))"

definition poll_error :: "intake_env \<Rightarrow> exn \<Rightarrow> pystr" where
  "poll_error env x = take 1000 (ie_show env x)"

definition sync_repo :: "intake_env \<Rightarrow> repo_entry \<Rightarrow> intake_db \<Rightarrow> (exn + poll_result) \<times> intake_db" where
  "sync_repo env e s =
     (case poll_repo env e s of
        (Inl x, s1) \<Rightarrow>
          (Inl x, set_polled (en_id e) (\<lambda>r. r\<lparr>en_poll_error := Some (poll_error env x)\<rparr>) (ie_meanwhile env s))
      | (Inr r, s1) \<Rightarrow> (Inr r, s1))"

fun poll_entries :: "intake_env \<Rightarrow> repo_entry list \<Rightarrow> intake_db \<Rightarrow> poll_result list \<times> intake_db" where
  "poll_entries env [] s = ([], s)"
| "poll_entries env (e # es) s =
     (case sync_repo env e s of
        (Inr r, s1) \<Rightarrow> (case poll_entries env es s1 of (rs, s2) \<Rightarrow> (r # rs, s2))
      | (Inl x, s1) \<Rightarrow>
          (case poll_entries env es s1 of
             (rs, s2) \<Rightarrow>
               (\<lparr>po_repo = en_full_name e, po_ok = False, po_open = 0, po_enqueued = 0, po_error = Some (poll_error env x)\<rparr> # rs, s2)))"

definition poll_once :: "intake_env \<Rightarrow> intake_db \<Rightarrow> poll_result list \<times> intake_db" where
  "poll_once env s = poll_entries env (filter en_enabled (n_repos s)) s"

definition POLL_INTERVAL_MIN_SEC :: int where
  "POLL_INTERVAL_MIN_SEC = 15"

definition POLL_INTERVAL_MAX_SEC :: int where
  "POLL_INTERVAL_MAX_SEC = 86400"

definition safe_poll_interval :: "json \<Rightarrow> int \<Rightarrow> int" where
  "safe_poll_interval v fallback =
     (case v of JInt i \<Rightarrow> if POLL_INTERVAL_MIN_SEC \<le> i \<and> i \<le> POLL_INTERVAL_MAX_SEC then i else fallback | _ \<Rightarrow> fallback)"


section \<open>A small intake\<close>

definition sample_entry :: repo_entry where
  "sample_entry = \<lparr>en_id = 1, en_full_name = U ''o/r'', en_enabled = True, en_auto = True, en_claude_on = True, en_codex_on = False,
     en_skip_draft = None, en_polled_at = None, en_poll_error = None\<rparr>"

definition sample_pull :: "int \<Rightarrow> pystr \<Rightarrow> pull_request" where
  "sample_pull n sha = new_pr 1 n [] [] sha [] [] [] (U ''open'') [] [] None False"

definition sample_intake :: intake_db where
  "sample_intake = \<lparr>n_prs = \<lparr>rows = [(sample_pull 7 (U ''a''))\<lparr>pr_id := 1\<rparr>], next_id = 2\<rparr>, n_jobs = \<lparr>rows = [], next_id = 1\<rparr>,
     n_repos = [sample_entry], n_skip_draft = 0\<rparr>"

definition sample_payload :: json where
  "sample_payload = JObj [(U ''action'', JStr (U ''opened'')),
     (U ''pull_request'', JObj [(U ''number'', JInt 8), (U ''head'', JObj [(U ''sha'', JStr (U ''b''))])]),
     (U ''repository'', JObj [(U ''full_name'', JStr (U ''O/R''))])]"

definition sample_intake_env :: intake_env where
  "sample_intake_env = \<lparr>ie_now = 100, ie_parse_time = (\<lambda>t. None), ie_secret = U ''k'', ie_hmac = (\<lambda>k b. U ''f''), ie_to_int = (\<lambda>t. None),
     ie_max_body = 10, ie_parse = (\<lambda>b. Some sample_payload), ie_odd = (\<lambda>e s. (Hook_Answer [], s)),
     ie_list = (\<lambda>n. Inr [sample_pull 9 (U ''c'')]), ie_meanwhile = (\<lambda>s. s), ie_show = (\<lambda>x. []), ie_limit = 5\<rparr>"

definition sample_hook :: webhook_request where
  "sample_hook = \<lparr>wq_signature = Some (U ''sha256=f''), wq_timestamp = None, wq_event = Some (U ''pull_request''), wq_length = None,
     wq_chunks = [[1], [2]]\<rparr>"

section \<open>Lemmas on the intake\<close>

definition intake_wf :: "intake_db \<Rightarrow> bool" where
  "intake_wf s \<longleftrightarrow> pr_key.unique_keys (rows (n_prs s)) \<and> (\<forall>p\<in>set (rows (n_prs s)). pr_id p < next_id (n_prs s)) \<and> jobs_wf (n_jobs s)"

lemma upsert_keeps_settings:
  "upsert_into env new s = (pid, s1) \<Longrightarrow> n_jobs s1 = n_jobs s \<and> n_repos s1 = n_repos s \<and> n_skip_draft s1 = n_skip_draft s"
  by (auto simp: upsert_into_def split: prod.splits)

lemma enqueue_keeps_prs: "enqueue_auto env pid sha s = (r, s2) \<Longrightarrow> n_prs s2 = n_prs s"
  by (auto simp: enqueue_auto_def split: prod.splits)

lemma upsert_into_split:
  "upsert_into env new s = (pid, s1) \<Longrightarrow> upsert_pr (ie_parse_time env) (ie_now env) new (n_prs s) = (pid, n_prs s1)"
  by (auto simp: upsert_into_def split: prod.splits)

lemma upsert_new_row:
  assumes "List.find (same_pr new) (rows t) = None" "upsert_pr parse now new t = (pid, t1)"
  obtains p where "rows t1 = rows t @ [p]" "pr_id p = pid" "pr_head_sha p = pr_head_sha new" "pid = next_id t" "same_pr new p"
proof
  let ?p = "new\<lparr>pr_id := next_id t, pr_last_reviewed := None, pr_first_seen := now, pr_updated_at := now,
    pr_sort_at := (case (case pr_created_at new of None \<Rightarrow> None | Some c \<Rightarrow> parse c) of None \<Rightarrow> now | Some x \<Rightarrow> x)\<rparr>"
  have res: "upsert_pr parse now new t = (next_id t, t\<lparr>rows := rows t @ [?p], next_id := Suc (next_id t)\<rparr>)"
    unfolding upsert_pr_def assms(1) option.case(1) by (rule refl)
  show "rows t1 = rows t @ [?p]" using res assms(2) by auto
  show "pr_id ?p = pid" "pid = next_id t" using res assms(2) by simp_all
  show "pr_head_sha ?p = pr_head_sha new" "same_pr new ?p" by (simp_all add: same_pr_def)
qed

lemma upsert_old_row:
  assumes "List.find (same_pr new) (rows t) = Some q" "upsert_pr parse now new t = (pid, t1)"
  shows "pid = pr_id q" "rows t1 = sql_update (\<lambda>r. same_pr new r \<and> pr_changed new r) (merge_pr now new) (rows t)"
    "q \<in> set (rows t)" "same_pr new q"
proof -
  have "(pr_id q, t\<lparr>rows := sql_update (\<lambda>r. same_pr new r \<and> pr_changed new r) (merge_pr now new) (rows t)\<rparr>) = (pid, t1)"
    using assms(2) unfolding upsert_pr_def assms(1) option.case(2) .
  then show "pid = pr_id q" "rows t1 = sql_update (\<lambda>r. same_pr new r \<and> pr_changed new r) (merge_pr now new) (rows t)" by auto
  show "q \<in> set (rows t)" "same_pr new q" using assms(1) by (auto simp: find_Some_iff)
qed

lemma upserted_head:
  assumes "intake_wf s" "upsert_into env new s = (pid, s1)"
  shows "\<exists>p. get_pr pid (n_prs s1) = Some p \<and> pr_head_sha p = pr_head_sha new"
proof (cases "List.find (same_pr new) (rows (n_prs s))")
  case None
  then obtain p where s1: "rows (n_prs s1) = rows (n_prs s) @ [p]" and p: "pr_id p = pid" "pr_head_sha p = pr_head_sha new"
    and pid: "pid = next_id (n_prs s)"
    by (rule upsert_new_row[OF _ upsert_into_split[OF assms(2)]])
  have "pr_key.lookup (rows (n_prs s)) pid = None"
    using assms(1) by (auto simp: pr_key.lookup_None intake_wf_def pid)
  then show ?thesis by (simp add: get_pr_lookup s1 pr_key.lookup_insert p)
next
  case (Some q)
  note old = upsert_old_row[OF Some upsert_into_split[OF assms(2)]]
  have "pr_id (merge_pr (ie_now env) new r) = pr_id r" for r by (simp add: merge_pr_def)
  note look = pr_key.lookup_update[OF this]
  have "pr_key.lookup (rows (n_prs s)) (pr_id q) = Some q"
    using assms(1) old(3) by (auto simp: intake_wf_def intro: pr_key.lookup_unique)
  then show ?thesis
    by (simp add: get_pr_lookup old(1,2,4) look merge_pr_def) (simp add: pr_changed_def)
qed

lemma enqueue_auto_returns:
  assumes "jobs_wf (n_jobs s)"
  obtains jid s2 where "enqueue_auto env pid sha s = (Inr jid, s2)"
proof -
  obtain jid js' where "enqueue (ie_now env) pid sha Auto 0 (n_jobs s) = (Inr jid, js')"
    by (rule enqueue_auto_total[OF assms])
  then have "enqueue_auto env pid sha s = (Inr jid, s\<lparr>n_jobs := js'\<rparr>)" by (simp add: enqueue_auto_def)
  with that show thesis by blast
qed



lemma polled_pr_keeps_others:
  assumes "polled_pr env skip e new s = (r, s')" "p \<in> set (rows (n_prs s))" "\<not> same_pr new p"
  shows "p \<in> set (rows (n_prs s'))"
proof -
  obtain pid s1 where up: "upsert_into env new s = (pid, s1)" by (cases "upsert_into env new s") blast
  have "p \<in> set (rows (n_prs s1))"
  proof (cases "List.find (same_pr new) (rows (n_prs s))")
    case None
    then obtain q where "rows (n_prs s1) = rows (n_prs s) @ [q]" by (rule upsert_new_row[OF _ upsert_into_split[OF up]])
    with assms(2) show ?thesis by simp
  next
    case (Some q)
    show ?thesis unfolding upsert_old_row(2)[OF Some upsert_into_split[OF up]] set_sql_update
      by (rule image_eqI[where x = p]) (use assms(2,3) in simp_all)
  qed
  moreover have "n_prs s' = n_prs s1"
    using assms(1) up by (auto simp: polled_pr_def dest: enqueue_keeps_prs split: if_splits option.splits prod.splits sum.splits)
  ultimately show ?thesis by simp
qed

lemma polled_prs_keep_others:
  "polled_prs env skip e n ps s = (r, s') \<Longrightarrow> p \<in> set (rows (n_prs s)) \<Longrightarrow>
   \<not> (pr_repo p = en_id e \<and> pr_number p \<in> set (map pr_number ps)) \<Longrightarrow> p \<in> set (rows (n_prs s'))"
proof (induction env skip e n ps s rule: polled_prs.induct)
  case (2 env skip e n q ps s)
  obtain r1 s1 where one: "polled_pr env skip e (q\<lparr>pr_repo := en_id e\<rparr>) s = (r1, s1)" by (cases "polled_pr env skip e (q\<lparr>pr_repo := en_id e\<rparr>) s") blast
  have here: "p \<in> set (rows (n_prs s1))"
    by (rule polled_pr_keeps_others[OF one]) (use 2(3,4) in \<open>auto simp: same_pr_def\<close>)
  show ?case
  proof (cases r1)
    case (Inl x)
    with 2(2) one here show ?thesis by simp
  next
    case (Inr k)
    have "polled_prs env skip e (n + k) ps s1 = (r, s')" using 2(2) one Inr by simp
    from 2(1)[OF one[symmetric] Inr this here] 2(4) show ?thesis by auto
  qed
qed simp

lemma closed_rows:
  "rows (snd (mark_closed repo numbers t)) = sql_update (closable repo numbers) (\<lambda>p. p\<lparr>pr_state := U ''closed''\<rparr>) (rows t)"
  by (simp add: mark_closed_def close_chunks_closable)

lemma poll_repo_result:
  assumes "poll_repo env e s = (Inr r, s')"
  obtains prs n s1 where "ie_list env (en_full_name e) = Inr prs"
    "polled_prs env (skips_drafts e s) e 0 prs (ie_meanwhile env s) = (Inr n, s1)"
    "rows (n_prs s') = (if int (length prs) < ie_limit env
       then sql_update (closable (en_id e) (filter (\<lambda>k. k \<notin> set (map pr_number prs)) (open_numbers (en_id e) (n_prs s))))
              (\<lambda>p. p\<lparr>pr_state := U ''closed''\<rparr>) (rows (n_prs s1)) else rows (n_prs s1))"
  using assms that
  by (auto simp: poll_repo_def Let_def set_polled_def closed_rows split: sum.splits prod.splits)

lemma poll_rows:
  assumes "poll_repo env e s = (Inr r, s')" "ie_list env (en_full_name e) = Inr prs"
  shows "int (length prs) < ie_limit env \<Longrightarrow> p \<in> set (rows (n_prs s')) \<Longrightarrow> pr_repo p = en_id e \<Longrightarrow> pr_state p = U ''open'' \<Longrightarrow>
           pr_number p \<in> set (open_numbers (en_id e) (n_prs s)) \<Longrightarrow> pr_number p \<in> set (map pr_number prs)"
    and "q \<in> set (rows (n_prs (ie_meanwhile env s))) \<Longrightarrow> \<not> (pr_repo q = en_id e \<and> pr_number q \<in> set (map pr_number prs)) \<Longrightarrow>
           pr_repo q \<noteq> en_id e \<or> pr_number q \<notin> set (open_numbers (en_id e) (n_prs s)) \<or> ie_limit env \<le> int (length prs) \<Longrightarrow>
           q \<in> set (rows (n_prs s'))"
proof -
  let ?close = "\<lambda>p :: pull_request. p\<lparr>pr_state := U ''closed''\<rparr>"
  let ?gone = "filter (\<lambda>k. k \<notin> set (map pr_number prs)) (open_numbers (en_id e) (n_prs s))"
  obtain prs' n s1 where "ie_list env (en_full_name e) = Inr prs'" and
    run: "polled_prs env (skips_drafts e s) e 0 prs' (ie_meanwhile env s) = (Inr n, s1)" and
    s': "rows (n_prs s') = (if int (length prs') < ie_limit env
       then sql_update (closable (en_id e) (filter (\<lambda>k. k \<notin> set (map pr_number prs')) (open_numbers (en_id e) (n_prs s)))) ?close
              (rows (n_prs s1)) else rows (n_prs s1))"
    by (rule poll_repo_result[OF assms(1)])
  with assms(2) have prs': "prs' = prs" by simp
  note run = run[unfolded prs'] and s' = s'[unfolded prs']
  have shut: "U ''closed'' \<noteq> U ''open''" by (simp add: U_eq_iff)
  show "pr_number p \<in> set (map pr_number prs)"
    if "int (length prs) < ie_limit env" "p \<in> set (rows (n_prs s'))" "pr_repo p = en_id e" "pr_state p = U ''open''"
      "pr_number p \<in> set (open_numbers (en_id e) (n_prs s))"
  proof (rule ccontr)
    assume out: "pr_number p \<notin> set (map pr_number prs)"
    have "p \<in> (\<lambda>p. if closable (en_id e) ?gone p then ?close p else p) ` set (rows (n_prs s1))"
      using that(1,2) by (simp only: s' if_True set_sql_update)
    then obtain p0 where "p = (if closable (en_id e) ?gone p0 then ?close p0 else p0)" by (rule imageE)
    with that(3,4,5) out shut show False by (auto simp: closable_def split: if_splits)
  qed
  show "q \<in> set (rows (n_prs s'))"
    if "q \<in> set (rows (n_prs (ie_meanwhile env s)))" "\<not> (pr_repo q = en_id e \<and> pr_number q \<in> set (map pr_number prs))"
      "pr_repo q \<noteq> en_id e \<or> pr_number q \<notin> set (open_numbers (en_id e) (n_prs s)) \<or> ie_limit env \<le> int (length prs)"
  proof -
    have "q \<in> set (rows (n_prs s1))" by (rule polled_prs_keep_others[OF run that(1,2)])
    moreover have "int (length prs) < ie_limit env \<Longrightarrow> \<not> closable (en_id e) ?gone q"
      using that(3) by (auto simp: closable_def)
    ultimately show ?thesis by (auto simp: s' set_sql_update image_iff)
  qed
qed



lemma webhook_event_repo:
  assumes "snd (webhook_event env ev s) \<noteq> s" "text_value (pe_full_name ev) = Some name"
  shows "list_ex (\<lambda>e. nocase (en_full_name e) = nocase name \<and> en_enabled e \<and> en_auto e) (n_repos s)"
proof -
  from assms obtain e where e: "get_by_full_name name s = Some e" "en_enabled e" "en_auto e"
    by (auto simp: webhook_event_def split: option.splits if_splits)
  then have "e \<in> set (n_repos s)" "nocase (en_full_name e) = nocase name"
    by (auto simp: get_by_full_name_def find_Some_iff)
  with e show ?thesis by (auto simp: list_ex_iff)
qed

lemma github_webhook_writes:
  assumes "snd (github_webhook env r s) \<noteq> s"
  obtains body ev where "ie_secret env \<noteq> []" "bounded_webhook_body (ie_to_int env) (ie_max_body env) r = Inr body"
    "github_signature_ok (ie_hmac env) (ie_secret env) body (wq_signature r)" "wq_event r = Some (U ''pull_request'')"
    "parse_pull_request_event (ie_parse env) body = Inr (Some ev)" "snd (webhook_event env ev s) \<noteq> s"
proof (cases "bounded_webhook_body (ie_to_int env) (ie_max_body env) r")
  case (Inl e)
  with assms show ?thesis by (simp add: github_webhook_def split: if_splits)
next
  case body: (Inr body)
  show ?thesis
  proof (cases "parse_pull_request_event (ie_parse env) body")
    case (Inl e)
    with assms body show ?thesis by (simp add: github_webhook_def split: if_splits)
  next
    case (Inr found)
    with assms body that[of body] show ?thesis
      by (cases found) (simp_all add: github_webhook_def split: if_splits)
  qed
qed

lemma collect_chunks_limit:
  "collect_chunks limit body cs = Some b \<Longrightarrow> b = body @ concat cs \<and> (cs = [] \<or> int (length b) \<le> limit)"
  by (induction limit body cs rule: collect_chunks.induct) (auto split: if_splits)

text \<open>
  C34: a webhook changes nothing unless it is GitHub's.  The database changes only for a request whose whole body is within the
  limit and carries the HMAC of exactly that body under the configured secret, whose event is that of a pull request with one of
  the review actions, and, when the repository is named by a text, only if that repository is registered, enabled and reviewed automatically.
\<close>

theorem webhook_writes_only_authenticated:
  assumes "snd (github_webhook env r s) \<noteq> s" "0 \<le> ie_max_body env"
  shows "ie_secret env \<noteq> [] \<and>
    wq_signature r = Some (U ''sha256='' @ ie_hmac env (ie_secret env) (concat (wq_chunks r))) \<and>
    int (length (concat (wq_chunks r))) \<le> ie_max_body env \<and>
    (\<exists>ev. wq_event r = Some (U ''pull_request'') \<and> parse_pull_request_event (ie_parse env) (concat (wq_chunks r)) = Inr (Some ev) \<and>
           (case text_value (pe_full_name ev) of None \<Rightarrow> True | Some name \<Rightarrow>
              list_ex (\<lambda>e. nocase (en_full_name e) = nocase name \<and> en_enabled e \<and> en_auto e) (n_repos s)))"
proof -
  obtain body ev where secret: "ie_secret env \<noteq> []" and body: "bounded_webhook_body (ie_to_int env) (ie_max_body env) r = Inr body"
    and sig: "github_signature_ok (ie_hmac env) (ie_secret env) body (wq_signature r)" and event: "wq_event r = Some (U ''pull_request'')"
    and ev: "parse_pull_request_event (ie_parse env) body = Inr (Some ev)" and chg: "snd (webhook_event env ev s) \<noteq> s"
    by (rule github_webhook_writes[OF assms(1)])
  have cat: "body = concat (wq_chunks r)" "int (length body) \<le> ie_max_body env"
    using body collect_chunks_limit[of "ie_max_body env" "[]" "wq_chunks r"] assms(2)
    by (auto simp: bounded_webhook_body_def split: option.splits)
  have "wq_signature r = Some (U ''sha256='' @ ie_hmac env (ie_secret env) (concat (wq_chunks r)))"
    using sig by (auto simp: github_signature_ok_def cat split: option.splits)
  moreover have "int (length (concat (wq_chunks r))) \<le> ie_max_body env" using cat by simp
  moreover have "\<exists>ev. wq_event r = Some (U ''pull_request'') \<and> parse_pull_request_event (ie_parse env) (concat (wq_chunks r)) = Inr (Some ev) \<and>
           (case text_value (pe_full_name ev) of None \<Rightarrow> True | Some name \<Rightarrow>
              list_ex (\<lambda>e. nocase (en_full_name e) = nocase name \<and> en_enabled e \<and> en_auto e) (n_repos s))"
    using event ev webhook_event_repo[OF chg] by (auto simp: cat split: option.splits)
  ultimately show ?thesis using secret by blast
qed

lemma webhook_writes_only_authenticated_witness:
  "length (rows (n_prs (snd (github_webhook sample_intake_env sample_hook sample_intake)))) = 2 \<and> ie_secret sample_intake_env \<noteq> []"
proof -
  have len: "length (rows (n_prs (snd (github_webhook sample_intake_env sample_hook sample_intake)))) = 2" by code_simp
  have old: "length (rows (n_prs sample_intake)) = 1" by code_simp
  have chg: "snd (github_webhook sample_intake_env sample_hook sample_intake) \<noteq> sample_intake" using len old by force
  have room: "0 \<le> ie_max_body sample_intake_env" by code_simp
  show ?thesis using len webhook_writes_only_authenticated[OF chg room] by blast
qed

end
