(* ===== verification/Static_Docs.thy ===== *)
theory Static_Docs
  imports Context_Blocks
begin

text \<open>
  The reference documents of a repository as context of a review (\<open>src/server/context/static_provider.py\<close>): which documents
  apply to the changed paths, the snapshot they are read from, the cache of documents read from git, and the choice under the
  budget.  git, the file system, UTF-8 and \<open>int()\<close> of a header are arguments; a path is a text, its parts are a list.
\<close>

section \<open>Paths\<close>

definition posix_parts :: "pystr \<Rightarrow> pystr list" where
  "posix_parts p = filter (\<lambda>q. q \<noteq> [] \<and> q \<noteq> U ''.'') (split_on 47 p)"

definition posix :: "pystr list \<Rightarrow> pystr" where
  "posix ps = (if ps = [] then U ''.'' else join_text (U ''/'') ps)"

definition is_abs :: "pystr \<Rightarrow> bool" where
  "is_abs p \<longleftrightarrow> startswith p (U ''/'')"

definition safe_changed_path :: "pystr \<Rightarrow> bool" where
  "safe_changed_path p \<longleftrightarrow> p \<noteq> [] \<and> \<not> is_abs p \<and> U ''..'' \<notin> set (posix_parts p)"

definition os_join :: "pystr \<Rightarrow> pystr \<Rightarrow> pystr" where
  "os_join a b = (if is_abs b then b else if a = [] \<or> endswith a (U ''/'') then a @ b else a @ U ''/'' @ b)"

text \<open>The parts of an absolute path with \<open>..\<close> resolved (\<open>os.path.abspath\<close>).\<close>

definition norm_step :: "pystr \<Rightarrow> pystr list \<Rightarrow> pystr list" where
  "norm_step q acc = (if q = U ''..'' then (if acc = [] then [] else butlast acc) else acc @ [q])"

definition norm_parts :: "pystr \<Rightarrow> pystr list" where
  "norm_parts p = fold norm_step (posix_parts p) []"

fun common_prefix :: "pystr list \<Rightarrow> pystr list \<Rightarrow> nat" where
  "common_prefix (a # as) (b # bs) = (if a = b then Suc (common_prefix as bs) else 0)"
| "common_prefix _ _ = 0"

definition relative_parts :: "pystr \<Rightarrow> pystr \<Rightarrow> pystr list" where
  "relative_parts p rootd =
     (let ps = norm_parts p; rs = norm_parts rootd; i = common_prefix rs ps
      in replicate (length rs - i) (U ''..'') @ drop i ps)"

definition confined_relative_path :: "pystr \<Rightarrow> pystr \<Rightarrow> pystr option" where
  "confined_relative_path rootd p =
     (if p = [] \<or> 0 \<in> set p \<or> 58 \<in> set p then None
      else let rel = relative_parts (if is_abs p then p else os_join rootd p) rootd
           in if U ''..'' \<in> set rel then None else Some (posix rel))"

section \<open>Which documents apply\<close>

definition DOC_NAMES :: "pystr list" where
  "DOC_NAMES = map U [''AGENTS.md'', ''CLAUDE.md'', ''.claude/CLAUDE.md'']"

definition MAX_CHARS_PER_DOCUMENT :: int where
  "MAX_CHARS_PER_DOCUMENT = 3000"

definition MAX_ROOT_CHARS :: int where
  "MAX_ROOT_CHARS = 2000"

definition MAX_DISCOVERY_FILES :: nat where
  "MAX_DISCOVERY_FILES = 500"

definition MAX_DISCOVERY_DIRS :: nat where
  "MAX_DISCOVERY_DIRS = 40"

text \<open>A set of scopes is a list without duplicates; it is sorted before it is shown.\<close>

record doc_meta =
  dm_scopes :: "pystr list"
  dm_explicit :: bool
  dm_depth :: int

definition known_scopes :: "pystr list \<Rightarrow> pystr list" where
  "known_scopes files = take MAX_DISCOVERY_FILES (filter safe_changed_path files)"

definition parent_dirs :: "pystr \<Rightarrow> pystr list list" where
  "parent_dirs f = (let ps = butlast (posix_parts f) in map (\<lambda>i. take (Suc i) ps) [0..<length ps])"

definition directory_scopes :: "pystr list \<Rightarrow> (pystr list \<times> pystr list) list" where
  "directory_scopes scopes =
     fold (\<lambda>f d. fold (\<lambda>dir d. dict_set dir (List.insert f (dict_get d dir [])) d) (parent_dirs f) d) scopes []"

definition selected_directories :: "(pystr list \<times> pystr list) list \<Rightarrow> pystr list list" where
  "selected_directories ds =
     take MAX_DISCOVERY_DIRS
       (sort_key (\<lambda>dir. (- int (length (dict_get ds dir [])), - int (length dir), posix dir)) (map fst ds))"

definition candidate_paths :: "pystr list \<Rightarrow> (pystr \<times> doc_meta) list" where
  "candidate_paths files =
     (let scopes = known_scopes files; ds = directory_scopes scopes;
          rootd = map (\<lambda>n. (n, \<lparr>dm_scopes = remdups scopes, dm_explicit = False, dm_depth = 0\<rparr>)) DOC_NAMES;
          below = concat (map (\<lambda>dir. map (\<lambda>n. (dir, n)) DOC_NAMES) (selected_directories ds))
      in fold (\<lambda>(dir, n) c. dict_set (posix (dir @ posix_parts n))
                 \<lparr>dm_scopes = dict_get ds dir [], dm_explicit = False, dm_depth = int (length dir)\<rparr> c) below rootd)"

definition with_configured :: "pystr option \<Rightarrow> (pystr \<times> doc_meta) list \<Rightarrow> (pystr \<times> doc_meta) list" where
  "with_configured p c =
     (case p of
        None \<Rightarrow> c
      | Some q \<Rightarrow>
          if q = [] then c
          else dict_set q ((dict_get c q \<lparr>dm_scopes = [], dm_explicit = True, dm_depth = 0\<rparr>)\<lparr>dm_explicit := True\<rparr>) c)"

definition changed_instruction_documents :: "pystr option \<Rightarrow> pystr list \<Rightarrow> pystr list" where
  "changed_instruction_documents p files =
     (let configured = (case p of None \<Rightarrow> None | Some q \<Rightarrow> if q = [] then None else
                          Some (if is_abs q then U ''/'' @ join_text (U ''/'') (posix_parts q) else posix (posix_parts q)));
          named = (\<lambda>f. posix_parts f \<noteq> [] \<and> last (posix_parts f) \<in> {U ''AGENTS.md'', U ''CLAUDE.md''})
      in sort (remdups (filter (\<lambda>f. safe_changed_path f \<and> (named f \<or> Some f = configured)) files)))"

section \<open>The snapshot\<close>

datatype git_answer = Git_Raises | Git_Refuses | Git_Prints pystr

record static_env =
  se_realpath :: "pystr \<Rightarrow> exn + pystr"
  se_read :: "pystr \<Rightarrow> pystr option"
  se_casefold :: "pystr \<Rightarrow> pystr"
  se_rev_parse :: "pystr \<Rightarrow> pystr \<Rightarrow> git_answer"
  se_cat_file :: "pystr \<Rightarrow> pystr \<Rightarrow> pystr list \<Rightarrow> int list option"
  se_decode :: "int list \<Rightarrow> pystr"
  se_to_int :: "int list \<Rightarrow> int option"

definition ref_char :: "int \<Rightarrow> bool" where
  "ref_char c \<longleftrightarrow> (65 \<le> c \<and> c \<le> 90) \<or> (97 \<le> c \<and> c \<le> 122) \<or> (48 \<le> c \<and> c \<le> 57) \<or> c \<in> {46, 95, 47, 45}"

definition hex_char :: "int \<Rightarrow> bool" where
  "hex_char c \<longleftrightarrow> (65 \<le> c \<and> c \<le> 70) \<or> (97 \<le> c \<and> c \<le> 102) \<or> (48 \<le> c \<and> c \<le> 57)"

fun first_commit :: "(pystr \<Rightarrow> git_answer) \<Rightarrow> pystr list \<Rightarrow> pystr option" where
  "first_commit ask [] = None"
| "first_commit ask (c # cs) =
     (case ask (c @ U ''^{commit}'') of
        Git_Raises \<Rightarrow> None | Git_Prints out \<Rightarrow> Some (strip out) | Git_Refuses \<Rightarrow> first_commit ask cs)"

definition resolve_base_revision :: "static_env \<Rightarrow> pystr \<Rightarrow> pystr \<Rightarrow> pystr \<Rightarrow> pystr option" where
  "resolve_base_revision env rootd base_ref base_sha =
     (if base_ref = [] \<or> startswith base_ref (U ''-'') \<or> contains base_ref (U ''..'') \<or> \<not> list_all ref_char base_ref then None
      else if base_sha \<noteq> [] then
        (if list_all hex_char base_sha \<and> 40 \<le> length base_sha \<and> length base_sha \<le> 64
         then first_commit (se_rev_parse env rootd) [base_sha] else None)
      else first_commit (se_rev_parse env rootd) [U ''refs/remotes/origin/'' @ base_ref, base_ref])"

section \<open>The answer of git cat-file\<close>

text \<open>\<open>data.find(b"\\n", offset)\<close> on the rest of the data: the header, and what is behind its line feed.\<close>

fun cut_header :: "int list \<Rightarrow> (int list \<times> int list) option" where
  "cut_header [] = None"
| "cut_header (b # bs) = (if b = 10 then Some ([], bs) else map_option (\<lambda>(h, r). (b # h, r)) (cut_header bs))"

definition after_last_blank :: "int list \<Rightarrow> int list option" where
  "after_last_blank h = (if 32 \<in> set h then Some (rev (takeWhile (\<lambda>b. b \<noteq> 32) (rev h))) else None)"

definition clip_text :: "pystr \<Rightarrow> pystr" where
  "clip_text t = take (nat (MAX_CHARS_PER_DOCUMENT + 1)) t"

fun parse_cat_file :: "(int list \<Rightarrow> pystr) \<Rightarrow> (int list \<Rightarrow> int option) \<Rightarrow> int list \<Rightarrow> pystr list \<Rightarrow> (pystr \<times> pystr option) list" where
  "parse_cat_file dec to_int data [] = []"
| "parse_cat_file dec to_int data (p # ps) =
     (case cut_header data of
        None \<Rightarrow> (p, None) # parse_cat_file dec to_int data ps
      | Some (h, r) \<Rightarrow>
          if endswith h (U '' missing'') then (p, None) # parse_cat_file dec to_int r ps
          else (case (case after_last_blank h of None \<Rightarrow> None | Some d \<Rightarrow> to_int d) of
                  None \<Rightarrow> (p, None) # parse_cat_file dec to_int r ps
                | Some n \<Rightarrow>
                    if n < 0 \<or> int (length r) < n then (p, None) # parse_cat_file dec to_int [] ps
                    else let rest = drop (nat n) r
                         in (p, Some (clip_text (dec (take (nat n) r))))
                            # parse_cat_file dec to_int (if rest \<noteq> [] \<and> hd rest = 10 then tl rest else rest) ps))"

section \<open>The cache of documents\<close>

type_synonym doc_key = "pystr \<times> pystr \<times> pystr"

text \<open>An \<open>OrderedDict\<close>, the entry used longest ago first.\<close>

type_synonym doc_cache = "(doc_key \<times> pystr option) list"

definition MAX_GIT_DOCUMENT_CACHE :: nat where
  "MAX_GIT_DOCUMENT_CACHE = 512"

definition cache_put :: "doc_key \<Rightarrow> pystr option \<Rightarrow> doc_cache \<Rightarrow> doc_cache" where
  "cache_put k v c = filter (\<lambda>e. fst e \<noteq> k) c @ [(k, v)]"

function evict :: "doc_cache \<Rightarrow> doc_cache" where
  "evict c = (if length c > MAX_GIT_DOCUMENT_CACHE then evict (tl c) else c)"
  by pat_completeness auto
termination
  by (relation "measure length") auto

declare evict.simps [simp del]

text \<open>The pass over the cache: what it knows, what is missing, the number of hits, and the touched cache.\<close>

record cache_pass =
  ca_out :: "(pystr \<times> pystr option) list"
  ca_missing :: "pystr list"
  ca_hits :: nat
  ca_cache :: doc_cache

definition look_up :: "pystr \<Rightarrow> pystr \<Rightarrow> pystr \<Rightarrow> cache_pass \<Rightarrow> cache_pass" where
  "look_up scope sha p s =
     (case map_of (ca_cache s) (scope, sha, p) of
        Some v \<Rightarrow> s\<lparr>ca_out := dict_set p v (ca_out s), ca_cache := cache_put (scope, sha, p) v (ca_cache s), ca_hits := Suc (ca_hits s)\<rparr>
      | None \<Rightarrow> s\<lparr>ca_missing := ca_missing s @ [p]\<rparr>)"

definition look_up_all :: "pystr \<Rightarrow> pystr \<Rightarrow> pystr list \<Rightarrow> doc_cache \<Rightarrow> cache_pass" where
  "look_up_all scope sha ps c = fold (look_up scope sha) ps \<lparr>ca_out = [], ca_missing = [], ca_hits = 0, ca_cache = c\<rparr>"

text \<open>Whatever git does, each missing path gets a value: that of the answer, or none.\<close>

definition ask_git :: "static_env \<Rightarrow> pystr \<Rightarrow> pystr \<Rightarrow> pystr list \<Rightarrow> (pystr \<times> pystr option) list" where
  "ask_git env rootd sha ps =
     (case se_cat_file env rootd sha ps of
        None \<Rightarrow> map (\<lambda>p. (p, None)) ps
      | Some data \<Rightarrow> fold (\<lambda>(p, v) d. dict_set p v d) (parse_cat_file (se_decode env) (se_to_int env) data ps) [])"

definition keep_answer :: "pystr \<Rightarrow> pystr \<Rightarrow> (pystr \<times> pystr option) list \<Rightarrow> pystr
    \<Rightarrow> (pystr \<times> pystr option) list \<times> doc_cache \<Rightarrow> (pystr \<times> pystr option) list \<times> doc_cache" where
  "keep_answer scope sha parsed p s =
     (let v = dict_get parsed p None in (dict_set p v (fst s), cache_put (scope, sha, p) v (snd s)))"

text \<open>\<open>others\<close> is what other threads do to the cache while git runs.\<close>

definition read_git_files :: "static_env \<Rightarrow> (doc_cache \<Rightarrow> doc_cache) \<Rightarrow> pystr \<Rightarrow> pystr \<Rightarrow> pystr list \<Rightarrow> pystr \<Rightarrow> doc_cache
    \<Rightarrow> ((pystr \<times> pystr option) list \<times> nat) \<times> doc_cache" where
  "read_git_files env others rootd sha ps scope c =
     (let s = look_up_all scope sha ps c
      in if ca_missing s = [] then ((ca_out s, ca_hits s), ca_cache s)
         else let parsed = ask_git env rootd sha (ca_missing s)
              in case fold (keep_answer scope sha parsed) (ca_missing s) (ca_out s, others (ca_cache s)) of
                   (out, c1) \<Rightarrow> ((out, ca_hits s), evict c1))"

section \<open>The documents that are shown\<close>

record ref_doc =
  rd_path :: pystr
  rd_content :: pystr
  rd_scopes :: "pystr list"
  rd_explicit :: bool
  rd_depth :: int

definition clip_document :: "doc_meta \<Rightarrow> pystr \<Rightarrow> pystr" where
  "clip_document m t =
     (let limit = (if \<not> dm_explicit m \<and> dm_depth m = 0 then MAX_ROOT_CHARS else MAX_CHARS_PER_DOCUMENT)
      in if int (length t) > limit then take (nat limit) t @ [10] @ [8230, 91, 100, 111, 99, 117, 109, 101, 110, 116,
        32, 116, 114, 117, 110, 99, 97, 116, 101, 100, 93] else t)"

definition add_document :: "pystr \<Rightarrow> ref_doc \<Rightarrow> (pystr \<times> ref_doc) list \<Rightarrow> (pystr \<times> ref_doc) list" where
  "add_document k d ds =
     (case map_of ds k of
        None \<Rightarrow> dict_set k d ds
      | Some e \<Rightarrow> dict_set k (e\<lparr>rd_scopes := List.union (rd_scopes e) (rd_scopes d), rd_explicit := rd_explicit e \<or> rd_explicit d,
                               rd_depth := max (rd_depth e) (rd_depth d)\<rparr>) ds)"

definition confined_realpath :: "static_env \<Rightarrow> pystr \<Rightarrow> pystr \<Rightarrow> pystr option" where
  "confined_realpath env rootd p =
     (case se_realpath env (os_join rootd p) of
        Inl e \<Rightarrow> None
      | Inr rp \<Rightarrow> if rp \<noteq> rootd \<and> \<not> startswith rp (rootd @ U ''/'') then None else Some rp)"

datatype found = Outside | Nothing_Found | Found pystr pystr pystr

text \<open>Under a revision the content is that of git; \<open>None\<close> is the working tree.\<close>

definition find_document :: "static_env \<Rightarrow> pystr \<Rightarrow> (pystr \<times> pystr option) list option \<Rightarrow> pystr \<Rightarrow> found" where
  "find_document env rootd base p =
     (case confined_relative_path rootd p of
        None \<Rightarrow> Outside
      | Some display \<Rightarrow>
          (case base of
             Some contents \<Rightarrow>
               (case dict_get contents display None of None \<Rightarrow> Nothing_Found | Some t \<Rightarrow> Found display display t)
           | None \<Rightarrow>
               (case confined_realpath env rootd p of
                  None \<Rightarrow> Outside
                | Some rp \<Rightarrow>
                    (case se_read env rp of
                       None \<Rightarrow> Nothing_Found
                     | Some t \<Rightarrow> Found rp (posix (relative_parts rp rootd)) (clip_text t)))))"

record doc_walk =
  dw_docs :: "(pystr \<times> ref_doc) list"
  dw_read :: int
  dw_rejected :: bool

definition visit_document :: "static_env \<Rightarrow> pystr \<Rightarrow> (pystr \<times> pystr option) list option \<Rightarrow> pystr \<times> doc_meta \<Rightarrow> doc_walk \<Rightarrow> doc_walk" where
  "visit_document env rootd base pm w =
     (case find_document env rootd base (fst pm) of
        Outside \<Rightarrow> w\<lparr>dw_rejected := dw_rejected w \<or> dm_explicit (snd pm)\<rparr>
      | Nothing_Found \<Rightarrow> w
      | Found k display t \<Rightarrow>
          if strip t = [] then w
          else w\<lparr>dw_read := dw_read w + int (length t),
                 dw_docs := add_document k \<lparr>rd_path = display, rd_content = clip_document (snd pm) t, rd_scopes = dm_scopes (snd pm),
                   rd_explicit = dm_explicit (snd pm), rd_depth = dm_depth (snd pm)\<rparr> (dw_docs w)\<rparr>)"

definition MAX_SCOPE_PATHS :: nat where
  "MAX_SCOPE_PATHS = 3"

definition scope_lines :: "pystr list \<Rightarrow> pystr" where
  "scope_lines scopes =
     (let all = sort scopes; shown = take MAX_SCOPE_PATHS all
      in if all = [] then U ''- repository-wide (configured document)''
         else join_text [10] (map (\<lambda>p. U ''- '' @ p) shown) @
              (if length all > length shown then [10] @ [45, 32, 8230, 32, 97, 110, 100,
          32] @ nat_text (length all - length shown) @ U '' more'' else []))"

definition render_document :: "ref_doc \<Rightarrow> pystr" where
  "render_document d =
     U ''### Reference: '' @ rd_path d @ [10] @ U ''Applies to:'' @ [10] @ scope_lines (rd_scopes d) @ [10,
       10] @ rd_content d"

definition doc_rank :: "ref_doc \<Rightarrow> bool \<times> int \<times> bool \<times> pystr" where
  "doc_rank d = (\<not> rd_explicit d, - rd_depth d, rd_path d \<noteq> U ''AGENTS.md'', rd_path d)"

fun fit_documents :: "int \<Rightarrow> bool \<Rightarrow> ref_doc list \<Rightarrow> ref_doc list" where
  "fit_documents used some [] = []"
| "fit_documents used some (d # ds) =
     (let n = (if some then 2 else 0) + int (length (render_document d))
      in if used + n > MAX_CONTEXT_CHARS_PER_SOURCE then fit_documents used some ds
         else d # fit_documents (used + n) True ds)"

definition select_within_budget :: "ref_doc list \<Rightarrow> ref_doc list" where
  "select_within_budget ds = fit_documents 0 False (sort_key doc_rank ds)"

section \<open>The provider\<close>

record doc_request =
  dq_repo :: pystr
  dq_files :: "pystr list"
  dq_workdir :: pystr
  dq_base_ref :: pystr
  dq_base_sha :: pystr

definition static_result :: "pystr \<Rightarrow> pystr \<Rightarrow> pystr option \<Rightarrow> context_result" where
  "static_result status t err = \<lparr>cx_provider = U ''static'', cx_status = status, cx_text = t, cx_meta = [], cx_error = err, cx_blocks = []\<rparr>"

definition change_warning :: "pystr list \<Rightarrow> pystr" where
  "change_warning ps =
     [9888, 32, 84, 104, 105, 115, 32, 80, 82, 32, 99, 104, 97, 110, 103, 101, 115, 32, 114, 101, 112, 111, 115, 105,
       116, 111, 114, 121, 32, 105, 110, 115, 116, 114, 117, 99, 116, 105, 111, 110, 32, 100, 111, 99, 117, 109, 101,
         110, 116, 115, 46, 32, 84, 104, 101, 32, 116, 114, 117, 115, 116, 101, 100, 32, 98, 97, 115, 101, 45, 98,
          114, 97, 110, 99, 104, 32, 118, 101, 114, 115, 105, 111, 110, 115, 32, 97, 114, 101, 32, 117, 115, 101,
          100, 32, 102, 111, 114, 32, 116, 104, 105, 115, 32, 114, 101, 118, 105, 101, 119, 58] @ [10] @
     join_text [10] (map (\<lambda>p. U ''- '' @ p) ps)"

definition warning_block :: "pystr list \<Rightarrow> context_block" where
  "warning_block ps =
     \<lparr>cb_source = U ''static'', cb_id = U ''instruction-change-warning'', cb_text = change_warning ps, cb_priority = 5, cb_recoverable = False,
      cb_trust = U ''trusted_base_repo'', cb_sensitivity = U ''internal'', cb_retention = U ''review_history'', cb_files = ps\<rparr>"

definition document_block :: "ref_doc \<Rightarrow> context_block" where
  "document_block d =
     \<lparr>cb_source = U ''static'', cb_id = rd_path d, cb_text = render_document d, cb_priority = 50, cb_recoverable = True,
      cb_trust = U ''trusted_base_repo'', cb_sensitivity = U ''internal'', cb_retention = U ''manifest_only'', cb_files = sort (rd_scopes d)\<rparr>"

definition shown_result :: "pystr option \<Rightarrow> pystr list \<Rightarrow> pystr list \<Rightarrow> nat \<Rightarrow> doc_walk \<Rightarrow> context_result" where
  "shown_result sha instructions requested hits w =
     (let selected = sort_key (\<lambda>d. (rd_depth d, rd_path d)) (select_within_budget (map snd (dw_docs w)));
          warn = instructions \<noteq> [] \<and> sha \<noteq> None;
          t = join_text [10, 10] ((if warn then [change_warning instructions] else []) @ map render_document selected)
      in \<lparr>cx_provider = U ''static'', cx_status = (if strip t = [] then U ''empty'' else U ''ok''), cx_text = t,
          cx_meta =
            [(U ''documents'', JList (map (JStr \<circ> rd_path) selected)),
             (U ''revision'', JStr (case sha of None \<Rightarrow> U ''worktree'' | Some r \<Rightarrow> r)),
             (U ''changed_instruction_documents'', JList (map JStr instructions)),
             (U ''cache_hit'', JBool (requested \<noteq> [] \<and> hits = length requested)),
             (U ''cache_hits'', JInt (int hits)),
             (U ''items_read'', JInt (int (length requested))),
             (U ''items_selected'', JInt (int (length selected))),
             (U ''content_chars_read'', JInt (dw_read w)),
             (U ''content_chars_selected'', JInt (sum_list (map (\<lambda>d. int (length (rd_content d))) selected)))],
          cx_error = None,
          cx_blocks = (if warn then [warning_block instructions] else []) @ map document_block selected\<rparr>)"

definition fetch_documents :: "static_env \<Rightarrow> (doc_cache \<Rightarrow> doc_cache) \<Rightarrow> pystr option \<Rightarrow> doc_request \<Rightarrow> pystr \<Rightarrow> pystr option \<Rightarrow> doc_cache
    \<Rightarrow> context_result \<times> doc_cache" where
  "fetch_documents env others path req rootd sha c =
     (let cands = with_configured path (candidate_paths (dq_files req));
          requested = (if sha = None then [] else List.map_filter (\<lambda>pm. confined_relative_path rootd (fst pm)) cands);
          instructions = changed_instruction_documents path (dq_files req)
      in case (case sha of
                 None \<Rightarrow> ((None, 0), c)
               | Some r \<Rightarrow> (case read_git_files env others rootd r requested (se_casefold env (dq_repo req)) c of
                             ((out, hits), c1) \<Rightarrow> ((Some out, hits), c1))) of
           ((base, hits), c1) \<Rightarrow>
             let w = fold (visit_document env rootd base) cands \<lparr>dw_docs = [], dw_read = 0, dw_rejected = False\<rparr>
             in if dw_docs w = [] \<and> \<not> (instructions \<noteq> [] \<and> sha \<noteq> None)
                then (if dw_rejected w then static_result (U ''error'') [] (Some (U ''path outside allowed root''))
                      else static_result (U ''empty'') [] None, c1)
                else (shown_result sha instructions requested hits w, c1))"

definition static_fetch :: "static_env \<Rightarrow> (doc_cache \<Rightarrow> doc_cache) \<Rightarrow> pystr option \<Rightarrow> pystr option \<Rightarrow> doc_request \<Rightarrow> doc_cache
    \<Rightarrow> context_result \<times> doc_cache" where
  "static_fetch env others path root_opt req c =
     (let root_src = (if dq_workdir req \<noteq> [] then dq_workdir req else (case root_opt of None \<Rightarrow> [] | Some r \<Rightarrow> r))
      in if root_src = [] then (static_result (U ''empty'') [] None, c)
         else case se_realpath env root_src of
                Inl e \<Rightarrow> (static_result (U ''empty'') [] None, c)
              | Inr rootd \<Rightarrow>
                  (case resolve_base_revision env rootd (dq_base_ref req) (dq_base_sha req) of
                     None \<Rightarrow>
                       if dq_base_ref req \<noteq> [] then (static_result (U ''error'') [] (Some (U ''base reference unavailable'')), c)
                       else fetch_documents env others path req rootd None c
                   | Some sha \<Rightarrow> fetch_documents env others path req rootd (if sha = [] then None else Some sha) c))"


section \<open>What git prints is read back\<close>

text \<open>
  The documented answer of \<open>git cat-file --batch\<close> to one object name: that it is missing, or its id, type and size, and its
  bytes with a line feed.
\<close>

definition cat_file_entry :: "int list \<times> (int list \<times> int list) option \<Rightarrow> int list" where
  "cat_file_entry a =
     (case snd a of
        None \<Rightarrow> fst a @ U '' missing'' @ [10]
      | Some (oid, bytes) \<Rightarrow> oid @ U '' blob '' @ nat_text (length bytes) @ [10] @ bytes @ [10])"

definition entry_on_a_line :: "int list \<times> (int list \<times> int list) option \<Rightarrow> bool" where
  "entry_on_a_line a \<longleftrightarrow> (case snd a of None \<Rightarrow> 10 \<notin> set (fst a) | Some (oid, bytes) \<Rightarrow> 10 \<notin> set oid)"

definition reads_decimal :: "(int list \<Rightarrow> int option) \<Rightarrow> bool" where
  "reads_decimal to_int \<longleftrightarrow> (\<forall>n. to_int (nat_text n) = Some (int n))"

lemma cut_header_line: "10 \<notin> set h \<Longrightarrow> cut_header (h @ 10 # r) = Some (h, r)"
  by (induction h) auto

lemma nat_text_no: "c \<notin> {48..57} \<Longrightarrow> c \<notin> set (nat_text n)"
  using nat_text_digits[of c n] by auto

lemma after_last_blank_size: "after_last_blank (oid @ U '' blob '' @ nat_text n) = Some (nat_text n)"
proof -
  have stop: "rev (U '' blob '') = 32 # rev (U '' blob'')" by (simp add: U_def)
  have "\<forall>b\<in>set (rev (nat_text n)). b \<noteq> 32" using nat_text_no[of 32 n] by auto
  then have "takeWhile (\<lambda>b. b \<noteq> 32) (rev (nat_text n) @ 32 # rest) = rev (nat_text n)" for rest
    using takeWhile_append2[of "rev (nat_text n)" "\<lambda>b. b \<noteq> 32"] by auto
  then have "takeWhile (\<lambda>b. b \<noteq> 32) (rev (oid @ U '' blob '' @ nat_text n)) = rev (nat_text n)"
    by (simp add: stop)
  moreover have "32 \<in> set (U '' blob '')" by (simp add: U_def)
  ultimately show ?thesis by (simp add: after_last_blank_def)
qed

lemma size_header_not_missing: "\<not> endswith (oid @ U '' blob '' @ nat_text n) (U '' missing'')"
proof
  assume "endswith (oid @ U '' blob '' @ nat_text n) (U '' missing'')"
  then obtain x where "oid @ U '' blob '' @ nat_text n = x @ U '' missing''"
    unfolding endswith_def by (metis append_take_drop_id)
  then have "last (oid @ U '' blob '' @ nat_text n) = last (x @ U '' missing'')" by simp
  moreover have "last (x @ U '' missing'') = 103" by (simp add: U_def)
  moreover have "last (oid @ U '' blob '' @ nat_text n) = last (nat_text n)" by simp
  moreover have "last (nat_text n) \<in> set (nat_text n)" by simp
  ultimately show False using nat_text_digits[of 103 n] by auto
qed

lemma endswith_self: "endswith (a @ b) b"
  by (simp add: endswith_def)

lemma parse_cat_file_entries:
  assumes "reads_decimal to_int" "length objs = length ps" "list_all entry_on_a_line objs"
  shows "parse_cat_file dec to_int (concat (map cat_file_entry objs)) ps =
           zip ps (map (\<lambda>a. map_option (\<lambda>d. clip_text (dec (snd d))) (snd a)) objs)"
  using assms(2,3)
proof (induction objs ps rule: list_induct2)
  case (Cons a objs p ps)
  obtain name obj where a: "a = (name, obj)" by (cases a) blast
  show ?case
  proof (cases obj)
    case None
    have line: "10 \<notin> set (name @ U '' missing'')" using Cons.prems None a by (simp add: entry_on_a_line_def U_def)
    have "concat (map cat_file_entry (a # objs)) = (name @ U '' missing'') @ 10 # concat (map cat_file_entry objs)"
      by (simp add: a None cat_file_entry_def)
    then show ?thesis
      using Cons.IH Cons.prems by (simp add: cut_header_line[OF line, simplified] endswith_self a None)
  next
    case (Some d)
    obtain oid bytes where d: "d = (oid, bytes)" by (cases d) blast
    let ?h = "oid @ U '' blob '' @ nat_text (length bytes)"
    have line: "10 \<notin> set ?h" using Cons.prems Some d a nat_text_no[of 10] by (simp add: entry_on_a_line_def U_def)
    have data: "concat (map cat_file_entry (a # objs)) = ?h @ 10 # bytes @ 10 # concat (map cat_file_entry objs)"
      by (simp add: a Some d cat_file_entry_def)
    have size: "to_int (nat_text (length bytes)) = Some (int (length bytes))" using assms(1) by (simp add: reads_decimal_def)
    show ?thesis
      unfolding data parse_cat_file.simps cut_header_line[OF line]
      using Cons.IH Cons.prems
      by (simp add: after_last_blank_size size_header_not_missing size a Some d Let_def)
  qed
qed simp

text \<open>
  The answer of git is read back exactly.  Whatever bytes the documents hold, headers and blank lines that look like
  answers included, reading the batch for the asked paths gives each path its own document, cut to the limit, and none for a
  missing one.
\<close>

lemma cat_file_read_back:
  assumes "reads_decimal to_int" "length objs = length ps" "list_all entry_on_a_line objs"
  shows "parse_cat_file dec to_int (concat (map cat_file_entry objs)) ps =
           zip ps (map (\<lambda>a. map_option (\<lambda>d. clip_text (dec (snd d))) (snd a)) objs)"
  by (rule parse_cat_file_entries[OF assms])

section \<open>The cache is transparent\<close>

text \<open>
  The abstract state has no cache: a revision and a path determine a document.  A cache implements it if every entry is
  the document, keys are unique and the bound is kept.
\<close>

definition cached_right :: "(pystr \<Rightarrow> pystr \<Rightarrow> pystr option) \<Rightarrow> doc_cache \<Rightarrow> bool" where
  "cached_right doc c \<longleftrightarrow> distinct (map fst c) \<and> (\<forall>scope sha p v. ((scope, sha, p), v) \<in> set c \<longrightarrow> v = doc sha p)"

definition cache_ok :: "(pystr \<Rightarrow> pystr \<Rightarrow> pystr option) \<Rightarrow> doc_cache \<Rightarrow> bool" where
  "cache_ok doc c \<longleftrightarrow> cached_right doc c \<and> length c \<le> MAX_GIT_DOCUMENT_CACHE"

definition git_serves :: "static_env \<Rightarrow> pystr \<Rightarrow> (pystr \<Rightarrow> pystr \<Rightarrow> pystr option) \<Rightarrow> bool" where
  "git_serves env rootd doc \<longleftrightarrow> (\<forall>sha ps p. p \<in> set ps \<longrightarrow> dict_get (ask_git env rootd sha ps) p None = doc sha p)"

lemma evict_drop: "evict c = drop (length c - MAX_GIT_DOCUMENT_CACHE) c"
proof (induction c rule: evict.induct)
  case (1 c)
  show ?case
  proof (cases "length c > MAX_GIT_DOCUMENT_CACHE")
    case True
    then have "length c - MAX_GIT_DOCUMENT_CACHE = Suc (length (tl c) - MAX_GIT_DOCUMENT_CACHE)" by simp
    with 1[OF True] True show ?thesis by (simp add: evict.simps[of c] drop_Suc)
  next
    case False
    then show ?thesis by (simp add: evict.simps[of c])
  qed
qed

lemma evict_ok: "cached_right doc c \<Longrightarrow> cache_ok doc (evict c)"
proof -
  assume ok: "cached_right doc c"
  have "distinct (map fst (drop n c))" for n using ok by (simp add: cached_right_def drop_map flip: drop_map)
  then show ?thesis
    using ok by (auto simp: evict_drop cache_ok_def cached_right_def dest: in_set_dropD)
qed

lemma cache_put_right: "cached_right doc c \<Longrightarrow> v = doc sha p \<Longrightarrow> cached_right doc (cache_put (scope, sha, p) v c)"
  by (auto simp: cached_right_def cache_put_def distinct_map_filter)

lemma length_cache_put:
  assumes "distinct (map fst c)" "map_of c k = Some v"
  shows "length (cache_put k w c) = length c"
proof -
  have "(k, v) \<in> set c" using assms(2) by (rule map_of_SomeD)
  then obtain a b where c: "c = a @ (k, v) # b" by (meson split_list)
  have "filter (\<lambda>e. fst e \<noteq> k) a = a" "filter (\<lambda>e. fst e \<noteq> k) b = b"
    using assms(1) c by (auto simp: filter_id_conv)
  then show ?thesis by (simp add: cache_put_def c)
qed

text \<open>What the pass over the cache has established after some paths.\<close>

definition pass_right :: "(pystr \<Rightarrow> pystr \<Rightarrow> pystr option) \<Rightarrow> pystr \<Rightarrow> pystr set \<Rightarrow> cache_pass \<Rightarrow> bool" where
  "pass_right doc sha ps s \<longleftrightarrow> cache_ok doc (ca_cache s) \<and> (\<forall>p v. map_of (ca_out s) p = Some v \<longrightarrow> v = doc sha p) \<and>
     ps \<subseteq> dom (map_of (ca_out s)) \<union> set (ca_missing s)"

lemma look_up_right:
  assumes "pass_right doc sha done1 s"
  shows "pass_right doc sha (insert p done1) (look_up scope sha p s)"
proof (cases "map_of (ca_cache s) (scope, sha, p)")
  case None
  with assms show ?thesis by (auto simp: look_up_def pass_right_def)
next
  case (Some v)
  have ok: "cached_right doc (ca_cache s)" "length (ca_cache s) \<le> MAX_GIT_DOCUMENT_CACHE" "distinct (map fst (ca_cache s))"
    using assms by (simp_all add: pass_right_def cache_ok_def cached_right_def)
  have v: "v = doc sha p" using ok(1) map_of_SomeD[OF Some] by (simp add: cached_right_def)
  have "cache_ok doc (cache_put (scope, sha, p) v (ca_cache s))"
    using cache_put_right[OF ok(1) v] length_cache_put[OF ok(3) Some] ok(2) by (simp add: cache_ok_def)
  with Some v assms show ?thesis by (auto simp: look_up_def pass_right_def)
qed

lemma look_up_fold_right:
  "pass_right doc sha done1 s \<Longrightarrow> pass_right doc sha (set ps \<union> done1) (fold (look_up scope sha) ps s)"
proof (induction ps arbitrary: done1 s)
  case (Cons p ps)
  from Cons.IH[OF look_up_right[OF Cons.prems, of p scope]] show ?case by simp
qed simp

lemma keep_answers_right:
  assumes "\<And>p. p \<in> set ps \<Longrightarrow> dict_get parsed p None = doc sha p" "cached_right doc c"
    "\<And>p v. map_of out p = Some v \<Longrightarrow> v = doc sha p"
  shows "case fold (keep_answer scope sha parsed) ps (out, c) of (out1, c1) \<Rightarrow>
           cached_right doc c1 \<and> (\<forall>p v. map_of out1 p = Some v \<longrightarrow> v = doc sha p) \<and> dom (map_of out1) = dom (map_of out) \<union> set ps"
  using assms
proof (induction ps arbitrary: out c)
  case (Cons p ps)
  have here: "dict_get parsed p None = doc sha p" using Cons.prems(1) by simp
  have put: "cached_right doc (cache_put (scope, sha, p) (doc sha p) c)" by (rule cache_put_right[OF Cons.prems(2) refl])
  have set: "map_of (dict_set p (doc sha p) out) q = Some v \<Longrightarrow> v = doc sha q" for q v
    using Cons.prems(3)[of q v] by (auto split: if_splits)
  have answers: "q \<in> set ps \<Longrightarrow> dict_get parsed q None = doc sha q" for q using Cons.prems(1)[of q] by simp
  have rest: "case fold (keep_answer scope sha parsed) ps (dict_set p (doc sha p) out, cache_put (scope, sha, p) (doc sha p) c) of (out1, c1) \<Rightarrow>
      cached_right doc c1 \<and> (\<forall>p v. map_of out1 p = Some v \<longrightarrow> v = doc sha p) \<and>
      dom (map_of out1) = dom (map_of (dict_set p (doc sha p) out)) \<union> set ps"
    by (rule Cons.IH[OF answers put set])
  have step: "fold (keep_answer scope sha parsed) (p # ps) (out, c) =
      fold (keep_answer scope sha parsed) ps (dict_set p (doc sha p) out, cache_put (scope, sha, p) (doc sha p) c)"
    by (simp add: keep_answer_def here Let_def)
  have grown: "dom (map_of (dict_set p (doc sha p) out)) \<union> set ps = dom (map_of out) \<union> set (p # ps)" by auto
  show ?case unfolding step by (rule rest[unfolded grown])
qed simp


text \<open>
  A failure of git is remembered as an absent document.  If git cannot be run once, by a time-out for instance, while it is
  asked for a document, the next read of that document at that revision finds none, without asking git, whatever git would answer.
\<close>

lemma failed_read_sticks:
  assumes "se_cat_file env rootd sha [p] = None" "map_of c (scope, sha, p) = None"
    "read_git_files env (\<lambda>c. c) rootd sha [p] scope c = (r1, c1)"
  shows "fst (read_git_files env2 others rootd2 sha [p] scope c1) = ([(p, None)], 1)"
proof -
  have first: "look_up_all scope sha [p] c = \<lparr>ca_out = [], ca_missing = [p], ca_hits = 0, ca_cache = c\<rparr>"
    using assms(2) by (simp add: look_up_all_def look_up_def)
  have c1: "c1 = evict (cache_put (scope, sha, p) None c)"
    using assms(1,3) by (simp add: read_git_files_def first ask_git_def keep_answer_def dict_get_def Let_def)
  let ?d = "cache_put (scope, sha, p) None c"
  have "length ?d - MAX_GIT_DOCUMENT_CACHE < length ?d" by (simp add: cache_put_def MAX_GIT_DOCUMENT_CACHE_def)
  then have split: "c1 = drop (length ?d - MAX_GIT_DOCUMENT_CACHE) (filter (\<lambda>e. fst e \<noteq> (scope, sha, p)) c) @ [((scope, sha, p), None)]"
    by (simp add: c1 evict_drop cache_put_def)
  have "(scope, sha, p) \<notin> fst ` set (drop (length ?d - MAX_GIT_DOCUMENT_CACHE) (filter (\<lambda>e. fst e \<noteq> (scope, sha, p)) c))"
    by (auto dest: in_set_dropD)
  then have "map_of c1 (scope, sha, p) = Some None" by (simp add: split map_add_Some_iff map_of_eq_None_iff)
  then show ?thesis by (simp add: read_git_files_def look_up_all_def look_up_def Let_def)
qed


section \<open>What the pull request cannot change\<close>

lemma first_commit_prints:
  "first_commit ask cs = Some r \<Longrightarrow> (\<And>q out. ask q = Git_Prints out \<Longrightarrow> strip out \<noteq> []) \<Longrightarrow> r \<noteq> []"
  by (induction ask cs rule: first_commit.induct) (auto split: git_answer.splits)

lemma resolve_prints:
  "resolve_base_revision env rootd r b = Some sha \<Longrightarrow> (\<And>q out. se_rev_parse env rootd q = Git_Prints out \<Longrightarrow> strip out \<noteq> []) \<Longrightarrow> sha \<noteq> []"
  by (auto simp only: resolve_base_revision_def dest: first_commit_prints split: if_splits)

lemma resolve_read [simp]: "resolve_base_revision (env\<lparr>se_read := f\<rparr>) = resolve_base_revision env"
  by (simp add: fun_eq_iff resolve_base_revision_def)

lemma ask_git_read [simp]: "ask_git (env\<lparr>se_read := f\<rparr>) = ask_git env"
  by (simp add: fun_eq_iff ask_git_def split: option.split)

lemma read_git_read [simp]: "read_git_files (env\<lparr>se_read := f\<rparr>) = read_git_files env"
  by (intro ext) (simp only: read_git_files_def ask_git_read)

lemma find_read: "find_document (env\<lparr>se_read := f\<rparr>) rootd (Some contents) p = find_document env rootd (Some contents) p"
  by (simp only: find_document_def option.case)

lemma visit_read: "visit_document (env\<lparr>se_read := f\<rparr>) rootd (Some contents) = visit_document env rootd (Some contents)"
  by (intro ext) (simp only: visit_document_def find_read)

lemma fetch_documents_read:
  "fetch_documents (env\<lparr>se_read := f\<rparr>) others path req rootd (Some sha) c = fetch_documents env others path req rootd (Some sha) c"
proof -
  let ?read = "read_git_files env others rootd sha (List.map_filter (\<lambda>pm. confined_relative_path rootd (fst pm))
    (with_configured path (candidate_paths (dq_files req)))) (se_casefold env (dq_repo req)) c"
  obtain out hits c1 where "?read = ((out, hits), c1)" by (cases ?read) auto
  then show ?thesis by (simp add: fetch_documents_def visit_read)
qed

text \<open>
  C35: the files of the working tree, which the pull request may change, never reach the documents of a review with a base
  reference: whatever the files hold, the result and the cache are the same.
\<close>

theorem documents_ignore_worktree:
  assumes "dq_base_ref req \<noteq> []" "\<And>r q out. se_rev_parse env r q = Git_Prints out \<Longrightarrow> strip out \<noteq> []"
  shows "static_fetch (env\<lparr>se_read := f\<rparr>) others path given req c = static_fetch env others path given req c"
proof -
  have "resolve_base_revision env rootd (dq_base_ref req) (dq_base_sha req) \<noteq> Some []" for rootd
    using resolve_prints[of env rootd "dq_base_ref req" "dq_base_sha req" "[]"] assms(2) by blast
  then show ?thesis
    using assms(1) by (auto simp: static_fetch_def Let_def fetch_documents_read split: sum.splits option.splits)
qed

section \<open>The budget of the documents\<close>

lemma length_join: "xs \<noteq> [] \<Longrightarrow> length (join_text sep xs) + length sep = sum_list (map (\<lambda>x. length x + length sep) xs)"
proof (induction xs rule: list_nonempty_induct)
  case (cons x xs)
  then show ?case by (simp add: join_text_Cons)
qed simp

definition doc_cost :: "ref_doc list \<Rightarrow> int" where
  "doc_cost ds = (\<Sum>d\<leftarrow>ds. int (length (render_document d)) + 2)"

lemma doc_cost_simps [simp]: "doc_cost [] = 0" "doc_cost (d # ds) = int (length (render_document d)) + 2 + doc_cost ds"
  "doc_cost (ds @ es) = doc_cost ds + doc_cost es"
  by (simp_all add: doc_cost_def)

lemma doc_cost_nonneg: "0 \<le> doc_cost ds"
  by (induction ds) auto

lemma length_join_docs:
  "int (length (join_text [10, 10] (map render_document ds))) = (if ds = [] then 0 else doc_cost ds - 2)"
proof (cases "ds = []")
  case False
  have "int (sum_list (map (\<lambda>x. length x + 2) (map render_document ds))) = doc_cost ds" by (induction ds) auto
  then show ?thesis using False length_join[of "map render_document ds" "[10, 10]"] by simp
qed simp

lemma fit_documents_cost:
  "used \<le> MAX_CONTEXT_CHARS_PER_SOURCE \<Longrightarrow>
   used + doc_cost (fit_documents used some ds) \<le> MAX_CONTEXT_CHARS_PER_SOURCE + (if some then 0 else 2)"
proof (induction used some ds rule: fit_documents.induct)
  case (2 used some d ds)
  let ?n = "(if some then 2 else 0) + int (length (render_document d))"
  show ?case
  proof (cases "used + ?n > MAX_CONTEXT_CHARS_PER_SOURCE")
    case True
    with 2(1)[OF refl True 2(3)] show ?thesis by (simp add: Let_def)
  next
    case False
    with 2(2)[OF refl False] show ?thesis by (cases some) (simp_all add: Let_def ac_simps)
  qed
qed simp

lemma fit_documents_set: "set (fit_documents used some ds) \<subseteq> set ds"
  by (induction used some ds rule: fit_documents.induct) (auto simp: Let_def)

lemma fit_documents_full:
  "d \<in> set ds \<Longrightarrow> d \<notin> set (fit_documents used some ds) \<Longrightarrow>
   used + doc_cost (fit_documents used some ds) + int (length (render_document d)) + (if some then 2 else 0) > MAX_CONTEXT_CHARS_PER_SOURCE"
proof (induction used some ds rule: fit_documents.induct)
  case (2 used some e ds)
  let ?n = "(if some then 2 else 0) + int (length (render_document e))"
  show ?case
  proof (cases "used + ?n > MAX_CONTEXT_CHARS_PER_SOURCE")
    case True
    show ?thesis
    proof (cases "d = e")
      case True
      with \<open>used + ?n > MAX_CONTEXT_CHARS_PER_SOURCE\<close> doc_cost_nonneg[of "fit_documents used some ds"]
      show ?thesis by (simp add: Let_def)
    next
      case False
      with True 2(3,4) 2(1)[OF refl True] show ?thesis by (simp add: Let_def)
    qed
  next
    case False
    with 2(3,4) 2(2)[OF refl False] show ?thesis by (cases some) (auto simp: Let_def ac_simps)
  qed
qed simp

lemma left_out_too_big:
  assumes "d \<in> set ds - set (select_within_budget ds)"
  shows "int (length (join_text [10, 10] (map render_document (select_within_budget ds @ [d])))) > MAX_CONTEXT_CHARS_PER_SOURCE"
proof -
  have "doc_cost (select_within_budget ds) + int (length (render_document d)) > MAX_CONTEXT_CHARS_PER_SOURCE"
    using assms fit_documents_full[of d "sort_key doc_rank ds" 0 False] by (simp add: select_within_budget_def)
  moreover have "int (length (join_text [10, 10] (map render_document (select_within_budget ds @ [d])))) =
      doc_cost (select_within_budget ds @ [d]) - 2"
    by (simp only: length_join_docs) simp
  ultimately show ?thesis by simp
qed

text \<open>
  C36: the documents that are shown fit the budget of a source together, each is one of the documents found, and the choice is
  maximal: whatever was left out would not fit behind it.
\<close>

theorem documents_fit_budget:
  "int (length (join_text [10, 10] (map render_document (select_within_budget ds)))) \<le> MAX_CONTEXT_CHARS_PER_SOURCE \<and>
   set (select_within_budget ds) \<subseteq> set ds \<and>
   {d \<in> set ds - set (select_within_budget ds).
      int (length (join_text [10, 10] (map render_document (select_within_budget ds @ [d])))) \<le> MAX_CONTEXT_CHARS_PER_SOURCE} = {}"
proof -
  have room: "0 \<le> MAX_CONTEXT_CHARS_PER_SOURCE" by (simp add: MAX_CONTEXT_CHARS_PER_SOURCE_def)
  have fit: "int (length (join_text [10, 10] (map render_document (select_within_budget ds)))) \<le> MAX_CONTEXT_CHARS_PER_SOURCE"
    using fit_documents_cost[OF room, of False "sort_key doc_rank ds"] room
    by (simp add: length_join_docs select_within_budget_def)
  have sub: "set (select_within_budget ds) \<subseteq> set ds"
    using fit_documents_set[of 0 False "sort_key doc_rank ds"] by (simp add: select_within_budget_def)
  have rest: "{d \<in> set ds - set (select_within_budget ds).
      int (length (join_text [10, 10] (map render_document (select_within_budget ds @ [d])))) \<le> MAX_CONTEXT_CHARS_PER_SOURCE} = {}"
    using left_out_too_big[of _ ds] by (auto simp only: not_le[symmetric] mem_Collect_eq empty_iff)
  show ?thesis by (rule conjI[OF fit conjI[OF sub rest]])
qed

section \<open>A small repository\<close>

definition sample_oid :: "int list" where
  "sample_oid = [97, 98]"

definition sample_doc :: "pystr \<Rightarrow> pystr \<Rightarrow> pystr option" where
  "sample_doc sha p = (if p = U ''AGENTS.md'' then Some [104, 105] else None)"

definition sample_objects :: "pystr list \<Rightarrow> (int list \<times> (int list \<times> int list) option) list" where
  "sample_objects ps = map (\<lambda>p. (if p = U ''AGENTS.md'' then (U ''x'', Some (sample_oid, [104,
    105])) else (U ''y'', None))) ps"

definition sample_to_int :: "int list \<Rightarrow> int option" where
  "sample_to_int t = (case parse_digits t of Some (n, []) \<Rightarrow> Some n | _ \<Rightarrow> None)"

definition sample_static :: static_env where
  "sample_static = \<lparr>se_realpath = Inr, se_read = (\<lambda>p. Some [120]), se_casefold = (\<lambda>t. t), se_rev_parse = (\<lambda>r o1. Git_Prints (U ''c0'')),
     se_cat_file = (\<lambda>r sha ps. Some (concat (map cat_file_entry (sample_objects ps)))), se_decode = (\<lambda>b. b), se_to_int = sample_to_int\<rparr>"

definition sample_doc_request :: doc_request where
  "sample_doc_request = \<lparr>dq_repo = U ''o/r'', dq_files = [U ''src/a.py''], dq_workdir = U ''/w'', dq_base_ref = U ''main'', dq_base_sha = []\<rparr>"

lemma digit_val_digit: "n < 10 \<Longrightarrow> digit_val (48 + int n) = Some (int n)"
  by (simp add: digit_val_def)

lemma read_digits_nat_text: "read_digits m (nat_text n @ r) = read_digits (m * 10 ^ length (nat_text n) + int n) r"
proof (induction n arbitrary: m r rule: nat_text.induct)
  case (1 n)
  show ?case
  proof (cases "n < 10")
    case True
    then have "nat_text n = [48 + int n]" by (simp add: nat_text.simps)
    then show ?thesis using digit_val_digit[OF True] by (simp add: algebra_simps)
  next
    case False
    then have t: "nat_text n = nat_text (n div 10) @ [48 + int (n mod 10)]" by (simp add: nat_text.simps[of n])
    have "n mod 10 < 10" by simp
    note d = digit_val_digit[OF this]
    have "int n = 10 * int (n div 10) + int (n mod 10)" by (metis mult_div_mod_eq of_nat_add of_nat_mult of_nat_numeral)
    then show ?thesis using 1[OF False, of m "[48 + int (n mod 10)] @ r"] d by (simp add: t algebra_simps)
  qed
qed

lemma sample_reads_decimal: "reads_decimal sample_to_int"
proof (unfold reads_decimal_def, intro allI)
  fix n
  obtain c r where t: "nat_text n = c # r" by (meson nat_text_nonempty neq_Nil_conv)
  have "c \<in> set (nat_text n)" using t by simp
  then have c: "48 \<le> c \<and> c \<le> 57" by (rule nat_text_digits)
  then have dig: "digit_val c = Some (c - 48)" by (simp add: digit_val_def)
  have "read_digits 0 (nat_text n @ []) = (int n, [])" unfolding read_digits_nat_text by simp
  then have "read_digits (c - 48) r = (int n, [])" by (simp add: t dig)
  then show "sample_to_int (nat_text n) = Some (int n)" by (simp add: sample_to_int_def parse_digits_def t dig)
qed

lemma fold_dict_zip: "p \<in> set ps \<Longrightarrow> dict_get (fold (\<lambda>(p, v) d. dict_set p v d) (map (\<lambda>p. (p, g p)) ps) d) p None = g p"
proof (induction ps arbitrary: d rule: rev_induct)
  case (snoc q ps)
  then show ?case by (auto simp: dict_get_def)
qed simp

lemma sample_git_serves: "git_serves sample_static rootd sample_doc"
proof (unfold git_serves_def, intro allI impI)
  fix sha and ps :: "pystr list" and p assume p: "p \<in> set ps"
  have "parse_cat_file (\<lambda>b. b) sample_to_int (concat (map cat_file_entry (sample_objects ps))) ps =
      zip ps (map (\<lambda>a. map_option (\<lambda>d. clip_text (snd d)) (snd a)) (sample_objects ps))"
    by (rule parse_cat_file_entries[OF sample_reads_decimal])
      (auto simp: sample_objects_def list_all_iff entry_on_a_line_def sample_oid_def U_def)
  also have "\<dots> = map (\<lambda>p. (p, sample_doc sha p)) ps"
    by (induction ps) (auto simp: sample_objects_def sample_doc_def clip_text_def MAX_CHARS_PER_DOCUMENT_def)
  finally show "dict_get (ask_git sample_static rootd sha ps) p None = sample_doc sha p"
    using fold_dict_zip[OF p, of "sample_doc sha" "[]"] by (simp add: ask_git_def sample_static_def)
qed


lemma documents_ignore_worktree_witness:
  "static_fetch (sample_static\<lparr>se_read := \<lambda>p. None\<rparr>) (\<lambda>c. c) None None sample_doc_request [] =
   static_fetch sample_static (\<lambda>c. c) None None sample_doc_request []"
proof (rule documents_ignore_worktree)
  show "dq_base_ref sample_doc_request \<noteq> []" by code_simp
  have print: "strip (U ''c0'') \<noteq> []" by code_simp
  show "se_rev_parse sample_static r q = Git_Prints out \<Longrightarrow> strip out \<noteq> []" for r q out
    using print by (simp add: sample_static_def)
qed

text \<open>A change below \<open>.claude\<close> replaces the entry of the rules of the whole repository by one of that directory.\<close>

lemma claude_directory_narrows_rules:
  "map_of (candidate_paths [U ''.claude/settings.json'', U ''src/a.py'']) (U ''.claude/CLAUDE.md'') =
     Some \<lparr>dm_scopes = [U ''.claude/settings.json''], dm_explicit = False, dm_depth = 1\<rparr>"
  by code_simp

end
