(* ===== verification/Pagination.thy ===== *)
theory Pagination
  imports Run_Store Finding_Store
begin

text \<open>
  Lists in pages: the signed cursor (\<open>src/server/pagination.py\<close>), the page queries (\<open>src/server/repos/page_repo.py\<close>) and the two
  routes \<open>run_findings\<close> and \<open>pr_runs\<close> of \<open>src/server/api.py\<close>.  JSON as bytes and HMAC are arguments; a text compares by its code
  points, which is the order of its UTF-8 bytes.
\<close>

section \<open>Base64 for URLs\<close>

definition b64_char :: "int \<Rightarrow> int" where
  "b64_char i = (if i < 26 then 65 + i else if i < 52 then 71 + i else if i < 62 then i - 4 else if i = 62 then 45 else 95)"

definition b64_val :: "int \<Rightarrow> int option" where
  "b64_val c =
     (if 65 \<le> c \<and> c \<le> 90 then Some (c - 65) else if 97 \<le> c \<and> c \<le> 122 then Some (c - 71)
      else if 48 \<le> c \<and> c \<le> 57 then Some (c + 4) else if c = 45 then Some 62 else if c = 95 then Some 63 else None)"

fun b64_encode :: "int list \<Rightarrow> pystr" where
  "b64_encode [] = []"
| "b64_encode [a] = map b64_char [a div 4, (a mod 4) * 16]"
| "b64_encode [a, b] = map b64_char [a div 4, (a mod 4) * 16 + b div 16, (b mod 16) * 4]"
| "b64_encode (a # b # c # r) =
     map b64_char [a div 4, (a mod 4) * 16 + b div 16, (b mod 16) * 4 + c div 64, c mod 64] @ b64_encode r"

text \<open>With its padding restored, a rest of one letter is refused and the spare bits of the others are dropped.\<close>

fun b64_bytes :: "int list \<Rightarrow> int list option" where
  "b64_bytes [] = Some []"
| "b64_bytes [w] = None"
| "b64_bytes [w, x] = Some [w * 4 + x div 16]"
| "b64_bytes [w, x, y] = Some [w * 4 + x div 16, (x mod 16) * 16 + y div 4]"
| "b64_bytes (w # x # y # z # r) =
     map_option (\<lambda>bs. (w * 4 + x div 16) # ((x mod 16) * 16 + y div 4) # ((y mod 4) * 64 + z) # bs) (b64_bytes r)"

definition b64_decode :: "pystr \<Rightarrow> int list option" where
  "b64_decode v =
     (if v = [] \<or> (\<exists>c\<in>set v. b64_val c = None) then None else b64_bytes (map (\<lambda>c. the (b64_val c)) v))"

section \<open>The cursor\<close>

definition MAX_CURSOR_BYTES :: int where
  "MAX_CURSOR_BYTES = 4096"

definition RESOURCES :: "pystr list" where
  "RESOURCES = map U [''overview'', ''pr-runs'', ''run-findings'']"

text \<open>\<open>pw_dumps\<close> and \<open>pw_loads\<close> are JSON as sorted compact bytes, \<open>pw_sign\<close> the HMAC under the derived key.\<close>

record page_world =
  pw_dumps :: "json \<Rightarrow> int list"
  pw_loads :: "int list \<Rightarrow> json option"
  pw_sign :: "int list \<Rightarrow> int list"

definition invalid_cursor :: exn where
  "invalid_cursor = ValueError (U ''invalid cursor'')"

definition cursor_payload :: "pystr \<Rightarrow> int option \<Rightarrow> int \<Rightarrow> json list \<Rightarrow> (pystr \<times> json) list \<Rightarrow> json" where
  "cursor_payload resource parent snap pos metadata =
     JObj [(U ''v'', JInt 1), (U ''resource'', JStr resource), (U ''parent'', (case parent of None \<Rightarrow> JNull | Some p \<Rightarrow> JInt p)),
           (U ''snapshot'', JInt snap), (U ''position'', JList pos), (U ''metadata'', JObj metadata)]"

definition cursor_token :: "page_world \<Rightarrow> json \<Rightarrow> pystr" where
  "cursor_token w payload = (let raw = pw_dumps w payload in b64_encode raw @ [46] @ b64_encode (pw_sign w raw))"

definition encode_cursor :: "page_world \<Rightarrow> pystr \<Rightarrow> int option \<Rightarrow> int \<Rightarrow> json list \<Rightarrow> (pystr \<times> json) list \<Rightarrow> exn + pystr" where
  "encode_cursor w resource parent snap pos metadata =
     (if resource \<notin> set RESOURCES \<or> snap < 0 then Inl invalid_cursor
      else let token = cursor_token w (cursor_payload resource parent snap pos metadata)
           in if int (length token) > MAX_CURSOR_BYTES then Inl invalid_cursor else Inr token)"

text \<open>The number a value equals, a Boolean included.\<close>

fun num_val :: "json \<Rightarrow> rat option" where
  "num_val (JInt i) = Some (of_int i)"
| "num_val (JNum q) = Some q"
| "num_val (JBool b) = Some (if b then 1 else 0)"
| "num_val _ = None"

fun position_item :: "json \<Rightarrow> bool" where
  "position_item (JStr s) = (length s \<le> 1024)"
| "position_item (JBool b) = False"
| "position_item (JList vs) = False"
| "position_item (JObj o1) = False"
| "position_item _ = True"

record cursor =
  cu_snapshot :: int
  cu_position :: "json list"
  cu_metadata :: "(pystr \<times> json) list"

definition read_payload :: "pystr \<Rightarrow> int option \<Rightarrow> json \<Rightarrow> cursor option" where
  "read_payload resource parent v =
     (case v of
        JObj p \<Rightarrow>
          (if set (map fst p) = set (map U [''v'', ''resource'', ''parent'', ''snapshot'', ''position'', ''metadata'']) \<and>
              num_val (fld p ''v'') = Some 1 \<and> fld p ''resource'' = JStr resource \<and>
              (case parent of None \<Rightarrow> fld p ''parent'' = JNull | Some n \<Rightarrow> num_val (fld p ''parent'') = Some (of_int n))
           then (case (fld p ''snapshot'', fld p ''position'', fld p ''metadata'') of
                   (JInt s, JList pos, JObj m) \<Rightarrow>
                     if 0 \<le> s \<and> length pos \<le> 8 \<and> list_all position_item pos
                     then Some \<lparr>cu_snapshot = s, cu_position = pos, cu_metadata = m\<rparr> else None
                 | _ \<Rightarrow> None)
           else None)
      | _ \<Rightarrow> None)"

definition decode_cursor :: "page_world \<Rightarrow> pystr \<Rightarrow> pystr \<Rightarrow> int option \<Rightarrow> exn + cursor" where
  "decode_cursor w token resource parent =
     (if int (length token) > MAX_CURSOR_BYTES then Inl invalid_cursor
      else (case split_on 46 token of
              [encoded, signature] \<Rightarrow>
                (case (b64_decode encoded, b64_decode signature) of
                   (Some raw, Some supplied) \<Rightarrow>
                     (if supplied \<noteq> pw_sign w raw then Inl invalid_cursor
                      else (case pw_loads w raw of
                              None \<Rightarrow> Inl invalid_cursor
                            | Some v \<Rightarrow> (case read_payload resource parent v of None \<Rightarrow> Inl invalid_cursor | Some c \<Rightarrow> Inr c)))
                 | _ \<Rightarrow> Inl invalid_cursor)
            | _ \<Rightarrow> Inl invalid_cursor))"

section \<open>The page queries\<close>

definition max_id :: "nat list \<Rightarrow> int" where
  "max_id ids = (if ids = [] then 0 else int (Max (set ids)))"

text \<open>The columns the findings are sorted by, and the same values as a position of the cursor.\<close>

type_synonym finding_rank = "rat \<times> rat \<times> rat \<times> pystr \<times> rat"

definition page_key :: "finding \<Rightarrow> finding_rank" where
  "page_key f =
     (of_nat (severity_rank (f_severity f)), of_nat (consensus_rank (f_consensus f)),
      - (case f_confidence f of None \<Rightarrow> - 1 | Some c \<Rightarrow> c), (case f_file f of None \<Rightarrow> [] | Some p \<Rightarrow> p), of_nat (f_id f))"

definition finding_position :: "finding \<Rightarrow> json list" where
  "finding_position f =
     [JInt (int (severity_rank (f_severity f))), JInt (int (consensus_rank (f_consensus f))),
      (case f_confidence f of None \<Rightarrow> JInt 1 | Some c \<Rightarrow> JNum (- c)),
      JStr (case f_file f of None \<Rightarrow> [] | Some p \<Rightarrow> p), JInt (int (f_id f))]"

definition behind :: "'k::linorder option \<Rightarrow> 'k \<Rightarrow> bool" where
  "behind after k \<longleftrightarrow> (case after of None \<Rightarrow> True | Some a \<Rightarrow> a < k)"

definition findings_page :: "nat \<Rightarrow> int \<Rightarrow> finding_rank option \<Rightarrow> nat \<Rightarrow> finding_store \<Rightarrow> finding list" where
  "findings_page run snap after limit st =
     take limit (sort_key page_key
       (filter (\<lambda>f. f_run f = run \<and> int (f_id f) \<le> snap \<and> behind after (page_key f)) (findings st)))"

definition runs_snapshot_max :: "nat \<Rightarrow> run_db \<Rightarrow> int" where
  "runs_snapshot_max pid db = max_id (map run_id (filter (\<lambda>r. run_pr r = pid) (rows (db_runs db))))"

definition runs_page :: "nat \<Rightarrow> int \<Rightarrow> int option \<Rightarrow> nat \<Rightarrow> run_db \<Rightarrow> review_run list" where
  "runs_page pid snap after limit db =
     take limit (sort_key (\<lambda>r. - int (run_id r))
       (filter (\<lambda>r. run_pr r = pid \<and> int (run_id r) \<le> snap \<and> (case after of None \<Rightarrow> True | Some a \<Rightarrow> int (run_id r) < a))
          (rows (db_runs db))))"

definition overview_snapshot_max :: "nat option \<Rightarrow> pull_request table \<Rightarrow> int" where
  "overview_snapshot_max only t =
     max_id (map pr_id (filter (\<lambda>p. case only of None \<Rightarrow> pr_state p = U ''open'' | Some pid \<Rightarrow> pr_id p = pid) (rows t)))"

text \<open>The pull requests of a page of the overview; a time is compared as its text is.\<close>

definition overview_page :: "int \<Rightarrow> (int \<times> int) option \<Rightarrow> nat \<Rightarrow> nat option \<Rightarrow> pull_request table \<Rightarrow> pull_request list" where
  "overview_page snap after limit only t =
     take limit
       (case only of
          Some pid \<Rightarrow> filter (\<lambda>p. int (pr_id p) \<le> snap \<and> pr_id p = pid) (rows t)
        | None \<Rightarrow>
            sort_key (\<lambda>p. (- pr_sort_at p, - int (pr_id p)))
              (filter (\<lambda>p. int (pr_id p) \<le> snap \<and> pr_state p = U ''open'' \<and>
                   (case after of None \<Rightarrow> True | Some (a, i) \<Rightarrow> (pr_sort_at p, int (pr_id p)) < (a, i))) (rows t)))"

section \<open>The findings of a run in pages\<close>

definition count_members :: "finding_summary \<Rightarrow> (pystr \<times> json) list" where
  "count_members s =
     map (\<lambda>(k, n). (U k, JInt n))
       (filter (\<lambda>(k, n). n \<noteq> 0)
          [(''pending'', s_pending s), (''approved'', s_approved s), (''dismissed'', s_dismissed s), (''edited'', s_edited s),
           (''posted'', s_posted s), (''unknown'', s_unknown s)])"

definition summary_json :: "int \<Rightarrow> (pystr \<times> json) list \<Rightarrow> int \<Rightarrow> json" where
  "summary_json n counts ready =
     JObj [(U ''total_count'', JInt n), (U ''status_counts'', JObj counts), (U ''postable_count'', JInt ready)]"

definition findings_snapshot :: "nat \<Rightarrow> finding_store \<Rightarrow> int \<times> json" where
  "findings_snapshot run st =
     (case get_summary run (summaries st) of
        None \<Rightarrow> (0, summary_json 0 [] 0)
      | Some s \<Rightarrow> (int (s_max_id s), summary_json (s_total s) (count_members s) (s_postable s)))"

text \<open>\<open>isinstance(v, int)\<close>: a Boolean is one.\<close>

fun int_val :: "json \<Rightarrow> int option" where
  "int_val (JInt i) = Some i"
| "int_val (JBool b) = Some (if b then 1 else 0)"
| "int_val _ = None"

definition summary_ok :: "json \<Rightarrow> bool" where
  "summary_ok v =
     (case v of
        JObj o1 \<Rightarrow>
          set (map fst o1) = set (map U [''total_count'', ''status_counts'', ''postable_count'']) \<and>
          (case (int_val (fld o1 ''total_count''), int_val (fld o1 ''postable_count''), fld o1 ''status_counts'') of
             (Some n, Some m, JObj cs) \<Rightarrow>
               0 \<le> n \<and> 0 \<le> m \<and> m \<le> n \<and> list_all (\<lambda>(k, x). case int_val x of Some i \<Rightarrow> 0 \<le> i | None \<Rightarrow> False) cs \<and>
               sum_list (map (\<lambda>(k, x). case int_val x of Some i \<Rightarrow> i | None \<Rightarrow> 0) cs) = n
           | _ \<Rightarrow> False)
      | _ \<Rightarrow> False)"

text \<open>
  The position of a cursor as values to compare with; an infinite number, which no finding has, is refused here although the
  code compares with it.
\<close>

definition position_key :: "json list \<Rightarrow> finding_rank option" where
  "position_key pos =
     (case pos of
        [a, b, c, JStr f, i] \<Rightarrow>
          (case (num_val a, num_val b, num_val c, num_val i) of (Some a, Some b, Some c, Some i) \<Rightarrow> Some (a, b, c, f, i) | _ \<Rightarrow> None)
      | _ \<Rightarrow> None)"

datatype 'i page_answer = Page_Error int pystr | Page_Crash exn | Page "'i list" "pystr option" "json option"

definition bad_cursor :: "'i page_answer" where
  "bad_cursor = Page_Error 400 (U ''invalid cursor'')"

text \<open>The page and the cursor of the next one, if there are more rows than the page holds.\<close>

definition findings_answer :: "page_world \<Rightarrow> finding_store \<Rightarrow> nat \<Rightarrow> nat \<Rightarrow> int \<Rightarrow> json \<Rightarrow> finding_rank option \<Rightarrow> finding page_answer" where
  "findings_answer w st run limit snap summary after =
     (let found = findings_page run snap after (limit + 1) st; shown = take limit found
      in if length found > limit \<and> shown \<noteq> []
         then (case encode_cursor w (U ''run-findings'') (Some (int run)) snap (finding_position (last shown)) [(U ''summary'', summary)] of
                 Inl e \<Rightarrow> Page_Crash e
               | Inr t \<Rightarrow> Page shown (Some t) (Some summary))
         else Page shown None (Some summary))"

definition findings_route :: "page_world \<Rightarrow> run_db \<Rightarrow> finding_store \<Rightarrow> nat \<Rightarrow> nat \<Rightarrow> pystr option \<Rightarrow> finding page_answer" where
  "findings_route w db st run limit token =
     (if get_run run db = None then Page_Error 404 (U ''run not found'')
      else (case (case token of None \<Rightarrow> None | Some t \<Rightarrow> if t = [] then None else Some t) of
              None \<Rightarrow>
                (case findings_snapshot run st of
                   (snap, summary) \<Rightarrow> if \<not> summary_ok summary then bad_cursor else findings_answer w st run limit snap summary None)
            | Some t \<Rightarrow>
                (case decode_cursor w t (U ''run-findings'') (Some (int run)) of
                   Inl e \<Rightarrow> bad_cursor
                 | Inr c \<Rightarrow>
                     (case position_key (cu_position c) of
                        None \<Rightarrow> bad_cursor
                      | Some k \<Rightarrow>
                          let summary = fld (cu_metadata c) ''summary''
                          in if \<not> summary_ok summary then bad_cursor
                             else findings_answer w st run limit (cu_snapshot c) summary (Some k)))))"

section \<open>The runs of a pull request in pages\<close>

definition run_count :: "finding_store \<Rightarrow> review_run \<Rightarrow> nat" where
  "run_count st r = length (filter (\<lambda>f. f_run f = run_id r) (findings st))"

definition runs_answer :: "page_world \<Rightarrow> run_db \<Rightarrow> finding_store \<Rightarrow> nat \<Rightarrow> nat \<Rightarrow> int \<Rightarrow> int option \<Rightarrow> (review_run \<times> nat) page_answer" where
  "runs_answer w db st pid limit snap after =
     (let found = runs_page pid snap after (limit + 1) db; shown = take limit found; items = map (\<lambda>r. (r, run_count st r)) shown
      in if length found > limit \<and> shown \<noteq> []
         then (case encode_cursor w (U ''pr-runs'') (Some (int pid)) snap [JInt (int (run_id (last shown)))] [] of
                 Inl e \<Rightarrow> Page_Crash e
               | Inr t \<Rightarrow> Page items (Some t) None)
         else Page items None None)"

definition pr_runs :: "page_world \<Rightarrow> run_db \<Rightarrow> finding_store \<Rightarrow> nat \<Rightarrow> nat \<Rightarrow> pystr option \<Rightarrow> (review_run \<times> nat) page_answer" where
  "pr_runs w db st pid limit token =
     (if get_pr pid (db_prs db) = None then Page_Error 404 (U ''pr not found'')
      else (case (case token of None \<Rightarrow> None | Some t \<Rightarrow> if t = [] then None else Some t) of
              None \<Rightarrow> runs_answer w db st pid limit (runs_snapshot_max pid db) None
            | Some t \<Rightarrow>
                (case decode_cursor w t (U ''pr-runs'') (Some (int pid)) of
                   Inl e \<Rightarrow> bad_cursor
                 | Inr c \<Rightarrow>
                     (case cu_position c of
                        [] \<Rightarrow> runs_answer w db st pid limit (cu_snapshot c) None
                      | [v] \<Rightarrow> (case int_val v of None \<Rightarrow> bad_cursor | Some i \<Rightarrow> runs_answer w db st pid limit (cu_snapshot c) (Some i))
                      | _ \<Rightarrow> bad_cursor))))"


section \<open>Walking the pages of any list\<close>

lemma map_sort_key: "map f (sort_key f xs) = sort (map f xs)"
  by (rule sym, rule properties_for_sort) (simp_all only: mset_map mset_sort sorted_sort_key)

lemma behind_sorted:
  assumes "sorted ks" "distinct ks" "n < length ks" "0 < n"
  shows "filter (\<lambda>k. ks ! (n - 1) < k) ks = drop n ks"
proof -
  have strict: "sorted_wrt (<) ks" using assms(1,2) by (simp add: strict_sorted_iff)
  have "filter (\<lambda>k. ks ! (n - 1) < k) (take n ks) = []"
  proof (unfold filter_empty_conv, intro ballI)
    fix k assume "k \<in> set (take n ks)"
    then obtain i where "i < n" "k = ks ! i" using assms(3) by (auto simp: in_set_conv_nth)
    with assms(1,3,4) show "\<not> ks ! (n - 1) < k" by (simp add: sorted_nth_mono leD)
  qed
  moreover have "filter (\<lambda>k. ks ! (n - 1) < k) (drop n ks) = drop n ks"
  proof (unfold filter_id_conv, intro ballI)
    fix k assume "k \<in> set (drop n ks)"
    then obtain i where "i < length (drop n ks)" "k = drop n ks ! i" by (auto simp: in_set_conv_nth)
    then have "n + i < length ks" "k = ks ! (n + i)" using assms(3) by simp_all
    with strict assms(4) show "ks ! (n - 1) < k" by (simp add: sorted_wrt_nth_less)
  qed
  ultimately show ?thesis by (metis append_take_drop_id filter_append self_append_conv2)
qed

text \<open>
  The contract of a page query: the rows behind a key, in the order of the keys, as many as asked.  Each request of a walk
  may see another state.
\<close>

locale keyset =
  fixes page :: "'s \<Rightarrow> 'k::linorder option \<Rightarrow> nat \<Rightarrow> 'r list" and key :: "'r \<Rightarrow> 'k" and keys :: "'s \<Rightarrow> 'k list"
  assumes page_law: "map key (page s after n) = take n (sort (filter (behind after) (keys s)))"
begin

fun walk :: "nat \<Rightarrow> 'k option \<Rightarrow> 's list \<Rightarrow> 'r list option" where
  "walk n after [] = None"
| "walk n after (s # ss) =
     (let found = page s after (n + 1); shown = take n found
      in if length found > n \<and> shown \<noteq> [] then map_option (\<lambda>rest. shown @ rest) (walk n (Some (key (last shown))) ss) else Some shown)"

lemma page_keys_length: "length (page s after n) = min (length (filter (behind after) (keys s))) n"
  using arg_cong[OF page_law[of s after n], of length] by simp

lemma next_behind:
  assumes "distinct ks" "0 < n" "K = sort (filter (behind after) ks)" "n < length K"
  shows "sort (filter (behind (Some (K ! (n - 1)))) ks) = drop n K"
proof -
  have "K ! (n - 1) \<in> set K" using assms(4) by (simp add: less_imp_diff_less)
  then have a: "behind after (K ! (n - 1))" using assms(3) by simp
  have "filter (\<lambda>k. K ! (n - 1) < k) (filter (behind after) ks) = filter (behind (Some (K ! (n - 1)))) ks"
    using a by (auto simp: behind_def split: option.splits intro!: filter_cong)
  then have "sort (filter (behind (Some (K ! (n - 1)))) ks) = filter (\<lambda>k. K ! (n - 1) < k) K"
    by (simp add: assms(3) filter_sort)
  also have "\<dots> = drop n K" by (rule behind_sorted) (use assms in simp_all)
  finally show ?thesis .
qed

lemma walk_complete:
  assumes "0 < n" "distinct ks" "\<forall>s\<in>set ss. mset (keys s) = mset ks" "ss \<noteq> []"
    "length (filter (behind after) ks) \<le> n * length ss"
  shows "\<exists>rs. walk n after ss = Some rs \<and> map key rs = sort (filter (behind after) ks)"
  using assms(3-5)
proof (induction ss arbitrary: after)
  case (Cons s ss)
  let ?K = "sort (filter (behind after) ks)"
  let ?found = "page s after (n + 1)"
  have "mset (filter (behind after) (keys s)) = mset (filter (behind after) ks)" using Cons.prems(1) by (simp add: mset_filter)
  then have "sort (filter (behind after) (keys s)) = ?K" by (metis sorted_list_of_multiset_mset)
  then have found: "map key ?found = take (n + 1) ?K" by (simp add: page_law)
  then have shown: "map key (take n ?found) = take n ?K" by (simp add: take_map flip: take_map)
  have len: "length ?found = min (length ?K) (n + 1)" using arg_cong[OF found, of length] by simp
  show ?case
  proof (cases "length ?K > n")
    case True
    then have more: "length ?found > n" "take n ?found \<noteq> []" using len assms(1) by auto
    have K: "length (take n ?K) = n" using True by simp
    have "key (last (take n ?found)) = last (map key (take n ?found))" using more(2) by (simp add: last_map)
    also have "\<dots> = take n ?K ! (n - 1)" unfolding shown using K assms(1) by (metis last_conv_nth length_greater_0_conv)
    finally have last: "key (last (take n ?found)) = ?K ! (n - 1)" using assms(1) by simp
    note rest = next_behind[OF assms(2,1) refl True]
    have left: "length (filter (behind (Some (?K ! (n - 1)))) ks) = length ?K - n" using arg_cong[OF rest, of length] by simp
    have "ss \<noteq> []" using Cons.prems(3) True by auto
    moreover have "length (filter (behind (Some (?K ! (n - 1)))) ks) \<le> n * length ss"
      using Cons.prems(3) unfolding left by simp
    ultimately obtain rs where rs: "walk n (Some (?K ! (n - 1))) ss = Some rs" "map key rs = drop n ?K"
      using Cons.IH[of "Some (?K ! (n - 1))"] Cons.prems(1) rest by auto
    have "walk n after (s # ss) = Some (take n ?found @ rs)" using more rs(1) last by (simp add: Let_def)
    moreover have "map key (take n ?found @ rs) = ?K" by (simp only: map_append shown rs(2) append_take_drop_id)
    ultimately show ?thesis by blast
  next
    case False
    then have "\<not> length ?found > n" using len by simp
    then have "walk n after (s # ss) = Some (take n ?found)" by (simp add: Let_def)
    moreover have "map key (take n ?found) = ?K" unfolding shown using False by simp
    ultimately show ?thesis by blast
  qed
qed simp

end

definition run_visible :: "nat \<Rightarrow> int \<Rightarrow> finding_store \<Rightarrow> finding list" where
  "run_visible run snap st = filter (\<lambda>f. f_run f = run \<and> int (f_id f) \<le> snap) (findings st)"

interpretation finding_pages: keyset "\<lambda>st after n. findings_page run snap after n st" page_key "\<lambda>st. map page_key (run_visible run snap st)"
  for run snap
proof
  fix st after n
  have "filter (\<lambda>f. f_run f = run \<and> int (f_id f) \<le> snap \<and> behind after (page_key f)) (findings st) =
      filter (\<lambda>f. behind after (page_key f)) (run_visible run snap st)"
    by (simp add: run_visible_def conj_assoc)
  then show "map page_key (findings_page run snap after n st) = take n (sort (filter (behind after) (map page_key (run_visible run snap st))))"
    by (simp add: findings_page_def map_sort_key filter_map comp_def flip: take_map)
qed

interpretation run_pages: keyset "\<lambda>db after n. runs_page pid snap (map_option uminus after) n db" "\<lambda>r. - int (run_id r)"
  "\<lambda>db. map (\<lambda>r. - int (run_id r)) (filter (\<lambda>r. run_pr r = pid \<and> int (run_id r) \<le> snap) (rows (db_runs db)))" for pid snap
proof
  fix db after n
  have same: "(\<lambda>r. run_pr r = pid \<and> int (run_id r) \<le> snap \<and> (case map_option uminus after of None \<Rightarrow> True | Some a \<Rightarrow> int (run_id r) < a)) =
      (\<lambda>r. (run_pr r = pid \<and> int (run_id r) \<le> snap) \<and> behind after (- int (run_id r)))"
    by (cases after) (auto simp: behind_def)
  show "map (\<lambda>r. - int (run_id r)) (runs_page pid snap (map_option uminus after) n db) =
      take n (sort (filter (behind after) (map (\<lambda>r. - int (run_id r)) (filter (\<lambda>r. run_pr r = pid \<and> int (run_id r) \<le> snap) (rows (db_runs db))))))"
    unfolding runs_page_def same by (simp add: map_sort_key filter_map comp_def flip: take_map)
qed

interpretation overview_pages: keyset "\<lambda>t after n. overview_page snap (map_option (\<lambda>(a, i). (- a, - i)) after) n None t"
  "\<lambda>p. (- pr_sort_at p, - int (pr_id p))"
  "\<lambda>t. map (\<lambda>p. (- pr_sort_at p, - int (pr_id p))) (filter (\<lambda>p. int (pr_id p) \<le> snap \<and> pr_state p = U ''open'') (rows t))" for snap
proof
  fix t and after :: "(int \<times> int) option" and n
  have same: "(\<lambda>p. int (pr_id p) \<le> snap \<and> pr_state p = U ''open'' \<and>
        (case map_option (\<lambda>(a, i). (- a, - i)) after of None \<Rightarrow> True | Some (a, i) \<Rightarrow> (pr_sort_at p, int (pr_id p)) < (a, i))) =
      (\<lambda>p. (int (pr_id p) \<le> snap \<and> pr_state p = U ''open'') \<and> behind after (- pr_sort_at p, - int (pr_id p)))"
    by (cases after) (auto simp: behind_def)
  show "map (\<lambda>p. (- pr_sort_at p, - int (pr_id p))) (overview_page snap (map_option (\<lambda>(a, i). (- a, - i)) after) n None t) =
      take n (sort (filter (behind after) (map (\<lambda>p. (- pr_sort_at p, - int (pr_id p))) (filter (\<lambda>p. int (pr_id p) \<le> snap \<and> pr_state p = U ''open'') (rows t)))))"
    unfolding overview_page_def option.case same by (simp add: map_sort_key filter_map comp_def flip: take_map)
qed

section \<open>A cursor is read back, and only a signed one is\<close>

lemma b64_val_char: "0 \<le> i \<Longrightarrow> i < 64 \<Longrightarrow> b64_val (b64_char i) = Some i"
  by (auto simp: b64_val_def b64_char_def)

lemma b64_char_not_dot: "0 \<le> i \<Longrightarrow> i < 64 \<Longrightarrow> b64_char i \<noteq> 46"
  by (auto simp: b64_char_def)

definition byte_list :: "int list \<Rightarrow> bool" where
  "byte_list bs \<longleftrightarrow> list_all (\<lambda>b. 0 \<le> b \<and> b < 256) bs"

text \<open>A number split at a power of two is put together again.\<close>

lemma joined: "0 \<le> l \<Longrightarrow> l < m \<Longrightarrow> (h * m + l) div m = h \<and> (h * m + l) mod m = (l :: int)"
  by simp

lemma joined_range: "0 \<le> h \<Longrightarrow> h < k \<Longrightarrow> 0 \<le> l \<Longrightarrow> l < m \<Longrightarrow> 0 \<le> h * m + l \<and> h * m + l < k * (m :: int)"
proof -
  assume a: "0 \<le> h" "h < k" "0 \<le> l" "l < m"
  then have "(h + 1) * m \<le> k * m" by (intro mult_right_mono) simp_all
  with a show ?thesis by (simp add: distrib_right)
qed

lemma high_bits: "0 \<le> a \<Longrightarrow> a < 256 \<Longrightarrow> 0 \<le> a div 4 \<and> a div 4 < (64 :: int)"
  by auto

text \<open>The letters of an encoding come from numbers below 64, which give the bytes back.\<close>

lemma b64_encode_sextets:
  "byte_list bs \<Longrightarrow> \<exists>ws. b64_encode bs = map b64_char ws \<and> list_all (\<lambda>w. 0 \<le> w \<and> w < 64) ws \<and> b64_bytes ws = Some bs"
proof (induction bs rule: b64_encode.induct)
  case (2 a)
  then have a: "0 \<le> a" "a < 256" by (simp_all add: byte_list_def)
  show ?case using a high_bits[OF a]
    by (intro exI[of _ "[a div 4, (a mod 4) * 16]"]) simp
next
  case (3 a b)
  then have ab: "0 \<le> a" "a < 256" "0 \<le> b" "b < 256" by (simp_all add: byte_list_def)
  have 1: "b div 16 < 16" "0 \<le> b div 16" "b mod 16 * 4 div 4 = b mod 16" using ab by simp_all
  note J = joined[OF 1(2,1), of "a mod 4"] joined_range[of "a mod 4" 4 "b div 16" 16]
  show ?case using ab 1 J high_bits[OF ab(1,2)]
    by (intro exI[of _ "[a div 4, (a mod 4) * 16 + b div 16, (b mod 16) * 4]"]) simp
next
  case (4 a b c r)
  then have abc: "0 \<le> a" "a < 256" "0 \<le> b" "b < 256" "0 \<le> c" "c < 256" by (simp_all add: byte_list_def)
  have "byte_list r" using 4(2) by (simp add: byte_list_def)
  with 4(1) obtain ws where ws: "b64_encode r = map b64_char ws" "list_all (\<lambda>w. 0 \<le> w \<and> w < 64) ws" "b64_bytes ws = Some r" by blast
  have 1: "b div 16 < 16" "0 \<le> b div 16" and 2: "c div 64 < 4" "0 \<le> c div 64" using abc by simp_all
  note J = joined[OF 1(2,1), of "a mod 4"] joined_range[of "a mod 4" 4 "b div 16" 16]
    joined[OF 2(2,1), of "b mod 16"] joined_range[of "b mod 16" 16 "c div 64" 4]
  show ?case using abc ws 1 2 J high_bits[OF abc(1,2)]
    by (intro exI[of _ "[a div 4, (a mod 4) * 16 + b div 16, (b mod 16) * 4 + c div 64, c mod 64] @ ws"]) simp
qed (simp add: exI[of _ "[]"])

lemma b64_round: "byte_list bs \<Longrightarrow> bs \<noteq> [] \<Longrightarrow> b64_decode (b64_encode bs) = Some bs"
proof -
  assume bs: "byte_list bs" "bs \<noteq> []"
  then obtain ws where ws: "b64_encode bs = map b64_char ws" "list_all (\<lambda>w. 0 \<le> w \<and> w < 64) ws" "b64_bytes ws = Some bs"
    using b64_encode_sextets by blast
  then have "ws \<noteq> []" using bs(2) by auto
  moreover have "map (\<lambda>c. the (b64_val c)) (map b64_char ws) = ws" "\<forall>c\<in>set (map b64_char ws). b64_val c \<noteq> None"
    using ws(2) by (induction ws) (auto simp: b64_val_char)
  ultimately show ?thesis using ws(1,3) by (auto simp: b64_decode_def)
qed

lemma b64_no_dot: "byte_list bs \<Longrightarrow> 46 \<notin> set (b64_encode bs)"
proof -
  assume "byte_list bs"
  then obtain ws where ws: "b64_encode bs = map b64_char ws" "list_all (\<lambda>w. 0 \<le> w \<and> w < 64) ws"
    using b64_encode_sextets by blast
  have "b64_char x \<noteq> 46" if "x \<in> set ws" for x using b64_char_not_dot ws(2) that by (simp add: list_all_iff)
  then show ?thesis by (auto simp: ws(1))
qed

text \<open>JSON prints a document as bytes that read back, and a signature is bytes.\<close>

definition prints :: "page_world \<Rightarrow> json \<Rightarrow> bool" where
  "prints w v \<longleftrightarrow> pw_loads w (pw_dumps w v) = Some v \<and> byte_list (pw_dumps w v) \<and> pw_dumps w v \<noteq> [] \<and>
     byte_list (pw_sign w (pw_dumps w v)) \<and> pw_sign w (pw_dumps w v) \<noteq> []"

lemma split_no_sep: "d \<notin> set s \<Longrightarrow> split_on d s = [s]"
  by (induction s) auto

lemma read_payload_back:
  assumes "0 \<le> snap" "length pos \<le> 8" "list_all position_item pos"
  shows "read_payload resource parent (cursor_payload resource parent snap pos metadata) =
    Some \<lparr>cu_snapshot = snap, cu_position = pos, cu_metadata = metadata\<rparr>"
proof -
  show ?thesis using assms
    by (auto simp: read_payload_def cursor_payload_def fld_def jget_def U_eq_iff split: option.splits)
qed

lemma cursor_read_back:
  assumes "prints w (cursor_payload resource parent snap pos metadata)" "length pos \<le> 8" "list_all position_item pos" "encode_cursor w resource parent snap pos metadata = Inr token"
  shows "decode_cursor w token resource parent = Inr \<lparr>cu_snapshot = snap, cu_position = pos, cu_metadata = metadata\<rparr>"
proof -
  let ?v = "cursor_payload resource parent snap pos metadata"
  let ?raw = "pw_dumps w ?v"
  have token: "token = b64_encode ?raw @ 46 # b64_encode (pw_sign w ?raw)" and short: "\<not> int (length token) > MAX_CURSOR_BYTES" and snap: "0 \<le> snap"
    using assms(4) by (auto simp: encode_cursor_def cursor_token_def Let_def split: if_splits)
  have ok: "byte_list ?raw" "?raw \<noteq> []" "byte_list (pw_sign w ?raw)" "pw_sign w ?raw \<noteq> []" "pw_loads w ?raw = Some ?v"
    using assms(1) by (simp_all add: prints_def)
  have "split_on 46 token = [b64_encode ?raw, b64_encode (pw_sign w ?raw)]"
    unfolding token by (simp add: split_on_append b64_no_dot ok split_no_sep)
  then show ?thesis
    using short by (simp add: decode_cursor_def b64_round ok read_payload_back[OF snap assms(2,3)])
qed


lemma cursor_other_place:
  assumes "prints w (cursor_payload resource parent snap pos metadata)" "encode_cursor w resource parent snap pos metadata = Inr token" "(resource', parent') \<noteq> (resource, parent)"
  shows "decode_cursor w token resource' parent' = Inl invalid_cursor"
proof -
  let ?v = "cursor_payload resource parent snap pos metadata"
  let ?raw = "pw_dumps w ?v"
  have token: "token = b64_encode ?raw @ 46 # b64_encode (pw_sign w ?raw)" and short: "\<not> int (length token) > MAX_CURSOR_BYTES"
    using assms(2) by (auto simp: encode_cursor_def cursor_token_def Let_def split: if_splits)
  have ok: "byte_list ?raw" "?raw \<noteq> []" "byte_list (pw_sign w ?raw)" "pw_sign w ?raw \<noteq> []" "pw_loads w ?raw = Some ?v"
    using assms(1) by (simp_all add: prints_def)
  have "split_on 46 token = [b64_encode ?raw, b64_encode (pw_sign w ?raw)]"
    unfolding token by (simp add: split_on_append b64_no_dot ok split_no_sep)
  moreover have "read_payload resource' parent' ?v = None"
    using assms(3) by (auto simp: read_payload_def cursor_payload_def fld_def jget_def U_eq_iff split: option.splits)
  ultimately show ?thesis using short by (simp add: decode_cursor_def b64_round ok)
qed

lemma decoded_signed:
  assumes "decode_cursor w token resource parent = Inr c"
  shows "\<exists>raw encoded sig. split_on 46 token = [encoded, sig] \<and> b64_decode encoded = Some raw \<and> b64_decode sig = Some (pw_sign w raw)"
proof -
  from assms obtain encoded sig where split: "split_on 46 token = [encoded, sig]"
    by (auto simp: decode_cursor_def split: if_splits list.splits)
  with assms obtain raw where "b64_decode encoded = Some raw" "b64_decode sig = Some (pw_sign w raw)"
    by (auto simp: decode_cursor_def split: if_splits option.splits)
  with split show ?thesis by blast
qed


section \<open>All findings of a run, each once\<close>

text \<open>A reader asks for page after page with the cursor of the last answer; the store may change between the requests.\<close>

fun walk_findings :: "page_world \<Rightarrow> run_db \<Rightarrow> nat \<Rightarrow> nat \<Rightarrow> pystr option \<Rightarrow> finding_store list \<Rightarrow> finding list option" where
  "walk_findings w db run limit token [] = None"
| "walk_findings w db run limit token (st # sts) =
     (case findings_route w db st run limit token of
        Page shown (Some t) sm \<Rightarrow> map_option (\<lambda>rest. shown @ rest) (walk_findings w db run limit (Some t) sts)
      | Page shown None sm \<Rightarrow> Some shown
      | _ \<Rightarrow> None)"

text \<open>A finding can be a position: its path is not too long for a cursor, nor is the cursor, which JSON prints.\<close>

definition cursors_fit :: "page_world \<Rightarrow> nat \<Rightarrow> int \<Rightarrow> json \<Rightarrow> finding \<Rightarrow> bool" where
  "cursors_fit w run snap summary f \<longleftrightarrow>
     (case f_file f of None \<Rightarrow> True | Some p \<Rightarrow> length p \<le> 1024) \<and>
     int (length (cursor_token w (cursor_payload (U ''run-findings'') (Some (int run)) snap (finding_position f) [(U ''summary'', summary)])))
       \<le> MAX_CURSOR_BYTES \<and>
     prints w (cursor_payload (U ''run-findings'') (Some (int run)) snap (finding_position f) [(U ''summary'', summary)])"

lemma position_key_back: "position_key (finding_position f) = Some (page_key f)"
  by (simp add: position_key_def finding_position_def page_key_def split: option.splits)

lemma position_items: "cursors_fit w run snap summary f \<Longrightarrow> length (finding_position f) \<le> 8 \<and> list_all position_item (finding_position f)"
  by (auto simp: cursors_fit_def finding_position_def split: option.splits)

lemma finding_cursor:
  assumes "0 \<le> snap" "cursors_fit w run snap summary f"
  obtains t where "encode_cursor w (U ''run-findings'') (Some (int run)) snap (finding_position f) [(U ''summary'', summary)] = Inr t"
    "t \<noteq> []" "decode_cursor w t (U ''run-findings'') (Some (int run)) =
       Inr \<lparr>cu_snapshot = snap, cu_position = finding_position f, cu_metadata = [(U ''summary'', summary)]\<rparr>"
proof -
  have "U ''run-findings'' \<in> set RESOURCES" by (simp add: RESOURCES_def)
  then have enc: "encode_cursor w (U ''run-findings'') (Some (int run)) snap (finding_position f) [(U ''summary'', summary)] =
      Inr (cursor_token w (cursor_payload (U ''run-findings'') (Some (int run)) snap (finding_position f) [(U ''summary'', summary)]))"
    using assms by (simp add: encode_cursor_def Let_def cursors_fit_def)
  have "cursor_token w v \<noteq> []" for v by (simp add: cursor_token_def Let_def)
  with that[OF enc] cursor_read_back[OF _ _ _ enc] position_items[OF assms(2)] assms(2) show thesis by (simp add: cursors_fit_def)
qed

text \<open>One answer is one step of the walk over pages.\<close>

lemma findings_answer_step:
  assumes "0 \<le> snap" "\<forall>f\<in>set (run_visible run snap st). cursors_fit w run snap summary f"
    "found = findings_page run snap after (limit + 1) st" "shown = take limit found"
  shows "if length found > limit \<and> shown \<noteq> []
    then \<exists>t. findings_answer w st run limit snap summary after = Page shown (Some t) (Some summary) \<and> t \<noteq> [] \<and>
      decode_cursor w t (U ''run-findings'') (Some (int run)) =
        Inr \<lparr>cu_snapshot = snap, cu_position = finding_position (last shown), cu_metadata = [(U ''summary'', summary)]\<rparr>
    else findings_answer w st run limit snap summary after = Page shown None (Some summary)"
proof -
  have answer: "findings_answer w st run limit snap summary after =
      (if length found > limit \<and> shown \<noteq> []
       then (case encode_cursor w (U ''run-findings'') (Some (int run)) snap (finding_position (last shown)) [(U ''summary'', summary)] of
               Inl e \<Rightarrow> Page_Crash e | Inr t \<Rightarrow> Page shown (Some t) (Some summary))
       else Page shown None (Some summary))"
    unfolding findings_answer_def assms(3,4) Let_def by (rule refl)
  show ?thesis
  proof (cases "length found > limit \<and> shown \<noteq> []")
  case True
  then have "last shown \<in> set found" using assms(4) by (metis in_set_takeD last_in_set)
  then have "last shown \<in> set (run_visible run snap st)"
    using assms(3) by (auto simp: findings_page_def run_visible_def dest: in_set_takeD)
  with assms(2) have "cursors_fit w run snap summary (last shown)" by blast
  from finding_cursor[OF assms(1) this] obtain t where
    t: "encode_cursor w (U ''run-findings'') (Some (int run)) snap (finding_position (last shown)) [(U ''summary'', summary)] = Inr t"
      "t \<noteq> []" "decode_cursor w t (U ''run-findings'') (Some (int run)) =
        Inr \<lparr>cu_snapshot = snap, cu_position = finding_position (last shown), cu_metadata = [(U ''summary'', summary)]\<rparr>" .
  then show ?thesis using True by (simp add: answer)
  next
    case False
    then show ?thesis by (simp only: answer if_False)
  qed
qed

lemma run_findings_next:
  assumes "get_run run db \<noteq> None" "t \<noteq> []" "summary_ok summary"
    "decode_cursor w t (U ''run-findings'') (Some (int run)) =
       Inr \<lparr>cu_snapshot = snap, cu_position = finding_position f, cu_metadata = [(U ''summary'', summary)]\<rparr>"
  shows "findings_route w db st run limit (Some t) = findings_answer w st run limit snap summary (Some (page_key f))"
  using assms by (auto simp: findings_route_def position_key_back Let_def fld_def jget_def)

lemma walk_from_answer:
  assumes run: "get_run run db \<noteq> None" and snap: "0 \<le> snap" and ok: "summary_ok summary"
    and fit: "\<forall>st\<in>set (s # sts). \<forall>f\<in>set (run_visible run snap st). cursors_fit w run snap summary f"
    and first: "findings_route w db s run limit token = findings_answer w s run limit snap summary after"
  shows "walk_findings w db run limit token (s # sts) = finding_pages.walk run snap limit after (s # sts)"
  using fit first
proof (induction sts arbitrary: s token after)
  case Nil
  then have here: "\<forall>f\<in>set (run_visible run snap s). cursors_fit w run snap summary f" by simp
  note step = findings_answer_step[OF snap here refl refl, where after = after and limit = limit]
  show ?case
  proof (cases "length (findings_page run snap after (limit + 1) s) > limit \<and> take limit (findings_page run snap after (limit + 1) s) \<noteq> []")
    case True
    with step obtain t where "findings_answer w s run limit snap summary after =
        Page (take limit (findings_page run snap after (limit + 1) s)) (Some t) (Some summary)" by auto
    then show ?thesis using True Nil(2) by (simp add: Let_def)
  next
    case False
    with step have "findings_answer w s run limit snap summary after =
        Page (take limit (findings_page run snap after (limit + 1) s)) None (Some summary)" by (simp only: if_False)
    then show ?thesis using False Nil(2) by (auto simp: Let_def)
  qed
next
  case (Cons s2 sts)
  let ?found = "findings_page run snap after (limit + 1) s"
  let ?shown = "take limit ?found"
  have here: "\<forall>f\<in>set (run_visible run snap s). cursors_fit w run snap summary f" using Cons.prems(1) by simp
  note step = findings_answer_step[OF snap here refl refl, where after = after and limit = limit]
  show ?case
  proof (cases "length ?found > limit \<and> ?shown \<noteq> []")
    case True
    with step obtain t where t: "findings_answer w s run limit snap summary after = Page ?shown (Some t) (Some summary)" "t \<noteq> []"
      "decode_cursor w t (U ''run-findings'') (Some (int run)) =
        Inr \<lparr>cu_snapshot = snap, cu_position = finding_position (last ?shown), cu_metadata = [(U ''summary'', summary)]\<rparr>" by auto
    note following = run_findings_next[OF run t(2) ok t(3), where st = s2 and limit = limit]
    have "walk_findings w db run limit (Some t) (s2 # sts) = finding_pages.walk run snap limit (Some (page_key (last ?shown))) (s2 # sts)"
      by (rule Cons.IH[OF _ following]) (use Cons.prems(1) in simp)
    then show ?thesis using True t(1) Cons.prems(2) by (simp add: Let_def del: walk_findings.simps(2)) (simp add: Let_def)
  next
    case False
    with step have "findings_answer w s run limit snap summary after = Page ?shown None (Some summary)" by (simp only: if_False)
    then show ?thesis using False Cons.prems(2) by (auto simp: Let_def)
  qed
qed

lemma tally_total:
  "tally run (\<lambda>_. True) fs = tally run (\<lambda>f. f_status f = Pending) fs + tally run (\<lambda>f. f_status f = Approved) fs +
     tally run (\<lambda>f. f_status f = Dismissed) fs + tally run (\<lambda>f. f_status f = Edited) fs + tally run (\<lambda>f. f_status f = Posted) fs +
     tally run unknown_status fs"
proof (induction fs)
  case (Cons f fs)
  then show ?case by (cases "f_status f") (simp_all add: tally_Cons unknown_status_def)
qed (simp add: tally_def)

lemma tally_le: "tally run P fs \<le> tally run (\<lambda>_. True) fs"
  by (induction fs) (auto simp: tally_Cons tally_def[of _ _ "[]"])

lemma sum_nonzero: "sum_list (map snd (filter (\<lambda>(k, n). n \<noteq> 0) kns)) = sum_list (map snd (kns :: (string \<times> int) list))"
  by (induction kns) auto

lemma summary_of_recount:
  "summary_ok (summary_json (s_total (recount run fs)) (count_members (recount run fs)) (s_postable (recount run fs)))"
proof -
  let ?s = "recount run fs"
  let ?kns = "[(''pending'', s_pending ?s), (''approved'', s_approved ?s), (''dismissed'', s_dismissed ?s), (''edited'', s_edited ?s),
    (''posted'', s_posted ?s), (''unknown'', s_unknown ?s)]"
  have members: "count_members ?s = map (\<lambda>(k, n). (U k, JInt n)) (filter (\<lambda>(k, n). n \<noteq> 0) ?kns)" by (simp only: count_members_def)
  have "(\<lambda>(k, x). case int_val x of Some i \<Rightarrow> i | None \<Rightarrow> 0) \<circ> (\<lambda>(k, n). (U k, JInt n)) = snd" by (auto simp: fun_eq_iff)
  then have total: "sum_list (map (\<lambda>(k, x). case int_val x of Some i \<Rightarrow> i | None \<Rightarrow> 0) (count_members ?s)) = s_total ?s"
    unfolding members map_map sum_nonzero by (simp only: sum_nonzero) (simp add: recount_def tally_total[of run fs])
  have pos: "list_all (\<lambda>(k, x). case int_val x of Some i \<Rightarrow> 0 \<le> i | None \<Rightarrow> False) (count_members ?s)"
    unfolding members by (auto simp: list_all_iff recount_def tally_nonneg)
  have parts: "int_val (fld (members n cs m) ''total_count'') = Some n" "int_val (fld (members n cs m) ''postable_count'') = Some m"
    "fld (members n cs m) ''status_counts'' = JObj cs"
    if "members n cs m = [(U ''total_count'', JInt n), (U ''status_counts'', JObj cs), (U ''postable_count'', JInt m)]" for members n cs m
    using that by (simp_all add: fld_def jget_def U_eq_iff)
  have "0 \<le> s_total ?s" "0 \<le> s_postable ?s" "s_postable ?s \<le> s_total ?s"
    by (simp_all add: recount_def tally_nonneg tally_le)
  then show ?thesis using total pos
    by (auto simp: summary_ok_def summary_json_def fld_def jget_def U_eq_iff)
qed

lemma latest_id_bound: "f \<in> set fs \<Longrightarrow> f_run f = run \<Longrightarrow> f_id f \<le> latest_id run fs"
proof (induction fs)
  case (Cons g fs)
  have "latest_id run (g # fs) = max (if f_run g = run then f_id g else 0) (latest_id run fs)"
    using latest_id_fold[of run fs "if f_run g = run then max (f_id g) 0 else 0"] by (simp add: latest_id_def)
  then show ?case using Cons by auto
qed simp

lemma snapshot_of_store:
  assumes "store_wf st" "findings_snapshot run st = (snap, summary)"
  shows "summary_ok summary" "0 \<le> snap" "run_visible run snap st = filter (\<lambda>f. f_run f = run) (findings st)"
proof -
  have right: "summary_for (findings st) (summaries st) run" using assms(1) by (simp add: store_wf_def summary_correct_all)
  have "summary_ok summary \<and> 0 \<le> snap \<and> run_visible run snap st = filter (\<lambda>f. f_run f = run) (findings st)"
  proof (cases "get_summary run (summaries st)")
    case None
    with right have none: "\<forall>f\<in>set (findings st). f_run f \<noteq> run" by (simp add: summary_for_def list_all_iff)
    have "snap = 0" "summary = summary_json 0 [] 0" using assms(2) None by (simp_all add: findings_snapshot_def)
    then show ?thesis using none
      by (auto simp: run_visible_def summary_ok_def summary_json_def fld_def jget_def U_eq_iff filter_empty_conv intro!: filter_cong)
  next
    case (Some s)
    with right have s: "s = recount run (findings st)" by (simp add: summary_for_def)
    then have "snap = int (latest_id run (findings st))"
      "summary = summary_json (s_total s) (count_members s) (s_postable s)"
      using assms(2) Some by (simp_all add: findings_snapshot_def recount_def)
    then show ?thesis using summary_of_recount[of run "findings st"] latest_id_bound[of _ "findings st" run]
      by (auto simp: s run_visible_def intro!: filter_cong)
  qed
  then show "summary_ok summary" "0 \<le> snap" "run_visible run snap st = filter (\<lambda>f. f_run f = run) (findings st)" by blast+
qed

lemma page_key_inj: "map page_key fs = map page_key gs \<Longrightarrow> map f_id fs = map f_id gs"
proof (induction fs gs rule: list_induct2')
  case (4 f fs g gs)
  then show ?case by (simp add: page_key_def)
qed simp_all

lemma distinct_page_keys: "distinct (map f_id fs) \<Longrightarrow> distinct (map page_key fs)"
proof (induction fs)
  case (Cons f fs)
  have "page_key f = page_key g \<Longrightarrow> f_id f = f_id g" for g by (simp add: page_key_def)
  then have "page_key f \<in> page_key ` set fs \<Longrightarrow> f_id f \<in> f_id ` set fs" by blast
  with Cons show ?case by auto
qed simp



section \<open>A small run\<close>

definition page_run_db :: run_db where
  "page_run_db = snd (create_run 1 1 [] Trigger_Auto None False None None None
     \<lparr>db_prs = \<lparr>rows = [], next_id = 1\<rparr>, db_runs = \<lparr>rows = [], next_id = 1\<rparr>, db_results = \<lparr>rows = [], next_id = 1\<rparr>\<rparr>)"

definition page_store :: finding_store where
  "page_store =
     (let s0 = \<lparr>findings = [], next_finding = 1, decisions = [], summaries = []\<rparr>;
          s1 = snd (add_finding 1 ((sample_finding 1)\<lparr>f_severity := Some (U ''low'')\<rparr>) s0)
      in snd (add_finding 2 (sample_finding 1) s1))"

definition page_store_later :: finding_store where
  "page_store_later = snd (add_finding 4 (sample_finding 1) (set_status 3 1 Approved None page_store))"

definition page_payload_of :: "int \<Rightarrow> json" where
  "page_payload_of i =
     (case filter (\<lambda>f. int (f_id f) = i) (findings page_store) of
        f # _ \<Rightarrow> cursor_payload (U ''run-findings'') (Some 1) 2 (finding_position f)
                   [(U ''summary'', snd (findings_snapshot 1 page_store))]
      | [] \<Rightarrow> JNull)"

text \<open>A world that prints the few cursors of this run as the id of their finding.\<close>

definition page_sample_world :: page_world where
  "page_sample_world =
     \<lparr>pw_dumps = (\<lambda>v. if v = page_payload_of 1 then [1] else if v = page_payload_of 2 then [2] else [0]),
      pw_loads = (\<lambda>b. if b = [1] then Some (page_payload_of 1) else if b = [2] then Some (page_payload_of 2) else None),
      pw_sign = (\<lambda>b. [7])\<rparr>"

lemma page_store_wf: "store_wf page_store"
proof -
  have "store_reachable page_store" unfolding page_store_def Let_def by (intro store_reachable.intros)
  then show ?thesis by (rule store_reachable_wf)
qed



end
