(* ===== verification/Team_Learning.thy ===== *)
theory Team_Learning
  imports Intake
begin

text \<open>
  What the server learns from the team: the decisions on findings (\<open>src/server/context/feedback_source.py\<close>), the open findings of
  other pull requests (\<open>server_data_source.py\<close>), the review rules (\<open>review_rules_source.py\<close>, \<open>src/server/repos/review_rule_repo.py\<close>)
  and the reactions in Slack (\<open>src/server/repos/feedback_repo.py\<close>, \<open>src/server/slack/webhook.py\<close>, \<open>slack_webhook\<close> of
  \<open>src/server/api.py\<close>).
\<close>

section \<open>Judged findings\<close>

record judged_row =
  jr_category :: "pystr option"
  jr_status :: finding_status
  jr_claim :: "pystr option"
  jr_edited :: "pystr option"

datatype judgement = J_Approved | J_Edited | J_Rejected

definition one_line_claim :: "pystr option \<Rightarrow> pystr" where
  "one_line_claim claim = take 160 (join_text [32] (split_ws (case claim of None \<Rightarrow> [] | Some t \<Rightarrow> t)))"

definition judgement_of :: "judged_row \<Rightarrow> judgement" where
  "judgement_of r =
     (if jr_status r = Dismissed then J_Rejected
      else if jr_status r = Edited \<or> (case jr_edited r of None \<Rightarrow> False | Some t \<Rightarrow> strip t \<noteq> []) then J_Edited
      else J_Approved)"

definition OTHER_CATEGORY :: pystr where
  "OTHER_CATEGORY = [44592, 53440]"

definition category_of :: "pystr option \<Rightarrow> pystr" where
  "category_of c = (let t = strip (case c of None \<Rightarrow> [] | Some t \<Rightarrow> t) in if t = [] then OTHER_CATEGORY else t)"

definition MAX_EXAMPLES :: nat where
  "MAX_EXAMPLES = 5"

text \<open>The examples and the set of claims seen, which are the claims of the examples.\<close>

definition add_example :: "pystr \<Rightarrow> pystr \<Rightarrow> (pystr \<times> pystr) list \<Rightarrow> (pystr \<times> pystr) list" where
  "add_example cat claim es =
     (if claim \<noteq> [] \<and> claim \<notin> set (map snd es) \<and> length es < MAX_EXAMPLES then es @ [(cat, claim)] else es)"

subsection \<open>The summary for the prompt\<close>

record feedback_sum =
  fs_tally :: "(pystr \<times> nat \<times> nat) list"
  fs_rejected :: "(pystr \<times> pystr) list"
  fs_edited :: "(pystr \<times> pystr) list"
  fs_total :: nat

definition sum_row :: "judged_row \<Rightarrow> feedback_sum \<Rightarrow> feedback_sum" where
  "sum_row r s =
     (let cat = category_of (jr_category r); claim = one_line_claim (jr_claim r);
          old = dict_get (fs_tally s) cat (0, 0); s1 = s\<lparr>fs_total := Suc (fs_total s)\<rparr>
      in if judgement_of r = J_Rejected
         then s1\<lparr>fs_tally := dict_set cat (fst old, Suc (snd old)) (fs_tally s), fs_rejected := add_example cat claim (fs_rejected s)\<rparr>
         else s1\<lparr>fs_tally := dict_set cat (Suc (fst old), snd old) (fs_tally s),
                 fs_edited := (if judgement_of r = J_Edited then add_example cat claim (fs_edited s) else fs_edited s)\<rparr>)"

definition sum_rows :: "judged_row list \<Rightarrow> feedback_sum" where
  "sum_rows rws = fold sum_row rws \<lparr>fs_tally = [], fs_rejected = [], fs_edited = [], fs_total = 0\<rparr>"

definition MIN_DECISIONS :: nat where
  "MIN_DECISIONS = 3"

definition example_lines :: "(pystr \<times> pystr) list \<Rightarrow> pystr list" where
  "example_lines es = map (\<lambda>(cat, claim). U ''- ['' @ cat @ U ''] '' @ claim) es"

definition feedback_lines :: "(pystr \<times> nat \<times> nat) list \<Rightarrow> (pystr \<times> pystr) list \<Rightarrow> (pystr \<times> pystr) list \<Rightarrow> pystr list" where
  "feedback_lines cats rejected edited =
     [[51060, 32, 47112, 54252, 51032, 32, 44284, 44144, 32, 47532, 48624, 50640, 49436, 32, 54016, 51060, 32, 45236,
       47536, 32, 54032, 45800, 40, 47532, 48624, 32, 48372, 51221, 32, 52280, 44256, 50857, 41, 58], [], [52852,
         53580, 44256, 47532, 48324, 32, 49688, 50857, 47, 44592, 44033, 58]] @
     map (\<lambda>(cat, acc, rej). U ''- '' @ cat @ [58, 32, 49688, 50857, 32] @ nat_text acc @ [32, 183, 32, 44592,
       44033, 32] @ nat_text rej) cats @
     (if rejected = [] then [] else [[], [54016, 51060, 32, 51088, 51452, 32, 44592, 44033, 54620, 32, 51648, 51201,
       40, 51060, 32, 47112, 54252, 50640, 49436, 32, 45824, 52404, 47196, 32, 48155, 50500, 46308, 51060, 51648, 32,
         50506, 45716, 32, 50976, 54805, 41, 58]] @ example_lines rejected) @
     (if edited = [] then [] else [[], [54016, 51060, 32, 45796, 46316, 50612, 32, 49688, 50857, 54620, 32, 51648,
       51201, 40, 47928, 44396, 183, 48276, 50948, 47484, 32, 51312, 51221, 54644, 32, 48152, 50689, 41,
         58]] @ example_lines edited)"

definition summarize_feedback :: "judged_row list \<Rightarrow> pystr" where
  "summarize_feedback rws =
     (let s = sum_rows rws
      in if fs_total s < MIN_DECISIONS then []
         else join_text [10] (feedback_lines (sort_key (\<lambda>(cat, acc, rej). - int (acc + rej)) (fs_tally s)) (fs_rejected s) (fs_edited s)))"

subsection \<open>The statistics for the page\<close>

record feedback_stats =
  st_categories :: "(pystr \<times> nat \<times> nat \<times> nat) list"
  st_approved :: "(pystr \<times> pystr) list"
  st_rejected :: "(pystr \<times> pystr) list"
  st_edited :: "(pystr \<times> pystr) list"
  st_total :: nat

definition count_judgement :: "judgement \<Rightarrow> nat \<times> nat \<times> nat \<Rightarrow> nat \<times> nat \<times> nat" where
  "count_judgement j c = (case c of (a, e, r) \<Rightarrow>
     (case j of J_Approved \<Rightarrow> (Suc a, e, r) | J_Edited \<Rightarrow> (a, Suc e, r) | J_Rejected \<Rightarrow> (a, e, Suc r)))"

definition stat_row :: "judged_row \<Rightarrow> feedback_stats \<Rightarrow> feedback_stats" where
  "stat_row r s =
     (let cat = category_of (jr_category r); claim = one_line_claim (jr_claim r); j = judgement_of r;
          s1 = s\<lparr>st_total := Suc (st_total s),
                 st_categories := dict_set cat (count_judgement j (dict_get (st_categories s) cat (0, 0,
          0))) (st_categories s)\<rparr>
      in case j of
           J_Rejected \<Rightarrow> s1\<lparr>st_rejected := add_example cat claim (st_rejected s)\<rparr>
         | J_Edited \<Rightarrow> s1\<lparr>st_edited := add_example cat claim (st_edited s)\<rparr>
         | J_Approved \<Rightarrow> s1\<lparr>st_approved := add_example cat claim (st_approved s)\<rparr>)"

definition feedback_stats_of :: "judged_row list \<Rightarrow> feedback_stats" where
  "feedback_stats_of rws =
     (let s = fold stat_row rws \<lparr>st_categories = [], st_approved = [], st_rejected = [], st_edited = [], st_total = 0\<rparr>
      in s\<lparr>st_categories := sort_key (\<lambda>(cat, a, e, r). - int (a + e + r)) (st_categories s)\<rparr>)"

section \<open>The tables\<close>

record review_rule =
  rl_id :: nat
  rl_repo :: nat
  rl_category :: pystr
  rl_text :: pystr
  rl_status :: pystr
  rl_total :: nat
  rl_rejected :: nat
  rl_created_at :: int
  rl_updated_at :: int

record slack_post =
  sp_run :: nat
  sp_channel :: pystr
  sp_ts :: pystr

record feedback_signal =
  sg_run :: nat
  sg_user :: pystr
  sg_reaction :: pystr
  sg_verdict :: pystr

record learn_db =
  l_repos :: "repo_entry list"
  l_runs :: run_db
  l_store :: finding_store
  l_rules :: "review_rule table"
  l_posts :: "slack_post list"
  l_signals :: "feedback_signal list"

text \<open>The pull request and the repository of a run, if it is of the named repository.\<close>

definition pr_of_run :: "learn_db \<Rightarrow> nat \<Rightarrow> pull_request option" where
  "pr_of_run db rid = (case get_run rid (l_runs db) of None \<Rightarrow> None | Some r \<Rightarrow> get_pr (run_pr r) (db_prs (l_runs db)))"

definition run_in_repo :: "learn_db \<Rightarrow> pystr \<Rightarrow> nat \<Rightarrow> bool" where
  "run_in_repo db name rid =
     (case pr_of_run db rid of
        None \<Rightarrow> False
      | Some p \<Rightarrow> list_ex (\<lambda>e. en_id e = pr_repo p \<and> nocase (en_full_name e) = nocase name) (l_repos db))"

definition MAX_DECISIONS :: nat where
  "MAX_DECISIONS = 400"

definition judged_rows :: "learn_db \<Rightarrow> pystr \<Rightarrow> judged_row list" where
  "judged_rows db name =
     map (\<lambda>f. \<lparr>jr_category = f_category f, jr_status = f_status f, jr_claim = f_claim f, jr_edited = f_edited_text f\<rparr>)
       (take MAX_DECISIONS (sort_key (\<lambda>f. - int (f_id f))
          (filter (\<lambda>f. run_in_repo db name (f_run f) \<and> f_status f \<in> {Approved, Dismissed, Edited, Posted}) (findings (l_store db)))))"

definition slack_counts :: "learn_db \<Rightarrow> pystr \<Rightarrow> nat \<times> nat" where
  "slack_counts db name =
     (let here = filter (\<lambda>g. run_in_repo db name (sg_run g)) (l_signals db)
      in (length (filter (\<lambda>g. sg_verdict g = U ''positive'') here), length (filter (\<lambda>g. sg_verdict g = U ''negative'') here)))"

definition slack_feedback_line :: "nat \<times> nat \<Rightarrow> pystr" where
  "slack_feedback_line c =
     (if fst c + snd c = 0 then []
      else [51060, 32, 47112, 54252, 50640, 32, 44172, 49884, 46108, 32, 47532, 48624, 50640, 32, 45824, 54620, 32,
        54016, 51032, 32, 83, 108, 97, 99, 107, 32, 48152, 51025, 58, 32, 128077, 32, 50976, 50857,
          32] @ nat_text (fst c) @ [44148, 32, 183, 32, 128078, 32, 48520, 54596, 50836, 32] @ nat_text (snd c) @
           [44148, 32, 40, 48512, 51221, 32, 48152, 51025, 51060, 32, 50864, 49464, 54616, 47732, 32, 51648, 51201,
          32, 44053, 46020, 183, 50864, 49440, 49692, 50948, 47484, 32, 45230, 52656, 32, 51312, 51221, 41, 46])"

definition feedback_source :: "learn_db \<Rightarrow> pystr \<Rightarrow> pystr" where
  "feedback_source db name =
     join_text [10, 10] (filter (\<lambda>t. t \<noteq> []) [summarize_feedback (judged_rows db name), slack_feedback_line (slack_counts db name)])"

section \<open>Open findings of other pull requests\<close>

record open_row =
  or_category :: "pystr option"
  or_severity :: "pystr option"
  or_claim :: "pystr option"
  or_pr :: int

definition MAX_OPEN_EXAMPLES :: nat where
  "MAX_OPEN_EXAMPLES = 8"

record open_sum =
  os_tally :: "(pystr \<times> nat) list"
  os_examples :: "(pystr \<times> pystr \<times> pystr) list"
  os_prs :: "int list"
  os_total :: nat

definition open_sum_row :: "open_row \<Rightarrow> open_sum \<Rightarrow> open_sum" where
  "open_sum_row r s =
     (let cat = category_of (or_category r); claim = one_line_claim (or_claim r);
          sev = (let t = strip (case or_severity r of None \<Rightarrow> [] | Some t \<Rightarrow> t) in if t = [] then U ''?'' else t)
      in \<lparr>os_tally = dict_set cat (Suc (dict_get (os_tally s) cat 0)) (os_tally s),
          os_examples = (if claim \<noteq> [] \<and> claim \<notin> set (map (snd \<circ> snd) (os_examples s)) \<and> length (os_examples s) < MAX_OPEN_EXAMPLES
                         then os_examples s @ [(sev, cat, claim)] else os_examples s),
          os_prs = List.insert (or_pr r) (os_prs s), os_total = Suc (os_total s)\<rparr>)"

definition summarize_open_findings :: "open_row list \<Rightarrow> pystr" where
  "summarize_open_findings rws =
     (let s = fold open_sum_row rws \<lparr>os_tally = [], os_examples = [], os_prs = [], os_total = 0\<rparr>
      in if os_total s = 0 then []
         else join_text [10]
           ([[51060, 32, 47112, 54252, 50640, 49436, 32, 50500, 51649, 32, 52376, 47532, 46104, 51648, 32, 50506,
          51008, 40, 48120, 44208, 41, 32, 47532, 48624, 32, 51648, 51201, 32, 8212, 32, 45796, 47480, 32, 50676,
          47536, 32, 80, 82, 32] @ nat_text (length (os_prs s)) @
               [44148, 51032, 32, 52572, 49888, 32, 47532, 48624, 32, 44592, 51456, 40, 51473, 48373, 32, 51228,
          44592, 32, 48169, 51648, 183, 51068, 44288, 49457, 32, 52280, 44256, 50857, 41, 58], [], [52852, 53580,
          44256, 47532, 48324, 32, 48120, 44208, 32, 44148, 49688, 58]] @
            map (\<lambda>(cat, n). U ''- '' @ cat @ U '': '' @ nat_text n) (sort_key (\<lambda>(cat, n). - int n) (os_tally s)) @
            (if os_examples s = [] then []
             else [[], [45824, 54364, 32, 48120, 44208, 32, 51648, 51201, 58]] @ map (\<lambda>(sev, cat, claim). U ''- ['' @ sev @ U ''/'' @ cat @ U ''] '' @ claim) (os_examples s))))"

section \<open>Review rules\<close>

definition RULE_STATUSES :: "pystr list" where
  "RULE_STATUSES = map U [''active'', ''disabled'']"

definition rule_rank :: "pystr \<Rightarrow> nat" where
  "rule_rank s = (if s = U ''active'' then 0 else if s = U ''proposed'' then 1 else 2)"

definition list_rules :: "nat \<Rightarrow> review_rule table \<Rightarrow> review_rule list" where
  "list_rules repo t = sort_key (\<lambda>r. (rule_rank (rl_status r), nocase (rl_category r), rl_id r)) (filter (\<lambda>r. rl_repo r = repo) (rows t))"

definition active_rules :: "learn_db \<Rightarrow> pystr \<Rightarrow> nat \<Rightarrow> review_rule list" where
  "active_rules db name limit =
     take limit (sort_key (\<lambda>r. (nocase (rl_category r), rl_id r))
       (filter (\<lambda>r. rl_status r = U ''active'' \<and> list_ex (\<lambda>e. en_id e = rl_repo r \<and> nocase (en_full_name e) = nocase name) (l_repos db))
          (rows (l_rules db))))"

definition proposal_text :: "pystr \<Rightarrow> pystr" where
  "proposal_text cat = cat @ [32, 48276, 51452, 51032, 32, 51648, 51201, 51008, 32, 47749, 54869, 54620, 32, 46041,
    51089, 32, 50689, 54693, 51060, 45208, 32, 50976, 51648, 48372, 49688, 32, 50948, 54744, 51060, 32, 51080, 51012,
      32, 46412, 47564, 32, 51228, 44592, 54616, 44256, 44, 32, 52712, 54693, 183, 49828, 53440, 51068, 32, 52264,
        51060, 47564, 51004, 47196, 45716, 32, 51648, 51201, 54616, 51648, 32, 50506, 45716, 45796, 46]"

text \<open>The ratio of two counts below 400 is a float at least \<open>2 / 3\<close> exactly when the fraction is.\<close>

definition worth_a_rule :: "pystr \<Rightarrow> nat \<Rightarrow> nat \<Rightarrow> bool" where
  "worth_a_rule cat n rejected \<longleftrightarrow> cat \<noteq> [] \<and> 3 \<le> n \<and> 3 \<le> rejected \<and> 2 * n \<le> 3 * rejected"

text \<open>An \<open>AUTOINCREMENT\<close> number that the conflict leaves unused is spent.\<close>

definition upsert_rule :: "int \<Rightarrow> nat \<Rightarrow> pystr \<Rightarrow> nat \<Rightarrow> nat \<Rightarrow> review_rule table \<Rightarrow> review_rule table" where
  "upsert_rule now repo cat n rejected t =
     (let same = (\<lambda>r. rl_repo r = repo \<and> rl_category r = cat)
      in if list_ex same (rows t)
         then t\<lparr>rows := sql_update same (\<lambda>r. r\<lparr>rl_text := proposal_text cat, rl_total := n, rl_rejected := rejected, rl_updated_at := now\<rparr>) (rows t),
                next_id := Suc (next_id t)\<rparr>
         else t\<lparr>rows := rows t @ [\<lparr>rl_id = next_id t, rl_repo = repo, rl_category = cat, rl_text = proposal_text cat, rl_status = U ''proposed'',
                  rl_total = n, rl_rejected = rejected, rl_created_at = now, rl_updated_at = now\<rparr>],
                next_id := Suc (next_id t)\<rparr>)"

definition propose_rule :: "int \<Rightarrow> nat \<Rightarrow> pystr \<times> nat \<times> nat \<times> nat \<Rightarrow> review_rule table \<Rightarrow> review_rule table" where
  "propose_rule now repo stat t =
     (case stat of (category, a, e, rejected) \<Rightarrow>
        let cat = take 64 (join_text [32] (split_ws category)); n = a + e + rejected
        in if worth_a_rule cat n rejected then upsert_rule now repo cat n rejected t else t)"

definition propose_rules :: "int \<Rightarrow> nat \<Rightarrow> (pystr \<times> nat \<times> nat \<times> nat) list \<Rightarrow> review_rule table \<Rightarrow> review_rule list \<times> review_rule table" where
  "propose_rules now repo stats t = (let t1 = fold (propose_rule now repo) stats t in (list_rules repo t1, t1))"

definition set_rule_status :: "int \<Rightarrow> nat \<Rightarrow> pystr \<Rightarrow> review_rule table \<Rightarrow> (exn + review_rule option) \<times> review_rule table" where
  "set_rule_status now rid status t =
     (if status \<notin> set RULE_STATUSES then (Inl (ValueError (U ''status must be active or disabled'')), t)
      else let t1 = t\<lparr>rows := sql_update (\<lambda>r. rl_id r = rid) (\<lambda>r. r\<lparr>rl_status := status, rl_updated_at := now\<rparr>) (rows t)\<rparr>
           in (Inr (List.find (\<lambda>r. rl_id r = rid) (rows t1)), t1))"

definition MAX_RULES :: nat where
  "MAX_RULES = 20"

definition MAX_RULE_CHARS :: int where
  "MAX_RULE_CHARS = 4000"

definition rule_line :: "review_rule \<Rightarrow> pystr" where
  "rule_line r = U ''- ['' @ rl_category r @ U ''] '' @ rl_text r @ [32, 40, 44540, 44144, 58, 32, 44592, 44033,
    32] @ nat_text (rl_rejected r) @ U ''/'' @ nat_text (rl_total r) @ [44148, 41]"

fun rule_lines :: "pystr list \<Rightarrow> review_rule list \<Rightarrow> pystr list" where
  "rule_lines ls [] = ls"
| "rule_lines ls (r # rs) = (if int (length (join_text [10] (ls @ [rule_line r]))) > MAX_RULE_CHARS then ls else rule_lines (ls @ [rule_line r]) rs)"

definition rules_source :: "learn_db \<Rightarrow> pystr \<Rightarrow> pystr" where
  "rules_source db name =
     (let rules = active_rules db name MAX_RULES
      in if rules = [] then []
         else let ls = rule_lines [[54016, 51060, 32, 49849, 51064, 54620, 32, 47532, 48624, 32, 44508, 52825, 40,
          51060, 32, 47112, 54252, 50640, 47564, 32, 51201, 50857, 41, 58]] rules
              in if length ls > 1 then join_text [10] ls else [])"

section \<open>Reactions in Slack\<close>

definition record_slack_post :: "nat \<Rightarrow> pystr \<Rightarrow> pystr \<Rightarrow> slack_post list \<Rightarrow> slack_post list" where
  "record_slack_post run channel ts ps =
     (if list_ex (\<lambda>p. sp_channel p = channel \<and> sp_ts p = ts) ps then ps else ps @ [\<lparr>sp_run = run, sp_channel = channel, sp_ts = ts\<rparr>])"

definition has_slack_post :: "nat \<Rightarrow> slack_post list \<Rightarrow> bool" where
  "has_slack_post run ps \<longleftrightarrow> list_ex (\<lambda>p. sp_run p = run) ps"

definition run_for_message :: "pystr \<Rightarrow> pystr \<Rightarrow> slack_post list \<Rightarrow> nat option" where
  "run_for_message channel ts ps = map_option sp_run (List.find (\<lambda>p. sp_channel p = channel \<and> sp_ts p = ts) ps)"

definition same_signal :: "nat \<Rightarrow> pystr \<Rightarrow> pystr \<Rightarrow> feedback_signal \<Rightarrow> bool" where
  "same_signal run user reaction g \<longleftrightarrow> sg_run g = run \<and> sg_user g = user \<and> sg_reaction g = reaction"

definition add_reaction :: "nat \<Rightarrow> pystr \<Rightarrow> pystr \<Rightarrow> pystr \<Rightarrow> feedback_signal list \<Rightarrow> feedback_signal list" where
  "add_reaction run user reaction verdict gs =
     (if list_ex (same_signal run user reaction) gs then gs
      else gs @ [\<lparr>sg_run = run, sg_user = user, sg_reaction = reaction, sg_verdict = verdict\<rparr>])"

definition remove_reaction :: "nat \<Rightarrow> pystr \<Rightarrow> pystr \<Rightarrow> feedback_signal list \<Rightarrow> feedback_signal list" where
  "remove_reaction run user reaction gs = sql_delete (same_signal run user reaction) gs"

definition POSITIVE :: "pystr list" where
  "POSITIVE = map U [''+1'', ''thumbsup'', ''white_check_mark'', ''heavy_check_mark'', ''tada'', ''raised_hands'', ''100'']"

definition NEGATIVE :: "pystr list" where
  "NEGATIVE = map U [''-1'', ''thumbsdown'', ''x'', ''no_entry'', ''no_entry_sign'']"

text \<open>What is before the first pair of colons.\<close>

fun before_colons :: "pystr \<Rightarrow> pystr" where
  "before_colons [] = []"
| "before_colons (c # s) = (if c = 58 \<and> s \<noteq> [] \<and> hd s = 58 then [] else c # before_colons s)"

definition verdict_for :: "pystr \<Rightarrow> pystr option" where
  "verdict_for reaction =
     (let name = before_colons reaction
      in if name \<in> set POSITIVE then Some (U ''positive'') else if name \<in> set NEGATIVE then Some (U ''negative'') else None)"

definition MAX_AGE_SEC :: rat where
  "MAX_AGE_SEC = 300"

record slack_env =
  sl_secret :: pystr
  sl_hmac :: "pystr \<Rightarrow> int list \<Rightarrow> pystr"
  sl_bytes :: "pystr \<Rightarrow> int list"
  sl_to_int :: "pystr \<Rightarrow> int option"
  sl_clock :: rat
  sl_max_body :: int
  sl_parse :: "int list \<Rightarrow> json option"

definition slack_signature_ok :: "slack_env \<Rightarrow> pystr \<Rightarrow> int list \<Rightarrow> pystr \<Rightarrow> bool" where
  "slack_signature_ok env ts body sig \<longleftrightarrow>
     sl_secret env \<noteq> [] \<and> sig \<noteq> [] \<and> ts \<noteq> [] \<and> sig = U ''v0='' @ sl_hmac env (sl_secret env) (U ''v0:'' @ sl_bytes env ts @ U '':'' @ body)"

text \<open>A signed time stamp of more than 300 digits, which overflows the float of the subtraction, is left out.\<close>

definition is_fresh :: "slack_env \<Rightarrow> pystr \<Rightarrow> bool" where
  "is_fresh env ts = (case sl_to_int env ts of None \<Rightarrow> False | Some t \<Rightarrow> \<bar>sl_clock env - of_int t\<bar> \<le> MAX_AGE_SEC)"

datatype slack_event =
    Challenge pystr
  | Reaction bool json json json json

definition parse_slack_event :: "slack_env \<Rightarrow> int list \<Rightarrow> exn + slack_event option" where
  "parse_slack_event env body =
     (case sl_parse env body of
        Some (JObj p) \<Rightarrow>
          (if fld p ''type'' = JStr (U ''url_verification'')
           then Inr (Some (Challenge (case fld p ''challenge'' of JStr t \<Rightarrow> t | _ \<Rightarrow> [])))
           else if fld p ''type'' \<noteq> JStr (U ''event_callback'') then Inr None
           else let ev = as_obj (fld p ''event''); item = as_obj (fld ev ''item'')
                in if unhashable (fld ev ''type'') then Inl (TypeError (U ''unhashable type''))
                   else if fld ev ''type'' \<notin> {JStr (U ''reaction_added''), JStr (U ''reaction_removed'')} then Inr None
                   else if \<not> truthy (fld item ''channel'') \<or> \<not> truthy (fld item ''ts'') \<or> \<not> truthy (fld ev ''reaction'') then Inr None
                   else Inr (Some (Reaction (fld ev ''type'' = JStr (U ''reaction_added'')) (fld item ''channel'') (fld item ''ts'')
                                     (fld ev ''reaction'') (or_empty (fld ev ''user'')))))
      | _ \<Rightarrow> Inr None)"

text \<open>
  A reaction that is no text has no \<open>split\<close>; a channel, time stamp or user that is no text is left to \<open>other\<close>, what SQLite makes of it.
\<close>

definition apply_reaction :: "(slack_event \<Rightarrow> learn_db \<Rightarrow> hook_result \<times> learn_db) \<Rightarrow> slack_event \<Rightarrow> learn_db \<Rightarrow> hook_result \<times> learn_db" where
  "apply_reaction other ev db =
     (case ev of
        Challenge t \<Rightarrow> (Hook_Answer t, db)
      | Reaction added channel ts reaction user \<Rightarrow>
          (case reaction of
             JStr r \<Rightarrow>
               (case verdict_for r of
                  None \<Rightarrow> (Hook_Answer (U ''ignored''), db)
                | Some v \<Rightarrow>
                    (case (text_value channel, text_value ts, text_value user) of
                       (Some c, Some t, Some u) \<Rightarrow>
                         (case run_for_message c t (l_posts db) of
                            None \<Rightarrow> (Hook_Answer (U ''ignored''), db)
                          | Some run \<Rightarrow>
                              (Hook_Answer (U ''recorded''),
                               db\<lparr>l_signals := (if added then add_reaction run u r v else remove_reaction run u r) (l_signals db)\<rparr>))
                     | _ \<Rightarrow> other ev db))
           | _ \<Rightarrow> (Hook_Crash (OtherError (U ''AttributeError'') (U ''split'')), db)))"

definition slack_webhook :: "slack_env \<Rightarrow> (slack_event \<Rightarrow> learn_db \<Rightarrow> hook_result \<times> learn_db) \<Rightarrow> webhook_request \<Rightarrow> learn_db
    \<Rightarrow> hook_result \<times> learn_db" where
  "slack_webhook env other r db =
     (if sl_secret env = [] then (Hook_Error 503 (U ''slack signing secret not configured''), db)
      else (case (wq_timestamp r, wq_signature r) of
              (Some ts, Some sig) \<Rightarrow>
                (if ts = [] \<or> sig = [] then (Hook_Error 401 (U ''invalid signature''), db)
                 else (case bounded_webhook_body (sl_to_int env) (sl_max_body env) r of
                         Inl e \<Rightarrow> (e, db)
                       | Inr body \<Rightarrow>
                           if \<not> slack_signature_ok env ts body sig then (Hook_Error 401 (U ''invalid signature''), db)
                           else if \<not> is_fresh env ts then (Hook_Error 401 (U ''stale timestamp''), db)
                           else (case parse_slack_event env body of
                                   Inl e \<Rightarrow> (Hook_Crash e, db)
                                 | Inr None \<Rightarrow> (Hook_Answer (U ''ignored''), db)
                                 | Inr (Some ev) \<Rightarrow> apply_reaction other ev db)))
            | _ \<Rightarrow> (Hook_Error 401 (U ''invalid signature''), db)))"

section \<open>The summary of the prompt and the statistics of the page\<close>

lemma map_insort_key: "map f (insort_key (\<lambda>x. k (f x)) x xs) = insort_key k (f x) (map f xs)"
  by (induction xs) auto

lemma sort_key_map: "map f (sort_key (\<lambda>x. k (f x)) xs) = sort_key k (map f xs)"
  by (induction xs) (simp_all add: map_insort_key)

definition merge_counts :: "pystr \<times> nat \<times> nat \<times> nat \<Rightarrow> pystr \<times> nat \<times> nat" where
  "merge_counts c = (case c of (cat, a, e, r) \<Rightarrow> (cat, a + e, r))"

text \<open>What the summary keeps of the statistics.\<close>

definition sums_of :: "feedback_stats \<Rightarrow> feedback_sum" where
  "sums_of s = \<lparr>fs_tally = map merge_counts (st_categories s), fs_rejected = st_rejected s, fs_edited = st_edited s, fs_total = st_total s\<rparr>"

lemma dict_get_merge:
  "dict_get (map merge_counts cs) cat (0, 0) = snd (merge_counts (cat, dict_get cs cat (0, 0, 0)))"
proof (induction cs)
  case (Cons c cs)
  then show ?case by (cases c) (auto simp: merge_counts_def dict_get_def split: if_splits)
qed (simp add: dict_get_def merge_counts_def)

lemma dict_set_merge:
  "dict_set cat (snd (merge_counts (cat, v))) (map merge_counts cs) = map merge_counts (dict_set cat v cs)"
proof (induction cs)
  case (Cons c cs)
  then show ?case by (cases c; cases v) (auto simp: merge_counts_def)
qed (cases v; simp add: merge_counts_def)

lemma sum_row_stat_row: "sum_row r (sums_of s) = sums_of (stat_row r s)"
proof -
  let ?cat = "category_of (jr_category r)"
  let ?old = "dict_get (st_categories s) ?cat (0, 0, 0)"
  have add: "dict_set ?cat (n, m) (map merge_counts (st_categories s)) = map merge_counts (dict_set ?cat v (st_categories s))"
    if "snd (merge_counts (?cat, v)) = (n, m)" for n m v
    using dict_set_merge[of ?cat v "st_categories s"] that by simp
  obtain a e q where old: "?old = (a, e, q)" by (cases ?old)
  show ?thesis
    by (cases "judgement_of r")
      (simp_all add: sum_row_def stat_row_def sums_of_def Let_def dict_get_merge old count_judgement_def merge_counts_def add)
qed

lemma fold_sum_stat: "fold sum_row rws (sums_of s) = sums_of (fold stat_row rws s)"
  by (induction rws arbitrary: s) (simp_all add: sum_row_stat_row)

lemma sort_merged:
  "sort_key (\<lambda>(cat, acc, rej). - int (acc + rej)) (map merge_counts cs) =
   map merge_counts (sort_key (\<lambda>(cat, a, e, r). - int (a + e + r)) cs)"
proof -
  have "(\<lambda>(cat, a, e, r). - int (a + e + r)) = (\<lambda>x. (\<lambda>(cat, acc, rej). - int (acc + rej)) (merge_counts x))"
    by (auto simp: merge_counts_def fun_eq_iff)
  then show ?thesis by (simp only: sort_key_map)
qed

text \<open>
  The summary put into a prompt says of every category, rejected and edited example exactly what the statistics shown to the team say
  (a finding counted as accepted there is one approved or edited here, in the same order), and it is empty below three decisions.
\<close>

lemma summary_agrees_with_page:
  "summarize_feedback rws =
     (let s = feedback_stats_of rws
      in if st_total s < MIN_DECISIONS then []
         else join_text [10] (feedback_lines (map merge_counts (st_categories s)) (st_rejected s) (st_edited s)))"
proof -
  have "sum_rows rws = sums_of (fold stat_row rws \<lparr>st_categories = [], st_approved = [], st_rejected = [], st_edited = [], st_total = 0\<rparr>)"
    using fold_sum_stat[of rws "\<lparr>st_categories = [], st_approved = [], st_rejected = [], st_edited = [], st_total = 0\<rparr>"]
    by (simp add: sum_rows_def sums_of_def)
  then show ?thesis
    by (simp add: summarize_feedback_def feedback_stats_of_def Let_def sums_of_def sort_merged[simplified])
qed

section \<open>The signals are the reactions that stand\<close>

type_synonym signal_key = "nat \<times> pystr \<times> pystr"

definition signal_key :: "feedback_signal \<Rightarrow> signal_key" where
  "signal_key g = (sg_run g, sg_user g, sg_reaction g)"

text \<open>The reactions that stand on the posted messages, as a set that an event with a verdict and a known message changes.\<close>

definition react :: "slack_post list \<Rightarrow> slack_event \<Rightarrow> signal_key set \<Rightarrow> signal_key set" where
  "react ps ev S =
     (case ev of
        Reaction added (JStr c) (JStr t) (JStr r) (JStr u) \<Rightarrow>
          (case (verdict_for r, run_for_message c t ps) of
             (Some v, Some run) \<Rightarrow> (if added then insert (run, u, r) S else S - {(run, u, r)})
           | _ \<Rightarrow> S)
      | _ \<Rightarrow> S)"

definition signals_are :: "signal_key set \<Rightarrow> learn_db \<Rightarrow> bool" where
  "signals_are S db \<longleftrightarrow> distinct (map signal_key (l_signals db)) \<and> set (map signal_key (l_signals db)) = S \<and>
     list_all (\<lambda>g. verdict_for (sg_reaction g) = Some (sg_verdict g)) (l_signals db)"

definition text_event :: "slack_event \<Rightarrow> bool" where
  "text_event ev = (case ev of Challenge t \<Rightarrow> True | Reaction added (JStr c) (JStr t) (JStr r) (JStr u) \<Rightarrow> True | _ \<Rightarrow> False)"

definition apply_reactions :: "(slack_event \<Rightarrow> learn_db \<Rightarrow> hook_result \<times> learn_db) \<Rightarrow> slack_event list \<Rightarrow> learn_db \<Rightarrow> learn_db" where
  "apply_reactions other evs db = fold (\<lambda>ev db. snd (apply_reaction other ev db)) evs db"

lemma same_signal_key: "same_signal run u r g \<longleftrightarrow> signal_key g = (run, u, r)"
  by (auto simp: same_signal_def signal_key_def)

lemma signals_are_add:
  assumes "signals_are S db" "verdict_for r = Some v"
  shows "signals_are (insert (run, u, r) S) (db\<lparr>l_signals := add_reaction run u r v (l_signals db)\<rparr>)"
  using assms by (auto simp: signals_are_def add_reaction_def same_signal_key list_ex_iff signal_key_def)

lemma distinct_map_filter_key: "distinct (map f xs) \<Longrightarrow> distinct (map f (filter P xs))"
  by (induction xs) auto

lemma signals_are_remove:
  assumes "signals_are S db"
  shows "signals_are (S - {(run, u, r)}) (db\<lparr>l_signals := remove_reaction run u r (l_signals db)\<rparr>)"
  using assms by (auto simp: signals_are_def remove_reaction_def sql_delete_def same_signal_key list_all_iff distinct_map_filter_key)

lemma apply_reaction_posts: "text_event ev \<Longrightarrow> l_posts (snd (apply_reaction other ev db)) = l_posts db"
  by (auto simp: apply_reaction_def text_event_def split: slack_event.splits json.splits option.splits)

lemma apply_reaction_signals:
  assumes "signals_are S db" "text_event ev"
  shows "signals_are (react (l_posts db) ev S) (snd (apply_reaction other ev db))"
proof (cases ev)
  case (Reaction added channel ts reaction user)
  with assms(2) obtain c t r u where ev: "channel = JStr c" "ts = JStr t" "reaction = JStr r" "user = JStr u"
    by (auto simp: text_event_def split: json.splits)
  show ?thesis
  proof (cases "verdict_for r")
    case (Some v)
    then show ?thesis
      using signals_are_add[OF assms(1) Some] signals_are_remove[OF assms(1)] assms(1)
      by (cases "run_for_message c t (l_posts db)") (simp_all add: Reaction ev apply_reaction_def react_def)
  qed (use assms(1) in \<open>simp add: Reaction ev apply_reaction_def react_def\<close>)
qed (use assms(1) in \<open>simp add: apply_reaction_def react_def\<close>)

text \<open>
  C38: after any sequence of reaction events the stored signals are exactly the reactions that stand: an added reaction with a verdict on a
  posted message is there once, whatever the number of its deliveries, a removed one is gone, and every signal carries the verdict of its
  emoji.
\<close>

theorem signals_are_standing_reactions:
  assumes "signals_are S db" "list_all text_event evs"
  shows "signals_are (fold (react (l_posts db)) evs S) (apply_reactions other evs db)"
  using assms
proof (induction evs arbitrary: S db)
  case (Cons ev evs)
  have here: "signals_are (react (l_posts db) ev S) (snd (apply_reaction other ev db))"
    using Cons.prems by (intro apply_reaction_signals) simp_all
  show ?case
    using Cons.IH[OF here] Cons.prems(2) apply_reaction_posts[of ev other db] by (simp add: apply_reactions_def)
qed (simp add: apply_reactions_def)

definition sample_learn :: learn_db where
  "sample_learn = \<lparr>l_repos = [], l_runs = \<lparr>db_prs = \<lparr>rows = [], next_id = 1\<rparr>, db_runs = \<lparr>rows = [], next_id = 1\<rparr>, db_results = \<lparr>rows = [], next_id = 1\<rparr>\<rparr>,
     l_store = \<lparr>findings = [], next_finding = 1, decisions = [], summaries = []\<rparr>, l_rules = \<lparr>rows = [], next_id = 1\<rparr>,
     l_posts = [\<lparr>sp_run = 7, sp_channel = U ''C1'', sp_ts = U ''17.5''\<rparr>], l_signals = []\<rparr>"

definition thumbs :: "bool \<Rightarrow> string \<Rightarrow> slack_event" where
  "thumbs added emoji = Reaction added (JStr (U ''C1'')) (JStr (U ''17.5'')) (JStr (U emoji)) (JStr (U ''U9''))"

lemma signals_witness:
  "signals_are (fold (react (l_posts sample_learn)) [thumbs True ''+1'', thumbs True ''x'', thumbs True ''+1'', thumbs False ''x''] {})
     (apply_reactions (\<lambda>ev db. (Hook_Answer [], db)) [thumbs True ''+1'', thumbs True ''x'', thumbs True ''+1'', thumbs False ''x''] sample_learn) \<and>
   map signal_key (l_signals (apply_reactions (\<lambda>ev db. (Hook_Answer [], db)) [thumbs True ''+1'', thumbs True ''x'', thumbs True ''+1'', thumbs False ''x''] sample_learn))
     = [(7, U ''U9'', U ''+1'')]"
proof
  show "signals_are (fold (react (l_posts sample_learn)) [thumbs True ''+1'', thumbs True ''x'', thumbs True ''+1'', thumbs False ''x''] {})
     (apply_reactions (\<lambda>ev db. (Hook_Answer [], db)) [thumbs True ''+1'', thumbs True ''x'', thumbs True ''+1'', thumbs False ''x''] sample_learn)"
    by (rule signals_are_standing_reactions) (simp add: signals_are_def sample_learn_def, simp add: thumbs_def text_event_def)
qed code_simp

section \<open>Rules\<close>

definition rule_head :: "review_rule \<Rightarrow> nat \<times> nat \<times> pystr \<times> pystr" where
  "rule_head r = (rl_id r, rl_repo r, rl_category r, rl_status r)"

definition only_proposes :: "review_rule list \<Rightarrow> review_rule list \<Rightarrow> bool" where
  "only_proposes old new \<longleftrightarrow> (\<exists>more. map rule_head new = map rule_head old @ map rule_head more \<and>
     list_all (\<lambda>r. rl_status r = U ''proposed'') more)"

lemma only_proposes_refl: "only_proposes rs rs"
  by (auto simp: only_proposes_def intro: exI[of _ "[]"])

lemma only_proposes_trans:
  assumes "only_proposes a b" "only_proposes b c"
  shows "only_proposes a c"
proof -
  from assms obtain m n where "map rule_head b = map rule_head a @ map rule_head m" "list_all (\<lambda>r. rl_status r = U ''proposed'') m"
    "map rule_head c = map rule_head b @ map rule_head n" "list_all (\<lambda>r. rl_status r = U ''proposed'') n"
    by (auto simp: only_proposes_def)
  then show ?thesis unfolding only_proposes_def by (intro exI[of _ "m @ n"]) simp
qed

lemma upsert_rule_proposes: "only_proposes (rows t) (rows (upsert_rule now repo cat n q t))"
proof (cases "list_ex (\<lambda>r. rl_repo r = repo \<and> rl_category r = cat) (rows t)")
  case True
  then have "map rule_head (rows (upsert_rule now repo cat n q t)) = map rule_head (rows t)"
    by (auto simp: upsert_rule_def Let_def sql_update_def rule_head_def)
  then show ?thesis by (auto simp: only_proposes_def intro: exI[of _ "[]"])
next
  case False
  let ?r = "\<lparr>rl_id = next_id t, rl_repo = repo, rl_category = cat, rl_text = proposal_text cat, rl_status = U ''proposed'',
                  rl_total = n, rl_rejected = q, rl_created_at = now, rl_updated_at = now\<rparr>"
  from False show ?thesis by (auto simp: upsert_rule_def Let_def only_proposes_def intro: exI[of _ "[?r]"])
qed

text \<open>
  Proposing rules from the statistics leaves every rule of the table its repository, category and status, whatever the team decided
  of it, and what it adds is a proposal, which no prompt uses before the team activates it.
\<close>

lemma proposing_changes_no_status: "only_proposes (rows t) (rows (snd (propose_rules now repo stats t)))"
proof -
  have "only_proposes (rows t) (rows (fold (propose_rule now repo) stats t))"
  proof (induction stats arbitrary: t)
    case (Cons st stats)
    have "only_proposes (rows t) (rows (propose_rule now repo st t))"
      by (auto simp: propose_rule_def Let_def upsert_rule_proposes only_proposes_refl split: prod.splits)
    then show ?case using Cons by (auto intro: only_proposes_trans)
  qed (simp add: only_proposes_refl)
  then show ?thesis by (simp add: propose_rules_def Let_def)
qed

lemma rule_lines_fit:
  assumes "int (length (join_text [10] ls)) \<le> MAX_RULE_CHARS"
  shows "int (length (join_text [10] (rule_lines ls rs))) \<le> MAX_RULE_CHARS"
  using assms by (induction ls rs rule: rule_lines.induct) auto

lemma rule_lines_prefix: "\<exists>n. rule_lines ls rs = ls @ map rule_line (take n rs)"
proof (induction ls rs rule: rule_lines.induct)
  case (2 ls r rs)
  show ?case
  proof (cases "int (length (join_text [10] (ls @ [rule_line r]))) > MAX_RULE_CHARS")
    case True
    then show ?thesis by (auto intro: exI[of _ 0])
  next
    case False
    then obtain n where "rule_lines (ls @ [rule_line r]) rs = (ls @ [rule_line r]) @ map rule_line (take n rs)" using 2 by auto
    with False show ?thesis by (intro exI[of _ "Suc n"]) simp
  qed
qed simp

definition rules_head :: pystr where
  "rules_head = [54016, 51060, 32, 49849, 51064, 54620, 32, 47532, 48624, 32, 44508, 52825, 40, 51060, 32, 47112,
    54252, 50640, 47564, 32, 51201, 50857, 41, 58]"

definition activated_for :: "learn_db \<Rightarrow> pystr \<Rightarrow> review_rule \<Rightarrow> bool" where
  "activated_for db name r \<longleftrightarrow> r \<in> set (rows (l_rules db)) \<and> rl_status r = U ''active'' \<and>
     list_ex (\<lambda>e. en_id e = rl_repo r \<and> nocase (en_full_name e) = nocase name) (l_repos db)"

lemma active_rules_activated: "r \<in> set (active_rules db name n) \<Longrightarrow> activated_for db name r"
  by (auto simp: active_rules_def activated_for_def dest: in_set_takeD)

text \<open>
  C39: the rules in a prompt are the heading and the lines of rules that the team activated for the repository, at most twenty, whole lines
  within 4000 characters, or nothing.
\<close>

theorem prompt_rules_activated:
  "\<exists>rs. rules_source db name = (if rs = [] then [] else join_text [10] (rules_head # map rule_line rs)) \<and>
        list_all (activated_for db name) rs \<and> length rs \<le> MAX_RULES \<and> int (length (rules_source db name)) \<le> MAX_RULE_CHARS"
proof -
  let ?rules = "active_rules db name MAX_RULES"
  obtain n where n: "rule_lines [rules_head] ?rules = [rules_head] @ map rule_line (take n ?rules)"
    using rule_lines_prefix by blast
  have fit: "int (length (join_text [10] (rule_lines [rules_head] ?rules))) \<le> MAX_RULE_CHARS"
    by (rule rule_lines_fit) (simp add: rules_head_def MAX_RULE_CHARS_def)
  have act: "list_all (activated_for db name) (take n ?rules)"
    by (auto simp: list_all_iff active_rules_activated dest: in_set_takeD)
  have few: "length (take n ?rules) \<le> MAX_RULES" by (simp add: active_rules_def)
  have src: "rules_source db name = (if take n ?rules = [] then [] else join_text [10] (rules_head # map rule_line (take n ?rules)))"
    using n by (auto simp: rules_source_def Let_def rules_head_def[symmetric])
  have "int (length (rules_source db name)) \<le> MAX_RULE_CHARS"
    using src fit n by (auto simp: MAX_RULE_CHARS_def)
  with src act few show ?thesis by blast
qed

end
