(* ===== verification/Retention.thy ===== *)
theory Retention
  imports Team_Learning Posting
begin

text \<open>
  Retention (\<open>src/server/retention.py\<close>): the review history of pull requests closed long ago is deleted in one transaction, in an order
  the foreign keys allow, then the raw files of its vendor results; the raw files and the context texts of kept reviews expire on
  their own.  A statement that would leave a reference without its row raises \<open>IntegrityError\<close>, and the transaction is rolled back.  The
  file system is an argument, a record of the operations the code calls on it; a path is the list of its parts.
\<close>

section \<open>The tables\<close>

record keep_db =
  k_runs :: run_db
  k_store :: finding_store
  k_jobs :: job_table
  k_screens :: "pre_screen table"
  k_ops :: "post_op list"
  k_comments :: "posted_comment list"
  k_posts :: "slack_post list"
  k_signals :: "feedback_signal list"

definition integrity_error :: exn where
  "integrity_error = OtherError (U ''IntegrityError'') (U ''FOREIGN KEY constraint failed'')"

definition checked :: "bool \<Rightarrow> keep_db \<Rightarrow> exn + keep_db" where
  "checked ok db = (if ok then Inr db else Inl integrity_error)"

subsection \<open>Which pull requests go\<close>

definition expired :: "int \<Rightarrow> int \<Rightarrow> keep_db \<Rightarrow> pull_request \<Rightarrow> bool" where
  "expired now days db p \<longleftrightarrow>
     pr_state p \<noteq> U ''open'' \<and> pr_updated_at p < now - days * 86400 \<and>
     \<not> list_ex (\<lambda>j. j_pr j = pr_id p \<and> active (j_status j)) (rows (k_jobs db)) \<and>
     \<not> list_ex (\<lambda>r. run_pr r = pr_id p \<and> run_status r = Run_Running) (rows (db_runs (k_runs db)))"

definition candidates :: "int \<Rightarrow> int \<Rightarrow> nat \<Rightarrow> keep_db \<Rightarrow> nat list" where
  "candidates now days batch db = map pr_id (take batch (sort_key pr_id (filter (expired now days db) (rows (db_prs (k_runs db))))))"

definition eligible :: "int \<Rightarrow> int \<Rightarrow> nat \<Rightarrow> keep_db \<Rightarrow> bool" where
  "eligible now days pid db \<longleftrightarrow> list_ex (\<lambda>p. pr_id p = pid \<and> expired now days db p) (rows (db_prs (k_runs db)))"

definition runs_of_pr :: "nat \<Rightarrow> keep_db \<Rightarrow> nat list" where
  "runs_of_pr pid db = map run_id (filter (\<lambda>r. run_pr r = pid) (rows (db_runs (k_runs db))))"

definition raw_paths_of :: "nat list \<Rightarrow> keep_db \<Rightarrow> pystr list" where
  "raw_paths_of ids db = List.map_filter vt_raw_path (filter (\<lambda>v. vt_run v \<in> set ids) (rows (db_results (k_runs db))))"

subsection \<open>The statements\<close>

definition delete_decisions :: "nat list \<Rightarrow> keep_db \<Rightarrow> keep_db" where
  "delete_decisions ids db =
     (let st = k_store db; gone = map f_id (filter (\<lambda>f. f_run f \<in> set ids) (findings st))
      in db\<lparr>k_store := st\<lparr>decisions := sql_delete (\<lambda>d. d_finding d \<in> set gone) (decisions st)\<rparr>\<rparr>)"

definition delete_traces :: "nat list \<Rightarrow> keep_db \<Rightarrow> keep_db" where
  "delete_traces ids db =
     db\<lparr>k_signals := sql_delete (\<lambda>g. sg_run g \<in> set ids) (k_signals db), k_posts := sql_delete (\<lambda>p. sp_run p \<in> set ids) (k_posts db),
        k_comments := sql_delete (\<lambda>c. pc_run c \<in> set ids) (k_comments db), k_ops := sql_delete (\<lambda>x. op_run x \<in> set ids) (k_ops db)\<rparr>"

text \<open>The delete trigger runs for every finding.\<close>

definition delete_run_findings :: "nat list \<Rightarrow> keep_db \<Rightarrow> exn + keep_db" where
  "delete_run_findings ids db =
     (let st = k_store db; gone = map f_id (filter (\<lambda>f. f_run f \<in> set ids) (findings st))
      in checked (\<not> list_ex (\<lambda>d. d_finding d \<in> set gone) (decisions st)) (db\<lparr>k_store := fold delete_finding gone st\<rparr>))"

definition delete_run_results :: "nat list \<Rightarrow> keep_db \<Rightarrow> exn + keep_db" where
  "delete_run_results ids db =
     (let t = db_results (k_runs db); gone = map vt_id (filter (\<lambda>v. vt_run v \<in> set ids) (rows t))
      in checked (\<not> list_ex (\<lambda>f. f_vendor_result f \<in> Some ` set gone) (findings (k_store db)))
           (db\<lparr>k_runs := (k_runs db)\<lparr>db_results := t\<lparr>rows := sql_delete (\<lambda>v. vt_run v \<in> set ids) (rows t)\<rparr>\<rparr>\<rparr>))"

definition purge_runs :: "nat list \<Rightarrow> keep_db \<Rightarrow> exn + keep_db" where
  "purge_runs ids db =
     (if ids = [] then Inr db
      else ebind (delete_run_findings ids (delete_traces ids (delete_decisions ids db))) (delete_run_results ids))"

definition delete_pr_jobs :: "nat \<Rightarrow> keep_db \<Rightarrow> keep_db" where
  "delete_pr_jobs pid db = db\<lparr>k_jobs := (k_jobs db)\<lparr>rows := sql_delete (\<lambda>j. j_pr j = pid) (rows (k_jobs db))\<rparr>\<rparr>"

text \<open>The summary of a run goes with it (\<open>ON DELETE CASCADE\<close>); every other table that refers to a run keeps it from going.\<close>

definition run_referenced :: "nat set \<Rightarrow> keep_db \<Rightarrow> bool" where
  "run_referenced ids db \<longleftrightarrow>
     list_ex (\<lambda>j. j_run_id j \<in> Some ` ids \<or> j_retry_run_id j \<in> Some ` ids) (rows (k_jobs db)) \<or>
     list_ex (\<lambda>v. vt_run v \<in> ids) (rows (db_results (k_runs db))) \<or> list_ex (\<lambda>f. f_run f \<in> ids) (findings (k_store db)) \<or>
     list_ex (\<lambda>c. pc_run c \<in> ids) (k_comments db) \<or> list_ex (\<lambda>p. sp_run p \<in> ids) (k_posts db) \<or>
     list_ex (\<lambda>g. sg_run g \<in> ids) (k_signals db) \<or> list_ex (\<lambda>x. op_run x \<in> ids) (k_ops db)"

definition delete_pr_runs :: "nat \<Rightarrow> keep_db \<Rightarrow> exn + keep_db" where
  "delete_pr_runs pid db =
     (let ids = set (runs_of_pr pid db); t = db_runs (k_runs db); st = k_store db
      in checked (\<not> run_referenced ids db)
           (db\<lparr>k_runs := (k_runs db)\<lparr>db_runs := t\<lparr>rows := sql_delete (\<lambda>r. run_pr r = pid) (rows t)\<rparr>\<rparr>,
               k_store := st\<lparr>summaries := sql_delete (\<lambda>s. s_run s \<in> ids) (summaries st)\<rparr>\<rparr>))"

definition delete_pr_screens :: "nat \<Rightarrow> keep_db \<Rightarrow> keep_db" where
  "delete_pr_screens pid db = db\<lparr>k_screens := (k_screens db)\<lparr>rows := sql_delete (\<lambda>s. sc_pr s = pid) (rows (k_screens db))\<rparr>\<rparr>"

definition delete_pr_row :: "nat \<Rightarrow> keep_db \<Rightarrow> exn + keep_db" where
  "delete_pr_row pid db =
     (let t = db_prs (k_runs db)
      in checked (\<not> list_ex (\<lambda>s. sc_pr s = pid) (rows (k_screens db)) \<and> \<not> list_ex (\<lambda>r. run_pr r = pid) (rows (db_runs (k_runs db))) \<and>
                  \<not> list_ex (\<lambda>j. j_pr j = pid) (rows (k_jobs db)))
           (db\<lparr>k_runs := (k_runs db)\<lparr>db_prs := t\<lparr>rows := sql_delete (\<lambda>p. pr_id p = pid) (rows t)\<rparr>\<rparr>\<rparr>))"

definition remove_pr :: "nat \<Rightarrow> keep_db \<Rightarrow> exn + keep_db" where
  "remove_pr pid db =
     ebind (purge_runs (runs_of_pr pid db) db)
       (\<lambda>db1. ebind (delete_pr_runs pid (delete_pr_jobs pid db1)) (\<lambda>db2. delete_pr_row pid (delete_pr_screens pid db2)))"

subsection \<open>The transaction\<close>

fun remove_prs :: "int \<Rightarrow> int \<Rightarrow> nat list \<Rightarrow> nat \<times> pystr list \<times> keep_db \<Rightarrow> exn + nat \<times> pystr list \<times> keep_db" where
  "remove_prs now days [] st = Inr st"
| "remove_prs now days (pid # ps) (n, paths, db) =
     (if \<not> eligible now days pid db then remove_prs now days ps (n, paths, db)
      else ebind (remove_pr pid db) (\<lambda>db1. remove_prs now days ps (Suc n, paths @ raw_paths_of (runs_of_pr pid db) db, db1)))"

text \<open>The candidates are read from \<open>before\<close>; other connections may have made \<open>db\<close> of it when the write lock is taken.\<close>

definition clean_tables :: "int \<Rightarrow> int \<Rightarrow> nat \<Rightarrow> keep_db \<Rightarrow> keep_db \<Rightarrow> (exn + nat \<times> pystr list) \<times> keep_db" where
  "clean_tables now days batch before db =
     (case remove_prs now days (candidates now days batch before) (0, [], db) of
        Inl e \<Rightarrow> (Inl e, db)
      | Inr (n, paths, db1) \<Rightarrow> (Inr (n, paths), db1))"

section \<open>The files\<close>

record 'f file_world =
  fw_resolve :: "'f \<Rightarrow> pystr \<Rightarrow> exn + pystr list"
  fw_real :: "'f \<Rightarrow> pystr list \<Rightarrow> exn + pystr list"
  fw_exists :: "'f \<Rightarrow> pystr list \<Rightarrow> exn + bool"
  fw_is_file :: "'f \<Rightarrow> pystr list \<Rightarrow> exn + bool"
  fw_mtime :: "'f \<Rightarrow> pystr list \<Rightarrow> exn + rat"
  fw_unlink :: "bool \<Rightarrow> pystr list \<Rightarrow> 'f \<Rightarrow> exn + 'f"
  fw_here :: "'f \<Rightarrow> bool"
  fw_tree :: "'f \<Rightarrow> pystr list list"
  fw_clock :: rat

definition is_os_error :: "exn \<Rightarrow> bool" where
  "is_os_error e = (case e of OtherError n m \<Rightarrow> n = U ''OSError'' | _ \<Rightarrow> False)"

definition is_value_error :: "exn \<Rightarrow> bool" where
  "is_value_error e = (case e of ValueError m \<Rightarrow> True | _ \<Rightarrow> False)"

definition unresolved :: "exn \<Rightarrow> exn + pystr list option" where
  "unresolved e = (if is_os_error e \<or> is_value_error e then Inr None else Inl e)"

definition confined :: "'f file_world \<Rightarrow> 'f \<Rightarrow> pystr \<Rightarrow> pystr \<Rightarrow> exn + pystr list option" where
  "confined fw fs raw_dir path =
     (case fw_resolve fw fs path of
        Inl e \<Rightarrow> unresolved e
      | Inr c \<Rightarrow> (case fw_resolve fw fs raw_dir of
                    Inl e \<Rightarrow> unresolved e
                  | Inr b \<Rightarrow> Inr (if take (length b) c = b then Some c else None)))"

text \<open>\<open>except OSError: pass\<close>, with what was counted so far.\<close>

definition quietly :: "exn \<Rightarrow> 'a \<Rightarrow> exn + 'a" where
  "quietly e x = (if is_os_error e then Inr x else Inl e)"

fun each_file :: "('x \<Rightarrow> 'a \<Rightarrow> 'f \<Rightarrow> (exn + 'a) \<times> 'f) \<Rightarrow> 'x list \<Rightarrow> 'a \<Rightarrow> 'f \<Rightarrow> (exn + 'a) \<times> 'f" where
  "each_file step [] a fs = (Inr a, fs)"
| "each_file step (x # xs) a fs = (case step x a fs of (Inl e, fs1) \<Rightarrow> (Inl e, fs1) | (Inr b, fs1) \<Rightarrow> each_file step xs b fs1)"

definition drop_raw :: "'f file_world \<Rightarrow> pystr \<Rightarrow> pystr \<Rightarrow> nat \<Rightarrow> 'f \<Rightarrow> (exn + nat) \<times> 'f" where
  "drop_raw fw raw_dir path n fs =
     (case confined fw fs raw_dir path of
        Inl e \<Rightarrow> (Inl e, fs)
      | Inr None \<Rightarrow> (Inr n, fs)
      | Inr (Some c) \<Rightarrow>
          (case fw_exists fw fs c of
             Inl e \<Rightarrow> (quietly e n, fs)
           | Inr there \<Rightarrow> (case fw_unlink fw True c fs of
                             Inl e \<Rightarrow> (quietly e n, fs)
                           | Inr fs1 \<Rightarrow> (Inr (n + of_bool there), fs1))))"

definition drop_old :: "'f file_world \<Rightarrow> rat \<Rightarrow> pystr list \<Rightarrow> nat \<Rightarrow> 'f \<Rightarrow> (exn + nat) \<times> 'f" where
  "drop_old fw cutoff p n fs =
     (case fw_mtime fw fs p of
        Inl e \<Rightarrow> (quietly e n, fs)
      | Inr t \<Rightarrow> if t < cutoff
                  then (case fw_unlink fw False p fs of Inl e \<Rightarrow> (quietly e n, fs) | Inr fs1 \<Rightarrow> (Inr (Suc n), fs1))
                  else (Inr n, fs))"

definition drop_orphan :: "'f file_world \<Rightarrow> pystr list list \<Rightarrow> rat \<Rightarrow> pystr list \<Rightarrow> nat \<Rightarrow> 'f \<Rightarrow> (exn + nat) \<times> 'f" where
  "drop_orphan fw referenced cutoff p n fs =
     (case fw_is_file fw fs p of
        Inl e \<Rightarrow> (quietly e n, fs)
      | Inr False \<Rightarrow> (Inr n, fs)
      | Inr True \<Rightarrow> (case fw_real fw fs p of
                       Inl e \<Rightarrow> (quietly e n, fs)
                     | Inr r \<Rightarrow> if r \<in> set referenced then (Inr n, fs) else drop_old fw cutoff p n fs))"

definition kept_raw_paths :: "keep_db \<Rightarrow> pystr list" where
  "kept_raw_paths db = List.map_filter vt_raw_path (rows (db_results (k_runs db)))"

definition raw_cutoff :: "'f file_world \<Rightarrow> int \<Rightarrow> rat" where
  "raw_cutoff fw days = fw_clock fw - of_int days * 86400"

definition sweep_orphans :: "'f file_world \<Rightarrow> int \<Rightarrow> keep_db \<Rightarrow> nat \<Rightarrow> 'f \<Rightarrow> (exn + nat) \<times> 'f" where
  "sweep_orphans fw days db n fs =
     (case emap (fw_resolve fw fs) (kept_raw_paths db) of
        Inl e \<Rightarrow> (Inl e, fs)
      | Inr referenced \<Rightarrow>
          if \<not> fw_here fw fs then (Inr n, fs)
          else each_file (drop_orphan fw referenced (raw_cutoff fw days)) (fw_tree fw fs) n fs)"

definition cleanup :: "'f file_world \<Rightarrow> pystr \<Rightarrow> int \<Rightarrow> int \<Rightarrow> nat \<Rightarrow> keep_db \<Rightarrow> keep_db \<Rightarrow> 'f \<Rightarrow> (exn + nat \<times> nat) \<times> keep_db \<times> 'f" where
  "cleanup fw raw_dir now days batch before db fs =
     (if days \<le> 0 then (Inr (0, 0), db, fs)
      else (case clean_tables now days batch before db of
              (Inl e, db1) \<Rightarrow> (Inl e, db1, fs)
            | (Inr (prs, paths), db1) \<Rightarrow>
                (case each_file (drop_raw fw raw_dir) paths 0 fs of
                   (Inl e, fs1) \<Rightarrow> (Inl e, db1, fs1)
                 | (Inr n, fs1) \<Rightarrow>
                     (case sweep_orphans fw days db1 n fs1 of
                        (Inl e, fs2) \<Rightarrow> (Inl e, db1, fs2)
                      | (Inr files, fs2) \<Rightarrow> (Inr (prs, files), db1, fs2)))))"

section \<open>Raw files and context texts of kept reviews\<close>

definition clear_raw :: "'f file_world \<Rightarrow> pystr \<Rightarrow> rat \<Rightarrow> nat \<times> pystr \<Rightarrow> nat \<times> nat list \<Rightarrow> 'f \<Rightarrow> (exn + nat \<times> nat list) \<times> 'f" where
  "clear_raw fw raw_dir cutoff row a fs =
     (case confined fw fs raw_dir (snd row) of
        Inl e \<Rightarrow> (Inl e, fs)
      | Inr None \<Rightarrow> (Inr a, fs)
      | Inr (Some c) \<Rightarrow>
          (case ebind (fw_exists fw fs c) (\<lambda>there.
                  ebind (if there then ebind (fw_mtime fw fs c) (\<lambda>t. Inr (t < cutoff)) else Inr True) (\<lambda>old. Inr (there, old))) of
             Inl e \<Rightarrow> (quietly e a, fs)
           | Inr (there, False) \<Rightarrow> (Inr a, fs)
           | Inr (there, True) \<Rightarrow>
               (case fw_unlink fw True c fs of
                  Inl e \<Rightarrow> (quietly e a, fs)
                | Inr fs1 \<Rightarrow> (Inr (fst a + of_bool there, snd a @ [fst row]), fs1))))"

text \<open>Here the path is resolved before it is asked whether it is a file.\<close>

definition drop_unreferenced :: "'f file_world \<Rightarrow> pystr list list \<Rightarrow> rat \<Rightarrow> pystr list \<Rightarrow> nat \<Rightarrow> 'f \<Rightarrow> (exn + nat) \<times> 'f" where
  "drop_unreferenced fw referenced cutoff p n fs =
     (case fw_real fw fs p of
        Inl e \<Rightarrow> (quietly e n, fs)
      | Inr r \<Rightarrow> (case fw_is_file fw fs p of
                    Inl e \<Rightarrow> (quietly e n, fs)
                  | Inr there \<Rightarrow> if there \<and> r \<notin> set referenced then drop_old fw cutoff p n fs else (Inr n, fs)))"

definition raw_rows :: "keep_db \<Rightarrow> (nat \<times> pystr) list" where
  "raw_rows db = List.map_filter (\<lambda>v. map_option (Pair (vt_id v)) (vt_raw_path v)) (rows (db_results (k_runs db)))"

definition clear_raw_paths :: "nat list \<Rightarrow> keep_db \<Rightarrow> keep_db" where
  "clear_raw_paths ids db = db\<lparr>k_runs := update_results (\<lambda>v. vt_id v \<in> set ids) (\<lambda>v. v\<lparr>vt_raw_path := None\<rparr>) (k_runs db)\<rparr>"

definition cleanup_raw_diagnostics :: "'f file_world \<Rightarrow> pystr \<Rightarrow> int \<Rightarrow> keep_db \<Rightarrow> 'f \<Rightarrow> (exn + nat \<times> nat) \<times> keep_db \<times> 'f" where
  "cleanup_raw_diagnostics fw raw_dir days db fs =
     (case each_file (clear_raw fw raw_dir (raw_cutoff fw days)) (raw_rows db) (0, []) fs of
        (Inl e, fs1) \<Rightarrow> (Inl e, db, fs1)
      | (Inr (n, ids), fs1) \<Rightarrow>
          let db1 = clear_raw_paths ids db
          in (case emap (fw_resolve fw fs1) (kept_raw_paths db1) of
                Inl e \<Rightarrow> (Inl e, db1, fs1)
              | Inr referenced \<Rightarrow>
                  if \<not> fw_here fw fs1 then (Inr (n, length ids), db1, fs1)
                  else (case each_file (drop_unreferenced fw referenced (raw_cutoff fw days)) (fw_tree fw fs1) n fs1 of
                          (Inl e, fs2) \<Rightarrow> (Inl e, db1, fs2)
                        | (Inr files, fs2) \<Rightarrow> (Inr (files, length ids), db1, fs2))))"

definition payload_expired :: "int \<Rightarrow> int \<Rightarrow> review_run \<Rightarrow> bool" where
  "payload_expired now days r \<longleftrightarrow>
     run_status r \<noteq> Run_Running \<and> (case run_finished_at r of None \<Rightarrow> False | Some t \<Rightarrow> t < now - days * 86400) \<and>
     (run_context_text r \<noteq> None \<or> run_context_chunks r \<noteq> None)"

definition cleanup_context_payloads :: "int \<Rightarrow> int \<Rightarrow> run_db \<Rightarrow> nat \<times> run_db" where
  "cleanup_context_payloads now days db =
     (rowcount (payload_expired now days) (rows (db_runs db)),
      update_runs (payload_expired now days) (\<lambda>r. r\<lparr>run_context_text := None, run_context_chunks := None\<rparr>) db)"

section \<open>The transaction deletes the expired histories, whole\<close>

definition gone_runs :: "nat set \<Rightarrow> keep_db \<Rightarrow> nat set" where
  "gone_runs gone db = run_id ` {r \<in> set (rows (db_runs (k_runs db))). run_pr r \<in> gone}"

definition gone_findings :: "nat set \<Rightarrow> keep_db \<Rightarrow> nat set" where
  "gone_findings gone db = f_id ` {f \<in> set (findings (k_store db)). f_run f \<in> gone_runs gone db}"

abbreviation keep_rows :: "('r \<Rightarrow> bool) \<Rightarrow> 'r table \<Rightarrow> 'r table" where
  "keep_rows P t \<equiv> t\<lparr>rows := filter P (rows t)\<rparr>"

text \<open>The tables without the histories of some pull requests, every other row in its place.\<close>

definition without :: "nat set \<Rightarrow> keep_db \<Rightarrow> keep_db" where
  "without gone db =
     (let R = gone_runs gone db; F = gone_findings gone db; st = k_store db
      in \<lparr>k_runs = \<lparr>db_prs = keep_rows (\<lambda>p. pr_id p \<notin> gone) (db_prs (k_runs db)), db_runs = keep_rows (\<lambda>r. run_pr r \<notin> gone) (db_runs (k_runs db)),
                    db_results = keep_rows (\<lambda>v. vt_run v \<notin> R) (db_results (k_runs db))\<rparr>,
          k_store = \<lparr>findings = filter (\<lambda>f. f_run f \<notin> R) (findings st), next_finding = next_finding st,
                     decisions = filter (\<lambda>d. d_finding d \<notin> F) (decisions st), summaries = filter (\<lambda>s. s_run s \<notin> R) (summaries st)\<rparr>,
          k_jobs = keep_rows (\<lambda>j. j_pr j \<notin> gone) (k_jobs db), k_screens = keep_rows (\<lambda>s. sc_pr s \<notin> gone) (k_screens db),
          k_ops = filter (\<lambda>x. op_run x \<notin> R) (k_ops db), k_comments = filter (\<lambda>c. pc_run c \<notin> R) (k_comments db),
          k_posts = filter (\<lambda>p. sp_run p \<notin> R) (k_posts db), k_signals = filter (\<lambda>g. sg_run g \<notin> R) (k_signals db)\<rparr>)"

text \<open>
  Every reference has its row; what a finding and a job refer to belongs to the run and to the pull request they are of; the keys of the
  tables that others refer to are unique.
\<close>

definition owns_run :: "keep_db \<Rightarrow> nat \<Rightarrow> nat option \<Rightarrow> bool" where
  "owns_run db pid r = (case r of None \<Rightarrow> True | Some i \<Rightarrow> list_ex (\<lambda>x. run_id x = i \<and> run_pr x = pid) (rows (db_runs (k_runs db))))"

definition is_run :: "keep_db \<Rightarrow> nat \<Rightarrow> bool" where
  "is_run db i \<longleftrightarrow> i \<in> run_id ` set (rows (db_runs (k_runs db)))"

definition owns_result :: "keep_db \<Rightarrow> nat \<Rightarrow> nat option \<Rightarrow> bool" where
  "owns_result db rid v = (case v of None \<Rightarrow> True | Some i \<Rightarrow> list_ex (\<lambda>x. vt_id x = i \<and> vt_run x = rid) (rows (db_results (k_runs db))))"

definition linked_runs :: "keep_db \<Rightarrow> bool" where
  "linked_runs db \<longleftrightarrow>
     distinct (map run_id (rows (db_runs (k_runs db)))) \<and> distinct (map vt_id (rows (db_results (k_runs db)))) \<and>
     list_all (\<lambda>r. run_pr r \<in> pr_id ` set (rows (db_prs (k_runs db)))) (rows (db_runs (k_runs db))) \<and>
     list_all (\<lambda>s. sc_pr s \<in> pr_id ` set (rows (db_prs (k_runs db)))) (rows (k_screens db)) \<and>
     list_all (\<lambda>j. j_pr j \<in> pr_id ` set (rows (db_prs (k_runs db))) \<and> owns_run db (j_pr j) (j_run_id j) \<and>
                   owns_run db (j_pr j) (j_retry_run_id j)) (rows (k_jobs db))"

definition linked_store :: "keep_db \<Rightarrow> bool" where
  "linked_store db \<longleftrightarrow>
     distinct (map f_id (findings (k_store db))) \<and>
     list_all (\<lambda>d. d_finding d \<in> f_id ` set (findings (k_store db))) (decisions (k_store db)) \<and>
     list_all (\<lambda>f. is_run db (f_run f) \<and> owns_result db (f_run f) (f_vendor_result f)) (findings (k_store db)) \<and>
     list_all (\<lambda>s. is_run db (s_run s)) (summaries (k_store db)) \<and> list_all (\<lambda>v. is_run db (vt_run v)) (rows (db_results (k_runs db))) \<and>
     list_all (\<lambda>g. is_run db (sg_run g)) (k_signals db) \<and> list_all (\<lambda>p. is_run db (sp_run p)) (k_posts db) \<and>
     list_all (\<lambda>c. is_run db (pc_run c)) (k_comments db) \<and> list_all (\<lambda>x. is_run db (op_run x)) (k_ops db)"

definition linked :: "keep_db \<Rightarrow> bool" where
  "linked db \<longleftrightarrow> linked_runs db \<and> linked_store db"

subsection \<open>Deleting the findings of a run\<close>

lemma delete_finding_rows:
  assumes "distinct (map f_id (findings st))"
  shows "findings (delete_finding i st) = filter (\<lambda>f. f_id f \<noteq> i) (findings st)"
  by (auto simp: delete_finding_def get_finding_def sql_delete_def Let_def find_None_iff filter_id_conv split: option.splits)

lemma delete_finding_rest:
  "next_finding (delete_finding i st) = next_finding st \<and> decisions (delete_finding i st) = decisions st"
  by (simp add: delete_finding_def Let_def split: option.splits)

lemma filter_update_other:
  assumes "\<And>x. Q x \<Longrightarrow> \<not> P x" "\<And>x. Q x \<Longrightarrow> \<not> P (g x)"
  shows "filter P (sql_update Q g xs) = filter P xs"
  using assms by (induction xs) (simp_all add: sql_update_def)

lemma counted_out_run: "s_run (counted_out b f fs s) = s_run s"
  by (simp add: counted_out_def)

lemma count_out_other:
  assumes "f_run f \<in> R"
  shows "filter (\<lambda>s. s_run s \<notin> R) (count_out b f fs ss) = filter (\<lambda>s. s_run s \<notin> R) ss"
  unfolding count_out_def by (rule filter_update_other) (use assms in \<open>simp_all only: counted_out_run not_not\<close>)

lemma delete_finding_summaries:
  assumes "distinct (map f_id (findings st))" "f \<in> set (findings st)" "f_run f \<in> R"
  shows "filter (\<lambda>s. s_run s \<notin> R) (summaries (delete_finding (f_id f) st)) = filter (\<lambda>s. s_run s \<notin> R) (summaries st)"
proof -
  have "List.find (\<lambda>x. f_id x = f_id f) (findings st) = Some f"
    using finding_key.lookup_unique[of "findings st" f] assms(1,2) by (simp add: finding_key.lookup_def finding_key.unique_keys_def)
  then show ?thesis
    using assms(3) by (simp add: delete_finding_def get_finding_def Let_def trg_delete_def count_out_other)
qed

lemma delete_findings_fold:
  assumes "distinct (map f_id (findings st))" "distinct (map f_id xs)" "set xs \<subseteq> set (findings st)" "list_all (\<lambda>f. f_run f \<in> R) xs"
  shows "findings (fold delete_finding (map f_id xs) st) = filter (\<lambda>f. f_id f \<notin> f_id ` set xs) (findings st) \<and>
    next_finding (fold delete_finding (map f_id xs) st) = next_finding st \<and>
    decisions (fold delete_finding (map f_id xs) st) = decisions st \<and>
    filter (\<lambda>s. s_run s \<notin> R) (summaries (fold delete_finding (map f_id xs) st)) = filter (\<lambda>s. s_run s \<notin> R) (summaries st)"
  using assms
proof (induction xs arbitrary: st)
  case (Cons x xs)
  let ?st = "delete_finding (f_id x) st"
  have rows: "findings ?st = filter (\<lambda>f. f_id f \<noteq> f_id x) (findings st)" by (rule delete_finding_rows[OF Cons.prems(1)])
  have "distinct (map f_id (findings ?st))" using Cons.prems(1) by (simp add: rows distinct_map_filter_key)
  moreover have "set xs \<subseteq> set (findings ?st)" using Cons.prems(2,3) by (auto simp: rows image_iff)
  ultimately have IH: "findings (fold delete_finding (map f_id xs) ?st) = filter (\<lambda>f. f_id f \<notin> f_id ` set xs) (findings ?st) \<and>
    next_finding (fold delete_finding (map f_id xs) ?st) = next_finding ?st \<and>
    decisions (fold delete_finding (map f_id xs) ?st) = decisions ?st \<and>
    filter (\<lambda>s. s_run s \<notin> R) (summaries (fold delete_finding (map f_id xs) ?st)) = filter (\<lambda>s. s_run s \<notin> R) (summaries ?st)"
    using Cons.IH[of ?st] Cons.prems(2,4) by simp
  have "filter (\<lambda>s. s_run s \<notin> R) (summaries ?st) = filter (\<lambda>s. s_run s \<notin> R) (summaries st)"
    by (rule delete_finding_summaries) (use Cons.prems in auto)
  with IH show ?case by (auto simp: rows delete_finding_rest intro!: filter_cong)
qed simp

lemma store_without:
  assumes "distinct (map f_id (findings st))" "F = f_id ` {f \<in> set (findings st). f_run f \<in> R}"
  shows "(let st1 = fold delete_finding (map f_id (filter (\<lambda>f. f_run f \<in> R) (findings st))) (st\<lparr>decisions := ds\<rparr>)
          in st1\<lparr>summaries := sql_delete (\<lambda>s. s_run s \<in> R) (summaries st1)\<rparr>) =
    \<lparr>findings = filter (\<lambda>f. f_run f \<notin> R) (findings st), next_finding = next_finding st, decisions = ds,
     summaries = filter (\<lambda>s. s_run s \<notin> R) (summaries st)\<rparr>"
proof -
  let ?xs = "filter (\<lambda>f. f_run f \<in> R) (findings st)"
  let ?st1 = "fold delete_finding (map f_id ?xs) (st\<lparr>decisions := ds\<rparr>)"
  have out: "findings ?st1 = filter (\<lambda>f. f_id f \<notin> f_id ` set ?xs) (findings st) \<and> next_finding ?st1 = next_finding st \<and>
    decisions ?st1 = ds \<and> filter (\<lambda>s. s_run s \<notin> R) (summaries ?st1) = filter (\<lambda>s. s_run s \<notin> R) (summaries st)"
    using delete_findings_fold[of "st\<lparr>decisions := ds\<rparr>" ?xs R] assms(1) by (simp add: distinct_map_filter_key list_all_iff)
  have same: "f_id f \<in> f_id ` set ?xs \<longleftrightarrow> f_run f \<in> R" if "f \<in> set (findings st)" for f
    using assms(1) that by (auto simp: distinct_map inj_on_def)
  have "filter (\<lambda>f. f_id f \<notin> f_id ` set ?xs) (findings st) = filter (\<lambda>f. f_run f \<notin> R) (findings st)"
    by (rule filter_cong[OF refl]) (use same in blast)
  with out show ?thesis by (simp add: Let_def sql_delete_def)
qed

subsection \<open>One pull request\<close>

definition purged_store :: "nat list \<Rightarrow> keep_db \<Rightarrow> finding_store" where
  "purged_store ids db =
     (let st = k_store db; gone = map f_id (filter (\<lambda>f. f_run f \<in> set ids) (findings st))
      in fold delete_finding gone (st\<lparr>decisions := sql_delete (\<lambda>d. d_finding d \<in> set gone) (decisions st)\<rparr>))"

definition purged :: "nat list \<Rightarrow> keep_db \<Rightarrow> keep_db" where
  "purged ids db = (delete_traces ids db)\<lparr>k_store := purged_store ids db,
     k_runs := (k_runs db)\<lparr>db_results := keep_rows (\<lambda>v. vt_run v \<notin> set ids) (db_results (k_runs db))\<rparr>\<rparr>"

lemma linkedD:
  assumes "linked db"
  shows "distinct (map f_id (findings (k_store db)))" "distinct (map run_id (rows (db_runs (k_runs db))))"
    "distinct (map vt_id (rows (db_results (k_runs db))))"
  using assms by (simp_all add: linked_def linked_runs_def linked_store_def)

lemma purged_store_parts:
  assumes "distinct (map f_id (findings (k_store db)))"
  shows "findings (purged_store ids db) = filter (\<lambda>f. f_run f \<notin> set ids) (findings (k_store db))"
    and "(purged_store ids db)\<lparr>summaries := sql_delete (\<lambda>s. s_run s \<in> set ids) (summaries (purged_store ids db))\<rparr> =
      \<lparr>findings = filter (\<lambda>f. f_run f \<notin> set ids) (findings (k_store db)), next_finding = next_finding (k_store db),
       decisions = filter (\<lambda>d. d_finding d \<notin> f_id ` {f \<in> set (findings (k_store db)). f_run f \<in> set ids}) (decisions (k_store db)),
       summaries = filter (\<lambda>s. s_run s \<notin> set ids) (summaries (k_store db))\<rparr>"
proof -
  show whole: "(purged_store ids db)\<lparr>summaries := sql_delete (\<lambda>s. s_run s \<in> set ids) (summaries (purged_store ids db))\<rparr> =
      \<lparr>findings = filter (\<lambda>f. f_run f \<notin> set ids) (findings (k_store db)), next_finding = next_finding (k_store db),
       decisions = filter (\<lambda>d. d_finding d \<notin> f_id ` {f \<in> set (findings (k_store db)). f_run f \<in> set ids}) (decisions (k_store db)),
       summaries = filter (\<lambda>s. s_run s \<notin> set ids) (summaries (k_store db))\<rparr>"
    using store_without[OF assms refl, of "set ids"] by (simp add: purged_store_def Let_def sql_delete_def)
  show "findings (purged_store ids db) = filter (\<lambda>f. f_run f \<notin> set ids) (findings (k_store db))"
    using arg_cong[OF whole, of findings] by simp
qed

lemma results_unreferenced:
  assumes "linked db" "f \<in> set (findings (k_store db))" "f_run f \<notin> R" "f_vendor_result f = Some i"
  shows "i \<notin> vt_id ` {v \<in> set (rows (db_results (k_runs db))). vt_run v \<in> R}"
proof
  assume "i \<in> vt_id ` {v \<in> set (rows (db_results (k_runs db))). vt_run v \<in> R}"
  then obtain v where v: "v \<in> set (rows (db_results (k_runs db)))" "vt_run v \<in> R" "vt_id v = i" by auto
  have "owns_result db (f_run f) (Some i)" using assms(1,2,4) by (auto simp: linked_def linked_store_def list_all_iff)
  then obtain w where w: "w \<in> set (rows (db_results (k_runs db)))" "vt_id w = i" "vt_run w = f_run f"
    by (auto simp: owns_result_def list_ex_iff)
  have "v = w" using linkedD(3)[OF assms(1)] v(1,3) w(1,2) by (auto simp: distinct_map inj_on_def)
  with v w assms(3) show False by simp
qed

lemma purge_runs_eq:
  assumes "linked db"
  shows "purge_runs ids db = Inr (purged ids db)"
proof (cases "ids = []")
  case True
  then show ?thesis
    by (cases db; cases "k_store db"; cases "k_runs db") (simp add: purge_runs_def purged_def purged_store_def delete_traces_def sql_delete_def)
next
  case False
  let ?gone = "map f_id (filter (\<lambda>f. f_run f \<in> set ids) (findings (k_store db)))"
  let ?db1 = "(delete_traces ids db)\<lparr>k_store := purged_store ids db\<rparr>"
  have one: "delete_run_findings ids (delete_traces ids (delete_decisions ids db)) = Inr ?db1"
    by (simp add: delete_run_findings_def delete_traces_def delete_decisions_def Let_def checked_def purged_store_def list_ex_iff)
  have "\<not> list_ex (\<lambda>f. f_vendor_result f \<in> Some ` set (map vt_id (filter (\<lambda>v. vt_run v \<in> set ids) (rows (db_results (k_runs db))))))
      (findings (purged_store ids db))"
    using results_unreferenced[OF assms, of _ "set ids"]
    by (auto simp: list_ex_iff purged_store_parts(1)[OF linkedD(1)[OF assms]])
  then have two: "delete_run_results ids ?db1 = Inr (purged ids db)"
    by (simp add: delete_run_results_def delete_traces_def Let_def checked_def purged_def sql_delete_def)
  from False one two show ?thesis by (simp add: purge_runs_def)
qed

lemma job_refs_own:
  assumes "linked db" "j \<in> set (rows (k_jobs db))" "j_pr j \<notin> gone" "j_run_id j = Some i \<or> j_retry_run_id j = Some i"
  shows "i \<notin> gone_runs gone db"
proof
  assume "i \<in> gone_runs gone db"
  then obtain r where r: "r \<in> set (rows (db_runs (k_runs db)))" "run_pr r \<in> gone" "run_id r = i" by (auto simp: gone_runs_def)
  have "owns_run db (j_pr j) (Some i)" using assms(1,2,4) by (auto simp: linked_def linked_runs_def list_all_iff)
  then obtain q where q: "q \<in> set (rows (db_runs (k_runs db)))" "run_id q = i" "run_pr q = j_pr j"
    by (auto simp: owns_run_def list_ex_iff)
  have "q = r" using linkedD(2)[OF assms(1)] q(1,2) r(1,3) by (auto simp: distinct_map inj_on_def)
  with q r assms(3) show False by simp
qed

lemma runs_of_pr_gone: "set (runs_of_pr pid db) = gone_runs {pid} db"
  by (auto simp: runs_of_pr_def gone_runs_def)

lemma remove_pr_without:
  assumes "linked db"
  shows "remove_pr pid db = Inr (without {pid} db)"
proof -
  let ?ids = "runs_of_pr pid db"
  let ?db1 = "delete_pr_jobs pid (purged ?ids db)"
  note store = purged_store_parts[OF linkedD(1)[OF assms], of ?ids]
  have ids: "runs_of_pr pid ?db1 = ?ids" by (simp add: runs_of_pr_def delete_pr_jobs_def purged_def delete_traces_def)
  have "\<not> run_referenced (set ?ids) ?db1"
    using job_refs_own[OF assms, of _ "{pid}"]
    by (auto simp: run_referenced_def delete_pr_jobs_def purged_def delete_traces_def list_ex_iff store(1) runs_of_pr_gone)
  then have two: "delete_pr_runs pid ?db1 =
      Inr (?db1\<lparr>k_runs := (k_runs ?db1)\<lparr>db_runs := keep_rows (\<lambda>r. run_pr r \<noteq> pid) (db_runs (k_runs db))\<rparr>,
                k_store := (purged_store ?ids db)\<lparr>summaries := sql_delete (\<lambda>s. s_run s \<in> set ?ids) (summaries (purged_store ?ids db))\<rparr>\<rparr>)"
    by (simp add: delete_pr_runs_def ids checked_def Let_def) (simp add: delete_pr_jobs_def purged_def delete_traces_def sql_delete_def)
  show ?thesis
    unfolding remove_pr_def purge_runs_eq[OF assms] ebind_simps two store(2)
    by (simp add: delete_pr_row_def checked_def Let_def list_ex_iff delete_pr_screens_def delete_pr_jobs_def purged_def delete_traces_def
        without_def sql_delete_def runs_of_pr_gone gone_findings_def)
qed

subsection \<open>All of them\<close>

lemma without_parts:
  "db_prs (k_runs (without gone db)) = keep_rows (\<lambda>p. pr_id p \<notin> gone) (db_prs (k_runs db))"
  "db_runs (k_runs (without gone db)) = keep_rows (\<lambda>r. run_pr r \<notin> gone) (db_runs (k_runs db))"
  "db_results (k_runs (without gone db)) = keep_rows (\<lambda>v. vt_run v \<notin> gone_runs gone db) (db_results (k_runs db))"
  "findings (k_store (without gone db)) = filter (\<lambda>f. f_run f \<notin> gone_runs gone db) (findings (k_store db))"
  "decisions (k_store (without gone db)) = filter (\<lambda>d. d_finding d \<notin> gone_findings gone db) (decisions (k_store db))"
  "summaries (k_store (without gone db)) = filter (\<lambda>s. s_run s \<notin> gone_runs gone db) (summaries (k_store db))"
  "k_jobs (without gone db) = keep_rows (\<lambda>j. j_pr j \<notin> gone) (k_jobs db)"
  "k_screens (without gone db) = keep_rows (\<lambda>s. sc_pr s \<notin> gone) (k_screens db)"
  "k_ops (without gone db) = filter (\<lambda>x. op_run x \<notin> gone_runs gone db) (k_ops db)"
  "k_comments (without gone db) = filter (\<lambda>c. pc_run c \<notin> gone_runs gone db) (k_comments db)"
  "k_posts (without gone db) = filter (\<lambda>p. sp_run p \<notin> gone_runs gone db) (k_posts db)"
  "k_signals (without gone db) = filter (\<lambda>g. sg_run g \<notin> gone_runs gone db) (k_signals db)"
  by (simp_all add: without_def Let_def)

lemma distinct_map_sorted: "distinct (map f xs) \<Longrightarrow> distinct (map f (take n (sort_key g xs)))"
  by (simp add: take_map[symmetric] distinct_map distinct_sort)

lemma is_run_without: "is_run db i \<Longrightarrow> i \<notin> gone_runs gone db \<Longrightarrow> is_run (without gone db) i"
  by (auto simp: is_run_def without_parts gone_runs_def image_iff)

lemma owns_run_without: "pid \<notin> gone \<Longrightarrow> owns_run db pid r \<Longrightarrow> owns_run (without gone db) pid r"
  by (auto simp: owns_run_def without_parts list_ex_iff split: option.splits)

lemma owns_result_without: "rid \<notin> gone_runs gone db \<Longrightarrow> owns_result db rid v \<Longrightarrow> owns_result (without gone db) rid v"
  by (auto simp: owns_result_def without_parts list_ex_iff split: option.splits)

lemma pr_without: "i \<in> pr_id ` set (rows (db_prs (k_runs db))) \<Longrightarrow> i \<notin> gone \<Longrightarrow> i \<in> pr_id ` set (rows (db_prs (k_runs (without gone db))))"
  by (auto simp: without_parts)

lemma finding_without:
  "i \<in> f_id ` set (findings (k_store db)) \<Longrightarrow> i \<notin> gone_findings gone db \<Longrightarrow> i \<in> f_id ` {x \<in> set (findings (k_store db)). f_run x \<notin> gone_runs gone db}"
  by (auto simp: gone_findings_def)

lemma linked_without:
  assumes "linked db"
  shows "linked (without gone db)"
proof -
  have "linked_runs (without gone db)"
    using assms unfolding linked_def linked_runs_def
    by (auto simp: without_parts(2,3,7,8) distinct_map_filter_key list_all_iff owns_run_without intro!: pr_without)
  moreover have "linked_store (without gone db)"
    using assms unfolding linked_def linked_store_def
    by (auto simp: without_parts(3-6,9-12) distinct_map_filter_key list_all_iff is_run_without owns_result_without intro!: finding_without)
  ultimately show ?thesis by (simp add: linked_def)
qed

lemma eligible_without: "pid \<notin> gone \<Longrightarrow> eligible now days pid (without gone db) = eligible now days pid db"
  by (auto simp: eligible_def expired_def without_parts list_ex_iff)

lemma gone_runs_step: "gone_runs {pid} db \<union> gone_runs gone (without {pid} db) = gone_runs (insert pid gone) db"
  by (auto simp: gone_runs_def without_parts)

lemma gone_findings_step: "gone_findings {pid} db \<union> gone_findings gone (without {pid} db) = gone_findings (insert pid gone) db"
  unfolding gone_findings_def gone_runs_step[of pid db gone, symmetric] by (auto simp: without_parts)

lemma keep_keep: "keep_rows P (keep_rows Q t) = keep_rows (\<lambda>x. Q x \<and> P x) t"
  by simp

lemma without_step: "without gone (without {pid} db) = without (insert pid gone) db"
proof -
  have runs: "i \<notin> gone_runs {pid} db \<and> i \<notin> gone_runs gone (without {pid} db) \<longleftrightarrow> i \<notin> gone_runs (insert pid gone) db" for i
    unfolding gone_runs_step[of pid db gone, symmetric] by simp
  have finds: "i \<notin> gone_findings {pid} db \<and> i \<notin> gone_findings gone (without {pid} db) \<longleftrightarrow> i \<notin> gone_findings (insert pid gone) db" for i
    unfolding gone_findings_step[of pid db gone, symmetric] by simp
  have ids: "i \<notin> {pid} \<and> i \<notin> gone \<longleftrightarrow> i \<notin> insert pid gone" for i by simp
  have counter: "next_finding (k_store (without {pid} db)) = next_finding (k_store db)" by (simp add: without_def Let_def)
  show ?thesis
    unfolding without_def[of gone "without {pid} db"] Let_def without_parts keep_keep filter_filter runs finds ids counter
    by (simp add: without_def Let_def)
qed

lemma runs_apart:
  assumes "linked db" "p \<noteq> q"
  shows "gone_runs {p} db \<inter> gone_runs {q} db = {}"
  using linkedD(2)[OF assms(1)] assms(2) by (auto simp: gone_runs_def distinct_map inj_on_def)

lemma raw_paths_without:
  assumes "linked db" "p \<noteq> q"
  shows "raw_paths_of (runs_of_pr q (without {p} db)) (without {p} db) = raw_paths_of (runs_of_pr q db) db"
proof -
  have ids: "runs_of_pr q (without {p} db) = runs_of_pr q db"
    using assms(2) by (auto simp: runs_of_pr_def without_parts intro!: arg_cong[of _ _ "map run_id"] filter_cong)
  have results: "filter (\<lambda>v. vt_run v \<notin> gone_runs {p} db \<and> vt_run v \<in> gone_runs {q} db) vs = filter (\<lambda>v. vt_run v \<in> gone_runs {q} db) vs" for vs
    by (rule filter_cong[OF refl]) (use runs_apart[OF assms] in auto)
  show ?thesis by (simp add: raw_paths_of_def ids runs_of_pr_gone without_parts results)
qed

lemma remove_prs_all:
  assumes "linked db" "distinct ps"
  shows "remove_prs now days ps (n, paths, db) =
    (let gone = filter (\<lambda>p. eligible now days p db) ps
     in Inr (n + length gone, paths @ concat (map (\<lambda>p. raw_paths_of (runs_of_pr p db) db) gone), without (set gone) db))"
  using assms
proof (induction ps arbitrary: n paths db)
  case Nil
  have "without {} db = db"
    by (cases db; cases "k_store db"; cases "k_runs db") (simp add: without_def Let_def gone_runs_def gone_findings_def)
  then show ?case by simp
next
  case (Cons p ps)
  show ?case
  proof (cases "eligible now days p db")
    case True
    let ?db = "without {p} db"
    have apart: "distinct ps" using Cons.prems(2) by simp
    have fresh: "q \<noteq> p" if "q \<in> set ps" for q using Cons.prems(2) that by auto
    have same: "filter (\<lambda>q. eligible now days q ?db) ps = filter (\<lambda>q. eligible now days q db) ps"
      by (rule filter_cong[OF refl]) (use fresh in \<open>simp add: eligible_without\<close>)
    have paths: "map (\<lambda>q. raw_paths_of (runs_of_pr q ?db) ?db) (filter (\<lambda>q. eligible now days q db) ps) =
        map (\<lambda>q. raw_paths_of (runs_of_pr q db) db) (filter (\<lambda>q. eligible now days q db) ps)"
      by (rule map_cong[OF refl]) (use fresh in \<open>auto intro!: raw_paths_without[OF Cons.prems(1)]\<close>)
    have "remove_prs now days ps (Suc n, paths @ raw_paths_of (runs_of_pr p db) db, ?db) =
      Inr (Suc n + length (filter (\<lambda>q. eligible now days q db) ps),
        (paths @ raw_paths_of (runs_of_pr p db) db) @ concat (map (\<lambda>q. raw_paths_of (runs_of_pr q db) db) (filter (\<lambda>q. eligible now days q db) ps)),
        without (set (filter (\<lambda>q. eligible now days q db) ps)) ?db)"
      unfolding Cons.IH[OF linked_without[OF Cons.prems(1)] apart] Let_def same paths by simp
    with True show ?thesis by (simp add: remove_pr_without[OF Cons.prems(1)] without_step)
  qed (use Cons in simp)
qed

text \<open>
  C10: in linked tables the transaction never fails: it deletes whole histories, of exactly those candidates that are still closed, old and
  without work when the lock is held, and every other row stays as it was; the tables are linked afterwards.
\<close>

theorem cleanup_deletes_whole_histories:
  assumes "linked db" "distinct (map pr_id (rows (db_prs (k_runs before))))"
  shows "clean_tables now days batch before db =
    (let gone = filter (\<lambda>p. eligible now days p db) (candidates now days batch before)
     in (Inr (length gone, concat (map (\<lambda>p. raw_paths_of (runs_of_pr p db) db) gone)), without (set gone) db)) \<and>
    linked (snd (clean_tables now days batch before db))"
proof -
  have "distinct (candidates now days batch before)"
    using assms(2) by (simp add: candidates_def distinct_map_sorted distinct_map_filter_key)
  then have eq: "clean_tables now days batch before db =
    (let gone = filter (\<lambda>p. eligible now days p db) (candidates now days batch before)
     in (Inr (length gone, concat (map (\<lambda>p. raw_paths_of (runs_of_pr p db) db) gone)), without (set gone) db))"
    using remove_prs_all[OF assms(1), of "candidates now days batch before" now days 0 "[]"] by (simp add: clean_tables_def Let_def)
  then show ?thesis by (simp add: Let_def linked_without[OF assms(1)])
qed

subsection \<open>A small database\<close>

definition sample_kept_pr :: "nat \<Rightarrow> int \<Rightarrow> string \<Rightarrow> pull_request" where
  "sample_kept_pr i upd state =
     (new_pr 1 (int i) [] [] [] [] [] [] (U state) [] [] None False)\<lparr>pr_id := i, pr_updated_at := upd\<rparr>"

definition sample_kept_run :: "nat \<Rightarrow> nat \<Rightarrow> review_run" where
  "sample_kept_run i pid =
     \<lparr>run_id = i, run_pr = pid, run_head_sha = [], run_base_sha = None, run_trigger = Trigger_Auto, run_effort = None, run_merge = True,
      run_status = Run_Done, run_started_at = 0, run_finished_at = Some 5, run_error = None, run_owner = None, run_owner_job = None,
      run_policy = no_policy, run_context_text = None, run_context_meta = None, run_context_chunks = None\<rparr>"

definition sample_kept_result :: "nat \<Rightarrow> nat \<Rightarrow> string \<Rightarrow> vendor_result" where
  "sample_kept_result i rid path =
     \<lparr>vt_id = i, vt_run = rid, vt_vendor = U ''claude'', vt_status = None, vt_duration = None, vt_raw_path = Some (U path),
      vt_error = None, vt_meta = None, vt_started_at = 0\<rparr>"

text \<open>Two closed pull requests, one of them old, with a run each.\<close>

definition sample_keep :: keep_db where
  "sample_keep =
     \<lparr>k_runs = \<lparr>db_prs = \<lparr>rows = [sample_kept_pr 1 10 ''closed'', sample_kept_pr 2 950000 ''closed''], next_id = 3\<rparr>,
                db_runs = \<lparr>rows = [sample_kept_run 4 1, sample_kept_run 5 2], next_id = 6\<rparr>,
                db_results = \<lparr>rows = [sample_kept_result 6 4 ''raw/a'', sample_kept_result 7 5 ''raw/b''], next_id = 8\<rparr>\<rparr>,
      k_store = \<lparr>findings = [], next_finding = 1, decisions = [], summaries = []\<rparr>, k_jobs = \<lparr>rows = [], next_id = 1\<rparr>,
      k_screens = \<lparr>rows = [], next_id = 1\<rparr>, k_ops = [], k_comments = [],
      k_posts = [\<lparr>sp_run = 4, sp_channel = U ''C'', sp_ts = U ''1''\<rparr>, \<lparr>sp_run = 5, sp_channel = U ''C'', sp_ts = U ''2''\<rparr>], k_signals = []\<rparr>"

lemma sample_keep_linked: "linked sample_keep"
  by code_simp

lemma cleanup_histories_witness:
  "linked (snd (clean_tables 1000000 1 100 sample_keep sample_keep)) \<and>
   map pr_id (rows (db_prs (k_runs (snd (clean_tables 1000000 1 100 sample_keep sample_keep))))) = [2] \<and>
   map sp_run (k_posts (snd (clean_tables 1000000 1 100 sample_keep sample_keep))) = [5]"
proof (intro conjI)
  have "distinct (map pr_id (rows (db_prs (k_runs sample_keep))))" by code_simp
  then show "linked (snd (clean_tables 1000000 1 100 sample_keep sample_keep))"
    using cleanup_deletes_whole_histories[OF sample_keep_linked, where before = sample_keep] by blast
  show "map pr_id (rows (db_prs (k_runs (snd (clean_tables 1000000 1 100 sample_keep sample_keep))))) = [2]" by code_simp
  show "map sp_run (k_posts (snd (clean_tables 1000000 1 100 sample_keep sample_keep))) = [5]" by code_simp
qed

section \<open>Only files of the raw directory are deleted\<close>

definition inside :: "'f file_world \<Rightarrow> pystr \<Rightarrow> pystr list \<Rightarrow> bool" where
  "inside fw raw_dir p \<longleftrightarrow>
     (\<exists>fs b. fw_resolve fw fs raw_dir = Inr b \<and> take (length b) p = b) \<or> (\<exists>fs. p \<in> set (fw_tree fw fs))"

definition deletions_keep :: "'f file_world \<Rightarrow> pystr \<Rightarrow> ('f \<Rightarrow> bool) \<Rightarrow> bool" where
  "deletions_keep fw raw_dir I \<longleftrightarrow>
     (\<forall>p b fs fs1. I fs \<longrightarrow> inside fw raw_dir p \<longrightarrow> fw_unlink fw b p fs = Inr fs1 \<longrightarrow> I fs1)"

lemma deletions_keepD: "deletions_keep fw raw_dir I \<Longrightarrow> I fs \<Longrightarrow> inside fw raw_dir p \<Longrightarrow> fw_unlink fw b p fs = Inr fs1 \<Longrightarrow> I fs1"
  by (auto simp: deletions_keep_def)

lemma each_file_keeps:
  assumes "\<And>x a fs. x \<in> set xs \<Longrightarrow> I fs \<Longrightarrow> I (snd (step x a fs))" "I fs"
  shows "I (snd (each_file step xs a fs))"
  using assms
proof (induction xs arbitrary: a fs)
  case (Cons x xs)
  have "I (snd (step x a fs))" using Cons.prems by simp
  then show ?case using Cons.IH Cons.prems(1) by (auto split: prod.splits sum.splits)
qed simp

lemma confined_inside: "confined fw fs raw_dir path = Inr (Some c) \<Longrightarrow> inside fw raw_dir c"
  by (auto simp: confined_def unresolved_def inside_def split: sum.splits if_splits)

lemma drop_raw_keeps:
  assumes "deletions_keep fw raw_dir I" "I fs"
  shows "I (snd (drop_raw fw raw_dir path n fs))"
  using assms(2) by (auto simp: drop_raw_def split: sum.splits option.splits dest: confined_inside intro: deletions_keepD[OF assms(1)])

lemma drop_old_keeps:
  assumes "deletions_keep fw raw_dir I" "I fs" "inside fw raw_dir p"
  shows "I (snd (drop_old fw cutoff p n fs))"
  using assms(2,3) by (auto simp: drop_old_def split: sum.splits intro: deletions_keepD[OF assms(1)])

lemma sweep_keeps:
  assumes "deletions_keep fw raw_dir I" "I fs" "inside fw raw_dir p"
  shows "I (snd (drop_orphan fw refs cutoff p n fs))" "I (snd (drop_unreferenced fw refs cutoff p n fs))"
  using assms(2) drop_old_keeps[OF assms]
  by (auto simp: drop_orphan_def drop_unreferenced_def split: sum.splits bool.splits)

lemma clear_raw_keeps:
  assumes "deletions_keep fw raw_dir I" "I fs"
  shows "I (snd (clear_raw fw raw_dir cutoff row a fs))"
  using assms(2) by (auto simp: clear_raw_def split: sum.splits option.splits bool.splits dest: confined_inside intro: deletions_keepD[OF assms(1)])

lemma listed_inside: "p \<in> set (fw_tree fw fs) \<Longrightarrow> inside fw raw_dir p"
  by (auto simp: inside_def)

lemma sweep_orphans_keeps:
  assumes "deletions_keep fw raw_dir I" "I fs"
  shows "I (snd (sweep_orphans fw days db n fs))"
proof -
  have "I (snd (each_file (drop_orphan fw refs (raw_cutoff fw days)) (fw_tree fw fs) n fs))" for refs
    by (rule each_file_keeps[where I = I, OF _ assms(2)]) (rule sweep_keeps(1)[OF assms(1)], auto intro: listed_inside)
  then show ?thesis using assms(2) by (auto simp: sweep_orphans_def split: sum.splits)
qed

lemma cleanup_keeps:
  assumes "deletions_keep fw raw_dir I" "I fs"
  shows "I (snd (snd (cleanup fw raw_dir now days batch before db fs)))"
proof -
  have raw: "I (snd (each_file (drop_raw fw raw_dir) paths 0 fs))" for paths
    by (rule each_file_keeps[where I = I, OF _ assms(2)]) (rule drop_raw_keeps[OF assms(1)])
  show ?thesis
  proof (cases "days \<le> 0 \<or> (\<exists>e. fst (clean_tables now days batch before db) = Inl e)")
    case False
    then obtain n paths db1 where tables: "clean_tables now days batch before db = (Inr (n, paths), db1)"
      by (cases "clean_tables now days batch before db") (auto simp: sum.split_sel, metis sum.exhaust prod.exhaust)
    obtain r fs1 where files: "each_file (drop_raw fw raw_dir) paths 0 fs = (r, fs1)" by fastforce
    have "I fs1" using raw[of paths] files by simp
    moreover from this have "I (snd (sweep_orphans fw days db1 k fs1))" for k by (rule sweep_orphans_keeps[OF assms(1)])
    ultimately show ?thesis using False tables files by (auto simp: cleanup_def split: sum.splits prod.splits) (metis snd_conv)+
  qed (use assms(2) in \<open>auto simp: cleanup_def split: prod.splits\<close>)
qed

lemma cleanup_raw_diagnostics_keeps:
  assumes "deletions_keep fw raw_dir I" "I fs"
  shows "I (snd (snd (cleanup_raw_diagnostics fw raw_dir days db fs)))"
proof -
  obtain r fs1 where files: "each_file (clear_raw fw raw_dir (raw_cutoff fw days)) (raw_rows db) (0, []) fs = (r, fs1)" by fastforce
  have here: "I fs1"
    using each_file_keeps[where I = I and step = "clear_raw fw raw_dir (raw_cutoff fw days)", OF clear_raw_keeps[OF assms(1)] assms(2),
        of "raw_rows db" "(0, [])"] files by simp
  have "I (snd (each_file (drop_unreferenced fw refs (raw_cutoff fw days)) (fw_tree fw fs1) n fs1))" for refs n
    by (rule each_file_keeps[where I = I, OF _ here]) (rule sweep_keeps(2)[OF assms(1)], auto intro: listed_inside)
  then show ?thesis using here files
    by (auto simp: cleanup_raw_diagnostics_def Let_def split: sum.splits prod.splits) (metis snd_conv)+
qed

text \<open>
  C40: the two clean-ups delete no file outside the raw directory, whatever paths the vendor results hold: what every deletion inside the
  directory keeps of the files is kept.
\<close>

theorem cleanup_stays_inside:
  assumes "deletions_keep fw raw_dir I" "I fs"
  shows "I (snd (snd (cleanup fw raw_dir now days batch before db fs))) \<and> I (snd (snd (cleanup_raw_diagnostics fw raw_dir days db fs)))"
  by (rule conjI[OF cleanup_keeps[OF assms] cleanup_raw_diagnostics_keeps[OF assms]])

definition sample_files :: "pystr list list" where
  "sample_files = [[U ''raw'', U ''a''], [U ''raw'', U ''b''], [U ''home'', U ''a'']]"

definition sample_file_world :: "pystr list list file_world" where
  "sample_file_world =
     \<lparr>fw_resolve = (\<lambda>fs p. Inr (split_on 47 p)), fw_real = (\<lambda>fs. Inr), fw_exists = (\<lambda>fs p. Inr (p \<in> set fs)),
      fw_is_file = (\<lambda>fs p. Inr True), fw_mtime = (\<lambda>fs p. Inr 0), fw_unlink = (\<lambda>b p fs. Inr (removeAll p fs)),
      fw_here = (\<lambda>fs. True), fw_tree = filter (\<lambda>p. take 1 p = [U ''raw'']), fw_clock = 1000000\<rparr>"

lemma cleanup_stays_witness:
  "[U ''home'', U ''a''] \<in> set (snd (snd (cleanup sample_file_world (U ''raw'') 1000000 1 100 sample_keep sample_keep sample_files))) \<and>
   snd (snd (cleanup sample_file_world (U ''raw'') 1000000 1 100 sample_keep sample_keep sample_files)) =
     [[U ''raw'', U ''b''], [U ''home'', U ''a'']]"
proof
  let ?I = "\<lambda>fs. [U ''home'', U ''a''] \<in> set fs"
  have root: "split_on 47 (U ''raw'') = [U ''raw'']" by code_simp
  have "\<not> inside sample_file_world (U ''raw'') [U ''home'', U ''a'']"
    using root by (simp add: inside_def sample_file_world_def U_eq_iff)
  then have keep: "deletions_keep sample_file_world (U ''raw'') ?I"
    unfolding deletions_keep_def by (auto simp: sample_file_world_def)
  have "?I sample_files" by (simp add: sample_files_def)
  then show "?I (snd (snd (cleanup sample_file_world (U ''raw'') 1000000 1 100 sample_keep sample_keep sample_files)))"
    using cleanup_stays_inside[OF keep] by blast
qed code_simp

end
