(* ===== verification/Attestation.thy ===== *)
theory Attestation
  imports Pagination
begin

text \<open>
  The evidence that unlocks enforcement (\<open>src/server/review/benchmark_attestation.py\<close>, \<open>src/server/review/rollout.py\<close>, the metrics of
  \<open>src/scripts/review_benchmark_common.py\<close>): a pinned benchmark report is read, its metrics are computed again, and it is bound to the clean
  commit that is checked out and to the identity of the run.  A float is the rational number it stands for; an operation rounds the exact
  result by \<open>rnd\<close>, and \<open>root\<close> is the square root (counts beyond the floats are left out).  Files, git, JSON, the schema, the hash and
  ISO dates are arguments.
\<close>

section \<open>Metrics\<close>

record float_unit =
  rnd :: "rat \<Rightarrow> rat"
  root_of :: "rat \<Rightarrow> rat"

definition benchmark_error :: exn where
  "benchmark_error = OtherError (U ''BenchmarkError'') []"

definition WILSON_Z_95 :: rat where
  "WILSON_Z_95 = 1959963984540054 / 1000000000000000"

definition wilson_95_lower_bound :: "float_unit \<Rightarrow> int \<Rightarrow> int \<Rightarrow> exn + rat" where
  "wilson_95_lower_bound fl n d =
     (let r = rnd fl; num = (\<lambda>i. r (of_int i)); z = r WILSON_Z_95; point = r (of_int n / of_int d); z2 = r (z * z)
      in if d < 0 \<or> n < 0 \<or> n > d then Inl benchmark_error
         else if d = 0 then Inr 0
         else let centre = r (point + r (z2 / num (2 * d)));
                  spread = r (z * root_of fl (r (r (r (point * r (1 - point)) / num d) + r (z2 / num (4 * d * d)))))
              in Inr (r (r (centre - spread) / r (1 + r (z2 / num d)))))"

definition MOST_OBSERVATIONS :: int where
  "MOST_OBSERVATIONS = 10000000"

function shortfall_from :: "float_unit \<Rightarrow> int \<Rightarrow> int \<Rightarrow> rat \<Rightarrow> int \<Rightarrow> exn + int" where
  "shortfall_from fl n d low obs =
     (if obs > MOST_OBSERVATIONS then Inr MOST_OBSERVATIONS
      else (case wilson_95_lower_bound fl (n + obs - d) obs of
              Inl e \<Rightarrow> Inl e
            | Inr w \<Rightarrow> if w \<ge> low then Inr (obs - d) else shortfall_from fl n d low (obs + 1)))"
  by pat_completeness auto
termination
  by (relation "measure (\<lambda>(fl, n, d, low, obs). nat (MOST_OBSERVATIONS + 1 - obs))") (auto simp: MOST_OBSERVATIONS_def)

declare shortfall_from.simps [simp del]

definition required_denominator_for_wilson :: "float_unit \<Rightarrow> int \<Rightarrow> int \<Rightarrow> rat \<Rightarrow> exn + int" where
  "required_denominator_for_wilson fl n d low =
     (if d < 0 \<or> n < 0 \<or> n > d \<or> low < 0 \<or> low > 1 then Inl benchmark_error
      else ebind (wilson_95_lower_bound fl n d) (\<lambda>w.
             if w \<ge> low \<and> d \<noteq> 0 then Inr 0 else shortfall_from fl n d low (max 1 d)))"

text \<open>What a metric has to reach: the point estimate, the lower bound of its interval, the observations.\<close>

record metric_rule =
  mr_point :: rat
  mr_lower :: rat
  mr_least :: int

definition metric_passes :: "float_unit \<Rightarrow> metric_rule \<Rightarrow> int \<Rightarrow> int \<Rightarrow> rat \<Rightarrow> bool" where
  "metric_passes fl rule n d low \<longleftrightarrow>
     d \<ge> mr_least rule \<and> rnd fl (of_int n / of_int d) \<ge> rnd fl (mr_point rule) \<and> low \<ge> rnd fl (mr_lower rule)"

definition bernoulli_metric :: "float_unit \<Rightarrow> metric_rule \<Rightarrow> int \<Rightarrow> int \<Rightarrow> exn + json" where
  "bernoulli_metric fl rule n d =
     ebind (wilson_95_lower_bound fl n d) (\<lambda>low.
     ebind (required_denominator_for_wilson fl n d (rnd fl (mr_lower rule))) (\<lambda>lack.
       Inr (JObj [(U ''numerator'', JInt n), (U ''denominator'', JInt d),
                  (U ''point_estimate'', JNum (if d = 0 then 0 else rnd fl (of_int n / of_int d))),
                  (U ''wilson_95_lower_bound'', JNum low), (U ''threshold'', JNum (rnd fl (mr_point rule))),
                  (U ''passed'', JBool (metric_passes fl rule n d low)),
                  (U ''required_sample_shortfall'', JInt (if d < mr_least rule then max lack (mr_least rule - d) else lack))])))"

section \<open>Reading a report\<close>

text \<open>\<open>v[k]\<close>, \<open>v.get(k)\<close>, and the equality of two dictionaries of scalars.\<close>

definition item_of :: "string \<Rightarrow> json \<Rightarrow> exn + json" where
  "item_of k v =
     (case v of
        JObj o1 \<Rightarrow> (case jget o1 (U k) of None \<Rightarrow> Inl (KeyError (U k)) | Some x \<Rightarrow> Inr x)
      | _ \<Rightarrow> Inl (TypeError (U ''not subscriptable'')))"

definition get_of :: "string \<Rightarrow> json \<Rightarrow> exn + json option" where
  "get_of k v = (case v of JObj o1 \<Rightarrow> Inr (jget o1 (U k)) | _ \<Rightarrow> Inl (OtherError (U ''AttributeError'') (U ''get'')))"

definition same_record :: "json \<Rightarrow> json \<Rightarrow> bool" where
  "same_record a b =
     (case (a, b) of
        (JObj xs, JObj ys) \<Rightarrow>
          length xs = length ys \<and> list_all (\<lambda>(k, v). case jget ys k of None \<Rightarrow> False | Some u \<Rightarrow> py_eq v u) xs
      | _ \<Rightarrow> False)"

text \<open>A count; the schema lets nothing but integers through (a float, with which the code would go on, is left out).\<close>

definition count_of :: "json \<Rightarrow> exn + int" where
  "count_of v = (case v of JInt i \<Rightarrow> Inr i | JBool b \<Rightarrow> Inr (of_bool b) | _ \<Rightarrow> Inl (TypeError (U ''int'')))"

definition measure_of :: "json \<Rightarrow> exn + rat" where
  "measure_of v = (case py_number v of None \<Rightarrow> Inl (TypeError (U ''float'')) | Some q \<Rightarrow> Inr q)"

definition path_of :: "string list \<Rightarrow> json \<Rightarrow> exn + json" where
  "path_of ks v = fold (\<lambda>k r. ebind r (item_of k)) ks (Inr v)"

definition count_at :: "string list \<Rightarrow> json \<Rightarrow> exn + int" where
  "count_at ks v = ebind (path_of ks v) count_of"

subsection \<open>The gate of a rollout\<close>

definition GATED_METRICS :: "string list" where
  "GATED_METRICS = [''scope_accuracy'', ''posting_accuracy'', ''duplicate_precision'', ''duplicate_recall'', ''issue_precision'', ''issue_recall'']"

definition get_or_obj :: "string \<Rightarrow> json \<Rightarrow> exn + json" where
  "get_or_obj k v = ebind (get_of k v) (\<lambda>x. Inr (case x of None \<Rightarrow> JObj [] | Some y \<Rightarrow> y))"

definition count_or_zero :: "string \<Rightarrow> json \<Rightarrow> exn + int" where
  "count_or_zero k v = ebind (get_of k v) (\<lambda>x. case x of None \<Rightarrow> Inr 0 | Some y \<Rightarrow> count_of y)"

definition flag_set :: "string \<Rightarrow> json \<Rightarrow> bool" where
  "flag_set k v = (case v of JObj o1 \<Rightarrow> (case jget o1 (U k) of None \<Rightarrow> False | Some x \<Rightarrow> truthy x) | _ \<Rightarrow> False)"

definition reason_if :: "bool \<Rightarrow> string \<Rightarrow> pystr list" where
  "reason_if b k = (if b then [U k] else [])"

definition MAX_COST_REGRESSION :: rat where
  "MAX_COST_REGRESSION = 11 / 10"

definition cost_reason :: "float_unit \<Rightarrow> json option \<Rightarrow> exn + pystr list" where
  "cost_reason fl cost =
     (case cost of
        Some (JObj o1) \<Rightarrow>
          (if \<not> flag_set ''passed'' (JObj o1) then Inr [U ''cost_regression'']
           else (case jget o1 (U ''point_estimate'') of
                   None \<Rightarrow> Inr [U ''cost_regression'']
                 | Some v \<Rightarrow> ebind (measure_of v) (\<lambda>q. Inr (reason_if (q > rnd fl MAX_COST_REGRESSION) ''cost_regression''))))
      | _ \<Rightarrow> Inr [U ''cost_regression''])"

definition LOCKED_REASONS :: "json list" where
  "LOCKED_REASONS = map (\<lambda>k. JStr (U k)) [''cost_locked'', ''not_invoked_setup_failure'', ''quality_locked'']"

fun locked_reasons :: "json list \<Rightarrow> exn + pystr list" where
  "locked_reasons [] = Inr []"
| "locked_reasons (v # vs) =
     (if unhashable v then Inl (TypeError (U ''unhashable type''))
      else ebind (locked_reasons vs) (\<lambda>rest. Inr (if v \<in> set LOCKED_REASONS then (case v of JStr t \<Rightarrow> t # rest | _ \<Rightarrow> rest) else rest)))"

definition firsts :: "pystr list \<Rightarrow> pystr list" where
  "firsts xs = rev (remdups (rev xs))"

text \<open>\<open>_report_gate\<close> with the defaults of \<open>evaluate_scope_dedupe_rollout\<close>; the reasons, without repetition.\<close>

definition report_gate :: "float_unit \<Rightarrow> json \<Rightarrow> exn + pystr list" where
  "report_gate fl report =
     ebind (get_or_obj ''metrics'' report) (\<lambda>metrics.
     ebind (get_or_obj ''rollout_evidence'' report) (\<lambda>evidence.
     ebind (count_or_zero ''finding_count'' report) (\<lambda>found.
     ebind (get_of (hd GATED_METRICS) metrics) (\<lambda>_.
     ebind (get_of ''cost_regression'' metrics) (\<lambda>cost.
     ebind (cost_reason fl cost) (\<lambda>dear.
     ebind (count_or_zero ''pr_size_strata_covered'' evidence) (\<lambda>strata.
     ebind (count_or_zero ''partial_timeout_cases'' evidence) (\<lambda>timeouts.
     ebind (count_or_zero ''hard_negative_pairs'' evidence) (\<lambda>pairs.
     ebind (if flag_set ''can_enforce'' report then Inr []
            else ebind (get_of ''failure_reasons'' report) (\<lambda>fs.
                   case fs of None \<Rightarrow> Inr [] | Some (JList vs) \<Rightarrow> locked_reasons vs | Some _ \<Rightarrow> Inl (TypeError (U ''not iterable'')))) (\<lambda>locked.
       Inr (firsts (reason_if (found < 100) ''insufficient_sample'' @
              concat (map (\<lambda>k. reason_if (\<not> flag_set ''passed'' (case item_of k metrics of Inr v \<Rightarrow> v | Inl e \<Rightarrow> JNull)) k) GATED_METRICS) @
              dear @ reason_if (strata < 3) ''pr_size_strata'' @ reason_if (timeouts < 10) ''partial_timeout_coverage'' @
              reason_if (pairs < 30) ''hard_negative_sample'' @ locked))))))))))))"

subsection \<open>The metrics of a report\<close>

definition METRIC_RULES :: "(string \<times> metric_rule) list" where
  "METRIC_RULES =
     [(''issue_precision'', \<lparr>mr_point = 995 / 1000, mr_lower = 99 / 100, mr_least = 1\<rparr>),
      (''issue_recall'', \<lparr>mr_point = 95 / 100, mr_lower = 90 / 100, mr_least = 1\<rparr>),
      (''duplicate_precision'', \<lparr>mr_point = 1, mr_lower = 88 / 100, mr_least = 30\<rparr>),
      (''duplicate_recall'', \<lparr>mr_point = 95 / 100, mr_lower = 85 / 100, mr_least = 30\<rparr>),
      (''scope_accuracy'', \<lparr>mr_point = 995 / 1000, mr_lower = 99 / 100, mr_least = 1\<rparr>),
      (''posting_accuracy'', \<lparr>mr_point = 995 / 1000, mr_lower = 99 / 100, mr_least = 1\<rparr>)]"

definition metric_right :: "float_unit \<Rightarrow> json \<Rightarrow> string \<times> metric_rule \<Rightarrow> exn + bool" where
  "metric_right fl report rule =
     ebind (path_of [''metrics'', fst rule] report) (\<lambda>metric.
     ebind (count_at [''numerator''] metric) (\<lambda>n.
     ebind (count_at [''denominator''] metric) (\<lambda>d.
     ebind (bernoulli_metric fl (snd rule) n d) (\<lambda>expected. Inr (same_record metric expected)))))"

fun all_right :: "('a \<Rightarrow> exn + bool) \<Rightarrow> 'a list \<Rightarrow> exn + bool" where
  "all_right f [] = Inr True"
| "all_right f (x # xs) = ebind (f x) (\<lambda>b. if b then all_right f xs else Inr False)"

definition cost_right :: "float_unit \<Rightarrow> json \<Rightarrow> exn + bool" where
  "cost_right fl report =
     ebind (path_of [''metrics'', ''cost_regression''] report) (\<lambda>cost.
     ebind (count_at [''numerator''] cost) (\<lambda>n.
     ebind (count_at [''denominator''] cost) (\<lambda>d.
       let ratio = (if d = 0 then 0 else rnd fl (of_int n / of_int d))
       in Inr (same_record cost (JObj
            [(U ''numerator'', JInt n), (U ''denominator'', JInt d), (U ''point_estimate'', JNum ratio),
             (U ''wilson_95_lower_bound'', JNum 0), (U ''threshold'', JNum (rnd fl MAX_COST_REGRESSION)),
             (U ''passed'', JBool (d > 0 \<and> ratio \<le> rnd fl MAX_COST_REGRESSION)),
             (U ''required_sample_shortfall'', JInt (if d > 0 then 0 else 1))])))))"

definition counts_right :: "json \<Rightarrow> exn + bool" where
  "counts_right report =
     ebind (count_at [''finding_count''] report) (\<lambda>found.
     ebind (count_at [''metrics'', ''scope_accuracy'', ''denominator''] report) (\<lambda>scoped.
     ebind (count_at [''metrics'', ''posting_accuracy'', ''denominator''] report) (\<lambda>posted.
     ebind (count_at [''issue_count''] report) (\<lambda>issues.
     ebind (count_at [''metrics'', ''issue_recall'', ''denominator''] report) (\<lambda>recalled.
     ebind (count_at [''rollout_evidence'', ''pr_size_strata_covered''] report) (\<lambda>strata.
     ebind (count_at [''rollout_evidence'', ''partial_timeout_cases''] report) (\<lambda>timeouts.
     ebind (count_at [''rollout_evidence'', ''case_count''] report) (\<lambda>cases.
       Inr (found = scoped \<and> found = posted \<and> issues = recalled \<and> strata \<le> min 3 cases \<and> timeouts \<le> cases)))))))))"

definition verdict_right :: "float_unit \<Rightarrow> json \<Rightarrow> exn + bool" where
  "verdict_right fl report =
     ebind (report_gate fl report) (\<lambda>reasons.
     ebind (item_of ''can_enforce'' report) (\<lambda>claimed.
       if \<not> py_eq claimed (JBool (reasons = [])) then Inr False
       else if \<not> truthy claimed then Inr True
       else ebind (item_of ''failure_reasons'' report) (\<lambda>fs. Inr (\<not> truthy fs))))"

text \<open>The exceptions that make a report inconsistent; \<open>BenchmarkError\<close> is a \<open>ValueError\<close>.\<close>

definition inconsistent_error :: "exn \<Rightarrow> bool" where
  "inconsistent_error e =
     (case e of KeyError m \<Rightarrow> True | TypeError m \<Rightarrow> True | ValueError m \<Rightarrow> True | OtherError n m \<Rightarrow> e = benchmark_error | _ \<Rightarrow> False)"

definition report_metrics_are_consistent :: "float_unit \<Rightarrow> json \<Rightarrow> exn + bool" where
  "report_metrics_are_consistent fl report =
     (case ebind (all_right (metric_right fl report) METRIC_RULES) (\<lambda>a. if \<not> a then Inr False
           else ebind (cost_right fl report) (\<lambda>b. if \<not> b then Inr False
           else ebind (counts_right report) (\<lambda>c. if \<not> c then Inr False
           else verdict_right fl report))) of
        Inl e \<Rightarrow> (if inconsistent_error e then Inr False else Inl e)
      | Inr b \<Rightarrow> Inr b)"

section \<open>The attestation\<close>

record runtime_identity =
  ri_vendor :: json
  ri_model :: json
  ri_effort :: json
  ri_prompt :: json
  ri_protocol :: json
  ri_chunker :: json
  ri_budget :: json
  ri_adapter :: json
  ri_cli :: json
  ri_events :: json

record benchmark_identity =
  bi_commit :: json
  bi_runtime :: runtime_identity
  bi_corpus :: json
  bi_adjudication :: json
  bi_selection :: json
  bi_schedule :: json
  bi_scorer :: json
  bi_schema :: json

definition RUNTIME_FIELDS :: "string list" where
  "RUNTIME_FIELDS = [''vendor'', ''model'', ''effort'', ''prompt_sha256'', ''protocol_sha256'', ''chunker_sha256'', ''chunk_budget'',
     ''adapter_sha256'', ''cli_version'', ''event_schema_sha256'']"

definition REPORT_FIELDS :: "string list" where
  "REPORT_FIELDS = [''implementation_commit_sha'', ''corpus_manifest_sha256'', ''adjudication_commitment_sha256'',
     ''primary_run_selection_sha256'', ''paired_schedule_sha256'', ''scorer_sha256'', ''schema_sha256'']"

definition runtime_from :: "(string \<Rightarrow> json) \<Rightarrow> runtime_identity" where
  "runtime_from f = \<lparr>ri_vendor = f ''vendor'', ri_model = f ''model'', ri_effort = f ''effort'', ri_prompt = f ''prompt_sha256'',
     ri_protocol = f ''protocol_sha256'', ri_chunker = f ''chunker_sha256'', ri_budget = f ''chunk_budget'', ri_adapter = f ''adapter_sha256'',
     ri_cli = f ''cli_version'', ri_events = f ''event_schema_sha256''\<rparr>"

definition identity_from :: "(string \<Rightarrow> json) \<Rightarrow> runtime_identity \<Rightarrow> benchmark_identity" where
  "identity_from f ri = \<lparr>bi_commit = f ''implementation_commit_sha'', bi_runtime = ri, bi_corpus = f ''corpus_manifest_sha256'',
     bi_adjudication = f ''adjudication_commitment_sha256'', bi_selection = f ''primary_run_selection_sha256'',
     bi_schedule = f ''paired_schedule_sha256'', bi_scorer = f ''scorer_sha256'', bi_schema = f ''schema_sha256''\<rparr>"

text \<open>The fields are read one after the other: the first that is not there raises.\<close>

definition identity_from_report :: "json \<Rightarrow> exn + benchmark_identity" where
  "identity_from_report report =
     ebind (item_of ''identity'' report) (\<lambda>inner.
     ebind (item_of (hd REPORT_FIELDS) report) (\<lambda>_.
     ebind (emap (\<lambda>k. item_of k inner) RUNTIME_FIELDS) (\<lambda>_.
     ebind (emap (\<lambda>k. item_of k report) REPORT_FIELDS) (\<lambda>_.
       let there = (\<lambda>v k. case item_of k v of Inr x \<Rightarrow> x | Inl e \<Rightarrow> JNull)
       in Inr (identity_from (there report) (runtime_from (there inner)))))))"

text \<open>\<open>BenchmarkIdentity(**d)\<close> and \<open>BenchmarkRuntimeIdentity(**d)\<close>: exactly the fields, or a \<open>TypeError\<close>.\<close>

definition has_fields :: "string list \<Rightarrow> (pystr \<times> json) list \<Rightarrow> bool" where
  "has_fields ks o1 \<longleftrightarrow> list_all (\<lambda>k. jget o1 (U k) \<noteq> None) ks \<and> list_all (\<lambda>(k, v). k \<in> set (map U ks)) o1"

datatype 'i identity_arg = No_Identity | Identity_Dict "(pystr \<times> json) list" | Identity_Value 'i

definition as_identity :: "benchmark_identity identity_arg \<Rightarrow> benchmark_identity option" where
  "as_identity a =
     (case a of
        No_Identity \<Rightarrow> None
      | Identity_Value i \<Rightarrow> Some i
      | Identity_Dict o1 \<Rightarrow> if has_fields (REPORT_FIELDS @ RUNTIME_FIELDS) o1 then Some (identity_from (fld o1) (runtime_from (fld o1))) else None)"

definition as_runtime :: "runtime_identity identity_arg \<Rightarrow> runtime_identity option" where
  "as_runtime a =
     (case a of
        No_Identity \<Rightarrow> None
      | Identity_Value i \<Rightarrow> Some i
      | Identity_Dict o1 \<Rightarrow> if has_fields RUNTIME_FIELDS o1 then Some (runtime_from (fld o1)) else None)"

definition same_runtime :: "runtime_identity \<Rightarrow> runtime_identity \<Rightarrow> bool" where
  "same_runtime a b \<longleftrightarrow>
     py_eq (ri_vendor a) (ri_vendor b) \<and> py_eq (ri_model a) (ri_model b) \<and> py_eq (ri_effort a) (ri_effort b) \<and>
     py_eq (ri_prompt a) (ri_prompt b) \<and> py_eq (ri_protocol a) (ri_protocol b) \<and> py_eq (ri_chunker a) (ri_chunker b) \<and>
     py_eq (ri_budget a) (ri_budget b) \<and> py_eq (ri_adapter a) (ri_adapter b) \<and> py_eq (ri_cli a) (ri_cli b) \<and>
     py_eq (ri_events a) (ri_events b)"

definition same_identity :: "benchmark_identity \<Rightarrow> benchmark_identity \<Rightarrow> bool" where
  "same_identity a b \<longleftrightarrow>
     py_eq (bi_commit a) (bi_commit b) \<and> same_runtime (bi_runtime a) (bi_runtime b) \<and> py_eq (bi_corpus a) (bi_corpus b) \<and>
     py_eq (bi_adjudication a) (bi_adjudication b) \<and> py_eq (bi_selection a) (bi_selection b) \<and>
     py_eq (bi_schedule a) (bi_schedule b) \<and> py_eq (bi_scorer a) (bi_scorer b) \<and> py_eq (bi_schema a) (bi_schema b)"

datatype attestation_reason =
    Att_Valid | Missing_Report_Path | Missing_Expected_Hash | Missing_Expected_Identity | Report_Unavailable | Report_Invalid
  | Report_Hash_Mismatch | Invalid_Timestamp | Att_Expired | Not_Enforceable | Failure_Reasons_Present | Clean_Commit_Unavailable
  | Implementation_Dirty | Implementation_Commit_Mismatch | Identity_Mismatch | Runtime_Identity_Missing | Runtime_Identity_Mismatch

record attestation_decision =
  ad_can_enforce :: bool
  ad_reason :: attestation_reason
  ad_report_hash :: "pystr option"
  ad_identity :: "benchmark_identity option"

definition decision_for :: "attestation_reason \<Rightarrow> benchmark_identity option \<Rightarrow> pystr option \<Rightarrow> attestation_decision" where
  "decision_for reason identity hash =
     \<lparr>ad_can_enforce = (reason = Att_Valid), ad_reason = reason, ad_report_hash = (if reason = Att_Valid then hash else None),
      ad_identity = identity\<rparr>"

text \<open>git answers with its exit code and output, or not at all; a path is regular when it is absolute, no link and a file.\<close>

record attest_env =
  be_regular :: "pystr \<Rightarrow> exn + bool"
  be_bytes :: "pystr \<Rightarrow> exn + int list"
  be_parse :: "int list \<Rightarrow> exn + json"
  be_canonical :: "json \<Rightarrow> int list"
  be_valid :: "json \<Rightarrow> exn + unit"
  be_sha :: "int list \<Rightarrow> pystr"
  be_iso :: "pystr \<Rightarrow> (rat \<times> bool) option"
  be_now :: rat
  be_status :: "(int \<times> pystr) option"
  be_head :: "(int \<times> pystr) option"
  be_lower :: "pystr \<Rightarrow> pystr"
  be_floats :: float_unit

definition unreadable_error :: "exn \<Rightarrow> bool" where
  "unreadable_error e =
     (case e of TypeError m \<Rightarrow> True | ValueError m \<Rightarrow> True
      | OtherError n m \<Rightarrow> n \<in> {U ''OSError'', U ''UnicodeDecodeError'', U ''JSONDecodeError'', U ''BenchmarkError''} | _ \<Rightarrow> False)"

fun finite_json :: "json \<Rightarrow> bool" where
  "finite_json (JInf b) = False"
| "finite_json JNaN = False"
| "finite_json (JObj kvs) = list_all (\<lambda>(k, v). finite_json v) kvs"
| "finite_json (JList vs) = list_all finite_json vs"
| "finite_json _ = True"

definition read_canonical_report :: "attest_env \<Rightarrow> pystr \<Rightarrow> exn + (json \<times> pystr) option" where
  "read_canonical_report env path =
     (case ebind (be_regular env path) (\<lambda>regular.
             if \<not> regular then Inr None
             else ebind (be_bytes env path) (\<lambda>raw.
                  ebind (be_parse env raw) (\<lambda>report.
                    if raw \<noteq> be_canonical env report then Inr None
                    else if \<not> finite_json report then Inl (ValueError (U ''non-finite JSON number''))
                    else ebind (be_valid env report) (\<lambda>_. Inr (Some (report, be_sha env raw)))))) of
        Inl e \<Rightarrow> (if unreadable_error e then Inr None else Inl e)
      | Inr r \<Rightarrow> Inr r)"

definition parse_timestamp :: "attest_env \<Rightarrow> json option \<Rightarrow> rat option" where
  "parse_timestamp env v =
     (case v of
        Some (JStr t) \<Rightarrow> (case be_iso env (replace_text (U ''Z'') (U ''+00:00'') t) of
                            Some (at_time, zoned) \<Rightarrow> if zoned then Some at_time else None
                          | None \<Rightarrow> None)
      | _ \<Rightarrow> None)"

definition clean_head :: "attest_env \<Rightarrow> attestation_reason + pystr" where
  "clean_head env =
     (case be_status env of
        None \<Rightarrow> Inl Clean_Commit_Unavailable
      | Some (code, dirt) \<Rightarrow>
          if code \<noteq> 0 then Inl Clean_Commit_Unavailable
          else if dirt \<noteq> [] then Inl Implementation_Dirty
          else (case be_head env of
                  None \<Rightarrow> Inl Clean_Commit_Unavailable
                | Some (code, out) \<Rightarrow>
                    let sha = be_lower env (strip out)
                    in if code \<noteq> 0 \<or> length sha \<noteq> 40 \<or> \<not> list_all (\<lambda>c. c \<in> set (U ''0123456789abcdef'')) sha
                       then Inl Clean_Commit_Unavailable else Inr sha))"

record attest_config =
  ac_path :: "pystr option"
  ac_hash :: "pystr option"
  ac_identity :: "benchmark_identity identity_arg"

text \<open>The checks in their order; what is settled by then is handed on.\<close>

definition check_binding :: "attest_env \<Rightarrow> benchmark_identity \<Rightarrow> benchmark_identity \<Rightarrow> runtime_identity identity_arg \<Rightarrow> pystr \<Rightarrow> attestation_decision" where
  "check_binding env identity expected runtime hash =
     (let deny = (\<lambda>reason. decision_for reason (Some identity) None)
      in case clean_head env of
           Inl reason \<Rightarrow> deny reason
         | Inr sha \<Rightarrow>
             if \<not> py_eq (bi_commit identity) (JStr sha) then deny Implementation_Commit_Mismatch
             else if \<not> same_identity identity expected then deny Identity_Mismatch
             else if runtime = No_Identity then deny Runtime_Identity_Missing
             else (case as_runtime runtime of
                     None \<Rightarrow> deny Runtime_Identity_Mismatch
                   | Some ri \<Rightarrow> if same_runtime (bi_runtime identity) ri then decision_for Att_Valid (Some identity) (Some hash)
                                else deny Runtime_Identity_Mismatch))"

definition check_report :: "attest_env \<Rightarrow> json \<Rightarrow> benchmark_identity \<Rightarrow> benchmark_identity \<Rightarrow> runtime_identity identity_arg \<Rightarrow> pystr
    \<Rightarrow> exn + attestation_decision" where
  "check_report env report identity expected runtime hash =
     (let deny = (\<lambda>reason. Inr (decision_for reason (Some identity) None));
          member = (\<lambda>k. case get_of k report of Inr v \<Rightarrow> v | Inl e \<Rightarrow> None)
      in case (parse_timestamp env (member ''generated_at''), parse_timestamp env (member ''valid_until'')) of
           (Some generated, Some until) \<Rightarrow>
             (if generated > until \<or> generated > be_now env then deny Invalid_Timestamp
              else if until \<le> be_now env then deny Att_Expired
              else ebind (report_metrics_are_consistent (be_floats env) report) (\<lambda>right.
                     if \<not> right then deny Report_Invalid
                     else if \<not> flag_set ''can_enforce'' report then deny Not_Enforceable
                     else if flag_set ''failure_reasons'' report then deny Failure_Reasons_Present
                     else Inr (check_binding env identity expected runtime hash)))
         | _ \<Rightarrow> deny Invalid_Timestamp)"

definition resolve_benchmark_attestation :: "attest_env \<Rightarrow> attest_config \<Rightarrow> runtime_identity identity_arg \<Rightarrow> exn + attestation_decision" where
  "resolve_benchmark_attestation env cfg runtime =
     (case ac_path cfg of
        None \<Rightarrow> Inr (decision_for Missing_Report_Path None None)
      | Some path \<Rightarrow>
          if ac_hash cfg = None \<or> ac_hash cfg = Some [] then Inr (decision_for Missing_Expected_Hash None None)
          else (case as_identity (ac_identity cfg) of
                  None \<Rightarrow> Inr (decision_for Missing_Expected_Identity None None)
                | Some expected \<Rightarrow>
                    ebind (read_canonical_report env path) (\<lambda>loaded.
                      case loaded of
                        None \<Rightarrow> Inr (decision_for Report_Unavailable None None)
                      | Some (report, hash) \<Rightarrow>
                          (case identity_from_report report of
                             Inl e \<Rightarrow> (case e of KeyError m \<Rightarrow> Inr (decision_for Report_Invalid None None)
                                       | TypeError m \<Rightarrow> Inr (decision_for Report_Invalid None None) | _ \<Rightarrow> Inl e)
                           | Inr identity \<Rightarrow>
                               if Some hash \<noteq> ac_hash cfg then Inr (decision_for Report_Hash_Mismatch (Some identity) None)
                               else check_report env report identity expected runtime hash))))"

section \<open>Enforcement rests on evidence\<close>

text \<open>What a metric's own counts show, whatever the report says of them.\<close>

definition metric_reached :: "float_unit \<Rightarrow> json \<Rightarrow> string \<times> metric_rule \<Rightarrow> bool" where
  "metric_reached fl report rule \<longleftrightarrow>
     (\<exists>n d w. count_at [''metrics'', fst rule, ''numerator''] report = Inr n \<and> count_at [''metrics'', fst rule, ''denominator''] report = Inr d \<and>
        wilson_95_lower_bound fl n d = Inr w \<and> metric_passes fl (snd rule) n d w)"

definition cost_reached :: "float_unit \<Rightarrow> json \<Rightarrow> bool" where
  "cost_reached fl report \<longleftrightarrow>
     (\<exists>n d. count_at [''metrics'', ''cost_regression'', ''numerator''] report = Inr n \<and>
        count_at [''metrics'', ''cost_regression'', ''denominator''] report = Inr d \<and>
        0 < d \<and> rnd fl (of_int n / of_int d) \<le> rnd fl MAX_COST_REGRESSION)"

definition at_least :: "int \<Rightarrow> string list \<Rightarrow> json \<Rightarrow> bool" where
  "at_least m ks report \<longleftrightarrow> (\<exists>i. count_at ks report = Inr i \<and> m \<le> i)"

definition evidence_reached :: "float_unit \<Rightarrow> json \<Rightarrow> bool" where
  "evidence_reached fl report \<longleftrightarrow>
     list_all (metric_reached fl report) METRIC_RULES \<and> cost_reached fl report \<and> at_least 100 [''finding_count''] report \<and>
     at_least 3 [''rollout_evidence'', ''pr_size_strata_covered''] report \<and>
     at_least 10 [''rollout_evidence'', ''partial_timeout_cases''] report \<and>
     at_least 30 [''rollout_evidence'', ''hard_negative_pairs''] report"

lemma path_Cons: "path_of (k # ks) v = ebind (item_of k v) (path_of ks)"
proof -
  have stuck: "fold (\<lambda>k r. ebind r (item_of k)) ks (Inl e) = Inl e" for e by (induction ks) simp_all
  show ?thesis by (cases "item_of k v") (simp_all add: path_of_def stuck)
qed

lemma path_Nil [simp]: "path_of [] v = Inr v"
  by (simp add: path_of_def)

lemma count_at_Cons: "count_at (k # ks) v = ebind (item_of k v) (count_at ks)"
  by (cases "item_of k v") (simp_all add: count_at_def path_Cons)

lemma all_right_True: "all_right f xs = Inr True \<Longrightarrow> x \<in> set xs \<Longrightarrow> f x = Inr True"
  by (induction xs) (auto simp: ebind_Inr_iff split: if_splits)

lemma eq_bool_truthy: "py_eq x (JBool b) \<Longrightarrow> truthy x = b"
  by (cases x) (auto simp: py_eq_def split: if_splits)

lemma flag_of_same_record:
  assumes "same_record metric (JObj ys)" "flag_set k metric" "jget ys (U k) = Some (JBool b)"
  shows b
proof -
  obtain xs where xs: "metric = JObj xs" "list_all (\<lambda>(k, v). case jget ys k of None \<Rightarrow> False | Some u \<Rightarrow> py_eq v u) xs"
    using assms(1) by (auto simp: same_record_def split: json.splits)
  from assms(2) xs(1) obtain x where x: "jget xs (U k) = Some x" "truthy x" by (auto simp: flag_set_def split: option.splits)
  then have "(U k, x) \<in> set xs" by (simp add: jget_def map_of_SomeD)
  with xs(2) assms(3) have "py_eq x (JBool b)" by (force simp: list_all_iff)
  with x(2) show ?thesis using eq_bool_truthy by blast
qed

lemma metric_right_passed:
  assumes "metric_right fl report rule = Inr True" "path_of [''metrics'', fst rule] report = Inr metric" "flag_set ''passed'' metric"
  shows "metric_reached fl report rule"
proof -
  from assms(1,2) obtain n d m where m: "count_at [''numerator''] metric = Inr n" "count_at [''denominator''] metric = Inr d"
    "bernoulli_metric fl (snd rule) n d = Inr m" "same_record metric m"
    by (auto simp: metric_right_def ebind_Inr_iff)
  from m(3) obtain w ys where w: "wilson_95_lower_bound fl n d = Inr w" "m = JObj ys"
    "jget ys (U ''passed'') = Some (JBool (metric_passes fl (snd rule) n d w))"
    by (auto simp: bernoulli_metric_def ebind_Inr_iff jget_def U_eq_iff)
  from flag_of_same_record[OF m(4)[unfolded w(2)] assms(3) w(3)] have pass: "metric_passes fl (snd rule) n d w" .
  have "count_at [''metrics'', fst rule, ''numerator''] report = Inr n" "count_at [''metrics'', fst rule, ''denominator''] report = Inr d"
    using m(1,2) assms(2) by (auto simp: count_at_def path_Cons ebind_Inr_iff)
  with w(1) pass show ?thesis by (auto simp: metric_reached_def)
qed

lemma firsts_Nil: "firsts xs = [] \<longleftrightarrow> xs = []"
  by (simp add: firsts_def)

lemma reason_if_Nil: "reason_if b k = [] \<longleftrightarrow> \<not> b"
  by (simp add: reason_if_def)

lemma gate_open:
  assumes "report_gate fl report = Inr []"
  shows "\<exists>metrics evidence found strata timeouts pairs. get_or_obj ''metrics'' report = Inr metrics \<and> get_or_obj ''rollout_evidence'' report = Inr evidence \<and>
    count_or_zero ''finding_count'' report = Inr found \<and> 100 \<le> found \<and>
    (\<forall>k\<in>set GATED_METRICS. flag_set ''passed'' (case item_of k metrics of Inr v \<Rightarrow> v | Inl e \<Rightarrow> JNull)) \<and>
    (\<exists>cost. get_of ''cost_regression'' metrics = Inr cost \<and> cost_reason fl cost = Inr []) \<and>
    count_or_zero ''pr_size_strata_covered'' evidence = Inr strata \<and> 3 \<le> strata \<and>
    count_or_zero ''partial_timeout_cases'' evidence = Inr timeouts \<and> 10 \<le> timeouts \<and>
    count_or_zero ''hard_negative_pairs'' evidence = Inr pairs \<and> 30 \<le> pairs"
  using assms by (auto simp: report_gate_def ebind_Inr_iff firsts_Nil reason_if_Nil not_less)

lemma get_item: "get_of k v = Inr (Some x) \<longleftrightarrow> item_of k v = Inr x"
  by (auto simp: get_of_def item_of_def split: json.splits option.splits)

lemma get_or_obj_item: "get_or_obj k v = Inr x \<Longrightarrow> x = JObj [] \<or> item_of k v = Inr x"
  by (auto simp: get_or_obj_def ebind_Inr_iff get_item[symmetric] split: option.splits)

lemma count_or_zero_item: "count_or_zero k v = Inr i \<Longrightarrow> i \<noteq> 0 \<Longrightarrow> count_at [k] v = Inr i"
  by (auto simp: count_or_zero_def count_at_def path_Cons ebind_Inr_iff get_item split: option.splits)

lemma at_least_inner:
  assumes "get_or_obj k v = Inr x" "count_or_zero j x = Inr i" "0 < m" "m \<le> i"
  shows "at_least m [k, j] v"
proof -
  have here: "count_at [j] x = Inr i" using count_or_zero_item[OF assms(2)] assms(3,4) by simp
  then have "x \<noteq> JObj []" by (auto simp: count_at_def path_Cons item_of_def jget_def)
  then have "item_of k v = Inr x" using get_or_obj_item[OF assms(1)] by blast
  with here assms(4) show ?thesis by (auto simp: at_least_def count_at_Cons[of k])
qed

lemma cost_right_passed:
  assumes "cost_right fl report = Inr True" "path_of [''metrics'', ''cost_regression''] report = Inr cost" "flag_set ''passed'' cost"
  shows "cost_reached fl report"
proof -
  from assms(1,2) obtain n d where m: "count_at [''numerator''] cost = Inr n" "count_at [''denominator''] cost = Inr d"
    "same_record cost (JObj
            [(U ''numerator'', JInt n), (U ''denominator'', JInt d), (U ''point_estimate'', JNum (if d = 0 then 0 else rnd fl (of_int n / of_int d))),
             (U ''wilson_95_lower_bound'', JNum 0), (U ''threshold'', JNum (rnd fl MAX_COST_REGRESSION)),
             (U ''passed'', JBool (d > 0 \<and> (if d = 0 then 0 else rnd fl (of_int n / of_int d)) \<le> rnd fl MAX_COST_REGRESSION)),
             (U ''required_sample_shortfall'', JInt (if d > 0 then 0 else 1))])"
    by (auto simp only: cost_right_def ebind_Inr_iff Let_def sum.inject)
  have "d > 0 \<and> (if d = 0 then 0 else rnd fl (of_int n / of_int d)) \<le> rnd fl MAX_COST_REGRESSION"
    by (rule flag_of_same_record[OF m(3) assms(3)]) (simp add: jget_def U_eq_iff)
  moreover have "count_at [''metrics'', ''cost_regression'', ''numerator''] report = Inr n"
    "count_at [''metrics'', ''cost_regression'', ''denominator''] report = Inr d"
    using m(1,2) assms(2) by (auto simp: count_at_def path_Cons ebind_Inr_iff)
  ultimately show ?thesis by (auto simp: cost_reached_def)
qed

lemma consistent_parts:
  assumes "report_metrics_are_consistent fl report = Inr True"
  shows "list_all (\<lambda>r. metric_right fl report r = Inr True) METRIC_RULES \<and> cost_right fl report = Inr True \<and> verdict_right fl report = Inr True"
proof -
  have "ebind (all_right (metric_right fl report) METRIC_RULES) (\<lambda>a. if \<not> a then Inr False
           else ebind (cost_right fl report) (\<lambda>b. if \<not> b then Inr False
           else ebind (counts_right report) (\<lambda>c. if \<not> c then Inr False
           else verdict_right fl report))) = Inr True"
    using assms by (simp add: report_metrics_are_consistent_def split: sum.splits if_splits)
  then show ?thesis using all_right_True[of "metric_right fl report" METRIC_RULES]
    by (auto simp: ebind_Inr_iff list_all_iff split: if_splits)
qed

lemma verdict_open:
  assumes "verdict_right fl report = Inr True" "flag_set ''can_enforce'' report"
  shows "report_gate fl report = Inr []"
proof -
  from assms(1) obtain reasons claimed where g: "report_gate fl report = Inr reasons" "item_of ''can_enforce'' report = Inr claimed"
    "py_eq claimed (JBool (reasons = []))"
    by (auto simp: verdict_right_def ebind_Inr_iff split: if_splits)
  have "truthy claimed" using assms(2) g(2) by (auto simp: flag_set_def item_of_def split: json.splits option.splits)
  with eq_bool_truthy[OF g(3)] g(1) show ?thesis by simp
qed

lemma evidence_of_consistent:
  assumes "report_metrics_are_consistent fl report = Inr True" "flag_set ''can_enforce'' report"
  shows "evidence_reached fl report"
proof -
  note parts = consistent_parts[OF assms(1)]
  from parts have gate: "report_gate fl report = Inr []" using verdict_open assms(2) by blast
  from gate_open[OF gate] obtain metrics evidence found strata timeouts pairs cost where g:
    "get_or_obj ''metrics'' report = Inr metrics" "get_or_obj ''rollout_evidence'' report = Inr evidence"
    "count_or_zero ''finding_count'' report = Inr found" "100 \<le> found"
    "\<forall>k\<in>set GATED_METRICS. flag_set ''passed'' (case item_of k metrics of Inr v \<Rightarrow> v | Inl e \<Rightarrow> JNull)"
    "get_of ''cost_regression'' metrics = Inr cost" "cost_reason fl cost = Inr []"
    "count_or_zero ''pr_size_strata_covered'' evidence = Inr strata" "3 \<le> strata"
    "count_or_zero ''partial_timeout_cases'' evidence = Inr timeouts" "10 \<le> timeouts"
    "count_or_zero ''hard_negative_pairs'' evidence = Inr pairs" "30 \<le> pairs"
    by blast
  from g(7) obtain o1 where c: "cost = Some (JObj o1)" "flag_set ''passed'' (JObj o1)"
    by (auto simp: cost_reason_def split: option.splits json.splits if_splits)
  have inner: "item_of ''cost_regression'' metrics = Inr (JObj o1)" using g(6) c(1) by (simp add: get_item)
  then have "metrics \<noteq> JObj []" by (auto simp: item_of_def jget_def)
  then have metrics: "item_of ''metrics'' report = Inr metrics" using get_or_obj_item[OF g(1)] by blast
  have "metric_reached fl report r" if "r \<in> set METRIC_RULES" for r
  proof -
    have "fst r \<in> set GATED_METRICS" using that by (auto simp: METRIC_RULES_def GATED_METRICS_def)
    with g(5) have flag: "flag_set ''passed'' (case item_of (fst r) metrics of Inr v \<Rightarrow> v | Inl e \<Rightarrow> JNull)" by blast
    then obtain m where m: "item_of (fst r) metrics = Inr m" "flag_set ''passed'' m"
      by (cases "item_of (fst r) metrics") (auto simp: flag_set_def)
    show ?thesis
      by (rule metric_right_passed[OF _ _ m(2)]) (use parts that metrics m(1) in \<open>auto simp: list_all_iff path_Cons\<close>)
  qed
  moreover have "cost_reached fl report"
    by (rule cost_right_passed[OF _ _ c(2)]) (use parts metrics inner in \<open>auto simp: path_Cons\<close>)
  moreover have "at_least 100 [''finding_count''] report"
    using count_or_zero_item[OF g(3)] g(4) by (auto simp: at_least_def)
  ultimately show ?thesis
    using at_least_inner[OF g(2,8) _ g(9)] at_least_inner[OF g(2,10) _ g(11)] at_least_inner[OF g(2,12) _ g(13)]
    by (simp add: evidence_reached_def list_all_iff)
qed

definition git_clean_at :: "attest_env \<Rightarrow> json \<Rightarrow> bool" where
  "git_clean_at env commit \<longleftrightarrow> (\<exists>sha. clean_head env = Inr sha \<and> py_eq commit (JStr sha) \<and> be_status env = Some (0, []))"

text \<open>
  What an enforced run may count on: the pinned file is the canonical form of a report that is valid now, whose own counts reach every
  threshold, and that was made for the commit checked out without changes, for the identity the operator expects and for the identity of the
  run.
\<close>

definition attested :: "attest_env \<Rightarrow> attest_config \<Rightarrow> runtime_identity identity_arg \<Rightarrow> pystr option \<Rightarrow> bool" where
  "attested env cfg runtime hash \<longleftrightarrow>
     (\<exists>path report identity expected ri generated until.
        ac_path cfg = Some path \<and> hash = ac_hash cfg \<and> hash = Some (be_sha env (be_canonical env report)) \<and>
        be_bytes env path = Inr (be_canonical env report) \<and> be_valid env report = Inr () \<and>
        parse_timestamp env (Some (JStr generated)) \<noteq> None \<and> the (parse_timestamp env (Some (JStr generated))) \<le> be_now env \<and>
        parse_timestamp env (Some (JStr until)) \<noteq> None \<and> be_now env < the (parse_timestamp env (Some (JStr until))) \<and>
        item_of ''generated_at'' report = Inr (JStr generated) \<and> item_of ''valid_until'' report = Inr (JStr until) \<and>
        evidence_reached (be_floats env) report \<and> identity_from_report report = Inr identity \<and> git_clean_at env (bi_commit identity) \<and>
        as_identity (ac_identity cfg) = Some expected \<and> same_identity identity expected \<and>
        as_runtime runtime = Some ri \<and> same_runtime (bi_runtime identity) ri)"

lemma decision_for_can [simp]: "ad_can_enforce (decision_for r i h) \<longleftrightarrow> r = Att_Valid"
  by (simp add: decision_for_def)

lemma clean_head_status: "clean_head env = Inr sha \<Longrightarrow> be_status env = Some (0, [])"
  by (auto simp: clean_head_def split: option.splits prod.splits if_splits)

lemma clean_head_reason: "clean_head env = Inl r \<Longrightarrow> r \<noteq> Att_Valid"
  by (auto simp: clean_head_def Let_def split: option.splits prod.splits if_splits)

lemma binding_enforces:
  assumes "check_binding env identity expected runtime hash = d" "ad_can_enforce d"
  shows "git_clean_at env (bi_commit identity) \<and> same_identity identity expected \<and> ad_report_hash d = Some hash \<and>
    (\<exists>ri. as_runtime runtime = Some ri \<and> same_runtime (bi_runtime identity) ri)"
proof -
  obtain sha where sha: "clean_head env = Inr sha" using assms by (cases "clean_head env") (auto simp: check_binding_def Let_def dest: clean_head_reason)
  have commit: "py_eq (bi_commit identity) (JStr sha)" and same: "same_identity identity expected"
    using assms sha by (auto simp: check_binding_def Let_def split: if_splits)
  have "runtime \<noteq> No_Identity" using assms sha commit same by (auto simp: check_binding_def Let_def)
  then obtain ri where ri: "as_runtime runtime = Some ri" "same_runtime (bi_runtime identity) ri" "d = decision_for Att_Valid (Some identity) (Some hash)"
    using assms sha commit same by (cases "as_runtime runtime") (auto simp: check_binding_def Let_def split: if_splits)
  show ?thesis using sha commit same ri clean_head_status[OF sha] by (auto simp: git_clean_at_def decision_for_def)
qed

lemma timestamp_text:
  assumes "parse_timestamp env v = Some t"
  shows "\<exists>s. v = Some (JStr s)"
  using assms by (auto simp: parse_timestamp_def split: option.splits json.splits)

lemma report_enforces:
  assumes "check_report env report identity expected runtime hash = Inr d" "ad_can_enforce d"
  shows "\<exists>generated until. item_of ''generated_at'' report = Inr (JStr generated) \<and> item_of ''valid_until'' report = Inr (JStr until) \<and>
    parse_timestamp env (Some (JStr generated)) \<noteq> None \<and> the (parse_timestamp env (Some (JStr generated))) \<le> be_now env \<and>
    parse_timestamp env (Some (JStr until)) \<noteq> None \<and> be_now env < the (parse_timestamp env (Some (JStr until))) \<and>
    evidence_reached (be_floats env) report \<and> check_binding env identity expected runtime hash = d"
proof -
  let ?m = "\<lambda>k. case get_of k report of Inr v \<Rightarrow> v | Inl e \<Rightarrow> None"
  obtain g u where t: "parse_timestamp env (?m ''generated_at'') = Some g" "parse_timestamp env (?m ''valid_until'') = Some u"
    using assms by (cases "parse_timestamp env (?m ''generated_at'')"; cases "parse_timestamp env (?m ''valid_until'')")
      (auto simp: check_report_def Let_def)
  have times: "g \<le> be_now env" "be_now env < u" using assms t by (auto simp: check_report_def Let_def split: if_splits)
  then have order: "\<not> (g > u \<or> g > be_now env)" "\<not> u \<le> be_now env" by auto
  have "report_metrics_are_consistent (be_floats env) report = Inr True \<and> flag_set ''can_enforce'' report \<and>
      check_binding env identity expected runtime hash = d"
    using assms t order by (auto simp: check_report_def Let_def ebind_Inr_iff split: if_splits)
  moreover from timestamp_text[OF t(1)] timestamp_text[OF t(2)] obtain a b where ab: "?m ''generated_at'' = Some (JStr a)" "?m ''valid_until'' = Some (JStr b)"
    by blast
  then have "item_of ''generated_at'' report = Inr (JStr a)" "item_of ''valid_until'' report = Inr (JStr b)"
    by (auto simp: get_item[symmetric] split: sum.splits)
  ultimately show ?thesis using evidence_of_consistent t ab times by auto
qed

lemma read_report:
  assumes "read_canonical_report env path = Inr (Some (report, hash))"
  shows "be_bytes env path = Inr (be_canonical env report) \<and> be_valid env report = Inr () \<and> hash = be_sha env (be_canonical env report)"
  using assms by (auto simp: read_canonical_report_def ebind_Inr_iff split: sum.splits if_splits)

lemma attestation_enforces:
  assumes "resolve_benchmark_attestation env cfg runtime = Inr d" "ad_can_enforce d"
  shows "attested env cfg runtime (ad_report_hash d)"
proof -
  obtain path where path: "ac_path cfg = Some path" using assms by (cases "ac_path cfg") (auto simp: resolve_benchmark_attestation_def)
  obtain expected where expected: "as_identity (ac_identity cfg) = Some expected"
    using assms path by (cases "as_identity (ac_identity cfg)") (auto simp: resolve_benchmark_attestation_def split: if_splits)
  obtain loaded where loaded: "read_canonical_report env path = Inr loaded"
    using assms path expected by (auto simp: resolve_benchmark_attestation_def ebind_Inr_iff split: if_splits)
  obtain report hash where report: "loaded = Some (report, hash)"
    using assms path expected loaded by (cases loaded) (auto simp: resolve_benchmark_attestation_def split: if_splits)
  obtain identity where identity: "identity_from_report report = Inr identity"
    using assms path expected loaded report
    by (cases "identity_from_report report") (auto simp: resolve_benchmark_attestation_def split: if_splits exn.splits)
  have pinned: "Some hash = ac_hash cfg" "check_report env report identity expected runtime hash = Inr d"
    using assms path expected loaded report identity by (auto simp: resolve_benchmark_attestation_def split: if_splits)
  note body = report_enforces[OF pinned(2) assms(2)]
  then have bound: "check_binding env identity expected runtime hash = d" by blast
  note binding = binding_enforces[OF bound assms(2)]
  from body obtain generated until where times: "item_of ''generated_at'' report = Inr (JStr generated)" "item_of ''valid_until'' report = Inr (JStr until)"
    "parse_timestamp env (Some (JStr generated)) \<noteq> None" "the (parse_timestamp env (Some (JStr generated))) \<le> be_now env"
    "parse_timestamp env (Some (JStr until)) \<noteq> None" "be_now env < the (parse_timestamp env (Some (JStr until)))"
    "evidence_reached (be_floats env) report" by blast
  from binding obtain ri where ri: "as_runtime runtime = Some ri" "same_runtime (bi_runtime identity) ri" by blast
  note stored = read_report[OF loaded[unfolded report]]
  show ?thesis
    unfolding attested_def
    by (rule exI[of _ path], rule exI[of _ report], rule exI[of _ identity], rule exI[of _ expected], rule exI[of _ ri],
        rule exI[of _ generated], rule exI[of _ until])
      (use path expected identity pinned(1) times binding ri stored in \<open>simp\<close>)
qed

text \<open>
  C9: whenever the policy of a run enforces, the attestation that is stored with it stands for evidence: the pinned report is there in
  canonical form, in its time, its own counts reach every threshold, and it binds the clean commit, the expected identity and the run's.
\<close>

theorem enforced_run_is_attested:
  assumes "resolve_policy_snapshot sha num pcfg attest repo identity = Inr s"
    "pd_effective (ps_scope s) = ENFORCE \<or> pd_effective (ps_dedupe s) = ENFORCE"
    "resolve_benchmark_attestation env cfg runtime = Inr d"
    "attest identity = \<lparr>att_can_enforce = ad_can_enforce d, att_report_hash = ad_report_hash d\<rparr>"
  shows "attested env cfg runtime (ps_attestation s)"
proof -
  have "ad_can_enforce d"
    using assms(2) unfolding resolved_snapshot(1,2)[OF assms(1)] decide_policy_enforces assms(4) by auto
  then show ?thesis
    using attestation_enforces[OF assms(3)] by (simp add: resolved_snapshot(6)[OF assms(1)] assms(4))
qed

section \<open>A report that is accepted\<close>

text \<open>Floats with nine digits after the point, and Newton's iteration for the root.\<close>

definition nine_digits :: "rat \<Rightarrow> rat" where
  "nine_digits q = of_int \<lfloor>q * 1000000000 + 1 / 2\<rfloor> / 1000000000"

primrec newton :: "nat \<Rightarrow> rat \<Rightarrow> rat \<Rightarrow> rat" where
  "newton 0 q x = x"
| "newton (Suc n) q x = (if x = 0 then 0 else newton n q (nine_digits ((x + q / x) / 2)))"

definition sample_floats :: float_unit where
  "sample_floats = \<lparr>rnd = nine_digits, root_of = (\<lambda>q. newton 16 q 1)\<rparr>"

definition sample_metric :: "metric_rule \<Rightarrow> json" where
  "sample_metric rule = JObj
     [(U ''numerator'', JInt 400), (U ''denominator'', JInt 400), (U ''point_estimate'', JInt 1),
      (U ''wilson_95_lower_bound'', JNum (990487817 / 1000000000)), (U ''threshold'', JNum (mr_point rule)), (U ''passed'', JBool True),
      (U ''required_sample_shortfall'', JInt 0)]"

lemma sample_wilson: "wilson_95_lower_bound sample_floats 400 400 = Inr (990487817 / 1000000000)"
  by code_simp

lemma sample_bernoulli: "list_all (\<lambda>(k, r). case bernoulli_metric sample_floats r 400 400 of Inr m \<Rightarrow> same_record (sample_metric r) m | Inl e \<Rightarrow> False) METRIC_RULES"
  unfolding bernoulli_metric_def required_denominator_for_wilson_def sample_wilson by code_simp

definition sample_cost :: json where
  "sample_cost = JObj [(U ''numerator'', JInt 21), (U ''denominator'', JInt 20), (U ''point_estimate'', JNum (21 / 20)),
     (U ''wilson_95_lower_bound'', JInt 0), (U ''threshold'', JNum (11 / 10)), (U ''passed'', JBool True),
     (U ''required_sample_shortfall'', JInt 0)]"

definition sample_runtime :: "(pystr \<times> json) list" where
  "sample_runtime = map (\<lambda>k. (U k, JStr (U ''id''))) RUNTIME_FIELDS"

definition sample_commit :: pystr where
  "sample_commit = replicate 40 97"

definition sample_report_fields :: "(pystr \<times> json) list" where
  "sample_report_fields = map (\<lambda>k. (U k, JStr sample_commit)) REPORT_FIELDS"

definition sample_report :: json where
  "sample_report = JObj (sample_report_fields @
     [(U ''identity'', JObj sample_runtime), (U ''generated_at'', JStr (U ''a'')), (U ''valid_until'', JStr (U ''b'')),
      (U ''metrics'', JObj (map (\<lambda>(k, r). (U k, sample_metric r)) METRIC_RULES @ [(U ''cost_regression'', sample_cost)])),
      (U ''finding_count'', JInt 400), (U ''issue_count'', JInt 400), (U ''can_enforce'', JBool True), (U ''failure_reasons'', JList []),
      (U ''rollout_evidence'', JObj [(U ''pr_size_strata_covered'', JInt 3), (U ''partial_timeout_cases'', JInt 10),
         (U ''hard_negative_pairs'', JInt 30), (U ''case_count'', JInt 50)])])"

definition sample_attest_env :: attest_env where
  "sample_attest_env =
     \<lparr>be_regular = (\<lambda>p. Inr True), be_bytes = (\<lambda>p. Inr [1]), be_parse = (\<lambda>b. Inr sample_report), be_canonical = (\<lambda>v. [1]),
      be_valid = (\<lambda>v. Inr ()), be_sha = (\<lambda>b. replicate 64 98), be_iso = (\<lambda>t. if t = U ''a'' then Some (10, True) else Some (30, True)),
      be_now = 20, be_status = Some (0, []), be_head = Some (0, sample_commit @ [10]), be_lower = (\<lambda>t. t), be_floats = sample_floats\<rparr>"

definition sample_attest_config :: attest_config where
  "sample_attest_config = \<lparr>ac_path = Some (U ''/r''), ac_hash = Some (replicate 64 98),
     ac_identity = Identity_Dict (sample_report_fields @ sample_runtime)\<rparr>"

lemma sample_paths: "list_all (\<lambda>(k, r). path_of [''metrics'', k] sample_report = Inr (sample_metric r)) METRIC_RULES"
  by code_simp

lemma sample_metric_right:
  assumes "rule \<in> set METRIC_RULES"
  shows "metric_right sample_floats sample_report rule = Inr True"
proof -
  obtain k r where rule: "rule = (k, r)" by (cases rule)
  have "path_of [''metrics'', k] sample_report = Inr (sample_metric r)" using sample_paths assms rule by (auto simp: list_all_iff)
  moreover have bernoulli: "case bernoulli_metric sample_floats r 400 400 of Inl e \<Rightarrow> False | Inr m \<Rightarrow> same_record (sample_metric r) m"
    using sample_bernoulli assms rule by (force simp: list_all_iff)
  moreover obtain m where "bernoulli_metric sample_floats r 400 400 = Inr m" "same_record (sample_metric r) m"
    using bernoulli by (cases "bernoulli_metric sample_floats r 400 400") simp_all
  moreover have "count_at [''numerator''] (sample_metric r) = Inr 400" "count_at [''denominator''] (sample_metric r) = Inr 400"
    by (simp_all add: count_at_def path_Cons item_of_def sample_metric_def jget_def U_eq_iff count_of_def)
  ultimately show ?thesis by (simp add: metric_right_def rule)
qed

lemma all_right_all: "(\<And>x. x \<in> set xs \<Longrightarrow> f x = Inr True) \<Longrightarrow> all_right f xs = Inr True"
  by (induction xs) simp_all

lemma sample_consistent: "report_metrics_are_consistent sample_floats sample_report = Inr True"
proof -
  have "all_right (metric_right sample_floats sample_report) METRIC_RULES = Inr True"
    by (rule all_right_all) (rule sample_metric_right)
  moreover have "cost_right sample_floats sample_report = Inr True" by code_simp
  moreover have "counts_right sample_report = Inr True" by code_simp
  moreover have "verdict_right sample_floats sample_report = Inr True" by code_simp
  ultimately show ?thesis by (simp add: report_metrics_are_consistent_def)
qed

definition sample_report_identity :: benchmark_identity where
  "sample_report_identity = identity_from (\<lambda>k. JStr sample_commit) (runtime_from (\<lambda>k. JStr (U ''id'')))"

lemma sample_attested:
  "\<exists>d. resolve_benchmark_attestation sample_attest_env sample_attest_config (Identity_Dict sample_runtime) = Inr d \<and>
     ad_can_enforce d \<and> ad_report_hash d = Some (replicate 64 98)"
proof -
  let ?hash = "replicate 64 98 :: pystr"
  let ?run = "Identity_Dict sample_runtime"
  have read: "read_canonical_report sample_attest_env (U ''/r'') = Inr (Some (sample_report, ?hash))" by code_simp
  have identity: "identity_from_report sample_report = Inr sample_report_identity" by code_simp
  have expected: "as_identity (ac_identity sample_attest_config) = Some sample_report_identity" by code_simp
  have path: "ac_path sample_attest_config = Some (U ''/r'')" "ac_hash sample_attest_config = Some ?hash"
    by (simp_all add: sample_attest_config_def)
  have resolve: "resolve_benchmark_attestation sample_attest_env sample_attest_config ?run =
      check_report sample_attest_env sample_report sample_report_identity sample_report_identity ?run ?hash"
    by (simp add: resolve_benchmark_attestation_def path read identity expected)
  have times: "parse_timestamp sample_attest_env (case get_of ''generated_at'' sample_report of Inr v \<Rightarrow> v | Inl e \<Rightarrow> None) = Some 10"
    "parse_timestamp sample_attest_env (case get_of ''valid_until'' sample_report of Inr v \<Rightarrow> v | Inl e \<Rightarrow> None) = Some 30"
    by code_simp+
  have flags: "flag_set ''can_enforce'' sample_report" "\<not> flag_set ''failure_reasons'' sample_report" by code_simp+
  have now: "be_now sample_attest_env = 20" "be_floats sample_attest_env = sample_floats" by (simp_all add: sample_attest_env_def)
  have "check_report sample_attest_env sample_report sample_report_identity sample_report_identity ?run ?hash =
      Inr (check_binding sample_attest_env sample_report_identity sample_report_identity ?run ?hash)"
    by (simp add: check_report_def Let_def times flags now sample_consistent)
  moreover have "ad_can_enforce (check_binding sample_attest_env sample_report_identity sample_report_identity ?run ?hash) \<and>
      ad_report_hash (check_binding sample_attest_env sample_report_identity sample_report_identity ?run ?hash) = Some ?hash"
    by code_simp
  ultimately show ?thesis using resolve by auto
qed

lemma enforced_run_is_attested_witness:
  "\<exists>s :: policy_snapshot. pd_effective (ps_scope s) = ENFORCE \<and> attested sample_attest_env sample_attest_config (Identity_Dict sample_runtime) (ps_attestation s)"
proof -
  obtain d where d: "resolve_benchmark_attestation sample_attest_env sample_attest_config (Identity_Dict sample_runtime) = Inr d"
    "ad_can_enforce d" "ad_report_hash d = Some (replicate 64 98)"
    using sample_attested by blast
  let ?att = "\<lambda>i :: json. \<lparr>att_can_enforce = ad_can_enforce d, att_report_hash = ad_report_hash d\<rparr>"
  obtain s where s: "resolve_policy_snapshot constant_hash (\<lambda>q. []) sample_config ?att sample_repo JNull = Inr s"
    by (simp add: resolve_policy_snapshot_def resolve_policy_decision_def Let_def U_def)
  have "repo_name sample_repo = U ''o/r''" by (simp add: sample_repo_def repo_name_def)
  then have e: "pd_effective (ps_scope s) = ENFORCE"
    using d(2) unfolding resolved_snapshot(1)[OF s] decide_policy_enforces by (simp add: sample_config_def sample_repo_def)
  show ?thesis by (rule exI[of _ s], rule conjI[OF e enforced_run_is_attested[OF s disjI1[OF e] d(1) refl]])
qed

end
